(* ===== verification/Prelude.thy ===== *)
theory Prelude
  imports Main "HOL-Library.Word" "HOL-Library.Sublist"
begin

text \<open>
  Shared vocabulary of the development: the machine integers of the C++ code as words, the
  little-endian image that \<open>memcpy\<close> of a packed struct reads and writes, and decimal numbers
  as \<open>std::to_string\<close> prints them. Container sizes and offsets (\<open>std::size_t\<close>) are \<open>nat\<close>:
  every one of them is the length of a byte vector that exists in memory, so no \<open>size_t\<close>
  addition of the modelled code can reach \<open>2 ^ 64\<close>.
\<close>

unbundle bit_operations_syntax

named_theorems le_simps \<open>reading back the fields of a packed little-endian struct\<close>
named_theorems inv_intros \<open>preservation of component invariants\<close>

section \<open>Machine integers\<close>

type_synonym byte = "8 word"
type_synonym u16 = "16 word"
type_synonym u32 = "32 word"
type_synonym u64 = "64 word"
type_synonym bytes = "byte list"

section \<open>Little-endian images\<close>

text \<open>The \<open>n\<close> low bytes of an integer, least significant byte first.\<close>

primrec le_bytes :: "nat \<Rightarrow> 'a::len word \<Rightarrow> bytes" where
  "le_bytes 0 w = []"
| "le_bytes (Suc n) w = ucast w # le_bytes n (drop_bit 8 w)"

text \<open>The integer whose little-endian image a byte string is.\<close>

primrec le_word :: "bytes \<Rightarrow> 'a::len word" where
  "le_word [] = 0"
| "le_word (b # bs) = ucast b OR push_bit 8 (le_word bs)"

lemma length_le_bytes [simp]: "length (le_bytes n w) = n"
  by (induction n arbitrary: w) auto

lemma le_bytes_eq_Nil [simp]: "le_bytes n w = [] \<longleftrightarrow> n = 0"
  by (cases n) auto

lemma bit_le_word:
  "bit (le_word bs :: 'a::len word) i \<longleftrightarrow>
     i < LENGTH('a) \<and> i div 8 < length bs \<and> bit (bs ! (i div 8)) (i mod 8)"
proof (induction bs arbitrary: i)
  case Nil
  then show ?case by simp
next
  case (Cons b bs)
  show ?case
  proof (cases "i < 8")
    case True
    then show ?thesis
      by (auto simp: bit_or_iff bit_push_bit_iff bit_unsigned_iff)
  next
    case False
    then obtain j where j: "i = 8 + j" by (metis le_add_diff_inverse not_less)
    have "\<not> bit b i" using False by (auto dest: bit_imp_le_length)
    moreover have "(8 + j) div 8 = Suc (j div 8)" by simp
    ultimately show ?thesis
      by (simp add: j bit_or_iff bit_push_bit_iff bit_unsigned_iff Cons.IH) auto
  qed
qed

lemma nth_le_bytes: "k < n \<Longrightarrow> le_bytes n w ! k = ucast (drop_bit (8 * k) w)"
proof (induction n arbitrary: w k)
  case 0
  then show ?case by simp
next
  case (Suc n)
  then show ?case
    by (cases k) (auto simp: ac_simps)
qed

lemma le_word_le_bytes [simp]:
  "le_word (le_bytes n w) = (take_bit (8 * n) w :: 'a::len word)"
proof (rule bit_word_eqI)
  fix i
  assume "i < LENGTH('a)"
  have idx: "8 * (i div 8) + i mod 8 = i" by simp
  show "bit (le_word (le_bytes n w) :: 'a word) i = bit (take_bit (8 * n) w) i"
  proof (cases "i div 8 < n")
    case True
    then have "i < 8 * n" by arith
    with True \<open>i < LENGTH('a)\<close> show ?thesis
      by (simp add: bit_le_word nth_le_bytes bit_ucast_iff bit_drop_bit_eq idx bit_take_bit_iff)
  next
    case False
    then have "\<not> i < 8 * n" by arith
    with False show ?thesis
      by (simp add: bit_le_word bit_take_bit_iff)
  qed
qed

lemma le_word_le_bytes_full:
  "LENGTH('a) \<le> 8 * n \<Longrightarrow> le_word (le_bytes n w) = (w :: 'a::len word)"
  by (simp add: take_bit_word_eq_self)

lemma le_bytes_le_word:
  assumes "length bs = n" and "8 * n \<le> LENGTH('a)"
  shows "le_bytes n (le_word bs :: 'a::len word) = bs"
proof (rule nth_equalityI)
  show "length (le_bytes n (le_word bs :: 'a word)) = length bs" using assms by simp
next
  fix k
  assume "k < length (le_bytes n (le_word bs :: 'a word))"
  then have k: "k < n" by simp
  show "le_bytes n (le_word bs :: 'a word) ! k = bs ! k"
  proof (rule bit_word_eqI)
    fix i
    assume "i < LENGTH(8)"
    then have i: "i < 8" by simp
    have "8 * k + i < 8 * n" using k i by arith
    with assms have "8 * k + i < LENGTH('a)" by simp
    with i k assms show "bit (le_bytes n (le_word bs :: 'a word) ! k) i = bit (bs ! k) i"
      by (simp add: nth_le_bytes bit_ucast_iff bit_drop_bit_eq bit_le_word)
  qed
qed

lemma le_word_inj:
  assumes "length xs = length ys" and "8 * length xs \<le> LENGTH('a)"
    and "(le_word xs :: 'a::len word) = le_word ys"
  shows "xs = ys"
  using assms le_bytes_le_word [of xs "length xs", where ?'a = 'a]
    le_bytes_le_word [of ys "length xs", where ?'a = 'a] by simp

lemma unat_of_nat_small: "n < 2 ^ LENGTH('a) \<Longrightarrow> unat (of_nat n :: 'a::len word) = n"
  by (simp add: unat_of_nat take_bit_nat_eq_self)

text \<open>A field of \<open>n\<close> bytes at offset \<open>off\<close>, and its value.\<close>

definition slice :: "nat \<Rightarrow> nat \<Rightarrow> 'a list \<Rightarrow> 'a list" where
  "slice off n xs = take n (drop off xs)"

definition rd :: "nat \<Rightarrow> nat \<Rightarrow> bytes \<Rightarrow> 'a::len word" where
  "rd off n bs = le_word (slice off n bs)"

lemma length_slice [simp]: "length (slice off n xs) = min n (length xs - off)"
  by (simp add: slice_def)

lemma slice_append_left [le_simps]:
  "off + n \<le> length xs \<Longrightarrow> slice off n (xs @ ys) = slice off n xs"
  by (simp add: slice_def)

lemma slice_append_right [le_simps]:
  "length xs \<le> off \<Longrightarrow> slice off n (xs @ ys) = slice (off - length xs) n ys"
  by (simp add: slice_def)

lemma slice_all [le_simps]: "length xs = n \<Longrightarrow> slice 0 n xs = xs"
  by (simp add: slice_def)

lemma slice_slice: "a + n \<le> m \<Longrightarrow> slice a n (slice b m xs) = slice (b + a) n xs"
  by (simp add: slice_def drop_take min_def add.commute)

lemma slice_take: "a + n \<le> m \<Longrightarrow> slice a n (take m xs) = slice a n xs"
  by (simp add: slice_def drop_take min_def)

lemma slice_drop: "slice a n (drop m xs) = slice (m + a) n xs"
  by (simp add: slice_def add.commute)

lemma slice_join:
  "slice a m xs @ slice (a + m) n xs = slice a (m + n) xs"
  by (simp add: slice_def take_add add.commute)

lemma rd_take: "a + n \<le> m \<Longrightarrow> rd a n (take m xs) = rd a n xs"
  by (simp add: rd_def slice_take)

lemma rd_append: "a + n \<le> length xs \<Longrightarrow> rd a n (xs @ ys) = rd a n xs"
  by (simp add: rd_def slice_append_left)

lemma le_bytes_rd:
  "off + n \<le> length bs \<Longrightarrow> 8 * n \<le> LENGTH('a)
    \<Longrightarrow> le_bytes n (rd off n bs :: 'a::len word) = slice off n bs"
  by (simp add: rd_def le_bytes_le_word)

lemma rd_cong:
  "\<forall>i. off \<le> i \<and> i < off + n \<longrightarrow> xs ! i = ys ! i \<Longrightarrow> length xs = length ys
    \<Longrightarrow> rd off n xs = rd off n ys"
  unfolding rd_def slice_def
  by (rule arg_cong [where f = le_word], rule nth_equalityI) auto

section \<open>Decimal numbers\<close>

text \<open>The digits \<open>std::to_string\<close> prints for an unsigned number.\<close>

definition digit_char :: "nat \<Rightarrow> char" where
  "digit_char d = char_of (48 + d)"

fun dec :: "nat \<Rightarrow> string" where
  "dec n = (if n < 10 then [digit_char n] else dec (n div 10) @ [digit_char (n mod 10)])"

declare dec.simps [simp del]

definition is_digit :: "char \<Rightarrow> bool" where
  "is_digit c \<longleftrightarrow> 48 \<le> (of_char c :: nat) \<and> (of_char c :: nat) \<le> 57"

definition digit_val :: "char \<Rightarrow> nat" where
  "digit_val c = of_char c - 48"

text \<open>The value of a digit string, as \<open>std::stoll\<close> accumulates it.\<close>

definition digits_val :: "string \<Rightarrow> nat" where
  "digits_val s = foldl (\<lambda>n c. 10 * n + digit_val c) 0 s"

lemma of_char_digit_char: "d < 10 \<Longrightarrow> (of_char (digit_char d) :: nat) = 48 + d"
  by (simp add: digit_char_def)

lemma is_digit_digit_char [simp]: "d < 10 \<Longrightarrow> is_digit (digit_char d)"
  by (simp add: is_digit_def of_char_digit_char)

lemma digit_val_digit_char [simp]: "d < 10 \<Longrightarrow> digit_val (digit_char d) = d"
  by (simp add: digit_val_def of_char_digit_char)

lemma dec_nonempty [simp]: "dec n \<noteq> []"
  by (subst dec.simps) simp

lemma dec_digits: "c \<in> set (dec n) \<Longrightarrow> is_digit c"
proof (induction n rule: dec.induct)
  case (1 n)
  then show ?case
    by (subst (asm) (2) dec.simps) (auto split: if_splits)
qed

lemma digits_val_append_digit: "digits_val (s @ [c]) = 10 * digits_val s + digit_val c"
  by (simp add: digits_val_def)

lemma digits_val_dec [simp]: "digits_val (dec n) = n"
proof (induction n rule: dec.induct)
  case (1 n)
  show ?case
  proof (cases "n < 10")
    case True
    then show ?thesis by (subst dec.simps) (simp add: digits_val_def)
  next
    case False
    with 1 have "digits_val (dec (n div 10)) = n div 10" by simp
    with False show ?thesis by (subst dec.simps) (simp add: digits_val_append_digit)
  qed
qed

lemma dec_eq_iff: "dec m = dec n \<longleftrightarrow> m = n"
  by (metis digits_val_dec)

lemma hd_dec_digit: "is_digit (hd (dec n))"
  by (rule dec_digits [of _ n]) simp

definition dec_int :: "int \<Rightarrow> string" where
  "dec_int i = (if i < 0 then ''-'' @ dec (nat (- i)) else dec (nat i))"

section \<open>Errors as values\<close>

text \<open>Sequencing of operations that throw: \<open>Inl\<close> is the exception.\<close>

definition sum_bind :: "'e + 'a \<Rightarrow> ('a \<Rightarrow> 'e + 'b) \<Rightarrow> 'e + 'b" where
  "sum_bind x f = (case x of Inl e \<Rightarrow> Inl e | Inr a \<Rightarrow> f a)"

lemma sum_bind_simps [simp]:
  "sum_bind (Inl e) f = Inl e" "sum_bind (Inr a) f = f a"
  by (simp_all add: sum_bind_def)

lemma sum_bind_Inr_iff: "sum_bind x f = Inr b \<longleftrightarrow> (\<exists>a. x = Inr a \<and> f a = Inr b)"
  by (cases x) auto

section \<open>The interface of an encoding\<close>

text \<open>What every user of an encoded form relies on: decoding recovers what was encoded, and accepts
  nothing else. \<open>ok\<close> are the values that have an encoding.\<close>

locale codec =
  fixes enc :: "'a \<Rightarrow> 'b list"
    and dec :: "'b list \<Rightarrow> 'a option"
    and ok :: "'a \<Rightarrow> bool"
  assumes dec_enc: "ok x \<Longrightarrow> dec (enc x) = Some x"
    and enc_dec: "dec bs = Some x \<Longrightarrow> ok x \<and> enc x = bs"
begin

lemma dec_iff: "dec bs = Some x \<longleftrightarrow> ok x \<and> bs = enc x"
  using dec_enc enc_dec by blast

lemma enc_inj: "ok x \<Longrightarrow> ok y \<Longrightarrow> enc x = enc y \<longleftrightarrow> x = y"
  by (metis dec_enc option.inject)

lemma dec_inj: "dec bs = Some x \<Longrightarrow> dec cs = Some x \<Longrightarrow> bs = cs"
  using enc_dec by blast

end

section \<open>C++ strings\<close>

definition is_space :: "char \<Rightarrow> bool" where
  "is_space c \<longleftrightarrow> (let n = (of_char c :: nat) in n = 32 \<or> 9 \<le> n \<and> n \<le> 13)"

definition trim :: "string \<Rightarrow> string" where
  "trim s = rev (dropWhile is_space (rev (dropWhile is_space s)))"

text \<open>\<open>find(c)\<close> and the two parts it separates.\<close>

definition before_char :: "char \<Rightarrow> string \<Rightarrow> string" where
  "before_char c s = takeWhile (\<lambda>d. d \<noteq> c) s"

definition after_char :: "char \<Rightarrow> string \<Rightarrow> string option" where
  "after_char c s = (case dropWhile (\<lambda>d. d \<noteq> c) s of [] \<Rightarrow> None | _ # rest \<Rightarrow> Some rest)"

lemma after_char_length: "after_char c s = Some rest \<Longrightarrow> length rest < length s"
  using length_dropWhile_le [of "\<lambda>d. d \<noteq> c" s]
  by (cases "dropWhile (\<lambda>d. d \<noteq> c) s") (simp_all add: after_char_def)

text \<open>The lines a \<open>std::getline\<close> loop delivers: split at newlines, no line after a final newline.\<close>

function getlines :: "string \<Rightarrow> string list" where
  "getlines s =
     (if s = [] then []
      else before_char (CHR 0x0A) s #
        (case after_char (CHR 0x0A) s of None \<Rightarrow> [] | Some rest \<Rightarrow> getlines rest))"
  by pat_completeness auto
termination
  by (relation "measure length") (auto dest: after_char_length)

text \<open>\<open>std::stoul\<close> and \<open>std::stoull\<close> on a 64-bit \<open>unsigned long\<close>: leading white space and a sign are
  allowed, the text after the digits is ignored, a minus sign negates modulo \<open>2 ^ 64\<close>.\<close>

definition stoul :: "string \<Rightarrow> string + u64" where
  "stoul v =
     (let s = dropWhile is_space v;
          neg = (s \<noteq> [] \<and> hd s = CHR ''-'');
          s' = (if s \<noteq> [] \<and> (hd s = CHR ''-'' \<or> hd s = CHR ''+'') then tl s else s);
          ds = takeWhile is_digit s'
      in if ds = [] then Inl ''invalid_argument''
         else if digits_val ds \<ge> 2 ^ 64 then Inl ''out_of_range''
         else Inr (if neg then - of_nat (digits_val ds) else of_nat (digits_val ds)))"

text \<open>Text and the bytes of a file.\<close>

definition text_bytes :: "string \<Rightarrow> bytes" where
  "text_bytes s = map (\<lambda>c. of_nat (of_char c)) s"

definition bytes_text :: "bytes \<Rightarrow> string" where
  "bytes_text bs = map (\<lambda>b. char_of (unat b)) bs"

lemma bytes_text_bytes [simp]: "bytes_text (text_bytes s) = s"
proof -
  have "char_of (unat (of_nat (of_char c) :: byte)) = c" for c :: char
    using nat_of_char_less_256 [of c] by (simp add: unat_of_nat_small)
  then show ?thesis by (simp add: bytes_text_def text_bytes_def o_def)
qed

lemma text_bytes_append [simp]: "text_bytes (s @ t) = text_bytes s @ text_bytes t"
  by (simp add: text_bytes_def)

lemma bytes_text_append [simp]: "bytes_text (s @ t) = bytes_text s @ bytes_text t"
  by (simp add: bytes_text_def)

lemma text_bytes_Nil [simp]: "text_bytes [] = []"
  by (simp add: text_bytes_def)

declare getlines.simps [simp del]

lemma getlines_Nil [simp]: "getlines [] = []"
  by (simp add: getlines.simps)

lemma before_char_append:
  "c \<notin> set l \<Longrightarrow> before_char c (l @ c # rest) = l"
  by (induction l) (auto simp: before_char_def)

lemma after_char_append:
  "c \<notin> set l \<Longrightarrow> after_char c (l @ c # rest) = Some rest"
  by (induction l) (auto simp: after_char_def)

lemma getlines_line:
  "CHR 0x0A \<notin> set l \<Longrightarrow> getlines (l @ CHR 0x0A # rest) = l # getlines rest"
  by (subst getlines.simps) (simp add: before_char_append after_char_append)

lemma getlines_lines:
  "\<forall>l \<in> set ls. CHR 0x0A \<notin> set l \<Longrightarrow>
     getlines (concat (map (\<lambda>l. l @ [CHR 0x0A]) ls) @ rest) = ls @ getlines rest"
  by (induction ls) (auto simp: getlines_line)

end
