(* ===== verification/Crc.thy ===== *)
theory Crc
  imports Prelude
begin

text \<open>
  The three CRC-32 routines of the repository: \<open>ego_contract::Crc32\<close> (branch-free inner loop),
  \<open>ego::protocol::Crc32\<close> (branching inner loop) and \<open>ego_offline::crc32\<close> (table driven). The
  sender, the recorder and the offline pipeline each use a different one, so the frames of one are
  only readable by the others because the three compute the same function; that, and the errors the
  checksum is guaranteed to catch, is proved here.
\<close>

section \<open>The routines\<close>

text \<open>One inner step of \<open>ego_contract::Crc32\<close>: the mask is all ones when the low bit is set.\<close>

definition contract_crc_step :: "u32 \<Rightarrow> u32" where
  "contract_crc_step crc =
     (let mask = 0 - (crc AND 1) in drop_bit 1 crc XOR (0xEDB88320 AND mask))"

definition contract_crc32 :: "bytes \<Rightarrow> u32" where
  "contract_crc32 data =
     NOT (foldl (\<lambda>crc b. (contract_crc_step ^^ 8) (crc XOR ucast b)) 0xFFFFFFFF data)"

text \<open>One inner step of \<open>ego::protocol::Crc32\<close>.\<close>

definition protocol_crc_step :: "u32 \<Rightarrow> u32" where
  "protocol_crc_step crc =
     (let b = (crc AND 1 \<noteq> 0); crc' = drop_bit 1 crc
      in if b then crc' XOR 0xEDB88320 else crc')"

definition protocol_crc32 :: "bytes \<Rightarrow> u32" where
  "protocol_crc32 data =
     NOT (foldl (\<lambda>crc b. (protocol_crc_step ^^ 8) (crc XOR ucast b)) 0xFFFFFFFF data)"

text \<open>The table of \<open>ego_offline::detail::crc32_table\<close> and the loop that uses it.\<close>

definition table_step :: "u32 \<Rightarrow> u32" where
  "table_step v = (if v AND 1 \<noteq> 0 then 0xEDB88320 XOR drop_bit 1 v else drop_bit 1 v)"

definition crc32_table :: "u32 list" where
  "crc32_table = map (\<lambda>i. (table_step ^^ 8) (of_nat i)) [0..<256]"

definition offline_crc32 :: "bytes \<Rightarrow> u32" where
  "offline_crc32 data =
     foldl (\<lambda>val b. crc32_table ! unat ((val XOR ucast b) AND 0xFF) XOR drop_bit 8 val)
       0xFFFFFFFF data XOR 0xFFFFFFFF"

section \<open>The three inner steps are one\<close>

lemma and_1_cases: "(w :: u32) AND 1 = 0 \<or> w AND 1 = 1"
  by (simp add: and_one_eq mod2_eq_if)

lemma and_1_odd: "((w :: u32) AND 1 \<noteq> 0) = bit w 0"
  by (simp add: and_one_eq bit_0 mod2_eq_if)

lemma protocol_step_eq: "protocol_crc_step = table_step"
  by (rule ext) (simp add: protocol_crc_step_def table_step_def Let_def xor.commute)

lemma contract_step_eq: "contract_crc_step = table_step"
proof (rule ext)
  fix w :: u32
  from and_1_cases [of w] show "contract_crc_step w = table_step w"
    by (auto simp: contract_crc_step_def table_step_def xor.commute)
qed

section \<open>Algebra of the inner step\<close>

lemma bit_table_step:
  "bit (table_step w) i \<longleftrightarrow> (bit w (Suc i) \<noteq> (bit w 0 \<and> bit (0xEDB88320 :: u32) i))"
  unfolding table_step_def and_1_odd
  by (auto simp: bit_xor_iff bit_drop_bit_eq)

lemma table_step_xor: "table_step (a XOR b) = table_step a XOR table_step b"
  by (rule bit_word_eqI) (auto simp: bit_table_step bit_xor_iff)

lemma table_steps_xor: "(table_step ^^ n) (a XOR b) = (table_step ^^ n) a XOR (table_step ^^ n) b"
  by (induction n arbitrary: a b) (auto simp: table_step_xor)

text \<open>The low bit can be read back from the top bit of the result, so no step loses information.\<close>

lemma bit_31_table_step: "bit (table_step w) 31 = bit w 0"
proof -
  have "\<not> bit w (Suc 31)" using bit_imp_le_length [of w "Suc 31"] by auto
  moreover have "bit (0xEDB88320 :: u32) 31" by (simp add: bit_iff_odd_drop_bit)
  ultimately show ?thesis by (simp add: bit_table_step)
qed

lemma table_step_inj: "table_step a = table_step b \<Longrightarrow> a = b"
proof (rule bit_word_eqI)
  fix i
  assume eq: "table_step a = table_step b"
  have 0: "bit a 0 = bit b 0" using eq bit_31_table_step [of a] bit_31_table_step [of b] by simp
  show "bit a i = bit b i"
  proof (cases i)
    case 0
    then show ?thesis using \<open>bit a 0 = bit b 0\<close> by simp
  next
    case (Suc j)
    have "bit (table_step a) j = bit (table_step b) j" using eq by simp
    with 0 Suc show ?thesis by (auto simp: bit_table_step)
  qed
qed

lemma table_steps_inj: "(table_step ^^ n) a = (table_step ^^ n) b \<Longrightarrow> a = b"
  by (induction n) (auto dest: table_step_inj)

text \<open>Eight steps on a word whose low byte is zero are a plain shift.\<close>

lemma table_step_shift: "\<not> bit w 0 \<Longrightarrow> table_step w = drop_bit 1 w"
  by (simp add: table_step_def and_1_odd)

lemma table_steps_shift:
  "(\<forall>i < n. \<not> bit w i) \<Longrightarrow> (table_step ^^ n) w = drop_bit n w"
proof (induction n arbitrary: w)
  case 0
  then show ?case by simp
next
  case (Suc n)
  then have "(table_step ^^ Suc n) w = (table_step ^^ n) (drop_bit 1 w)"
    by (simp only: funpow_Suc_right comp_apply) (simp add: table_step_shift)
  also have "\<dots> = drop_bit n (drop_bit 1 w)"
    using Suc.prems by (intro Suc.IH) (auto simp: bit_drop_bit_eq)
  finally show ?case by simp
qed

lemma split_low_byte: "(w :: u32) = (w AND 0xFF) XOR push_bit 8 (drop_bit 8 w)"
proof (rule bit_word_eqI)
  fix i
  assume "i < LENGTH(32)"
  have m: "(0xFF :: u32) = mask 8" by (simp add: mask_eq_exp_minus_1)
  show "bit w i = bit ((w AND 0xFF) XOR push_bit 8 (drop_bit 8 w)) i"
    using \<open>i < LENGTH(32)\<close>
    by (auto simp: m bit_xor_iff bit_and_iff bit_mask_iff bit_push_bit_iff bit_drop_bit_eq)
qed

lemma table_steps_8:
  "(table_step ^^ 8) w = (table_step ^^ 8) (w AND 0xFF) XOR drop_bit 8 w"
proof -
  have "(table_step ^^ 8) (push_bit 8 (drop_bit 8 w)) = drop_bit 8 (push_bit 8 (drop_bit 8 w))"
    by (rule table_steps_shift) (simp add: bit_push_bit_iff)
  also have "\<dots> = drop_bit 8 w"
    by (rule bit_word_eqI)
      (auto simp: bit_drop_bit_eq bit_push_bit_iff dest: bit_imp_le_length)
  finally show ?thesis
    by (subst split_low_byte [of w]) (simp only: table_steps_xor)
qed

lemma unat_and_FF: "unat ((w :: u32) AND 0xFF) < 256"
proof -
  have "w AND 0xFF \<le> 0xFF" by (rule word_and_le1)
  then show ?thesis by (simp add: word_le_nat_alt)
qed

lemma crc32_table_nth:
  "crc32_table ! unat ((w :: u32) AND 0xFF) = (table_step ^^ 8) (w AND 0xFF)"
  using unat_and_FF [of w] by (simp add: crc32_table_def)

lemma drop_bit_8_xor_byte: "drop_bit 8 (v XOR ucast (b :: byte)) = drop_bit 8 (v :: u32)"
  by (rule bit_word_eqI)
    (auto simp: bit_drop_bit_eq bit_xor_iff bit_ucast_iff dest: bit_imp_le_length)

section \<open>The checksum as one fold\<close>

definition crc_upd :: "u32 \<Rightarrow> byte \<Rightarrow> u32" where
  "crc_upd crc b = (table_step ^^ 8) (crc XOR ucast b)"

definition crc_from :: "u32 \<Rightarrow> bytes \<Rightarrow> u32" where
  "crc_from = foldl crc_upd"

lemma crc_from_simps [simp]:
  "crc_from s [] = s" "crc_from s (b # bs) = crc_from (crc_upd s b) bs"
  by (simp_all add: crc_from_def)

lemma crc_from_append [simp]: "crc_from s (xs @ ys) = crc_from (crc_from s xs) ys"
  by (simp add: crc_from_def)

lemma contract_crc32_from: "contract_crc32 data = NOT (crc_from 0xFFFFFFFF data)"
  by (simp add: contract_crc32_def contract_step_eq crc_from_def crc_upd_def [abs_def])

lemma protocol_crc32_from: "protocol_crc32 data = NOT (crc_from 0xFFFFFFFF data)"
  by (simp add: protocol_crc32_def protocol_step_eq crc_from_def crc_upd_def [abs_def])

lemma table_lookup_upd:
  "crc32_table ! unat ((val XOR ucast b) AND 0xFF) XOR drop_bit 8 val = crc_upd val (b :: byte)"
  unfolding crc_upd_def crc32_table_nth
  by (subst (2) table_steps_8) (simp only: drop_bit_8_xor_byte)

lemma xor_all_ones: "(w :: u32) XOR 0xFFFFFFFF = NOT w"
proof -
  have "(0xFFFFFFFF :: u32) = - 1" by simp
  then show ?thesis by (simp only:) (rule bit_word_eqI, simp add: bit_xor_iff bit_not_iff)
qed

lemma offline_crc32_from: "offline_crc32 data = NOT (crc_from 0xFFFFFFFF data)"
  unfolding offline_crc32_def table_lookup_upd xor_all_ones crc_from_def by simp

lemmas crc_froms = contract_crc32_from protocol_crc32_from offline_crc32_from

text \<open>The three CRC-32 routines of the repository agree on every input: the branch-free
  loop of the sender's contract header, the branching loop of the legacy protocol and the
  table-driven loop of the offline pipeline compute the same checksum, so a frame sealed with one
  is accepted by the others.\<close>

theorem crc32_implementations_agree:
  "protocol_crc32 data = contract_crc32 data \<and> offline_crc32 data = contract_crc32 data"
  by (simp add: crc_froms)

section \<open>Errors the checksum always catches\<close>

lemma xor_cancel_right: "(a :: u32) XOR c = b XOR c \<Longrightarrow> a = b"
  by (auto simp: bit_eq_iff bit_xor_iff)

lemma xor_cancel_left: "(c :: u32) XOR a = c XOR b \<Longrightarrow> a = b"
  by (auto simp: bit_eq_iff bit_xor_iff)

lemma crc_upd_inj_state: "crc_upd s b = crc_upd t b \<Longrightarrow> s = t"
proof -
  assume "crc_upd s b = crc_upd t b"
  then have "s XOR ucast b = t XOR ucast b"
    unfolding crc_upd_def by (rule table_steps_inj)
  then show ?thesis by (rule xor_cancel_right)
qed

lemma crc_from_inj_state: "crc_from s bs = crc_from t bs \<Longrightarrow> s = t"
  by (induction bs arbitrary: s t) (auto dest: crc_upd_inj_state)

text \<open>Up to four consecutive bytes enter the register as one word: the register after them is a
  fixed injective function of the register before, xor-ed with the word they spell.\<close>

lemma table_steps_8_short:
  assumes "length bs \<le> 3"
  shows "(table_step ^^ 8) (push_bit 8 (le_word bs)) = le_word bs"
proof -
  have "(table_step ^^ 8) (push_bit 8 (le_word bs)) = drop_bit 8 (push_bit 8 (le_word bs))"
    by (rule table_steps_shift) (simp add: bit_push_bit_iff)
  also have "\<dots> = le_word bs"
    using assms
    by (intro bit_word_eqI) (auto simp: bit_drop_bit_eq bit_push_bit_iff bit_le_word)
  finally show ?thesis .
qed

lemma le_word_Cons_xor: "le_word (b # bs) = ucast b XOR push_bit 8 (le_word bs)"
  by (rule bit_word_eqI)
    (auto simp: bit_or_iff bit_xor_iff bit_push_bit_iff bit_ucast_iff dest: bit_imp_le_length)

lemma crc_from_burst:
  "length bs \<le> 4 \<Longrightarrow> crc_from s bs = (table_step ^^ (8 * length bs)) (s XOR le_word bs)"
proof (induction bs arbitrary: s)
  case Nil
  then show ?case by simp
next
  case (Cons b bs)
  then have len: "length bs \<le> 3" by simp
  let ?w = "le_word bs :: u32"
  have "crc_from s (b # bs) = (table_step ^^ (8 * length bs)) (crc_upd s b XOR ?w)"
    using Cons by simp
  also have "crc_upd s b XOR ?w = (table_step ^^ 8) ((s XOR ucast b) XOR push_bit 8 ?w)"
    unfolding table_steps_xor table_steps_8_short [OF len] crc_upd_def by (simp only: xor.assoc)
  also have "(s XOR ucast b) XOR push_bit 8 ?w = s XOR le_word (b # bs)"
    by (simp only: le_word_Cons_xor xor.assoc)
  also have "(table_step ^^ (8 * length bs)) ((table_step ^^ 8) (s XOR le_word (b # bs)))
      = (table_step ^^ (8 * length (b # bs))) (s XOR le_word (b # bs))"
    by (simp only: comp_apply [symmetric, of "table_step ^^ (8 * length bs)"] funpow_add [symmetric])
      (simp add: add.commute)
  finally show ?case .
qed

lemma crc_from_burst_inj:
  assumes "crc_from s xs = crc_from s ys" and "length xs = length ys" and "length xs \<le> 4"
  shows "xs = ys"
proof -
  have "(table_step ^^ (8 * length xs)) (s XOR le_word xs)
      = (table_step ^^ (8 * length xs)) (s XOR le_word ys)"
    using assms by (simp add: crc_from_burst)
  then have "s XOR le_word xs = s XOR le_word ys" by (rule table_steps_inj)
  then have "(le_word xs :: u32) = le_word ys" by (rule xor_cancel_left)
  then show ?thesis using assms by (intro le_word_inj) auto
qed

lemma crc32_burst_neq:
  assumes "length xs = length ys" and "length xs \<le> 4" and "xs \<noteq> ys"
  shows "contract_crc32 (pre @ xs @ post) \<noteq> contract_crc32 (pre @ ys @ post)"
proof
  assume "contract_crc32 (pre @ xs @ post) = contract_crc32 (pre @ ys @ post)"
  then have "crc_from (crc_from 0xFFFFFFFF pre) xs = crc_from (crc_from 0xFFFFFFFF pre) ys"
    by (auto simp: contract_crc32_from dest: crc_from_inj_state)
  from crc_from_burst_inj [OF this assms(1,2)] assms(3) show False by simp
qed

text \<open>C35: Every corruption confined to four consecutive bytes changes the checksum: with the same
  bytes before and after, two different windows of at most four bytes never have equal CRC-32, so
  no such damage to a stored or transmitted payload passes the comparison with the header.\<close>

theorem crc32_detects_bursts:
  assumes "length xs = length ys" and "length xs \<le> 4" and "xs \<noteq> ys"
  shows "contract_crc32 (pre @ xs @ post) \<noteq> contract_crc32 (pre @ ys @ post)"
  using assms by (rule crc32_burst_neq)

theorem crc32_detects_bursts_witness:
  "contract_crc32 ([7] @ [1, 2, 3, 4] @ [9]) \<noteq> contract_crc32 ([7] @ [1, 2, 3, 5] @ [9])"
  by (rule crc32_detects_bursts) simp_all

lemma contract_crc32_Nil [simp]: "contract_crc32 [] = 0"
  by (simp add: contract_crc32_def)

end
