(* ===== verification/EgoProtocol.thy ===== *)
theory EgoProtocol
  imports Crc
begin

text \<open>
  The ego-contract v1 wire format, from \<open>common/ego_v1/ego_protocol_packets.hpp\<close>: the frame
  types, the packed 72-byte frame header and its image in memory, and the layouts of the packed
  payload structs. Floating-point fields are kept as their IEEE-754 bit patterns.
\<close>

section \<open>Constants and enumerations\<close>

definition EGO_FRAME_MAGIC :: u32 where "EGO_FRAME_MAGIC = 0x314F4745"
definition EGO_PROTOCOL_VERSION :: u16 where "EGO_PROTOCOL_VERSION = 2"
definition EGO_FRAME_HEADER_SIZE :: u16 where "EGO_FRAME_HEADER_SIZE = 72"

datatype frame_payload_type =
  UNSPECIFIED | SESSION_STARTED | CONFIG_SNAPSHOT
| AUDIO_BLOCK | IMU_WINDOW | CAN_DECODED_VALUE | CAN_RAW_FRAME | TRAJECTORY_POINT | GPS_FIX
| TIME_STATUS | SYSTEM_STATUS | IMU_CALIBRATION_EVENT | MARKER_EVENT
| SESSION_ENDED

primrec type_to_u32 :: "frame_payload_type \<Rightarrow> u32" where
  "type_to_u32 UNSPECIFIED = 0"
| "type_to_u32 SESSION_STARTED = 1"
| "type_to_u32 CONFIG_SNAPSHOT = 2"
| "type_to_u32 AUDIO_BLOCK = 100"
| "type_to_u32 IMU_WINDOW = 101"
| "type_to_u32 CAN_DECODED_VALUE = 102"
| "type_to_u32 CAN_RAW_FRAME = 103"
| "type_to_u32 TRAJECTORY_POINT = 104"
| "type_to_u32 GPS_FIX = 105"
| "type_to_u32 TIME_STATUS = 200"
| "type_to_u32 SYSTEM_STATUS = 201"
| "type_to_u32 IMU_CALIBRATION_EVENT = 202"
| "type_to_u32 MARKER_EVENT = 203"
| "type_to_u32 SESSION_ENDED = 900"

datatype frame_flag =
  FLAG_NONE | PAYLOAD_PROTOBUF | PAYLOAD_BINARY | PAYLOAD_COMPRESSED | PAYLOAD_KEYFRAME

primrec flag_to_u32 :: "frame_flag \<Rightarrow> u32" where
  "flag_to_u32 FLAG_NONE = 0"
| "flag_to_u32 PAYLOAD_PROTOBUF = push_bit 0 1"
| "flag_to_u32 PAYLOAD_BINARY = push_bit 1 1"
| "flag_to_u32 PAYLOAD_COMPRESSED = push_bit 2 1"
| "flag_to_u32 PAYLOAD_KEYFRAME = push_bit 3 1"

section \<open>The frame header\<close>

record ego_frame_header =
  eh_magic :: u32
  eh_protocol_ver :: u16
  eh_header_size :: u16
  eh_frame_type :: u32
  eh_flags :: u32
  eh_session_id_hi :: u64
  eh_session_id_lo :: u64
  eh_seq :: u64
  eh_t0_ns :: u64
  eh_t1_ns :: u64
  eh_payload_size :: u32
  eh_payload_crc32 :: u32
  eh_header_crc32 :: u32
  eh_reserved0 :: u32

text \<open>The object representation of the packed struct, which \<open>memcpy\<close> and \<open>Crc32\<close> see.\<close>

definition header_bytes :: "ego_frame_header \<Rightarrow> bytes" where
  "header_bytes h =
     le_bytes 4 (eh_magic h) @ le_bytes 2 (eh_protocol_ver h) @ le_bytes 2 (eh_header_size h) @
     le_bytes 4 (eh_frame_type h) @ le_bytes 4 (eh_flags h) @
     le_bytes 8 (eh_session_id_hi h) @ le_bytes 8 (eh_session_id_lo h) @
     le_bytes 8 (eh_seq h) @ le_bytes 8 (eh_t0_ns h) @ le_bytes 8 (eh_t1_ns h) @
     le_bytes 4 (eh_payload_size h) @ le_bytes 4 (eh_payload_crc32 h) @
     le_bytes 4 (eh_header_crc32 h) @ le_bytes 4 (eh_reserved0 h)"

text \<open>\<open>memcpy(&header, data, sizeof(header))\<close>: the callers check the length first.\<close>

definition header_of_bytes :: "bytes \<Rightarrow> ego_frame_header" where
  "header_of_bytes bs =
     \<lparr> eh_magic = rd 0 4 bs, eh_protocol_ver = rd 4 2 bs, eh_header_size = rd 6 2 bs,
       eh_frame_type = rd 8 4 bs, eh_flags = rd 12 4 bs,
       eh_session_id_hi = rd 16 8 bs, eh_session_id_lo = rd 24 8 bs,
       eh_seq = rd 32 8 bs, eh_t0_ns = rd 40 8 bs, eh_t1_ns = rd 48 8 bs,
       eh_payload_size = rd 56 4 bs, eh_payload_crc32 = rd 60 4 bs,
       eh_header_crc32 = rd 64 4 bs, eh_reserved0 = rd 68 4 bs \<rparr>"

definition make_frame_header ::
  "frame_payload_type \<Rightarrow> u32 \<Rightarrow> u64 \<Rightarrow> u64 \<Rightarrow> u64 \<Rightarrow> u64 \<Rightarrow> u64 \<Rightarrow> u32 \<Rightarrow> u32 \<Rightarrow> ego_frame_header"
where
  "make_frame_header type flags session_id_hi session_id_lo seq t0_ns t1_ns payload_size
       payload_crc32 =
     \<lparr> eh_magic = EGO_FRAME_MAGIC, eh_protocol_ver = EGO_PROTOCOL_VERSION,
       eh_header_size = EGO_FRAME_HEADER_SIZE,
       eh_frame_type = type_to_u32 type, eh_flags = flags,
       eh_session_id_hi = session_id_hi, eh_session_id_lo = session_id_lo,
       eh_seq = seq, eh_t0_ns = t0_ns, eh_t1_ns = t1_ns,
       eh_payload_size = payload_size, eh_payload_crc32 = payload_crc32,
       eh_header_crc32 = 0, eh_reserved0 = 0 \<rparr>"

lemma length_header_bytes [simp]: "length (header_bytes h) = 72"
  by (simp add: header_bytes_def)

lemma header_of_header_bytes [simp]: "header_of_bytes (header_bytes h @ rest) = h"
  by (cases h)
    (simp add: header_of_bytes_def header_bytes_def rd_def le_simps take_bit_word_eq_self)

lemma header_of_header_bytes_nil [simp]: "header_of_bytes (header_bytes h) = h"
  using header_of_header_bytes [of h "[]"] by simp

lemma header_of_bytes_take: "72 \<le> n \<Longrightarrow> header_of_bytes (take n bs) = header_of_bytes bs"
  by (simp add: header_of_bytes_def rd_take)

lemma header_of_bytes_append:
  "72 \<le> length xs \<Longrightarrow> header_of_bytes (xs @ ys) = header_of_bytes xs"
  by (simp add: header_of_bytes_def rd_append)

lemma header_bytes_of_bytes:
  assumes "72 \<le> length bs"
  shows "header_bytes (header_of_bytes bs) = take 72 bs"
proof -
  have "header_bytes (header_of_bytes bs) = slice 0 72 bs"
    using assms slice_join [where a = 0 and m = 4 and n = 68 and xs = bs]
      slice_join [where a = 4 and m = 2 and n = 66 and xs = bs]
      slice_join [where a = 6 and m = 2 and n = 64 and xs = bs]
      slice_join [where a = 8 and m = 4 and n = 60 and xs = bs]
      slice_join [where a = 12 and m = 4 and n = 56 and xs = bs]
      slice_join [where a = 16 and m = 8 and n = 48 and xs = bs]
      slice_join [where a = 24 and m = 8 and n = 40 and xs = bs]
      slice_join [where a = 32 and m = 8 and n = 32 and xs = bs]
      slice_join [where a = 40 and m = 8 and n = 24 and xs = bs]
      slice_join [where a = 48 and m = 8 and n = 16 and xs = bs]
      slice_join [where a = 56 and m = 4 and n = 12 and xs = bs]
      slice_join [where a = 60 and m = 4 and n = 8 and xs = bs]
      slice_join [where a = 64 and m = 4 and n = 4 and xs = bs]
    by (simp add: header_bytes_def header_of_bytes_def le_bytes_rd)
  then show ?thesis by (simp add: slice_def)
qed

text \<open>The packed frame header round-trips: decoding the 72 bytes of an encoded header, whatever
  follows them, gives the header back, and encoding a decoded buffer gives its first 72 bytes back,
  so the receiver's \<open>memcpy\<close> loses nothing and no two headers share an image.\<close>

theorem frame_header_roundtrip:
  "header_of_bytes (header_bytes h @ rest) = h \<and>
   (length bs \<ge> 72 \<longrightarrow> header_bytes (header_of_bytes bs) = take 72 bs)"
  by (simp add: header_bytes_of_bytes)

theorem frame_header_roundtrip_witness:
  "header_bytes (header_of_bytes (replicate 80 7)) = take 72 (replicate 80 7)"
  using frame_header_roundtrip [of undefined "[]" "replicate 80 7"] by simp

text \<open>Clearing the checksum field, as both checksum computations of the header do, zeroes bytes
  64 to 67 of the image and leaves the others.\<close>

lemma header_bytes_zero_crc:
  assumes "72 \<le> length bs"
  shows "header_bytes (header_of_bytes bs\<lparr>eh_header_crc32 := 0\<rparr>)
    = take 64 bs @ [0, 0, 0, 0] @ slice 68 4 bs"
proof -
  let ?h = "header_of_bytes bs"
  have split: "header_bytes h = take 64 (header_bytes h) @ le_bytes 4 (eh_header_crc32 h)
      @ le_bytes 4 (eh_reserved0 h)" for h
    by (simp add: header_bytes_def)
  have z: "le_bytes 4 (0 :: u32) = [0, 0, 0, 0]" by (simp add: numeral_eq_Suc)
  have t: "take 64 (header_bytes (?h\<lparr>eh_header_crc32 := 0\<rparr>)) = take 64 (header_bytes ?h)"
    by (simp add: header_bytes_def)
  have r: "le_bytes 4 (eh_reserved0 ?h) = slice 68 4 bs"
    using assms by (simp add: header_of_bytes_def le_bytes_rd)
  show ?thesis
    by (subst split) (simp add: t z r header_bytes_of_bytes [OF assms])
qed

section \<open>Layouts of the packed payload structs\<close>

datatype prim_type = U8 | U16 | U32 | U64 | I64 | F32 | F64 | U8_array nat

primrec prim_size :: "prim_type \<Rightarrow> nat" where
  "prim_size U8 = 1"
| "prim_size U16 = 2"
| "prim_size U32 = 4"
| "prim_size U64 = 8"
| "prim_size I64 = 8"
| "prim_size F32 = 4"
| "prim_size F64 = 8"
| "prim_size (U8_array n) = n"

type_synonym layout = "(string \<times> prim_type) list"

definition layout_size :: "layout \<Rightarrow> nat" where
  "layout_size l = sum_list (map (prim_size \<circ> snd) l)"

text \<open>Offset of a named field: the sizes of the fields before it (the structs are packed).\<close>

fun field_offset :: "layout \<Rightarrow> string \<Rightarrow> nat option" where
  "field_offset [] n = None"
| "field_offset ((m, t) # l) n =
     (if m = n then Some 0 else map_option ((+) (prim_size t)) (field_offset l n))"

definition audio_block_binary_header :: layout where
  "audio_block_binary_header =
    [(''audio_block_id'', U64), (''t0_ns'', U64), (''t1_ns'', U64),
     (''sample_rate_hz'', U32), (''channels_count'', U16), (''bytes_per_sample'', U16),
     (''frames_count'', U32), (''layout'', U32), (''data_size'', U32), (''reserved0'', U32)]"

definition imu_window_packet :: layout where
  "imu_window_packet =
    [(''window_id'', U64), (''t0_ns'', U64), (''t1_ns'', U64),
     (''sample_count'', U16), (''flags'', U16),
     (''accel_mean_x_mps2'', F32), (''accel_mean_y_mps2'', F32), (''accel_mean_z_mps2'', F32),
     (''gyro_mean_x_rad_s'', F32), (''gyro_mean_y_rad_s'', F32), (''gyro_mean_z_rad_s'', F32),
     (''delta_velocity_x_mps'', F32), (''delta_velocity_y_mps'', F32),
     (''delta_velocity_z_mps'', F32),
     (''delta_angle_x_rad'', F32), (''delta_angle_y_rad'', F32), (''delta_angle_z_rad'', F32)]"

definition can_decoded_value_packet :: layout where
  "can_decoded_value_packet =
    [(''t_ns'', U64), (''value_id'', U32), (''can_id'', U32), (''value'', F32),
     (''raw_value'', U32), (''flags'', U32),
     (''dlc'', U8), (''reserved0'', U8), (''reserved1'', U8), (''reserved2'', U8)]"

definition can_raw_frame_packet :: layout where
  "can_raw_frame_packet =
    [(''t_ns'', U64), (''can_id'', U32), (''dlc'', U8), (''is_extended'', U8),
     (''bus_id'', U8), (''flags'', U8), (''data'', U8_array 8)]"

definition trajectory_point_packet :: layout where
  "trajectory_point_packet =
    [(''t_ns'', U64), (''x_m'', F32), (''y_m'', F32), (''z_m'', F32),
     (''vx_mps'', F32), (''vy_mps'', F32), (''vz_mps'', F32),
     (''yaw_rad'', F32), (''pitch_rad'', F32), (''roll_rad'', F32),
     (''yaw_rate_rad_s'', F32), (''path_s_m'', F32), (''vehicle_speed_mps'', F32),
     (''flags'', U32), (''reserved0'', U32)]"

definition gps_fix_packet :: layout where
  "gps_fix_packet =
    [(''t_ns'', U64), (''lat_deg'', F64), (''lon_deg'', F64), (''alt_m'', F64),
     (''speed_mps'', F32), (''heading_rad'', F32), (''h_acc_m'', F32), (''v_acc_m'', F32),
     (''fix_type'', U8), (''rtk_status'', U8), (''satellites'', U8), (''reserved0'', U8),
     (''flags'', U32)]"

definition time_status_packet :: layout where
  "time_status_packet =
    [(''t_ns'', U64), (''monotonic_ns'', U64), (''utc_offset_ns'', I64),
     (''time_source'', U32), (''sync_status'', U32),
     (''estimated_drift_ppm'', F32), (''sync_error_us'', F32)]"

definition system_status_packet :: layout where
  "system_status_packet =
    [(''t_ns'', U64),
     (''audio_status'', U32), (''can_status'', U32), (''imu_status'', U32),
     (''gps_status'', U32), (''network_status'', U32),
     (''audio_overruns'', U32), (''imu_fifo_overruns'', U32), (''can_rx_errors'', U32),
     (''dropped_frames'', U32),
     (''cpu_load_arm'', F32), (''cpu_load_sharc0'', F32), (''cpu_load_sharc1'', F32)]"

definition imu_calibration_event_packet :: layout where
  "imu_calibration_event_packet =
    [(''t_ns'', U64),
     (''gyro_bias_x_rad_s'', F32), (''gyro_bias_y_rad_s'', F32), (''gyro_bias_z_rad_s'', F32),
     (''accel_ref_x_mps2'', F32), (''accel_ref_y_mps2'', F32), (''accel_ref_z_mps2'', F32),
     (''collect_time_s'', F32), (''sample_count'', U32), (''quality_flags'', U32)]"

definition ego_control_message_header :: layout where
  "ego_control_message_header =
    [(''magic'', U32), (''protocol_ver'', U16), (''header_size'', U16), (''seq'', U64),
     (''payload_size'', U32), (''payload_crc32'', U32), (''header_crc32'', U32),
     (''reserved0'', U32)]"

text \<open>The sizes the header's \<open>static_assert\<close>s demand.\<close>

lemma layout_sizes:
  "layout_size ego_control_message_header = 32"
  "layout_size audio_block_binary_header = 48"
  "layout_size imu_window_packet = 76"
  "layout_size can_decoded_value_packet = 32"
  "layout_size can_raw_frame_packet = 24"
  "layout_size trajectory_point_packet = 64"
  "layout_size gps_fix_packet = 56"
  "layout_size time_status_packet = 40"
  "layout_size system_status_packet = 56"
  "layout_size imu_calibration_event_packet = 44"
  by (simp_all add: layout_size_def ego_control_message_header_def audio_block_binary_header_def
      imu_window_packet_def can_decoded_value_packet_def can_raw_frame_packet_def
      trajectory_point_packet_def gps_fix_packet_def time_status_packet_def
      system_status_packet_def imu_calibration_event_packet_def)

end
