(* ===== verification/ContractFrameIo.thy ===== *)
theory ContractFrameIo
  imports EgoProtocol
begin

text \<open>
  Framing of the recorded stream, from \<open>runtimepc/src/contract_frame_io.cpp\<close>: cutting one frame out
  of a buffer, validating a frame, and iterating over a buffer of frames. A \<open>false\<close> result is
  modelled by the error string the code stores through its \<open>std::string*\<close> argument.
\<close>

section \<open>Cutting out one frame\<close>

text \<open>\<open>Inl None\<close>: \<open>false\<close> at the end of the buffer, no error stored; \<open>Inl (Some e)\<close>: \<open>false\<close> with
  error \<open>e\<close>; \<open>Inr (frame, offset')\<close>: \<open>true\<close>, with the frame and the advanced offset.\<close>

definition parse_frame_at :: "bytes \<Rightarrow> nat \<Rightarrow> u32 \<Rightarrow> string option + (bytes \<times> nat)" where
  "parse_frame_at data offset max_payload =
     (if offset + 72 > length data then
        (if offset = length data then Inl None else Inl (Some ''truncated frame header''))
      else
        let header = header_of_bytes (drop offset data) in
        if eh_magic header \<noteq> EGO_FRAME_MAGIC \<or> eh_header_size header \<noteq> 72 then
          Inl (Some ''bad frame magic or header_size'')
        else if eh_payload_size header > max_payload then Inl (Some ''payload too large'')
        else
          let frame_size = 72 + unat (eh_payload_size header) in
          if offset + frame_size > length data then Inl (Some ''truncated frame payload'')
          else Inr (slice offset frame_size data, offset + frame_size))"

lemma parse_frame_at_advances:
  "parse_frame_at data offset mx = Inr (frame, offset') \<Longrightarrow>
     offset + 72 \<le> offset' \<and> offset' \<le> length data \<and> frame = slice offset (offset' - offset) data"
  by (auto simp: parse_frame_at_def Let_def split: if_splits)

section \<open>Validating one frame\<close>

text \<open>\<open>None\<close>: the frame is valid; \<open>Some e\<close>: \<open>false\<close> with error \<open>e\<close>.\<close>

definition validate_contract_frame :: "bytes \<Rightarrow> u32 \<Rightarrow> string option" where
  "validate_contract_frame frame_bytes max_payload_bytes =
     (if length frame_bytes < 72 then Some ''frame too short''
      else
        let header = header_of_bytes frame_bytes in
        if eh_magic header \<noteq> EGO_FRAME_MAGIC \<or> eh_header_size header \<noteq> 72 then Some ''bad header''
        else if eh_payload_size header > max_payload_bytes then Some ''payload too large''
        else if length frame_bytes \<noteq> 72 + unat (eh_payload_size header)
          then Some ''frame size mismatch''
        else if eh_payload_size header > 0
            \<and> contract_crc32 (drop 72 frame_bytes) \<noteq> eh_payload_crc32 header
          then Some ''payload crc mismatch''
        else if contract_crc32 (header_bytes (header\<lparr>eh_header_crc32 := 0\<rparr>))
            \<noteq> eh_header_crc32 header
          then Some ''header crc mismatch''
        else None)"

abbreviation valid_frame :: "u32 \<Rightarrow> bytes \<Rightarrow> bool" where
  "valid_frame mx f \<equiv> validate_contract_frame f mx = None"

text \<open>The facts a valid frame comes with, for use in other proofs.\<close>

lemma valid_frameD:
  assumes "valid_frame mx f"
  shows "72 \<le> length f"
    and "eh_magic (header_of_bytes f) = EGO_FRAME_MAGIC"
    and "eh_header_size (header_of_bytes f) = 72"
    and "eh_payload_size (header_of_bytes f) \<le> mx"
    and "length f = 72 + unat (eh_payload_size (header_of_bytes f))"
    and "eh_payload_size (header_of_bytes f) > 0
      \<Longrightarrow> contract_crc32 (drop 72 f) = eh_payload_crc32 (header_of_bytes f)"
    and "contract_crc32 (header_bytes (header_of_bytes f\<lparr>eh_header_crc32 := 0\<rparr>))
      = eh_header_crc32 (header_of_bytes f)"
  using assms by (auto simp: validate_contract_frame_def Let_def split: if_splits)

section \<open>Sealing a frame, as the sender does\<close>

text \<open>\<open>BuildContractFrame\<close> of the runtime's tests: the payload checksum (0 for an empty payload),
  then the header checksum over the header with a cleared checksum field.\<close>

definition build_contract_frame :: "u64 \<Rightarrow> frame_payload_type \<Rightarrow> bytes \<Rightarrow> bytes" where
  "build_contract_frame seq type payload =
     (let payload_crc = (if payload = [] then 0 else contract_crc32 payload);
          header = make_frame_header type (flag_to_u32 PAYLOAD_BINARY) 0 0 seq (1000 + seq)
            (1001 + seq) (of_nat (length payload)) payload_crc;
          zero_hdr = header\<lparr>eh_header_crc32 := 0\<rparr>;
          header' = header\<lparr>eh_header_crc32 := contract_crc32 (header_bytes zero_hdr)\<rparr>
      in header_bytes header' @ payload)"

lemma build_contract_frame_header:
  "header_of_bytes (build_contract_frame seq type payload) =
     (let h = make_frame_header type (flag_to_u32 PAYLOAD_BINARY) 0 0 seq (1000 + seq)
            (1001 + seq) (of_nat (length payload))
            (if payload = [] then 0 else contract_crc32 payload)
      in h\<lparr>eh_header_crc32 := contract_crc32 (header_bytes h)\<rparr>)"
proof -
  have "make_frame_header type fl hi lo seq t0 t1 n c\<lparr>eh_header_crc32 := 0\<rparr>
      = make_frame_header type fl hi lo seq t0 t1 n c" for fl hi lo t0 t1 n c
    by (simp add: make_frame_header_def)
  then show ?thesis by (simp add: build_contract_frame_def Let_def)
qed

lemma length_build_contract_frame [simp]:
  "length (build_contract_frame seq type payload) = 72 + length payload"
  by (simp add: build_contract_frame_def Let_def)

lemma drop_build_contract_frame: "drop 72 (build_contract_frame seq type payload) = payload"
  by (simp add: build_contract_frame_def Let_def)

lemma built_frame_valid:
  assumes "length payload \<le> unat mx"
  shows "validate_contract_frame (build_contract_frame seq type payload) mx = None"
proof -
  let ?h = "header_of_bytes (build_contract_frame seq type payload)"
  have bound: "length payload < 2 ^ 32"
    using assms unsigned_less [of mx, where ?'a = nat] by simp
  then have n: "unat (of_nat (length payload) :: u32) = length payload"
    by (simp add: unat_of_nat take_bit_nat_eq_self)
  have "eh_magic ?h = EGO_FRAME_MAGIC" "eh_header_size ?h = 72"
    and ps: "eh_payload_size ?h = of_nat (length payload)"
    and "payload \<noteq> [] \<Longrightarrow> eh_payload_crc32 ?h = contract_crc32 payload"
    by (simp_all add: build_contract_frame_header Let_def make_frame_header_def
        EGO_FRAME_HEADER_SIZE_def)
  moreover have "contract_crc32 (header_bytes (?h\<lparr>eh_header_crc32 := 0\<rparr>)) = eh_header_crc32 ?h"
    by (simp add: build_contract_frame_header Let_def make_frame_header_def)
  moreover have "\<not> eh_payload_size ?h > mx"
    using assms n ps by (simp add: word_less_nat_alt)
  moreover have "eh_payload_size ?h > 0 \<Longrightarrow> payload \<noteq> []"
    using ps by auto
  ultimately show ?thesis
    by (auto simp: validate_contract_frame_def Let_def n ps drop_build_contract_frame)
qed

text \<open>Every frame the sender seals is accepted: for every sequence number, frame type and payload
  no longer than the receiver's limit, the built frame passes all seven checks of
  \<open>ValidateContractFrame\<close>.\<close>

theorem built_frame_validates:
  assumes "length payload \<le> unat mx"
  shows "validate_contract_frame (build_contract_frame seq type payload) mx = None"
  using assms by (rule built_frame_valid)

theorem built_frame_validates_witness:
  "validate_contract_frame (build_contract_frame 1 AUDIO_BLOCK [1, 2, 3, 4]) 65536 = None"
  by (rule built_frame_validates) simp

section \<open>Damage to a frame\<close>

lemma list_update_split:
  "i < length xs \<Longrightarrow> xs[i := b] = take i xs @ [b] @ drop (Suc i) xs"
  by (simp add: upd_conv_take_nth_drop)

lemma contract_crc32_update_neq:
  assumes "i < length xs" and "b \<noteq> xs ! i"
  shows "contract_crc32 (xs[i := b]) \<noteq> contract_crc32 xs"
proof -
  have "contract_crc32 (take i xs @ [b] @ drop (Suc i) xs)
      \<noteq> contract_crc32 (take i xs @ [xs ! i] @ drop (Suc i) xs)"
    using assms(2) by (intro crc32_burst_neq) auto
  then show ?thesis using assms(1) by (simp add: list_update_split id_take_nth_drop [symmetric])
qed

lemma slice_update_other:
  "i < off \<or> off + n \<le> i \<Longrightarrow> slice off n (xs[i := b]) = slice off n xs"
  by (auto simp: slice_def drop_update_swap not_less)

lemma slice_nth: "off \<le> i \<Longrightarrow> i < off + n \<Longrightarrow> i < length xs \<Longrightarrow> slice off n xs ! (i - off) = xs ! i"
  by (simp add: slice_def)

lemma slice_update_neq:
  assumes "off \<le> i" "i < off + n" "i < length xs" "b \<noteq> xs ! i"
  shows "slice off n (xs[i := b]) \<noteq> slice off n xs"
proof
  assume "slice off n (xs[i := b]) = slice off n xs"
  then have "slice off n (xs[i := b]) ! (i - off) = slice off n xs ! (i - off)" by simp
  then show False using assms by (simp add: slice_nth)
qed

lemma header_of_bytes_update:
  "72 \<le> i \<Longrightarrow> header_of_bytes (f[i := b]) = header_of_bytes f"
  using header_of_bytes_take [of 72 "f[i := b]"] header_of_bytes_take [of 72 f] by simp

lemma slice_update:
  "off \<le> i \<Longrightarrow> slice off n (xs[i := b]) = (slice off n xs)[i - off := b]"
  by (simp add: slice_def drop_update_swap take_update_swap)

lemma zero_image_update:
  fixes f :: bytes
  assumes "72 \<le> length f" and "i < 64 \<or> 68 \<le> i \<and> i < 72"
  shows "take 64 (f[i := b]) @ [0, 0, 0, 0] @ slice 68 4 (f[i := b])
    = (take 64 f @ [0, 0, 0, 0] @ slice 68 4 f)[i := b]"
proof -
  define z :: bytes where "z = [0, 0, 0, 0]"
  have lz: "length z = 4" by (simp add: z_def)
  have "take 64 (f[i := b]) @ z @ slice 68 4 (f[i := b]) = (take 64 f @ z @ slice 68 4 f)[i := b]"
    using assms lz
    by (auto simp: slice_update_other slice_update list_update_append take_update_swap
        list_update_beyond)
  then show ?thesis by (simp only: z_def)
qed

lemma zero_image_nth:
  fixes f :: bytes
  assumes "72 \<le> length f" and "i < 64 \<or> 68 \<le> i \<and> i < 72"
  shows "(take 64 f @ [0, 0, 0, 0] @ slice 68 4 f) ! i = f ! i"
  using assms by (auto simp: nth_append slice_def)

lemma header_corruption:
  assumes f: "valid_frame mx f" and g: "valid_frame mx (f[i := b])"
    and i: "i < 72" and b: "b \<noteq> f ! i"
  shows False
proof -
  let ?z = "\<lambda>f. take 64 f @ [0, 0, 0, 0] @ slice 68 4 f"
  have len: "72 \<le> length f" by (rule valid_frameD [OF f])
  have cf: "contract_crc32 (?z f) = rd 64 4 f"
    using valid_frameD(7) [OF f] header_bytes_zero_crc [OF len]
    by (simp add: header_of_bytes_def)
  have cg: "contract_crc32 (?z (f[i := b])) = rd 64 4 (f[i := b])"
    using valid_frameD(7) [OF g] header_bytes_zero_crc [of "f[i := b]"] len
    by (simp add: header_of_bytes_def)
  show False
  proof (cases "i < 64 \<or> 68 \<le> i")
    case True
    then have i': "i < 64 \<or> 68 \<le> i \<and> i < 72" using i by auto
    have "rd 64 4 (f[i := b]) = (rd 64 4 f :: u32)"
      using True by (auto simp: rd_def slice_update_other)
    with cf cg have "contract_crc32 ((?z f)[i := b]) = contract_crc32 (?z f)"
      by (simp only: zero_image_update [OF len i'])
    moreover have "i < length (?z f)" using i len by simp
    ultimately show False
      using contract_crc32_update_neq [of i "?z f" b] zero_image_nth [OF len i'] b by simp
  next
    case False
    then have "?z (f[i := b]) = ?z f"
      by (simp add: slice_update_other)
    with cf cg have "(le_word (slice 64 4 (f[i := b])) :: u32) = le_word (slice 64 4 f)"
      by (simp add: rd_def)
    then have "slice 64 4 (f[i := b]) = slice 64 4 f"
      using len by (intro le_word_inj [where ?'a = 32]) auto
    moreover have "slice 64 4 (f[i := b]) \<noteq> slice 64 4 f"
      using False i len b by (intro slice_update_neq) auto
    ultimately show False by simp
  qed
qed

lemma payload_corruption:
  assumes f: "valid_frame mx f" and g: "valid_frame mx (f[i := b])"
    and i: "72 \<le> i" "i < length f" and b: "b \<noteq> f ! i"
  shows False
proof -
  have hdr: "header_of_bytes (f[i := b]) = header_of_bytes f"
    using i by (simp add: header_of_bytes_update)
  have pos: "eh_payload_size (header_of_bytes f) > 0"
    using valid_frameD(5) [OF f] i by (auto simp: word_less_nat_alt)
  have "drop 72 (f[i := b]) = (drop 72 f)[i - 72 := b]"
    using i by (simp add: drop_update_swap)
  then have "contract_crc32 ((drop 72 f)[i - 72 := b]) = contract_crc32 (drop 72 f)"
    using valid_frameD(6) [OF f pos] valid_frameD(6) [OF g] pos hdr by simp
  moreover have "contract_crc32 ((drop 72 f)[i - 72 := b]) \<noteq> contract_crc32 (drop 72 f)"
    using i b by (intro contract_crc32_update_neq) auto
  ultimately show False by simp
qed

text \<open>C10: A valid frame with any one byte changed is rejected, wherever the byte is: in a header
  field, in the stored checksums or in the payload. (The code's own test flips one payload byte;
  this is every position and every value.)\<close>

theorem corrupted_frame_rejected:
  assumes "validate_contract_frame f mx = None" and "i < length f" and "b \<noteq> f ! i"
  shows "validate_contract_frame (f[i := b]) mx \<noteq> None"
  using assms header_corruption payload_corruption by (metis not_less)

theorem corrupted_frame_rejected_witness:
  "validate_contract_frame ((build_contract_frame 1 AUDIO_BLOCK [1, 2, 3, 4])[72 := 254]) 65536
     \<noteq> None"
proof (rule corrupted_frame_rejected)
  let ?f = "build_contract_frame 1 AUDIO_BLOCK [1, 2, 3, 4]"
  show "validate_contract_frame ?f 65536 = None" by (rule built_frame_valid) simp
  show "72 < length ?f" by simp
  have "drop 72 ?f ! 0 = 1" by (simp only: drop_build_contract_frame) simp
  then show "254 \<noteq> ?f ! 72" by simp
qed

section \<open>Iterating over a buffer\<close>

text \<open>\<open>ForEachContractFrame\<close>: the handler is a callback with state \<open>'s\<close> that returns whether to go
  on. The result is the returned flag, the error stored (the empty string if none), and the
  handler's final state.\<close>

function for_each_from ::
  "bytes \<Rightarrow> u32 \<Rightarrow> (bytes \<Rightarrow> 's \<Rightarrow> bool \<times> 's) \<Rightarrow> nat \<Rightarrow> 's \<Rightarrow> bool \<times> string \<times> 's"
where
  "for_each_from data mx handler offset s =
     (if offset < length data then
        (case parse_frame_at data offset mx of
           Inl e \<Rightarrow> (offset = length data, (case e of None \<Rightarrow> '''' | Some m \<Rightarrow> m), s)
         | Inr (frame, offset') \<Rightarrow>
             (case validate_contract_frame frame mx of
                Some m \<Rightarrow> (False, m, s)
              | None \<Rightarrow>
                  (case handler frame s of
                     (False, s') \<Rightarrow> (False, '''', s')
                   | (True, s') \<Rightarrow> for_each_from data mx handler offset' s')))
      else (True, '''', s))"
  by pat_completeness auto
termination
  by (relation "measure (\<lambda>(data, mx, handler, offset, s). length data - offset)")
    (auto dest: parse_frame_at_advances)

declare for_each_from.simps [simp del]

definition for_each_contract_frame ::
  "bytes \<Rightarrow> u32 \<Rightarrow> (bytes \<Rightarrow> 's \<Rightarrow> bool \<times> 's) \<Rightarrow> 's \<Rightarrow> bool \<times> string \<times> 's"
where
  "for_each_contract_frame data mx handler s = for_each_from data mx handler 0 s"

text \<open>\<open>ReadContractFramesFromFile\<close>, for a file that cannot be opened (\<open>None\<close>) or has contents.\<close>

definition read_contract_frames_from_file ::
  "bytes option \<Rightarrow> u32 \<Rightarrow> (bytes \<Rightarrow> 's \<Rightarrow> bool \<times> 's) \<Rightarrow> 's \<Rightarrow> bool \<times> string \<times> 's"
where
  "read_contract_frames_from_file file mx handler s =
     (case file of None \<Rightarrow> (False, ''cannot open input file'', s)
      | Some data \<Rightarrow> for_each_contract_frame data mx handler s)"

definition count_contract_frames_in_bytes :: "bytes \<Rightarrow> u32 \<Rightarrow> nat" where
  "count_contract_frames_in_bytes data mx =
     (case for_each_contract_frame data mx (\<lambda>_ count. (True, Suc count)) 0 of (_, _, count) \<Rightarrow> count)"

subsection \<open>What the iteration does on a well-formed prefix\<close>

lemma parse_valid_frame:
  assumes "valid_frame mx f"
  shows "parse_frame_at (pre @ f @ post) (length pre) mx = Inr (f, length pre + length f)"
  using valid_frameD [OF assms]
  by (simp add: parse_frame_at_def Let_def header_of_bytes_append slice_def)

lemma for_each_from_valid:
  assumes "valid_frame mx f"
  shows "for_each_from (pre @ f @ post) mx handler (length pre) s =
    (case handler f s of (False, s') \<Rightarrow> (False, '''', s')
     | (True, s') \<Rightarrow> for_each_from ((pre @ f) @ post) mx handler (length (pre @ f)) s')"
  using assms valid_frameD(1) [OF assms]
  by (subst for_each_from.simps) (auto simp: parse_valid_frame split: prod.split bool.split)

text \<open>The frames a run visits, in order, with the flag and error: a handler that never stops.\<close>

abbreviation collect :: "bytes \<Rightarrow> bytes list \<Rightarrow> bool \<times> bytes list" where
  "collect f fs \<equiv> (True, fs @ [f])"

lemma for_each_from_frames:
  "\<forall>f \<in> set fs. valid_frame mx f \<Longrightarrow>
   for_each_from (pre @ concat fs @ post) mx collect (length pre) acc
     = for_each_from (pre @ concat fs @ post) mx collect (length (pre @ concat fs)) (acc @ fs)"
proof (induction fs arbitrary: pre acc)
  case Nil
  then show ?case by simp
next
  case (Cons f fs)
  have "for_each_from (pre @ f @ (concat fs @ post)) mx collect (length pre) acc
      = for_each_from ((pre @ f) @ concat fs @ post) mx collect (length (pre @ f)) (acc @ [f])"
    using Cons.prems by (subst for_each_from_valid) auto
  also have "\<dots> = for_each_from ((pre @ f) @ concat fs @ post) mx collect
      (length ((pre @ f) @ concat fs)) ((acc @ [f]) @ fs)"
    using Cons.prems by (intro Cons.IH) simp
  finally show ?case by simp
qed

lemma for_each_from_end:
  "for_each_from data mx handler (length data) s = (True, '''', s)"
  by (subst for_each_from.simps) simp

text \<open>Conversely, whatever the buffer, a run visits valid frames that tile a prefix of it, and it
  reports success exactly when they tile all of it.\<close>

lemma for_each_from_tiles:
  assumes "offset \<le> length data"
    and "for_each_from data mx collect offset acc = (ok, e, out)"
  shows "\<exists>fs rest. out = acc @ fs \<and> (\<forall>f \<in> set fs. valid_frame mx f)
    \<and> drop offset data = concat fs @ rest \<and> (ok \<longleftrightarrow> rest = [])"
  using assms
proof (induction data mx "collect" offset acc arbitrary: ok e out rule: for_each_from.induct)
  case (1 data mx offset acc)
  show ?case
  proof (cases "offset < length data")
    case False
    with 1 show ?thesis by (intro exI [of _ "[]"] exI [of _ "drop offset data"])
        (auto simp: for_each_from.simps)
  next
    case lt: True
    show ?thesis
    proof (cases "parse_frame_at data offset mx")
      case (Inl x)
      with 1 lt show ?thesis
        by (intro exI [of _ "[]"] exI [of _ "drop offset data"])
          (auto simp: for_each_from.simps [of data])
    next
      case (Inr y)
      then obtain frame offset' where p: "parse_frame_at data offset mx = Inr (frame, offset')"
        by (cases y) auto
      from parse_frame_at_advances [OF p] have adv: "offset + 72 \<le> offset'" "offset' \<le> length data"
        and fr: "frame = slice offset (offset' - offset) data" by auto
      show ?thesis
      proof (cases "validate_contract_frame frame mx")
        case (Some m)
        with 1 lt p show ?thesis
          by (intro exI [of _ "[]"] exI [of _ "drop offset data"])
          (auto simp: for_each_from.simps [of data])
      next
        case None
        with 1(3) lt p have "for_each_from data mx collect offset' (acc @ [frame]) = (ok, e, out)"
          by (simp add: for_each_from.simps [of data mx _ offset])
        from "1.hyps" [OF lt p refl None refl refl adv(2) this]
        obtain fs rest where fs: "out = (acc @ [frame]) @ fs" "\<forall>f \<in> set fs. valid_frame mx f"
          "drop offset' data = concat fs @ rest" "ok \<longleftrightarrow> rest = []" by auto
        have "drop offset data = frame @ drop offset' data"
          using adv append_take_drop_id [of "offset' - offset" "drop offset data"]
          by (simp add: fr slice_def)
        with fs None show ?thesis by (intro exI [of _ "frame # fs"] exI [of _ rest]) auto
      qed
    qed
  qed
qed

subsection \<open>The contract of the iteration\<close>

lemma for_each_concat:
  assumes "\<forall>f \<in> set fs. valid_frame mx f"
  shows "for_each_contract_frame (concat fs) mx collect [] = (True, '''', fs)"
  using for_each_from_frames [OF assms, of "[]" "[]" "[]"]
  by (simp add: for_each_contract_frame_def for_each_from_end)

text \<open>Counting is collecting and taking the length: the handlers differ only in their state.\<close>

lemma for_each_from_count:
  "for_each_from data mx (\<lambda>_ count. (True, Suc count)) offset (length acc) =
     (case for_each_from data mx collect offset acc of (ok, e, fs) \<Rightarrow> (ok, e, length fs))"
proof (induction data mx "collect" offset acc rule: for_each_from.induct)
  case (1 data mx offset acc)
  show ?case
  proof (cases "offset < length data")
    case False
    then show ?thesis by (simp add: for_each_from.simps)
  next
    case lt: True
    show ?thesis
    proof (cases "parse_frame_at data offset mx")
      case (Inl e)
      with lt show ?thesis by (simp add: for_each_from.simps [of data mx _ offset])
    next
      case (Inr y)
      then obtain frame offset' where p: "parse_frame_at data offset mx = Inr (frame, offset')"
        by (cases y) auto
      show ?thesis
      proof (cases "validate_contract_frame frame mx")
        case (Some m)
        with lt p show ?thesis by (simp add: for_each_from.simps [of data mx _ offset])
      next
        case None
        with "1.hyps" [OF lt p refl None refl refl] lt p show ?thesis
          by (simp add: for_each_from.simps [of data mx _ offset])
      qed
    qed
  qed
qed

lemma count_frames_collect:
  "count_contract_frames_in_bytes data mx =
     length (snd (snd (for_each_contract_frame data mx collect [])))"
  using for_each_from_count [of data mx 0 "[]"]
  by (simp add: count_contract_frames_in_bytes_def for_each_contract_frame_def split: prod.splits)

lemma count_concat:
  "\<forall>f \<in> set fs. valid_frame mx f \<Longrightarrow> count_contract_frames_in_bytes (concat fs) mx = length fs"
  by (simp add: count_frames_collect for_each_concat)

text \<open>C11: The iteration is the exact inverse of concatenation: it reports success on a buffer if and
  only if the buffer is a concatenation of valid frames, and then the frames handed to the handler
  are those frames, in order. No other splitting of the buffer into valid frames exists.\<close>

theorem for_each_iff_concat:
  "(\<exists>e. for_each_contract_frame data mx collect [] = (True, e, fs)) \<longleftrightarrow>
     (\<forall>f \<in> set fs. validate_contract_frame f mx = None) \<and> data = concat fs"
proof (intro iffI; (elim exE conjE)?)
  fix e
  assume "for_each_contract_frame data mx collect [] = (True, e, fs)"
  then show "(\<forall>f \<in> set fs. validate_contract_frame f mx = None) \<and> data = concat fs"
    using for_each_from_tiles [of 0 data mx "[]" True e fs]
    by (auto simp: for_each_contract_frame_def)
next
  assume "\<forall>f \<in> set fs. validate_contract_frame f mx = None" and "data = concat fs"
  then show "\<exists>e. for_each_contract_frame data mx collect [] = (True, e, fs)"
    by (simp add: for_each_concat)
qed

theorem for_each_iff_concat_witness:
  "\<exists>e. for_each_contract_frame
      (concat [build_contract_frame 1 IMU_WINDOW [9], build_contract_frame 2 IMU_WINDOW [9]])
      65536 collect [] =
     (True, e, [build_contract_frame 1 IMU_WINDOW [9], build_contract_frame 2 IMU_WINDOW [9]])"
proof -
  have v: "\<forall>f \<in> set [build_contract_frame 1 IMU_WINDOW [9], build_contract_frame 2 IMU_WINDOW [9]].
      validate_contract_frame f 65536 = None"
    by (simp add: built_frame_valid)
  with for_each_iff_concat show ?thesis by blast
qed

text \<open>Whatever the buffer, the frames handed to the handler are all valid and tile a prefix of it:
  a damaged or truncated tail stops the iteration but never changes what was delivered before it,
  and the iteration always returns.\<close>

theorem for_each_delivers_prefix:
  "\<exists>ok e fs rest. for_each_contract_frame data mx collect [] = (ok, e, fs) \<and>
     list_all (valid_frame mx) fs \<and> data = concat fs @ rest \<and> (ok \<longleftrightarrow> rest = [])"
proof -
  obtain ok e fs where r: "for_each_from data mx collect 0 [] = (ok, e, fs)"
    by (metis prod_cases3)
  from for_each_from_tiles [OF _ r] show ?thesis
    by (simp add: for_each_contract_frame_def r list_all_iff)
qed

end
