(* ===== verification/TcpClient.thy ===== *)
theory TcpClient
  imports ContractFrameIo
begin

text \<open>
  The receiver thread of \<open>runtimepc/src/contract_tcp_client.cpp\<close>: reading exactly \<open>n\<close> bytes from a
  stream socket, the receive loop, and starting and stopping the client. The socket is the list of
  segments the kernel will hand out: one \<open>recv\<close> returns at most one segment and at most the bytes
  asked for, an empty segment or the end of the list is a return value \<open>\<le> 0\<close> (closed or failed).
  The loads of \<open>stop_requested_\<close>, which another thread sets, are a function of the iteration.
\<close>

section \<open>The socket\<close>

type_synonym socket = "bytes list"

fun recv :: "nat \<Rightarrow> socket \<Rightarrow> bytes option \<times> socket" where
  "recv n [] = (None, [])"
| "recv n ([] # segs) = (None, segs)"
| "recv n (seg # segs) =
     (Some (take n seg), if length seg \<le> n then segs else drop n seg # segs)"

text \<open>What can still be read: the bytes up to the first failing \<open>recv\<close>.\<close>

fun stream_of :: "socket \<Rightarrow> bytes" where
  "stream_of [] = []"
| "stream_of ([] # segs) = []"
| "stream_of (seg # segs) = seg @ stream_of segs"

lemma stream_of_Cons: "seg \<noteq> [] \<Longrightarrow> stream_of (seg # segs) = seg @ stream_of segs"
  by (cases seg) auto

lemma recv_Cons:
  "seg \<noteq> [] \<Longrightarrow> recv n (seg # segs) =
     (Some (take n seg), if length seg \<le> n then segs else drop n seg # segs)"
  by (cases seg) auto

lemma recv_Some:
  assumes "recv n sock = (Some bs, sock')" and "0 < n"
  shows "0 < length bs \<and> length bs \<le> n \<and> stream_of sock = bs @ stream_of sock'"
proof -
  obtain seg segs where sock: "sock = seg # segs" "seg \<noteq> []"
    using assms by (cases "(n, sock)" rule: recv.cases) auto
  with assms have bs: "bs = take n seg" "sock' = (if length seg \<le> n then segs else drop n seg # segs)"
    by (auto simp: recv_Cons)
  have "drop n seg \<noteq> []" if "\<not> length seg \<le> n" using that by simp
  with sock bs assms(2) show ?thesis by (auto simp: stream_of_Cons)
qed

lemma recv_None: "recv n sock = (None, sock') \<Longrightarrow> stream_of sock = []"
  by (induction n sock rule: recv.induct) auto

lemma stream_of_no_empty: "[] \<notin> set segs \<Longrightarrow> stream_of segs = concat segs"
  by (induction segs rule: stream_of.induct) auto

section \<open>Reading exactly n bytes\<close>

text \<open>\<open>ReadExact\<close>: \<open>need\<close> is \<open>size - got\<close>. \<open>None\<close> is \<open>false\<close>; the bytes already copied are lost to
  the caller then, as in the code.\<close>

function read_exact :: "nat \<Rightarrow> socket \<Rightarrow> bytes option \<times> socket" where
  "read_exact need sock =
     (if need = 0 then (Some [], sock)
      else case recv need sock of
        (None, sock') \<Rightarrow> (None, sock')
      | (Some bs, sock') \<Rightarrow>
          (case read_exact (need - length bs) sock' of
             (None, sock'') \<Rightarrow> (None, sock'')
           | (Some rest, sock'') \<Rightarrow> (Some (bs @ rest), sock'')))"
  by pat_completeness auto
termination
  by (relation "measure fst") (auto dest: recv_Some [OF sym])

declare read_exact.simps [simp del]

lemma read_exact_stream:
  "fst (read_exact n sock) =
     (if n \<le> length (stream_of sock) then Some (take n (stream_of sock)) else None) \<and>
   (n \<le> length (stream_of sock) \<longrightarrow>
      stream_of (snd (read_exact n sock)) = drop n (stream_of sock))"
proof (induction n sock rule: read_exact.induct)
  case (1 need sock)
  show ?case
  proof (cases "need = 0")
    case True
    then show ?thesis by (simp add: read_exact.simps)
  next
    case pos: False
    obtain r sock' where r: "recv need sock = (r, sock')" by fastforce
    show ?thesis
    proof (cases r)
      case None
      then show ?thesis using pos r recv_None [of need sock sock']
        by (simp add: read_exact.simps [of need])
    next
      case (Some bs)
      with recv_Some [of need sock bs sock'] r pos
      have bs: "0 < length bs" "length bs \<le> need" "stream_of sock = bs @ stream_of sock'" by auto
      from "1.IH" [OF pos r [symmetric]] Some bs pos r show ?thesis
        by (auto simp: read_exact.simps [of need] le_diff_conv add.commute take_add not_le
          split: prod.splits option.splits if_splits)
    qed
  qed
qed

lemma read_exact_Some:
  assumes "read_exact n sock = (Some bs, sock')"
  shows "n \<le> length (stream_of sock)" "bs = take n (stream_of sock)" "length bs = n"
    "stream_of sock' = drop n (stream_of sock)"
  using read_exact_stream [of n sock] assms by (auto split: if_splits)

lemma read_exact_None:
  "read_exact n sock = (None, sock') \<Longrightarrow> length (stream_of sock) < n"
  using read_exact_stream [of n sock] by (auto split: if_splits)

section \<open>The receive loop\<close>

text \<open>The atomics and fields of the client that the loop and \<open>Start\<close>/\<open>Stop\<close> change. \<open>tc_thread\<close>:
  \<open>thread_.joinable()\<close>; \<open>tc_fd\<close>: \<open>socket_fd_ \<noteq> -1\<close>.\<close>

record tcp_client =
  tc_running :: bool
  tc_stop_requested :: bool
  tc_frames_received :: u64
  tc_last_error :: string
  tc_fd :: bool
  tc_thread :: bool

definition new_tcp_client :: tcp_client where
  "new_tcp_client = \<lparr>tc_running = False, tc_stop_requested = False, tc_frames_received = 0,
     tc_last_error = '''', tc_fd = False, tc_thread = False\<rparr>"

text \<open>One turn of the loop body: the frame to deliver, or the error it stores before \<open>break\<close>. The
  header read is reported as an error only when no stop has been requested meanwhile
  (\<open>stop_seen\<close>, the second load of \<open>stop_requested_\<close>); \<open>Inl None\<close> is a silent end.\<close>

definition receive_one ::
  "u32 \<Rightarrow> bool \<Rightarrow> socket \<Rightarrow> string option + (bytes \<times> socket)"
where
  "receive_one max_payload_bytes stop_seen sock =
     (case read_exact 72 sock of
        (None, _) \<Rightarrow> Inl (if stop_seen then None else Some ''read header failed'')
      | (Some hb, sock1) \<Rightarrow>
          let header = header_of_bytes hb in
          if eh_magic header \<noteq> EGO_FRAME_MAGIC \<or> eh_header_size header \<noteq> 72
          then Inl (Some ''bad frame header'')
          else if eh_payload_size header > max_payload_bytes then Inl (Some ''payload too large'')
          else
            (case (if eh_payload_size header > 0
                   then read_exact (unat (eh_payload_size header)) sock1
                   else (Some [], sock1)) of
               (None, _) \<Rightarrow> Inl (Some ''read payload failed'')
             | (Some payload, sock2) \<Rightarrow>
                 if contract_crc32 payload \<noteq> eh_payload_crc32 header
                 then Inl (Some ''payload crc mismatch'')
                 else if contract_crc32 (header_bytes (header\<lparr>eh_header_crc32 := 0\<rparr>))
                     \<noteq> eh_header_crc32 header
                 then Inl (Some ''header crc mismatch'')
                 else Inr (header_bytes header @ payload, sock2)))"

text \<open>A frame the client lets through: valid, and with a payload checksum also checked when the
  payload is empty.\<close>

definition tcp_frame :: "u32 \<Rightarrow> bytes \<Rightarrow> bool" where
  "tcp_frame mx f \<longleftrightarrow> valid_frame mx f
     \<and> contract_crc32 (drop 72 f) = eh_payload_crc32 (header_of_bytes f)"

text \<open>The same turn as a function of the byte stream alone: how the bytes were segmented is gone.\<close>

definition next_frame :: "u32 \<Rightarrow> bool \<Rightarrow> bytes \<Rightarrow> string option + bytes" where
  "next_frame mx stop_seen s =
     (if length s < 72 then Inl (if stop_seen then None else Some ''read header failed'')
      else
        let header = header_of_bytes s; n = unat (eh_payload_size header) in
        if eh_magic header \<noteq> EGO_FRAME_MAGIC \<or> eh_header_size header \<noteq> 72
        then Inl (Some ''bad frame header'')
        else if eh_payload_size header > mx then Inl (Some ''payload too large'')
        else if length s < 72 + n then Inl (Some ''read payload failed'')
        else if contract_crc32 (slice 72 n s) \<noteq> eh_payload_crc32 header
        then Inl (Some ''payload crc mismatch'')
        else if contract_crc32 (header_bytes (header\<lparr>eh_header_crc32 := 0\<rparr>))
            \<noteq> eh_header_crc32 header
        then Inl (Some ''header crc mismatch'')
        else Inr (take (72 + n) s))"

text \<open>The payload read with and without its guard is the same.\<close>

lemma read_exact_guard:
  "(if eh_payload_size h > 0 then read_exact (unat (eh_payload_size h)) sock else (Some [], sock))
     = read_exact (unat (eh_payload_size h)) sock"
  by (simp add: read_exact.simps word_neq_0_conv [symmetric] unat_eq_0)

lemma receive_one_spec:
  "(case receive_one mx seen sock of
      Inl e \<Rightarrow> next_frame mx seen (stream_of sock) = Inl e
    | Inr (f, sock') \<Rightarrow> next_frame mx seen (stream_of sock) = Inr f
        \<and> stream_of sock = f @ stream_of sock')"
proof (cases "read_exact 72 sock")
  case (Pair r sock1)
  show ?thesis
  proof (cases r)
    case None
    with Pair read_exact_None [of 72 sock sock1] show ?thesis
      by (simp add: receive_one_def next_frame_def)
  next
    case (Some hb)
    with Pair have "read_exact 72 sock = (Some hb, sock1)" by simp
    note r1 = this read_exact_Some [OF this]
    let ?s = "stream_of sock" and ?h = "header_of_bytes (stream_of sock)"
    have hh: "header_of_bytes hb = ?h" using r1 by (simp add: header_of_bytes_take)
    have hb: "header_bytes ?h = take 72 ?s" using r1 by (simp add: header_bytes_of_bytes)
    obtain q sock2 where p: "read_exact (unat (eh_payload_size ?h)) sock1 = (q, sock2)"
      by fastforce
    show ?thesis
    proof (cases q)
      case None
      with p have "length ?s < 72 + unat (eh_payload_size ?h)"
        using read_exact_None [of "unat (eh_payload_size ?h)" sock1 sock2] r1 by simp
      with None p r1 hh show ?thesis
        by (simp add: receive_one_def next_frame_def Let_def read_exact_guard)
    next
      case (Some payload)
      with p have "read_exact (unat (eh_payload_size ?h)) sock1 = (Some payload, sock2)" by simp
      note r2 = this read_exact_Some [OF this]
      have pl: "payload = slice 72 (unat (eh_payload_size ?h)) ?s"
        using r1 r2 by (simp add: slice_def)
      have len: "\<not> length ?s < 72 + unat (eh_payload_size ?h)" using r1 r2 by simp
      have f: "take 72 ?s @ payload = take (72 + unat (eh_payload_size ?h)) ?s"
        by (simp add: pl slice_def take_add)
      have rest: "?s = take (72 + unat (eh_payload_size ?h)) ?s @ stream_of sock2"
        using r1 r2 by (simp add: add.commute)
      show ?thesis
        using r1(1,2) r2(1) hh hb len f rest
        by (simp add: receive_one_def next_frame_def Let_def read_exact_guard flip: pl)
    qed
  qed
qed

lemma next_frame_tcp_frame:
  assumes "next_frame mx seen s = Inr f"
  shows "tcp_frame mx f" and "72 \<le> length f"
proof -
  let ?h = "header_of_bytes s" and ?n = "unat (eh_payload_size (header_of_bytes s))"
  have *: "\<not> length s < 72" "eh_magic ?h = EGO_FRAME_MAGIC" "eh_header_size ?h = 72"
    "\<not> eh_payload_size ?h > mx" "\<not> length s < 72 + ?n"
    "contract_crc32 (slice 72 ?n s) = eh_payload_crc32 ?h"
    "contract_crc32 (header_bytes (?h\<lparr>eh_header_crc32 := 0\<rparr>)) = eh_header_crc32 ?h"
    "f = take (72 + ?n) s"
    using assms by (auto simp: next_frame_def Let_def split: if_splits)
  have "header_of_bytes f = ?h" using * by (simp add: header_of_bytes_take)
  moreover have "drop 72 f = slice 72 ?n s" using * by (simp add: slice_def drop_take)
  ultimately show "tcp_frame mx f" "72 \<le> length f"
    using * by (simp_all add: tcp_frame_def validate_contract_frame_def Let_def min_def)
qed

text \<open>\<open>ReceiveLoop\<close>. \<open>head i\<close> and \<open>seen i\<close> are what turn \<open>i\<close> loads from \<open>stop_requested_\<close> at the loop
  head and after a failed header read. Each delivered frame takes at least a header from the stream,
  so the loop ends with the stream; on an endless stream every prefix behaves as stated.\<close>

function receive_loop ::
  "u32 \<Rightarrow> (nat \<Rightarrow> bool) \<Rightarrow> (nat \<Rightarrow> bool) \<Rightarrow> (bytes \<Rightarrow> 's \<Rightarrow> 's) \<Rightarrow> nat \<Rightarrow> socket
     \<Rightarrow> tcp_client \<times> 's \<Rightarrow> tcp_client \<times> 's"
where
  "receive_loop mx head seen handler i sock (c, s) =
     (if head i then (c\<lparr>tc_running := False\<rparr>, s)
      else case receive_one mx (seen i) sock of
        Inl None \<Rightarrow> (c\<lparr>tc_running := False\<rparr>, s)
      | Inl (Some e) \<Rightarrow> (c\<lparr>tc_last_error := e, tc_running := False\<rparr>, s)
      | Inr (frame, sock') \<Rightarrow>
          receive_loop mx head seen handler (Suc i) sock'
            (c\<lparr>tc_frames_received := tc_frames_received c + 1\<rparr>, handler frame s))"
  by pat_completeness auto

lemma receive_one_Inr:
  assumes "receive_one mx seen sock = Inr (f, sock')"
  shows "next_frame mx seen (stream_of sock) = Inr f"
    and "stream_of sock = f @ stream_of sock'" and "tcp_frame mx f" and "72 \<le> length f"
  using receive_one_spec [of mx seen sock] assms next_frame_tcp_frame
  by auto

lemma receive_one_Inl:
  "receive_one mx seen sock = Inl e \<Longrightarrow> next_frame mx seen (stream_of sock) = Inl e"
  using receive_one_spec [of mx seen sock] by auto

termination receive_loop
  by (relation "measure (\<lambda>(mx, head, seen, handler, i, sock, cs). length (stream_of sock))")
    (auto, metis receive_one_Inr(2, 4) length_append less_add_same_cancel2 numeral_le_iff
      order_less_le_trans zero_less_numeral)

declare receive_loop.simps [simp del]

text \<open>The loop as a function of the byte stream: the frames it delivers and how it ends.\<close>

function deliveries ::
  "u32 \<Rightarrow> (nat \<Rightarrow> bool) \<Rightarrow> (nat \<Rightarrow> bool) \<Rightarrow> nat \<Rightarrow> bytes \<Rightarrow> bytes list \<times> string option"
where
  "deliveries mx head seen i s =
     (if head i then ([], None)
      else case next_frame mx (seen i) s of
        Inl e \<Rightarrow> ([], e)
      | Inr f \<Rightarrow> (case deliveries mx head seen (Suc i) (drop (length f) s) of
          (fs, e) \<Rightarrow> (f # fs, e)))"
  by pat_completeness auto
termination
  by (relation "measure (\<lambda>(mx, head, seen, i, s). length s)")
    (auto simp: next_frame_def Let_def split: if_splits)

declare deliveries.simps [simp del]

lemma next_frame_prefix: "next_frame mx seen s = Inr f \<Longrightarrow> take (length f) s = f"
  by (auto simp: next_frame_def Let_def min_def split: if_splits)

definition finish_client :: "string option \<Rightarrow> tcp_client \<Rightarrow> tcp_client" where
  "finish_client e c = (case e of None \<Rightarrow> c | Some m \<Rightarrow> c\<lparr>tc_last_error := m\<rparr>)\<lparr>tc_running := False\<rparr>"

lemma receive_loop_deliveries:
  "receive_loop mx head seen handler i sock (c, s) =
     (case deliveries mx head seen i (stream_of sock) of (fs, e) \<Rightarrow>
       (finish_client e (c\<lparr>tc_frames_received := tc_frames_received c + of_nat (length fs)\<rparr>),
        fold handler fs s))"
proof (induction mx head seen handler i sock "(c, s)" arbitrary: c s rule: receive_loop.induct)
  case (1 mx head seen handler i sock c s)
  show ?case
  proof (cases "head i")
    case True
    then show ?thesis
      by (simp add: receive_loop.simps deliveries.simps finish_client_def)
  next
    case head: False
    show ?thesis
    proof (cases "receive_one mx (seen i) sock")
      case (Inl e)
      with receive_one_Inl [OF Inl] head show ?thesis
        by (subst receive_loop.simps, subst deliveries.simps)
          (auto simp: finish_client_def split: option.splits)
    next
      case (Inr r)
      then obtain f sock' where r: "receive_one mx (seen i) sock = Inr (f, sock')"
        by (cases r) auto
      note fr = receive_one_Inr [OF r]
      have d: "drop (length f) (stream_of sock) = stream_of sock'" using fr(2) by simp
      show ?thesis
        using "1.hyps" [OF head r refl] head r fr(1)
        by (subst receive_loop.simps, subst deliveries.simps)
          (simp add: d add.assoc split: prod.splits)
    qed
  qed
qed

lemma deliveries_frames:
  "(\<forall>f \<in> set (fst (deliveries mx head seen i s)). tcp_frame mx f) \<and>
   (\<exists>rest. s = concat (fst (deliveries mx head seen i s)) @ rest)"
proof (induction mx head seen i s rule: deliveries.induct)
  case (1 mx head seen i s)
  show ?case
  proof (cases "head i \<or> (\<exists>e. next_frame mx (seen i) s = Inl e)")
    case True
    then show ?thesis by (subst (1 2) deliveries.simps) auto
  next
    case False
    then obtain f where h: "\<not> head i" and f: "next_frame mx (seen i) s = Inr f"
      by (metis obj_sumE)
    from "1.IH" [OF h f] next_frame_prefix [OF f] next_frame_tcp_frame [OF f] h f
    show ?thesis
      by (subst (1 2) deliveries.simps) (auto split: prod.splits, metis append_take_drop_id)
  qed
qed

lemma next_frame_append:
  "tcp_frame mx f \<Longrightarrow> next_frame mx seen (f @ rest) = Inr f"
  using valid_frameD [where mx = mx and f = f]
  by (auto simp: tcp_frame_def next_frame_def Let_def header_of_bytes_append slice_def)

lemma deliveries_concat:
  assumes "\<forall>f \<in> set fs. tcp_frame mx f" and "\<forall>i. \<not> head i"
  shows "deliveries mx head seen i (concat fs @ rest) =
    (case deliveries mx head seen (i + length fs) rest of (gs, e) \<Rightarrow> (fs @ gs, e))"
  using assms
proof (induction fs arbitrary: i)
  case Nil
  then show ?case by simp
next
  case (Cons f fs)
  then have f: "next_frame mx (seen i) (f @ concat fs @ rest) = Inr f"
    by (simp add: next_frame_append)
  have IH: "deliveries mx head seen (Suc i) (concat fs @ rest) =
      (case deliveries mx head seen (Suc i + length fs) rest of (gs, e) \<Rightarrow> (fs @ gs, e))"
    by (rule Cons.IH) (use Cons.prems in auto)
  show ?case
    using Cons.prems(2) by (subst deliveries.simps) (simp add: f IH split: prod.splits)
qed

section \<open>Starting and stopping\<close>

text \<open>What the operating system and other threads contribute to \<open>Start\<close>: whether the socket and
  the address are good, the outcome of each connection attempt, and what each attempt loads from
  \<open>stop_requested_\<close> because of a concurrent \<open>Stop\<close>.\<close>

record connect_env =
  ce_socket :: bool
  ce_addr :: bool
  ce_connect :: "nat \<Rightarrow> bool"
  ce_stop :: "nat \<Rightarrow> bool"

function connect_loop :: "connect_env \<Rightarrow> bool \<Rightarrow> nat \<Rightarrow> bool" where
  "connect_loop env stop attempt =
     (if attempt < 200 \<and> \<not> (stop \<or> ce_stop env attempt)
      then ce_connect env attempt \<or> connect_loop env stop (attempt + 1) else False)"
  by pat_completeness auto
termination by (relation "measure (\<lambda>(env, stop, attempt). 200 - attempt)") auto

declare connect_loop.simps [simp del]

text \<open>\<open>Start\<close>: \<open>Inr b\<close> is the returned flag. Assigning to \<open>thread_\<close> while it is still joinable
  calls \<open>std::terminate\<close>: \<open>Inl ()\<close>.\<close>

definition start_client ::
  "connect_env \<Rightarrow> string \<Rightarrow> u16 \<Rightarrow> tcp_client \<Rightarrow> (unit + bool) \<times> tcp_client"
where
  "start_client env ego_host data_port c =
     (if tc_running c then (Inr True, c)
      else if \<not> ce_socket env then (Inr False, c\<lparr>tc_last_error := ''socket create failed''\<rparr>)
      else if \<not> ce_addr env then (Inr False, c\<lparr>tc_last_error := ''invalid ego_host''\<rparr>)
      else if \<not> connect_loop env (tc_stop_requested c) 0
      then (Inr False, c\<lparr>tc_last_error :=
              ''connect failed to '' @ ego_host @ '':'' @ dec (unat data_port)\<rparr>)
      else
        let c' = c\<lparr>tc_fd := True, tc_stop_requested := False, tc_running := True\<rparr> in
        if tc_thread c then (Inl (), c')
        else (Inr True, c'\<lparr>tc_thread := True, tc_last_error := ''''\<rparr>))"

text \<open>\<open>Stop\<close>: joining waits for the loop, which has then cleared \<open>running_\<close>.\<close>

definition stop_client :: "tcp_client \<Rightarrow> tcp_client" where
  "stop_client c = c\<lparr>tc_stop_requested := True, tc_thread := False, tc_fd := False,
     tc_running := False\<rparr>"

lemma connect_loop_stopped: "connect_loop env True k = False"
  by (simp add: connect_loop.simps)

lemma connect_loop_iff:
  "connect_loop env stop k \<longleftrightarrow>
     (\<exists>j<200. k \<le> j \<and> ce_connect env j \<and> (\<forall>i. k \<le> i \<and> i \<le> j \<longrightarrow> \<not> (stop \<or> ce_stop env i)))"
proof (induction env stop k rule: connect_loop.induct)
  case (1 env stop k)
  show ?case
  proof (cases "k < 200 \<and> \<not> (stop \<or> ce_stop env k)")
    case False
    then show ?thesis by (subst connect_loop.simps) auto
  next
    case True
    from "1.IH" [OF True] True show ?thesis
      by (subst connect_loop.simps) (smt (verit, ccfv_threshold) Suc_eq_plus1 le_antisym not_less_eq_eq order_refl nat_le_linear)
  qed
qed

section \<open>The contract of the client\<close>

text \<open>C6: Whatever arrives on the socket and however it is segmented, the frames the receive loop hands
  on are whole valid frames, in stream order and without gaps from the start of the stream; their
  number is added to \<open>frames_received_\<close>, the loop ends with \<open>running_\<close> cleared, and iterating over
  the recorded concatenation gives exactly these frames back.\<close>

theorem tcp_delivers_valid_prefix:
  "\<exists>fs rest c'. receive_loop mx head seen (\<lambda>f fs. fs @ [f]) 0 sock (c, []) = (c', fs) \<and>
     stream_of sock = concat fs @ rest \<and> list_all (tcp_frame mx) fs \<and>
     tc_frames_received c' = tc_frames_received c + of_nat (length fs) \<and> \<not> tc_running c' \<and>
     for_each_contract_frame (concat fs) mx collect [] = (True, '''', fs)"
proof -
  obtain fs e where d: "deliveries mx head seen 0 (stream_of sock) = (fs, e)" by fastforce
  with deliveries_frames [of mx head seen 0 "stream_of sock"]
  have fs: "\<forall>f \<in> set fs. tcp_frame mx f" and rest: "\<exists>rest. stream_of sock = concat fs @ rest"
    by auto
  have "fold (\<lambda>f fs. fs @ [f]) gs acc = acc @ gs" for gs acc :: "bytes list"
    by (induction gs arbitrary: acc) auto
  moreover have "for_each_contract_frame (concat fs) mx collect [] = (True, '''', fs)"
    using fs by (intro for_each_concat) (simp add: tcp_frame_def)
  ultimately show ?thesis
    using fs rest d
    by (auto simp: receive_loop_deliveries finish_client_def list_all_iff split: option.splits)
qed

text \<open>C5: Segmentation is invisible: two sockets that carry the same bytes drive the client through the
  same deliveries to the same final state, error text included.\<close>

theorem tcp_segmentation_invisible:
  assumes "stream_of sock1 = stream_of sock2"
  shows "receive_loop mx head seen handler 0 sock1 cs = receive_loop mx head seen handler 0 sock2 cs"
  using assms by (cases cs) (simp add: receive_loop_deliveries)

theorem tcp_segmentation_invisible_witness:
  "receive_loop 65536 (\<lambda>_. False) (\<lambda>_. False) (\<lambda>f fs. fs @ [f]) 0
      [[0x45], [0x47, 0x4F], [0x31, 2, 0]] (new_tcp_client, []) =
   receive_loop 65536 (\<lambda>_. False) (\<lambda>_. False) (\<lambda>f fs. fs @ [f]) 0
      [[0x45, 0x47], [0x4F, 0x31, 2, 0]] (new_tcp_client, [])"
  by (rule tcp_segmentation_invisible) simp

text \<open>Lossless transport: frames sealed by the sender, with payloads within the limit, all arrive
  in order through any segmentation into non-empty segments, and the loop ends only at the end of
  the stream.\<close>

theorem tcp_lossless:
  assumes "\<forall>p \<in> set ps. length (snd (snd p)) \<le> unat mx"
    and "[] \<notin> set sock"
    and "concat sock = concat (map (\<lambda>(seq, ty, pl). build_contract_frame seq ty pl) ps)"
    and "\<forall>i. \<not> head i \<and> \<not> seen i"
  shows "receive_loop mx head seen handler 0 sock (c, s) =
    (c\<lparr>tc_frames_received := tc_frames_received c + of_nat (length ps),
       tc_last_error := ''read header failed'', tc_running := False\<rparr>,
     fold (\<lambda>(seq, ty, pl). handler (build_contract_frame seq ty pl)) ps s)"
proof -
  let ?b = "\<lambda>(seq, ty, pl). build_contract_frame seq ty pl"
  have "tcp_frame mx (?b p)" if "p \<in> set ps" for p
  proof -
    obtain seq ty pl where p: "p = (seq, ty, pl)" by (cases p)
    have "length pl \<le> unat mx" using assms(1) that p by auto
    then show ?thesis
      by (simp add: p tcp_frame_def built_frame_valid drop_build_contract_frame
          build_contract_frame_header Let_def make_frame_header_def)
  qed
  then have "deliveries mx head seen 0 (concat (map ?b ps) @ []) =
      (case deliveries mx head seen (0 + length (map ?b ps)) [] of (gs, e) \<Rightarrow> (map ?b ps @ gs, e))"
    using assms(4) by (intro deliveries_concat) auto
  moreover have "deliveries mx head seen n [] = ([], Some ''read header failed'')" for n
    using assms(4) by (subst deliveries.simps) (simp add: next_frame_def)
  moreover have "fold handler (map ?b ps) s = fold (\<lambda>(seq, ty, pl). handler (build_contract_frame seq ty pl)) ps s"
    by (simp add: fold_map o_def case_prod_unfold)
  ultimately show ?thesis
    using assms(2,3) by (simp add: receive_loop_deliveries stream_of_no_empty finish_client_def)
qed

theorem tcp_lossless_witness:
  "receive_loop 65536 (\<lambda>_. False) (\<lambda>_. False) (\<lambda>f fs. fs @ [f]) 0
     [build_contract_frame 1 IMU_WINDOW [9] @ build_contract_frame 2 SESSION_ENDED []]
     (new_tcp_client, []) =
   (new_tcp_client\<lparr>tc_frames_received := tc_frames_received new_tcp_client + of_nat 2,
      tc_last_error := ''read header failed'', tc_running := False\<rparr>,
    [build_contract_frame 1 IMU_WINDOW [9], build_contract_frame 2 SESSION_ENDED []])"
proof -
  have "build_contract_frame 1 IMU_WINDOW [9] \<noteq> []"
    by (simp flip: length_0_conv)
  then show ?thesis
    using tcp_lossless [of "[(1, IMU_WINDOW, [9]), (2, SESSION_ENDED, [])]" 65536
      "[build_contract_frame 1 IMU_WINDOW [9] @ build_contract_frame 2 SESSION_ENDED []]"
      "\<lambda>_. False" "\<lambda>_. False" "\<lambda>f fs. fs @ [f]" new_tcp_client "[]"]
    by simp
qed

text \<open>When \<open>Start\<close> succeeds: exactly if the client is already running, or the socket and address
  are good, one of the first 200 connection attempts succeeds before a stop is seen, no stop request
  is left over and no thread is still to be joined. So a client object starts at most once: after
  \<open>Stop\<close> the stale stop request makes every later \<open>Start\<close> fail without a connection attempt, and
  after the receive loop has ended by itself the old thread is in the way.\<close>

theorem tcp_start_iff:
  "fst (start_client env host port c) = Inr True \<longleftrightarrow>
     tc_running c \<or>
     ce_socket env \<and> ce_addr env \<and> \<not> tc_stop_requested c \<and> \<not> tc_thread c \<and>
     (\<exists>j<200. ce_connect env j \<and> (\<forall>i\<le>j. \<not> ce_stop env i))"
  by (auto simp: start_client_def Let_def connect_loop_iff)

theorem tcp_start_iff_witness:
  "fst (start_client \<lparr>ce_socket = True, ce_addr = True, ce_connect = (\<lambda>k. k = 3),
      ce_stop = (\<lambda>k. k = 4)\<rparr> ''10.0.0.2'' 5000 new_tcp_client) = Inr True \<and>
   fst (start_client \<lparr>ce_socket = True, ce_addr = True, ce_connect = (\<lambda>k. k = 3),
      ce_stop = (\<lambda>k. k = 4)\<rparr> ''10.0.0.2'' 5000 (stop_client new_tcp_client)) \<noteq> Inr True"
  unfolding tcp_start_iff by (simp add: new_tcp_client_def stop_client_def)

end
