(* ===== verification/LegacyProtocol.thy ===== *)
theory LegacyProtocol
  imports Crc
begin

text \<open>
  The recorder's own packet format, \<open>runtimepc/protocol/\<close>: the 34-byte header, serialisation
  (\<open>serialization.hpp\<close>), validation (\<open>validation.hpp\<close>) and the sequence guard
  (\<open>transport_guard.hpp\<close>). A thrown \<open>std::runtime_error\<close> is \<open>Inl\<close> of its message.
\<close>

section \<open>Types\<close>

definition kPacketMagic :: u32 where "kPacketMagic = 0x45574F48"
definition kProtocolVersion :: u16 where "kProtocolVersion = 1"
definition kPayloadVersion :: u16 where "kPayloadVersion = 1"

datatype packet_type =
  kAudioBlock | kCanFrame | kImuSample | kMotionState | kGpsFix | kSessionFrame | kDiagnostics
| kSessionMeta

primrec packet_type_u16 :: "packet_type \<Rightarrow> u16" where
  "packet_type_u16 kAudioBlock = 1"
| "packet_type_u16 kCanFrame = 2"
| "packet_type_u16 kImuSample = 3"
| "packet_type_u16 kMotionState = 4"
| "packet_type_u16 kGpsFix = 5"
| "packet_type_u16 kSessionFrame = 6"
| "packet_type_u16 kDiagnostics = 7"
| "packet_type_u16 kSessionMeta = 8"

datatype status_flag =
  kNone | kTimeValid | kChecksumValid | kOrderValid | kSyncDegraded | kSensorDropped

primrec status_flag_u32 :: "status_flag \<Rightarrow> u32" where
  "status_flag_u32 kNone = 0"
| "status_flag_u32 kTimeValid = 1"
| "status_flag_u32 kChecksumValid = 2"
| "status_flag_u32 kOrderValid = 4"
| "status_flag_u32 kSyncDegraded = 8"
| "status_flag_u32 kSensorDropped = 16"

definition has_flag :: "u32 \<Rightarrow> status_flag \<Rightarrow> bool" where
  "has_flag v flag \<longleftrightarrow> v AND status_flag_u32 flag \<noteq> 0"

definition is_known_packet_type :: "u16 \<Rightarrow> bool" where
  "is_known_packet_type ty \<longleftrightarrow>
     packet_type_u16 kAudioBlock \<le> ty \<and> ty \<le> packet_type_u16 kSessionMeta"

record packet_header =
  ph_magic :: u32
  ph_protocol_version :: u16
  ph_payload_version :: u16
  ph_type :: u16
  ph_payload_size :: u32
  ph_ts_ns :: u64
  ph_seq :: u32
  ph_status_flags :: u32
  ph_checksum :: u32

definition default_packet_header :: packet_header where
  "default_packet_header = \<lparr>ph_magic = kPacketMagic, ph_protocol_version = kProtocolVersion,
     ph_payload_version = kPayloadVersion, ph_type = packet_type_u16 kDiagnostics,
     ph_payload_size = 0, ph_ts_ns = 0, ph_seq = 0, ph_status_flags = status_flag_u32 kNone,
     ph_checksum = 0\<rparr>"

lemma known_packet_type_iff: "is_known_packet_type ty \<longleftrightarrow> (\<exists>t. packet_type_u16 t = ty)"
proof
  assume "is_known_packet_type ty"
  then have "1 \<le> unat ty \<and> unat ty \<le> 8"
    by (simp add: is_known_packet_type_def word_le_nat_alt)
  then have "unat ty \<in> {1, 2, 3, 4, 5, 6, 7, 8}" by auto
  then have "ty \<in> {1, 2, 3, 4, 5, 6, 7, 8}"
    by (auto simp: word_unat_eq_iff)
  then show "\<exists>t. packet_type_u16 t = ty" by (auto intro: packet_type_u16.simps)
next
  assume "\<exists>t. packet_type_u16 t = ty"
  then obtain t where "packet_type_u16 t = ty" ..
  then show "is_known_packet_type ty"
    by (cases t) (auto simp: is_known_packet_type_def)
qed

section \<open>Serialisation\<close>

text \<open>\<open>ReadPod\<close>: an \<open>n\<close>-byte integer at an offset.\<close>

definition read_pod :: "nat \<Rightarrow> bytes \<Rightarrow> nat \<Rightarrow> string + 'a::len word" where
  "read_pod n data offset =
     (if offset + n > length data then Inl ''decode overflow'' else Inr (rd offset n data))"

definition serialize_header :: "packet_header \<Rightarrow> bytes" where
  "serialize_header h =
     le_bytes 4 (ph_magic h) @ le_bytes 2 (ph_protocol_version h) @ le_bytes 2 (ph_payload_version h)
     @ le_bytes 2 (ph_type h) @ le_bytes 4 (ph_payload_size h) @ le_bytes 8 (ph_ts_ns h)
     @ le_bytes 4 (ph_seq h) @ le_bytes 4 (ph_status_flags h) @ le_bytes 4 (ph_checksum h)"

definition deserialize_header :: "bytes \<Rightarrow> string + packet_header" where
  "deserialize_header bs =
     (if length bs < 34 then Inl ''header too small''
      else
        sum_bind (read_pod 4 bs 0) (\<lambda>magic.
        sum_bind (read_pod 2 bs 4) (\<lambda>protocol_version.
        sum_bind (read_pod 2 bs 6) (\<lambda>payload_version.
        sum_bind (read_pod 2 bs 8) (\<lambda>ty.
        sum_bind (read_pod 4 bs 10) (\<lambda>payload_size.
        sum_bind (read_pod 8 bs 14) (\<lambda>ts_ns.
        sum_bind (read_pod 4 bs 22) (\<lambda>seq.
        sum_bind (read_pod 4 bs 26) (\<lambda>status_flags.
        sum_bind (read_pod 4 bs 30) (\<lambda>checksum.
        Inr \<lparr>ph_magic = magic, ph_protocol_version = protocol_version,
          ph_payload_version = payload_version, ph_type = ty, ph_payload_size = payload_size,
          ph_ts_ns = ts_ns, ph_seq = seq, ph_status_flags = status_flags,
          ph_checksum = checksum\<rparr>))))))))))"

definition serialize_packet :: "packet_header \<Rightarrow> bytes \<Rightarrow> bytes" where
  "serialize_packet header payload =
     (let header = header\<lparr>ph_payload_size := of_nat (length payload),
                          ph_checksum := protocol_crc32 payload\<rparr>
      in serialize_header header @ payload)"

definition deserialize_packet :: "bytes \<Rightarrow> string + (packet_header \<times> bytes)" where
  "deserialize_packet bs =
     sum_bind (deserialize_header bs) (\<lambda>header.
       let expected_size = 34 + unat (ph_payload_size header) in
       if expected_size \<noteq> length bs then Inl ''packet size mismatch''
       else Inr (header, drop 34 bs))"

lemma length_serialize_header [simp]: "length (serialize_header h) = 34"
  by (simp add: serialize_header_def)

text \<open>The header read at the nine fixed offsets.\<close>

definition packet_header_at :: "bytes \<Rightarrow> packet_header" where
  "packet_header_at bs =
     \<lparr>ph_magic = rd 0 4 bs, ph_protocol_version = rd 4 2 bs, ph_payload_version = rd 6 2 bs,
      ph_type = rd 8 2 bs, ph_payload_size = rd 10 4 bs, ph_ts_ns = rd 14 8 bs,
      ph_seq = rd 22 4 bs, ph_status_flags = rd 26 4 bs, ph_checksum = rd 30 4 bs\<rparr>"

lemma deserialize_header_at:
  "deserialize_header bs =
     (if length bs < 34 then Inl ''header too small'' else Inr (packet_header_at bs))"
  by (simp add: deserialize_header_def read_pod_def packet_header_at_def)

lemma packet_header_at_serialize [simp]: "packet_header_at (serialize_header h @ rest) = h"
  by (simp add: packet_header_at_def serialize_header_def rd_def le_simps take_bit_word_eq_self)

lemma packet_header_at_serialize_nil [simp]: "packet_header_at (serialize_header h) = h"
  using packet_header_at_serialize [of h "[]"] by simp

lemma serialize_packet_header_at:
  assumes "34 \<le> length bs"
  shows "serialize_header (packet_header_at bs) = take 34 bs"
proof -
  have "serialize_header (packet_header_at bs) =
      slice 0 4 bs @ slice 4 2 bs @ slice 6 2 bs @ slice 8 2 bs @ slice 10 4 bs @ slice 14 8 bs
      @ slice 22 4 bs @ slice 26 4 bs @ slice 30 4 bs"
    using assms by (simp add: serialize_header_def packet_header_at_def le_bytes_rd)
  also have "\<dots> = slice 0 34 bs"
    using slice_join [of 26 4 bs 4] slice_join [of 22 4 bs 8] slice_join [of 14 8 bs 12]
      slice_join [of 10 4 bs 20] slice_join [of 8 2 bs 24] slice_join [of 6 2 bs 26]
      slice_join [of 4 2 bs 28] slice_join [of 0 4 bs 30]
    by simp
  finally show ?thesis by (simp add: slice_def)
qed

lemma deserialize_packet_at:
  "deserialize_packet bs =
     (if length bs < 34 then Inl ''header too small''
      else if 34 + unat (ph_payload_size (packet_header_at bs)) \<noteq> length bs
      then Inl ''packet size mismatch''
      else Inr (packet_header_at bs, drop 34 bs))"
  by (simp add: deserialize_packet_def deserialize_header_at Let_def)

text \<open>Packets with an encoding: the size field is the size of the payload.\<close>

definition packet_image :: "packet_header \<times> bytes \<Rightarrow> bytes" where
  "packet_image p = serialize_header (fst p) @ snd p"

definition sized_packet :: "packet_header \<times> bytes \<Rightarrow> bool" where
  "sized_packet p \<longleftrightarrow> unat (ph_payload_size (fst p)) = length (snd p)"

definition parse_packet :: "bytes \<Rightarrow> (packet_header \<times> bytes) option" where
  "parse_packet bs = (case deserialize_packet bs of Inl _ \<Rightarrow> None | Inr p \<Rightarrow> Some p)"

interpretation legacy: codec packet_image parse_packet sized_packet
proof
  fix p
  assume "sized_packet p"
  then show "parse_packet (packet_image p) = Some p"
    by (cases p)
      (simp add: parse_packet_def packet_image_def sized_packet_def deserialize_packet_at)
next
  fix bs p
  assume "parse_packet bs = Some p"
  then have "34 \<le> length bs" "34 + unat (ph_payload_size (packet_header_at bs)) = length bs"
    "p = (packet_header_at bs, drop 34 bs)"
    by (auto simp: parse_packet_def deserialize_packet_at split: if_splits)
  then show "sized_packet p \<and> packet_image p = bs"
    by (simp add: sized_packet_def packet_image_def serialize_packet_header_at)
qed

text \<open>The recorder's packet format is a bijection between sized packets and byte strings:
  \<open>DeserializePacket\<close> succeeds on a string exactly if it is the image of a packet whose size field
  is right, and returns that packet; in particular it undoes \<open>SerializePacket\<close>, which sets the size
  and checksum fields itself.\<close>

theorem packet_codec:
  assumes "length payload < 2 ^ 32"
  shows "(deserialize_packet bs = Inr (h, payload) \<longleftrightarrow>
      unat (ph_payload_size h) = length payload \<and> bs = serialize_header h @ payload) \<and>
    deserialize_packet (serialize_packet h payload) =
      Inr (h\<lparr>ph_payload_size := of_nat (length payload), ph_checksum := protocol_crc32 payload\<rparr>,
           payload)"
  using assms
  using legacy.dec_iff [of bs "(h, payload)"]
  by (auto simp: parse_packet_def packet_image_def sized_packet_def serialize_packet_def Let_def
      deserialize_packet_at unat_of_nat take_bit_nat_eq_self split: sum.splits)

theorem packet_codec_witness:
  "deserialize_packet (serialize_packet default_packet_header [7, 8]) =
     Inr (default_packet_header\<lparr>ph_payload_size := of_nat (length [7, 8 :: byte]),
            ph_checksum := protocol_crc32 [7, 8]\<rparr>, [7, 8])"
  by (rule packet_codec [THEN conjunct2]) simp

lemma protocol_crc32_Nil [simp]: "protocol_crc32 [] = 0"
  by (simp add: protocol_crc32_def)

section \<open>Validation\<close>

record validation_result =
  vr_accepted :: bool
  vr_reason :: string

definition validate_packet_verbose :: "packet_header \<Rightarrow> bytes \<Rightarrow> u32 \<Rightarrow> validation_result" where
  "validate_packet_verbose header payload max_payload_bytes =
     (if ph_magic header \<noteq> kPacketMagic
      then \<lparr>vr_accepted = False, vr_reason = ''invalid magic''\<rparr>
      else if ph_protocol_version header \<noteq> kProtocolVersion
      then \<lparr>vr_accepted = False, vr_reason = ''unsupported protocol_version''\<rparr>
      else if ph_payload_version header \<noteq> kPayloadVersion
      then \<lparr>vr_accepted = False, vr_reason = ''unsupported payload_version''\<rparr>
      else if \<not> is_known_packet_type (ph_type header)
      then \<lparr>vr_accepted = False, vr_reason = ''unknown packet type''\<rparr>
      else if ph_payload_size header > max_payload_bytes
      then \<lparr>vr_accepted = False, vr_reason = ''payload_size exceeds limit''\<rparr>
      else if unat (ph_payload_size header) \<noteq> length payload
      then \<lparr>vr_accepted = False, vr_reason = ''payload_size mismatch''\<rparr>
      else if ph_checksum header \<noteq> protocol_crc32 payload
      then \<lparr>vr_accepted = False, vr_reason = ''checksum mismatch''\<rparr>
      else \<lparr>vr_accepted = True, vr_reason = ''ok''\<rparr>)"

definition validate_packet :: "packet_header \<Rightarrow> bytes \<Rightarrow> u32 \<Rightarrow> bool" where
  "validate_packet header payload max_payload_bytes =
     vr_accepted (validate_packet_verbose header payload max_payload_bytes)"

section \<open>The sequence guard\<close>

record transport_counters =
  tr_accepted :: u64
  tr_rejected :: u64
  tr_out_of_order :: u64
  tr_seq_gaps :: u64
  tr_packets_lost :: u64
  tr_wraparound_events :: u64

datatype reject_reason =
  RNone | RParseError | RInvalidMagic | RInvalidVersion | RBadLength | RBadChecksum | ROutOfOrder
| RUnknownType

record transport_guard =
  tg_max_payload_bytes :: u32
  tg_last_seq :: u32
  tg_seen_first :: bool
  tg_counters :: transport_counters

definition new_transport_guard :: "u32 \<Rightarrow> transport_guard" where
  "new_transport_guard mx = \<lparr>tg_max_payload_bytes = mx, tg_last_seq = 0, tg_seen_first = False,
     tg_counters = \<lparr>tr_accepted = 0, tr_rejected = 0, tr_out_of_order = 0, tr_seq_gaps = 0,
       tr_packets_lost = 0, tr_wraparound_events = 0\<rparr>\<rparr>"

definition reason_from_validation :: "string \<Rightarrow> reject_reason" where
  "reason_from_validation reason =
     (if reason = ''invalid magic'' then RInvalidMagic
      else if reason = ''checksum mismatch'' then RBadChecksum
      else if reason = ''payload_size mismatch'' \<or> reason = ''payload_size exceeds limit''
      then RBadLength
      else if reason = ''unsupported protocol_version'' \<or> reason = ''unsupported payload_version''
      then RInvalidVersion
      else if reason = ''unknown packet type'' then RUnknownType
      else RParseError)"

abbreviation reject :: "transport_counters \<Rightarrow> transport_counters" where
  "reject c \<equiv> c\<lparr>tr_rejected := tr_rejected c + 1\<rparr>"

text \<open>The sequence check of an accepted packet. \<open>diff\<close> is the signed 32-bit difference; the counters
  are those after the wrap-around and gap updates.\<close>

definition sequence_check ::
  "transport_guard \<Rightarrow> u32 \<Rightarrow> transport_counters option"
where
  "sequence_check g seq =
     (let c = tg_counters g in
      if \<not> tg_seen_first g then Some c
      else
        let diff = sint (seq - tg_last_seq g) in
        if diff \<le> 0 then None
        else
          let c1 = (if seq < tg_last_seq g
                    then c\<lparr>tr_wraparound_events := tr_wraparound_events c + 1\<rparr> else c)
          in Some (if diff > 1
                   then c1\<lparr>tr_seq_gaps := tr_seq_gaps c1 + 1,
                           tr_packets_lost := tr_packets_lost c1 + of_int (diff - 1)\<rparr>
                   else c1))"

definition validate_detailed ::
  "bytes \<Rightarrow> transport_guard \<Rightarrow> (bool \<times> reject_reason) \<times> transport_guard"
where
  "validate_detailed packet_bytes g =
     (let c = tg_counters g in
      case deserialize_packet packet_bytes of
        Inl _ \<Rightarrow> ((False, RParseError), g\<lparr>tg_counters := reject c\<rparr>)
      | Inr (header, payload) \<Rightarrow>
          let v = validate_packet_verbose header payload (tg_max_payload_bytes g) in
          if \<not> vr_accepted v
          then ((False, reason_from_validation (vr_reason v)), g\<lparr>tg_counters := reject c\<rparr>)
          else
            (case sequence_check g (ph_seq header) of
               None \<Rightarrow>
                 ((False, ROutOfOrder), g\<lparr>tg_counters :=
                    (reject c)\<lparr>tr_out_of_order := tr_out_of_order c + 1\<rparr>\<rparr>)
             | Some c' \<Rightarrow>
                 ((True, RNone), g\<lparr>tg_last_seq := ph_seq header, tg_seen_first := True,
                    tg_counters := c'\<lparr>tr_accepted := tr_accepted c' + 1\<rparr>\<rparr>)))"

definition validate :: "bytes \<Rightarrow> transport_guard \<Rightarrow> bool \<times> transport_guard" where
  "validate packet_bytes g =
     (case validate_detailed packet_bytes g of ((accepted, _), g') \<Rightarrow> (accepted, g'))"

text \<open>A run of the guard over a sequence of packets: the accepted ones, in order.\<close>

fun guard_run :: "bytes list \<Rightarrow> transport_guard \<Rightarrow> bytes list \<times> transport_guard" where
  "guard_run [] g = ([], g)"
| "guard_run (p # ps) g =
     (case validate p g of (ok, g') \<Rightarrow>
       (case guard_run ps g' of (out, g'') \<Rightarrow> (if ok then p # out else out, g'')))"

subsection \<open>The accounting invariant\<close>

definition seq_of :: "bytes \<Rightarrow> u32" where
  "seq_of p = ph_seq (packet_header_at p)"

text \<open>What the guard accepts: a parsable packet that passes validation.\<close>

definition sound_packet :: "u32 \<Rightarrow> bytes \<Rightarrow> bool" where
  "sound_packet mx p \<longleftrightarrow> (\<exists>h payload. deserialize_packet p = Inr (h, payload)
     \<and> validate_packet h payload mx)"

text \<open>After \<open>n\<close> packets, \<open>out\<close> being the accepted ones: every packet is accepted or rejected, the
  accepted ones are sound and strictly increasing in serial-number order, and the sequence numbers
  from the first to the last accepted packet are accounted for by the accepted and the lost ones.\<close>

definition guard_inv :: "u32 \<Rightarrow> nat \<Rightarrow> bytes list \<Rightarrow> transport_guard \<Rightarrow> bool" where
  "guard_inv mx n out g \<longleftrightarrow>
     (let c = tg_counters g in
       tg_max_payload_bytes g = mx \<and> list_all (sound_packet mx) out \<and>
       tr_accepted c = of_nat (length out) \<and> tr_accepted c + tr_rejected c = of_nat n \<and>
       (tg_seen_first g \<longleftrightarrow> out \<noteq> []) \<and>
       successively (\<lambda>a b. 0 < sint (seq_of b - seq_of a)) out \<and>
       (if out = [] then tr_packets_lost c = 0
        else tg_last_seq g = seq_of (last out) \<and>
          seq_of (last out) - seq_of (hd out) + 1 = ucast (tr_accepted c + tr_packets_lost c)))"

lemma ucast_of_sint: "(ucast (of_int (sint (d :: u32)) :: u64) :: u32) = d"
proof (rule bit_word_eqI)
  fix n
  assume "n < LENGTH(32)"
  then have "min 31 n = n" by simp
  then show "bit (ucast (of_int (sint d) :: u64) :: u32) n = bit d n"
    using \<open>n < LENGTH(32)\<close> by (simp add: bit_ucast_iff bit_signed_iff)
qed

lemma ucast_add_u32: "(ucast (a + b :: u64) :: u32) = ucast a + ucast b"
proof -
  have u: "(ucast w :: u32) = of_nat (unat w)" for w :: u64 by simp
  have "unat (a + b) mod 2 ^ 32 = (unat a + unat b) mod 2 ^ 32"
    by (simp add: unat_word_ariths mod_mod_cancel)
  moreover have "x mod 2 ^ 32 = y mod 2 ^ 32 \<Longrightarrow> (of_nat x :: u32) = of_nat y" for x y
    by (simp add: word_of_nat_eq_iff take_bit_eq_mod)
  ultimately have "(of_nat (unat (a + b)) :: u32) = of_nat (unat a + unat b)" by blast
  then show ?thesis by (simp only: u of_nat_add)
qed

text \<open>The lost counter grows by the signed difference less one.\<close>

lemma sequence_check_Some:
  assumes "sequence_check g seq = Some c'"
  shows "tr_accepted c' = tr_accepted (tg_counters g)"
    and "tr_rejected c' = tr_rejected (tg_counters g)"
    and "\<not> tg_seen_first g \<Longrightarrow> c' = tg_counters g"
    and "tg_seen_first g \<Longrightarrow> 0 < sint (seq - tg_last_seq g) \<and>
      tr_packets_lost c' + 1 = tr_packets_lost (tg_counters g) + of_int (sint (seq - tg_last_seq g))"
proof -
  let ?d = "sint (seq - tg_last_seq g)"
  have "(scast (seq - tg_last_seq g) :: u64) = 1" if "\<not> ?d \<le> 0" "\<not> 1 < ?d"
  proof -
    have "?d = 1" using that by linarith
    then have "(of_int ?d :: u64) = 1" by (simp only: of_int_1)
    then show ?thesis by simp
  qed
  then show "tr_accepted c' = tr_accepted (tg_counters g)"
    and "tr_rejected c' = tr_rejected (tg_counters g)"
    and "\<not> tg_seen_first g \<Longrightarrow> c' = tg_counters g"
    and "tg_seen_first g \<Longrightarrow> 0 < ?d \<and>
      tr_packets_lost c' + 1 = tr_packets_lost (tg_counters g) + of_int ?d"
    using assms by (auto simp: sequence_check_def Let_def split: if_splits)
qed

lemma validate_cases:
  obtains (rejected) "validate p g =
      (False, g\<lparr>tg_counters := reject (tg_counters g)\<rparr>)"
  | (out_of_order) "tg_seen_first g" "sint (seq_of p - tg_last_seq g) \<le> 0"
    "validate p g = (False, g\<lparr>tg_counters := (reject (tg_counters g))
      \<lparr>tr_out_of_order := tr_out_of_order (tg_counters g) + 1\<rparr>\<rparr>)"
  | (accepted) c' where "sound_packet (tg_max_payload_bytes g) p"
    "sequence_check g (seq_of p) = Some c'"
    "validate p g = (True, g\<lparr>tg_last_seq := seq_of p, tg_seen_first := True,
       tg_counters := c'\<lparr>tr_accepted := tr_accepted c' + 1\<rparr>\<rparr>)"
proof (cases "deserialize_packet p")
  case (Inl e)
  then show ?thesis by (intro rejected) (simp add: validate_def validate_detailed_def Let_def)
next
  case (Inr hp)
  then have hp: "hp = (packet_header_at p, drop 34 p)"
    by (auto simp: deserialize_packet_at split: if_splits)
  let ?v = "validate_packet_verbose (packet_header_at p) (drop 34 p) (tg_max_payload_bytes g)"
  show ?thesis
  proof (cases "vr_accepted ?v")
    case False
    with Inr hp show ?thesis
      by (intro rejected) (simp add: validate_def validate_detailed_def Let_def)
  next
    case True
    with Inr hp have s: "sound_packet (tg_max_payload_bytes g) p"
      by (auto simp: sound_packet_def validate_packet_def)
    show ?thesis
    proof (cases "sequence_check g (seq_of p)")
      case None
      with True Inr hp show ?thesis
        by (intro out_of_order)
          (auto simp: validate_def validate_detailed_def Let_def seq_of_def sequence_check_def
            split: if_splits)
    next
      case (Some c')
      with True Inr hp s show ?thesis
        by (intro accepted [of c'])
          (simp_all add: validate_def validate_detailed_def Let_def seq_of_def)
    qed
  qed
qed

lemma successively_snoc:
  "successively P (xs @ [x]) \<longleftrightarrow> successively P xs \<and> (xs = [] \<or> P (last xs) x)"
  by (simp add: successively_append_iff)

lemma guard_inv_step:
  assumes inv: "guard_inv mx n out g" and v: "validate p g = (ok, g')"
  shows "guard_inv mx (Suc n) (if ok then out @ [p] else out) g'"
proof (cases rule: validate_cases [of p g])
  case rejected
  with inv v show ?thesis by (auto simp: guard_inv_def Let_def algebra_simps)
next
  case out_of_order
  with inv v show ?thesis by (auto simp: guard_inv_def Let_def algebra_simps)
next
  case (accepted c')
  note sc = sequence_check_Some [OF accepted(2)]
  have g': "ok" "g' = g\<lparr>tg_last_seq := seq_of p, tg_seen_first := True,
      tg_counters := c'\<lparr>tr_accepted := tr_accepted c' + 1\<rparr>\<rparr>"
    using accepted(3) v by auto
  show ?thesis
  proof (cases "out = []")
    case True
    with inv accepted sc(3) g' show ?thesis
      by (auto simp: guard_inv_def Let_def)
  next
    case False
    with inv have seen: "tg_seen_first g" and last: "tg_last_seq g = seq_of (last out)"
      and acc: "seq_of (last out) - seq_of (hd out) + 1
        = ucast (tr_accepted (tg_counters g) + tr_packets_lost (tg_counters g))"
      by (auto simp: guard_inv_def Let_def)
    let ?d = "seq_of p - seq_of (last out)"
    from sc(4) [OF seen] last have d: "0 < sint ?d"
      and lost: "tr_packets_lost c' + 1 = tr_packets_lost (tg_counters g) + of_int (sint ?d)"
      by auto
    have "tr_accepted c' + 1 + tr_packets_lost c'
        = tr_accepted (tg_counters g) + (tr_packets_lost c' + 1)"
      using sc(1) by simp
    then have "ucast (tr_accepted c' + 1 + tr_packets_lost c')
        = (ucast (tr_accepted (tg_counters g) + tr_packets_lost (tg_counters g)
            + of_int (sint ?d)) :: u32)"
      by (simp only: lost add.assoc)
    also have "\<dots> = seq_of (last out) - seq_of (hd out) + 1 + ?d"
      unfolding ucast_add_u32 [of _ "of_int (sint ?d)"] acc [symmetric] ucast_of_sint ..
    finally have "seq_of p - seq_of (hd out) + 1 = ucast (tr_accepted c' + 1 + tr_packets_lost c')"
      by simp
    with inv accepted(1) sc(1,2) g' d False show ?thesis
      by (auto simp: guard_inv_def Let_def successively_snoc algebra_simps)
  qed
qed

lemma guard_inv_run:
  "guard_inv mx n out0 g \<Longrightarrow> guard_run ps g = (out, g') \<Longrightarrow>
     guard_inv mx (n + length ps) (out0 @ out) g'"
proof (induction ps arbitrary: n out0 g out)
  case Nil
  then show ?case by simp
next
  case (Cons p ps)
  obtain ok g1 where v: "validate p g = (ok, g1)" by fastforce
  obtain out1 where r: "guard_run ps g1 = (out1, g')"
    using Cons.prems(2) v by (auto split: prod.splits)
  from Cons.IH [OF guard_inv_step [OF Cons.prems(1) v] r] Cons.prems(2) v r
  show ?case by (auto split: if_splits)
qed

lemma guard_inv_new: "guard_inv mx 0 [] (new_transport_guard mx)"
  by (simp add: guard_inv_def new_transport_guard_def)

text \<open>Bookkeeping of the transport guard over any sequence of received packets: every packet is
  counted once, as accepted or rejected; the accepted ones are sound, in strictly increasing
  serial-number order (so duplicates and replays never pass), and
  \<open>accepted + packets_lost\<close> equals the length of the sequence-number range they span, across
  32-bit wrap-around.\<close>

theorem transport_guard_accounting:
  assumes "guard_run ps (new_transport_guard mx) = (out, g)"
  shows "tr_accepted (tg_counters g) = of_nat (length out) \<and>
    tr_accepted (tg_counters g) + tr_rejected (tg_counters g) = of_nat (length ps) \<and>
    list_all (sound_packet mx) out \<and>
    successively (\<lambda>a b. 0 < sint (seq_of b - seq_of a)) out \<and>
    (out = [] \<or> seq_of (last out) - seq_of (hd out) + 1 =
       ucast (tr_accepted (tg_counters g) + tr_packets_lost (tg_counters g)))"
  using guard_inv_run [OF guard_inv_new assms] by (auto simp: guard_inv_def Let_def split: if_splits)

definition demo_packet :: "u32 \<Rightarrow> bytes" where
  "demo_packet seq = serialize_packet (default_packet_header\<lparr>ph_seq := seq\<rparr>) []"

lemma demo_packet_simps:
  "deserialize_packet (demo_packet seq) = Inr (default_packet_header\<lparr>ph_seq := seq\<rparr>, [])"
  "seq_of (demo_packet seq) = seq"
  by (simp_all add: demo_packet_def serialize_packet_def Let_def deserialize_packet_at seq_of_def
      default_packet_header_def)

lemma demo_packet_valid:
  "vr_accepted (validate_packet_verbose (default_packet_header\<lparr>ph_seq := seq\<rparr>) [] mx)"
  by (simp add: validate_packet_verbose_def default_packet_header_def is_known_packet_type_def)

theorem transport_guard_accounting_witness:
  "\<exists>g. guard_run [demo_packet 0xFFFFFFFE, demo_packet 3, demo_packet 3] (new_transport_guard 8192)
     = ([demo_packet 0xFFFFFFFE, demo_packet 3], g) \<and>
   tr_accepted (tg_counters g) = 2 \<and> tr_rejected (tg_counters g) = 1 \<and>
   (3 :: u32) - 0xFFFFFFFE + 1 = ucast (tr_accepted (tg_counters g) + tr_packets_lost (tg_counters g))"
proof -
  obtain g where r: "guard_run [demo_packet 0xFFFFFFFE, demo_packet 3, demo_packet 3]
      (new_transport_guard 8192) = ([demo_packet 0xFFFFFFFE, demo_packet 3], g)"
    by (simp add: validate_def validate_detailed_def Let_def demo_packet_simps demo_packet_valid
        sequence_check_def new_transport_guard_def)
  note acc = transport_guard_accounting [OF r]
  then have a: "tr_accepted (tg_counters g) = 2" by simp
  have "tr_accepted (tg_counters g) + tr_rejected (tg_counters g)
      = of_nat (length [demo_packet 0xFFFFFFFE, demo_packet 3, demo_packet 3])"
    using acc by blast
  also have "\<dots> = 3" by simp
  finally have ar: "tr_accepted (tg_counters g) + tr_rejected (tg_counters g) = 3" .
  have "tr_rejected (tg_counters g) = 3 - 2"
    using a ar by (metis add_diff_cancel_left')
  then have "tr_rejected (tg_counters g) = 1" by simp
  moreover have "(3 :: u32) - 0xFFFFFFFE + 1
      = ucast (tr_accepted (tg_counters g) + tr_packets_lost (tg_counters g))"
    using acc by (simp add: demo_packet_simps a)
  ultimately show ?thesis using r a by blast
qed

end
