(* ===== verification/PacketBuffer.thy ===== *)
theory PacketBuffer
  imports Prelude
begin

text \<open>
  The bounded queue between the receiver thread and the writer thread,
  \<open>runtimepc/include/ego_runtime/packet_buffer.hpp\<close>. Every operation holds the mutex for its whole
  body, so a history of the shared buffer is a sequence of whole operations. The contract its users
  rely on is the locale \<open>lossy_fifo\<close>; the class is its interpretation.
\<close>

section \<open>The contract: a FIFO that may forget its oldest elements\<close>

datatype 'a queue_op = Push_op 'a | Pop_op

fun run_queue ::
  "('a \<Rightarrow> 'q \<Rightarrow> 'q) \<Rightarrow> ('q \<Rightarrow> 'a option \<times> 'q) \<Rightarrow> 'a queue_op list \<Rightarrow> 'q \<Rightarrow> 'a list \<times> 'q"
where
  "run_queue push pop [] q = ([], q)"
| "run_queue push pop (Push_op x # ops) q = run_queue push pop ops (push x q)"
| "run_queue push pop (Pop_op # ops) q = (case pop q of
     (None, q') \<Rightarrow> run_queue push pop ops q'
   | (Some x, q') \<Rightarrow> (case run_queue push pop ops q' of (out, q'') \<Rightarrow> (x # out, q'')))"

fun pushed :: "'a queue_op list \<Rightarrow> 'a list" where
  "pushed [] = []"
| "pushed (Push_op x # ops) = x # pushed ops"
| "pushed (Pop_op # ops) = pushed ops"

locale lossy_fifo =
  fixes push :: "'a \<Rightarrow> 'q \<Rightarrow> 'q"
    and pop :: "'q \<Rightarrow> 'a option \<times> 'q"
    and items :: "'q \<Rightarrow> 'a list"
    and dropped :: "'q \<Rightarrow> u64"
  assumes push_items: "\<exists>k \<le> length (items q).
      items (push x q) = drop k (items q) @ [x] \<and> dropped (push x q) = dropped q + of_nat k"
    and pop_items: "pop q = (None, q') \<Longrightarrow> items q = [] \<and> q' = q"
      "pop q = (Some x, q') \<Longrightarrow> items q = x # items q' \<and> dropped q' = dropped q"
begin

text \<open>Nothing is invented, duplicated or reordered, and everything missing is counted as dropped.\<close>

lemma run_accounting:
  assumes "run_queue push pop ops q = (out, q')"
  shows "subseq (out @ items q') (items q @ pushed ops) \<and>
    of_nat (length (items q) + length (pushed ops)) + dropped q =
    of_nat (length out + length (items q')) + dropped q'"
  using assms
proof (induction ops arbitrary: out q)
  case Nil
  then show ?case by simp
next
  case (Cons oper ops)
  show ?case
  proof (cases oper)
  case (Push_op x)
  obtain k where k: "k \<le> length (items q)" "items (push x q) = drop k (items q) @ [x]"
    "dropped (push x q) = dropped q + of_nat k"
    using push_items by blast
  have "subseq (drop k (items q) @ x # pushed ops) (items q @ x # pushed ops)"
    by (intro list_emb_append_mono suffix_imp_subseq suffix_drop) auto
  moreover have "subseq (out @ items q') (drop k (items q) @ x # pushed ops)"
    and "of_nat (length (drop k (items q)) + 1 + length (pushed ops)) + (dropped q + of_nat k)
      = of_nat (length out + length (items q')) + dropped q'"
    using Cons.IH [of "push x q" out] Cons.prems Push_op k by auto
  moreover have "length (items q) + length (pushed (Push_op x # ops))
      = (length (drop k (items q)) + 1 + length (pushed ops)) + k"
    using k(1) by simp
  then have "of_nat (length (items q) + length (pushed (Push_op x # ops))) + dropped q
      = of_nat (length (drop k (items q)) + 1 + length (pushed ops)) + (dropped q + of_nat k)"
    by (simp only: of_nat_add add.assoc add.commute add.left_commute)
  ultimately show ?thesis
    by (auto simp: Push_op intro: subseq_order.trans)
next
  case Pop_op
  obtain r q1 where p: "pop q = (r, q1)" by fastforce
  show ?thesis
  proof (cases r)
    case None
    with p pop_items(1) [of q q1] have "items q = []" "pop q = (None, q)" by auto
    with Cons.IH [of q out] Cons.prems Pop_op show ?thesis by simp
  next
    case (Some x)
    with p pop_items(2) [of q x q1] have q1: "items q = x # items q1" "dropped q1 = dropped q"
      by auto
    obtain out1 where r: "run_queue push pop ops q1 = (out1, q')" "out = x # out1"
      using Cons.prems Pop_op p Some by (auto split: prod.splits)
    from Cons.IH [OF r(1)] q1 r(2) Pop_op show ?thesis by (simp add: add.assoc)
  qed
  qed
qed

end

section \<open>The class\<close>

record packet_buffer =
  pb_capacity_packets :: nat
  pb_max_bytes :: u64
  pb_queue :: "bytes list"
  pb_total_bytes :: u64
  pb_dropped :: u64
  pb_degraded :: bool

definition new_packet_buffer :: "nat \<Rightarrow> u64 \<Rightarrow> packet_buffer" where
  "new_packet_buffer capacity max_bytes = \<lparr>pb_capacity_packets = capacity,
     pb_max_bytes = max_bytes, pb_queue = [], pb_total_bytes = 0, pb_dropped = 0,
     pb_degraded = False\<rparr>"

text \<open>The eviction loop of \<open>Push\<close>, for an incoming packet of \<open>n\<close> bytes.\<close>

function evict :: "nat \<Rightarrow> packet_buffer \<Rightarrow> packet_buffer" where
  "evict n b =
     (if pb_queue b \<noteq> [] \<and>
         (length (pb_queue b) \<ge> pb_capacity_packets b
          \<or> pb_total_bytes b + of_nat n > pb_max_bytes b)
      then evict n (b\<lparr>pb_total_bytes := pb_total_bytes b - of_nat (length (hd (pb_queue b))),
                     pb_queue := tl (pb_queue b), pb_dropped := pb_dropped b + 1,
                     pb_degraded := True\<rparr>)
      else b)"
  by pat_completeness auto
termination by (relation "measure (\<lambda>(n, b). length (pb_queue b))") auto

declare evict.simps [simp del]

definition push :: "bytes \<Rightarrow> packet_buffer \<Rightarrow> packet_buffer" where
  "push packet b =
     (let b' = evict (length packet) b in
      b'\<lparr>pb_total_bytes := pb_total_bytes b' + of_nat (length packet),
         pb_queue := pb_queue b' @ [packet]\<rparr>)"

definition pop :: "packet_buffer \<Rightarrow> bytes option \<times> packet_buffer" where
  "pop b =
     (case pb_queue b of
        [] \<Rightarrow> (None, b)
      | packet # rest \<Rightarrow>
          (Some packet, b\<lparr>pb_queue := rest,
             pb_total_bytes := pb_total_bytes b - of_nat (length packet)\<rparr>))"

definition size_of :: "packet_buffer \<Rightarrow> nat" where "size_of b = length (pb_queue b)"

definition dropped_of :: "packet_buffer \<Rightarrow> u64" where "dropped_of b = pb_dropped b"

definition degraded_of :: "packet_buffer \<Rightarrow> bool" where "degraded_of b = pb_degraded b"

section \<open>The class keeps the contract\<close>

definition bytes_in :: "bytes list \<Rightarrow> nat" where
  "bytes_in q = sum_list (map length q)"

lemma bytes_in_simps [simp]:
  "bytes_in [] = 0" "bytes_in (p # q) = length p + bytes_in q"
  "bytes_in (q @ r) = bytes_in q + bytes_in r"
  by (simp_all add: bytes_in_def)

lemma evict_spec:
  "\<exists>k \<le> length (pb_queue b). evict n b = b\<lparr>pb_queue := drop k (pb_queue b),
      pb_total_bytes := pb_total_bytes b - of_nat (bytes_in (take k (pb_queue b))),
      pb_dropped := pb_dropped b + of_nat k, pb_degraded := (pb_degraded b \<or> 0 < k)\<rparr>
    \<and> (drop k (pb_queue b) = [] \<or> length (drop k (pb_queue b)) < pb_capacity_packets b
        \<and> pb_total_bytes (evict n b) + of_nat n \<le> pb_max_bytes b)
    \<and> (\<forall>j<k. length (drop j (pb_queue b)) \<ge> pb_capacity_packets b \<or>
         pb_total_bytes b - of_nat (bytes_in (take j (pb_queue b))) + of_nat n > pb_max_bytes b)"
proof (induction n b rule: evict.induct)
  case (1 n b)
  show ?case
  proof (cases "pb_queue b \<noteq> [] \<and> (length (pb_queue b) \<ge> pb_capacity_packets b
      \<or> pb_total_bytes b + of_nat n > pb_max_bytes b)")
    case False
    then show ?thesis
      by (intro exI [of _ 0]) (auto simp: evict.simps [of n b] not_le not_less)
  next
    case True
    then obtain p q where q: "pb_queue b = p # q" by (cases "pb_queue b") auto
    let ?b' = "b\<lparr>pb_total_bytes := pb_total_bytes b - of_nat (length (hd (pb_queue b))),
        pb_queue := tl (pb_queue b), pb_dropped := pb_dropped b + 1, pb_degraded := True\<rparr>"
    have e: "evict n b = evict n ?b'" using True by (subst evict.simps) simp
    have q': "pb_queue ?b' = q" using q by simp
    from "1.IH" [OF True] obtain k where k: "k \<le> length (pb_queue ?b')"
      "evict n ?b' = ?b'\<lparr>pb_queue := drop k (pb_queue ?b'),
        pb_total_bytes := pb_total_bytes ?b' - of_nat (bytes_in (take k (pb_queue ?b'))),
        pb_dropped := pb_dropped ?b' + of_nat k, pb_degraded := (pb_degraded ?b' \<or> 0 < k)\<rparr>"
      "drop k (pb_queue ?b') = [] \<or> length (drop k (pb_queue ?b')) < pb_capacity_packets ?b'
        \<and> pb_total_bytes (evict n ?b') + of_nat n \<le> pb_max_bytes ?b'"
      "\<forall>j<k. length (drop j (pb_queue ?b')) \<ge> pb_capacity_packets ?b' \<or>
         pb_total_bytes ?b' - of_nat (bytes_in (take j (pb_queue ?b'))) + of_nat n
           > pb_max_bytes ?b'"
      by blast
    note k = k [unfolded q']
    show ?thesis
    proof (intro exI [of _ "Suc k"] conjI allI impI)
      fix j assume "j < Suc k"
      then show "length (drop j (pb_queue b)) \<ge> pb_capacity_packets b \<or>
         pb_total_bytes b - of_nat (bytes_in (take j (pb_queue b))) + of_nat n > pb_max_bytes b"
        using True k(4) by (cases j) (auto simp: q algebra_simps)
    qed (use k e q in \<open>auto simp: algebra_simps\<close>)
  qed
qed

interpretation pb: lossy_fifo push pop pb_queue pb_dropped
proof
  fix q :: packet_buffer and x :: bytes
  show "\<exists>k \<le> length (pb_queue q). pb_queue (push x q) = drop k (pb_queue q) @ [x]
      \<and> pb_dropped (push x q) = pb_dropped q + of_nat k"
    using evict_spec [of q "length x"] by (auto simp: push_def Let_def)
next
  fix q q' :: packet_buffer
  show "pop q = (None, q') \<Longrightarrow> pb_queue q = [] \<and> q' = q"
    by (auto simp: pop_def split: list.splits)
next
  fix q q' :: packet_buffer and x :: bytes
  show "pop q = (Some x, q') \<Longrightarrow> pb_queue q = x # pb_queue q' \<and> pb_dropped q' = pb_dropped q"
    by (auto simp: pop_def split: list.splits)
qed

text \<open>The buffer loses only what it counts: over any interleaving of pushes and pops, the packets
  popped and those still queued are a subsequence of the packets pushed, in order and without
  duplicates, and \<open>Dropped()\<close> plus those two numbers is the number pushed.\<close>

theorem packet_buffer_accounting:
  assumes "run_queue push pop ops (new_packet_buffer cap mx) = (out, b)"
  shows "subseq (out @ pb_queue b) (pushed ops) \<and>
    of_nat (length (pushed ops)) = of_nat (length out + size_of b) + dropped_of b"
  using pb.run_accounting [OF assms]
  by (simp add: new_packet_buffer_def size_of_def dropped_of_def)

theorem packet_buffer_accounting_witness:
  "\<exists>b. run_queue push pop [Push_op [1], Push_op [2], Push_op [3], Pop_op]
     (new_packet_buffer 2 100) = ([[2]], b) \<and>
   (3 :: u64) = of_nat (1 + size_of b) + dropped_of b"
proof -
  obtain b where r: "run_queue push pop [Push_op [1], Push_op [2], Push_op [3], Pop_op]
     (new_packet_buffer 2 100) = ([[2]], b)"
    by (simp add: push_def pop_def new_packet_buffer_def evict.simps Let_def)
  from packet_buffer_accounting [OF r] r show ?thesis by (intro exI [of _ b]) simp
qed

section \<open>Bounds\<close>

text \<open>Packets of less than \<open>2 ^ 62\<close> bytes and a limit below \<open>2 ^ 63\<close> keep the 64-bit byte count
  from wrapping.\<close>

definition buffer_inv :: "packet_buffer \<Rightarrow> bool" where
  "buffer_inv b \<longleftrightarrow>
     pb_total_bytes b = of_nat (bytes_in (pb_queue b)) \<and>
     length (pb_queue b) \<le> max 1 (pb_capacity_packets b) \<and>
     (bytes_in (pb_queue b) \<le> unat (pb_max_bytes b) \<or> length (pb_queue b) \<le> 1) \<and>
     list_all (\<lambda>p. length p < 2 ^ 62) (pb_queue b) \<and> unat (pb_max_bytes b) < 2 ^ 63"

lemma bytes_in_split: "bytes_in q = bytes_in (take k q) + bytes_in (drop k q)"
  by (metis append_take_drop_id bytes_in_simps(3))

lemma short_bytes_in:
  "length q \<le> 1 \<Longrightarrow> list_all (\<lambda>p. length p < 2 ^ 62) q \<Longrightarrow> bytes_in q < 2 ^ 62"
  by (cases q) auto

lemma buffer_inv_bytes:
  "buffer_inv b \<Longrightarrow> bytes_in (pb_queue b) < 2 ^ 63"
  using short_bytes_in [of "pb_queue b"] by (auto simp: buffer_inv_def)

lemma buffer_inv_push [inv_intros]:
  assumes inv: "buffer_inv b" and p: "length p < 2 ^ 62"
  shows "buffer_inv (push p b)"
proof -
  obtain k where k: "k \<le> length (pb_queue b)"
    "evict (length p) b = b\<lparr>pb_queue := drop k (pb_queue b),
      pb_total_bytes := pb_total_bytes b - of_nat (bytes_in (take k (pb_queue b))),
      pb_dropped := pb_dropped b + of_nat k, pb_degraded := (pb_degraded b \<or> 0 < k)\<rparr>"
    "drop k (pb_queue b) = [] \<or> length (drop k (pb_queue b)) < pb_capacity_packets b
        \<and> pb_total_bytes (evict (length p) b) + of_nat (length p) \<le> pb_max_bytes b"
    using evict_spec [of b "length p"] by blast
  let ?q = "drop k (pb_queue b)"
  have total: "pb_total_bytes (evict (length p) b) = of_nat (bytes_in ?q)"
    using inv k(2) bytes_in_split [of "pb_queue b" k] by (simp add: buffer_inv_def)
  have small: "bytes_in ?q + length p < 2 ^ 64"
    using buffer_inv_bytes [OF inv] bytes_in_split [of "pb_queue b" k] p by simp
  have "bytes_in ?q + length p \<le> unat (pb_max_bytes b)" if "?q \<noteq> []"
  proof -
    have "of_nat (bytes_in ?q + length p) \<le> pb_max_bytes b"
      using k(3) that by (simp add: total)
    moreover have "unat (of_nat (bytes_in ?q + length p) :: u64) = bytes_in ?q + length p"
      using small by (intro unat_of_nat_small) simp
    ultimately show ?thesis by (simp only: word_le_nat_alt)
  qed
  then show ?thesis
    using inv k p total
    by (auto simp: buffer_inv_def push_def Let_def list_all_iff dest: in_set_dropD)
qed

lemma buffer_inv_pop [inv_intros]:
  "buffer_inv b \<Longrightarrow> buffer_inv (snd (pop b))"
  by (auto simp: buffer_inv_def pop_def split: list.splits)

lemma run_queue_config:
  "run_queue push pop ops b = (out, b') \<Longrightarrow>
     pb_capacity_packets b' = pb_capacity_packets b \<and> pb_max_bytes b' = pb_max_bytes b"
proof (induction ops arbitrary: b out)
  case (Cons oper ops)
  have "pb_capacity_packets (push p b) = pb_capacity_packets b
      \<and> pb_max_bytes (push p b) = pb_max_bytes b" for p
    using evict_spec [of b "length p"] by (auto simp: push_def Let_def)
  moreover have "pb_capacity_packets (snd (pop b)) = pb_capacity_packets b
      \<and> pb_max_bytes (snd (pop b)) = pb_max_bytes b"
    by (simp add: pop_def split: list.splits)
  ultimately show ?case
    using Cons.IH Cons.prems
    by (cases oper; cases "pop b") (auto split: prod.splits option.splits)
qed simp

lemma buffer_inv_run:
  "run_queue push pop ops b = (out, b') \<Longrightarrow> buffer_inv b \<Longrightarrow>
     list_all (\<lambda>p. length p < 2 ^ 62) (pushed ops) \<Longrightarrow> buffer_inv b'"
proof (induction ops arbitrary: b out)
  case (Cons oper ops)
  show ?case
  proof (cases oper)
    case (Push_op p)
    with Cons.IH [of "push p b" out] Cons.prems buffer_inv_push [of b p] show ?thesis by simp
  next
    case Pop_op
    with Cons.IH Cons.prems buffer_inv_pop [of b] show ?thesis
      by (cases "pop b") (auto split: prod.splits option.splits)
  qed
qed simp

text \<open>The buffer stays bounded: after any interleaving of operations it holds at most its capacity
  of packets and at most its byte limit, except that the newest packet is always kept, even if it
  alone exceeds a limit; the byte count is exact. With a free slot and enough free bytes, a push
  drops nothing.\<close>

theorem packet_buffer_bounded:
  assumes "run_queue push pop ops (new_packet_buffer cap mx) = (out, b)"
    and "list_all (\<lambda>p. length p < 2 ^ 62) (pushed ops)" and "unat mx < 2 ^ 63"
  shows "size_of b \<le> max 1 cap \<and> (size_of b \<le> 1 \<or> bytes_in (pb_queue b) \<le> unat mx) \<and>
    unat (pb_total_bytes b) = bytes_in (pb_queue b) \<and> last (pb_queue (push p b)) = p \<and>
    (size_of b < cap \<and> bytes_in (pb_queue b) + length p \<le> unat mx \<longrightarrow>
      pb_queue (push p b) = pb_queue b @ [p])"
proof -
  have "buffer_inv (new_packet_buffer cap mx)"
    using assms(3) by (simp add: buffer_inv_def new_packet_buffer_def)
  from buffer_inv_run [OF assms(1) this assms(2)] have inv: "buffer_inv b" .
  have cfg: "pb_capacity_packets b = cap" "pb_max_bytes b = mx"
    using run_queue_config [OF assms(1)] by (simp_all add: new_packet_buffer_def)
  have bounds: "size_of b \<le> max 1 cap" "size_of b \<le> 1 \<or> bytes_in (pb_queue b) \<le> unat mx"
    using inv cfg by (auto simp: buffer_inv_def size_of_def)
  have exact: "unat (pb_total_bytes b) = bytes_in (pb_queue b)"
    using inv buffer_inv_bytes [OF inv] by (simp add: buffer_inv_def unat_of_nat_small)
  have newest: "last (pb_queue (push p b)) = p" by (simp add: push_def Let_def)
  have "pb_queue (push p b) = pb_queue b @ [p]"
    if fits: "size_of b < cap" "bytes_in (pb_queue b) + length p \<le> unat mx"
  proof -
    have "unat (of_nat (bytes_in (pb_queue b) + length p) :: u64)
        = bytes_in (pb_queue b) + length p"
      using fits(2) assms(3) by (intro unat_of_nat_small) simp
    then have "of_nat (bytes_in (pb_queue b) + length p) \<le> mx"
      using fits(2) by (simp only: word_le_nat_alt)
    then have "evict (length p) b = b"
      using fits(1) cfg inv by (subst evict.simps) (auto simp: size_of_def buffer_inv_def)
    then show ?thesis by (simp add: push_def Let_def)
  qed
  with bounds exact newest show ?thesis by blast
qed

theorem packet_buffer_bounded_witness:
  "\<exists>b. run_queue push pop [Push_op [1], Push_op [2], Push_op [3]] (new_packet_buffer 2 100)
      = ([], b) \<and> size_of b \<le> max 1 2 \<and> unat (pb_total_bytes b) = bytes_in (pb_queue b)"
proof -
  obtain b where r: "run_queue push pop [Push_op [1], Push_op [2], Push_op [3]]
     (new_packet_buffer 2 100) = ([], b)"
    by simp
  from packet_buffer_bounded [OF r] r show ?thesis
    by (intro exI [of _ b]) simp
qed

end
