(* ===== verification/Files.thy ===== *)
theory Files
  imports Prelude "HOL-Library.AList"
begin

text \<open>
  The session directory and the output streams into it. A directory is an association list from
  file names to contents, in the order a directory iterator would list it. An \<open>std::ofstream\<close>
  is open or not, good or failed, and holds the bytes it has not yet passed to the file; what
  succeeds and how many bytes a spill moves is decided by the environment. \<open>WriteTextAtomic\<close> and
  \<open>JsonEscape\<close> of \<open>runtimepc/include/ego_runtime/util.hpp\<close> are here too.
\<close>

section \<open>The directory\<close>

type_synonym dir = "(string \<times> bytes) list"

abbreviation fget :: "dir \<Rightarrow> string \<Rightarrow> bytes option" where
  "fget d n \<equiv> map_of d n"

definition contents :: "dir \<Rightarrow> string \<Rightarrow> bytes" where
  "contents d n = (case fget d n of None \<Rightarrow> [] | Some bs \<Rightarrow> bs)"

definition put :: "string \<Rightarrow> bytes \<Rightarrow> dir \<Rightarrow> dir" where
  "put n bs d = AList.update n bs d"

definition remove_file :: "string \<Rightarrow> dir \<Rightarrow> dir" where
  "remove_file n d = AList.delete n d"

definition dir_ok :: "dir \<Rightarrow> bool" where
  "dir_ok d \<longleftrightarrow> distinct (map fst d)"

lemma file_put [simp]: "fget (put n bs d) m = (if m = n then Some bs else fget d m)"
  by (simp add: put_def update_conv')

lemma file_remove [simp]: "fget (remove_file n d) m = (if m = n then None else fget d m)"
  by (simp add: remove_file_def delete_conv')

lemma fget_put_upd: "fget (put n bs d) = (fget d)(n \<mapsto> bs)"
  by (rule ext) simp

lemma contents_put [simp]: "contents (put n bs d) m = (if m = n then bs else contents d m)"
  by (simp add: contents_def)

lemma contents_remove [simp]: "contents (remove_file n d) m = (if m = n then [] else contents d m)"
  by (simp add: contents_def)

lemma dir_ok_put [simp, inv_intros]: "dir_ok d \<Longrightarrow> dir_ok (put n bs d)"
  by (simp add: dir_ok_def put_def distinct_update)

lemma dir_ok_remove [simp, inv_intros]: "dir_ok d \<Longrightarrow> dir_ok (remove_file n d)"
  by (simp add: dir_ok_def remove_file_def distinct_delete)

lemma dir_ok_Nil [simp]: "dir_ok []"
  by (simp add: dir_ok_def)

section \<open>Output streams\<close>

record ofstream =
  os_open :: bool
  os_good :: bool
  os_name :: string
  os_buf :: bytes

definition closed_stream :: ofstream where
  "closed_stream = \<lparr>os_open = False, os_good = True, os_name = '''', os_buf = []\<rparr>"

text \<open>Moving the first \<open>k\<close> buffered bytes to the file.\<close>

definition os_spill :: "nat \<Rightarrow> ofstream \<times> dir \<Rightarrow> ofstream \<times> dir" where
  "os_spill k sd = (case sd of (s, d) \<Rightarrow>
     (s\<lparr>os_buf := drop k (os_buf s)\<rparr>,
      put (os_name s) (contents d (os_name s) @ take k (os_buf s)) d))"

text \<open>\<open>open\<close> with \<open>trunc\<close> or \<open>app\<close>: fails on an open stream and when the system refuses.\<close>

definition os_open_file :: "bool \<Rightarrow> bool \<Rightarrow> string \<Rightarrow> ofstream \<times> dir \<Rightarrow> ofstream \<times> dir" where
  "os_open_file ok trunc n sd = (case sd of (s, d) \<Rightarrow>
     if os_open s \<or> \<not> ok then (s\<lparr>os_good := False\<rparr>, d)
     else (\<lparr>os_open = True, os_good = True, os_name = n, os_buf = []\<rparr>,
           put n (if trunc then [] else contents d n) d))"

text \<open>\<open>write\<close>: a failed stream ignores it.\<close>

definition os_write :: "bool \<Rightarrow> nat \<Rightarrow> bytes \<Rightarrow> ofstream \<times> dir \<Rightarrow> ofstream \<times> dir" where
  "os_write ok k bs sd = (case sd of (s, d) \<Rightarrow>
     if \<not> os_open s \<or> \<not> os_good s then (s\<lparr>os_good := False\<rparr>, d)
     else os_spill k (s\<lparr>os_buf := os_buf s @ bs, os_good := ok\<rparr>, d))"

definition os_flush :: "bool \<Rightarrow> nat \<Rightarrow> ofstream \<times> dir \<Rightarrow> ofstream \<times> dir" where
  "os_flush ok k sd = (case sd of (s, d) \<Rightarrow>
     if \<not> os_open s \<or> \<not> os_good s then (s, d)
     else if ok then os_spill (length (os_buf s)) (s, d)
     else os_spill k (s\<lparr>os_good := False\<rparr>, d))"

text \<open>\<open>close\<close> writes what is still buffered, also on a failed stream.\<close>

definition os_close :: "bool \<Rightarrow> nat \<Rightarrow> ofstream \<times> dir \<Rightarrow> ofstream \<times> dir" where
  "os_close ok k sd = (case sd of (s, d) \<Rightarrow>
     if \<not> os_open s then (s\<lparr>os_good := False\<rparr>, d)
     else case os_spill (if ok then length (os_buf s) else k) (s, d) of
       (s', d') \<Rightarrow> (s'\<lparr>os_open := False, os_buf := [], os_good := (os_good s \<and> ok)\<rparr>, d'))"

text \<open>What has been written to the stream: the file and the buffer behind it.\<close>

definition os_image :: "ofstream \<times> dir \<Rightarrow> bytes" where
  "os_image sd = contents (snd sd) (os_name (fst sd)) @ os_buf (fst sd)"

lemma os_image_spill [simp]: "os_image (os_spill k sd) = os_image sd"
  by (simp add: os_image_def os_spill_def split: prod.splits)

lemma os_spill_fst [simp]:
  "os_open (fst (os_spill k sd)) = os_open (fst sd)"
  "os_good (fst (os_spill k sd)) = os_good (fst sd)"
  "os_name (fst (os_spill k sd)) = os_name (fst sd)"
  by (simp_all add: os_spill_def split: prod.splits)

lemma os_spill_other:
  "n \<noteq> os_name (fst sd) \<Longrightarrow> fget (snd (os_spill k sd)) n = fget (snd sd) n"
  by (cases sd) (simp add: os_spill_def)

lemma os_flush_fst [simp]:
  "os_open (fst (os_flush ok k sd)) = os_open (fst sd)"
  "os_name (fst (os_flush ok k sd)) = os_name (fst sd)"
  "os_good (fst (os_flush True k sd)) = os_good (fst sd)"
  by (simp_all add: os_flush_def split: prod.splits)

lemma os_image_flush [simp]: "os_image (os_flush ok k sd) = os_image sd"
  by (cases sd) (auto simp: os_flush_def os_image_def os_spill_def)

lemma os_write_fst [simp]:
  "os_open (fst (os_write ok k bs sd)) = os_open (fst sd)"
  "os_name (fst (os_write ok k bs sd)) = os_name (fst sd)"
  "os_good (fst (os_write ok k bs sd)) \<longleftrightarrow> os_open (fst sd) \<and> os_good (fst sd) \<and> ok"
  by (auto simp: os_write_def split: prod.splits)

lemma os_image_write:
  "os_image (os_write ok k bs sd) =
     (if os_open (fst sd) \<and> os_good (fst sd) then os_image sd @ bs else os_image sd)"
proof (cases sd)
  case (Pair s d)
  have "os_image (s\<lparr>os_buf := os_buf s @ bs, os_good := ok\<rparr>, d) = os_image (s, d) @ bs"
    and "os_image (s\<lparr>os_good := False\<rparr>, d) = os_image (s, d)"
    by (simp_all add: os_image_def)
  then show ?thesis by (simp add: Pair os_write_def)
qed

lemma os_flush_other:
  "n \<noteq> os_name (fst sd) \<Longrightarrow> fget (snd (os_flush ok k sd)) n = fget (snd sd) n"
  by (cases sd) (auto simp: os_flush_def os_spill_other)

lemma os_write_other:
  "n \<noteq> os_name (fst sd) \<Longrightarrow> fget (snd (os_write ok k bs sd)) n = fget (snd sd) n"
  by (cases sd) (auto simp: os_write_def os_spill_other)

lemma os_close_other:
  "n \<noteq> os_name (fst sd) \<Longrightarrow> fget (snd (os_close ok k sd)) n = fget (snd sd) n"
  by (cases sd) (auto simp: os_close_def os_spill_def)

lemma os_close_closed [simp]: "os_open (fst (os_close ok k sd)) = False"
  by (cases sd) (auto simp: os_close_def split: prod.splits)

lemma os_close_file:
  "os_open (fst sd) \<Longrightarrow> fget (snd (os_close True k sd)) (os_name (fst sd)) = Some (os_image sd)"
  by (cases sd) (simp add: os_close_def os_image_def os_spill_def)

lemma dir_ok_streams [inv_intros]:
  "dir_ok (snd sd) \<Longrightarrow> dir_ok (snd (os_spill k sd))"
  "dir_ok (snd sd) \<Longrightarrow> dir_ok (snd (os_write ok k bs sd))"
  "dir_ok (snd sd) \<Longrightarrow> dir_ok (snd (os_flush ok k sd))"
  "dir_ok (snd sd) \<Longrightarrow> dir_ok (snd (os_close ok k sd))"
  "dir_ok (snd sd) \<Longrightarrow> dir_ok (snd (os_open_file ok tr n sd))"
  by (auto simp: os_spill_def os_write_def os_flush_def os_close_def os_open_file_def
      split: prod.splits)

section \<open>Whole files of text\<close>

text \<open>\<open>WriteTextAtomic\<close>: the outcomes of opening and writing the temporary file, of the rename, and of
  opening and writing the target directly when the rename fails.\<close>

record atomic_env =
  ae_tmp_open :: bool
  ae_tmp_write :: bool
  ae_rename :: bool
  ae_direct_open :: bool
  ae_direct_write :: bool
  ae_partial :: nat

definition ok_atomic :: atomic_env where
  "ok_atomic = \<lparr>ae_tmp_open = True, ae_tmp_write = True, ae_rename = True, ae_direct_open = True,
     ae_direct_write = True, ae_partial = 0\<rparr>"

definition write_text_atomic :: "atomic_env \<Rightarrow> string \<Rightarrow> string \<Rightarrow> dir \<Rightarrow> bool \<times> dir" where
  "write_text_atomic e path text d =
     (let tmp = path @ ''.tmp''; content = text_bytes text in
      if \<not> ae_tmp_open e then (False, d)
      else if \<not> ae_tmp_write e then (False, put tmp (take (ae_partial e) content) d)
      else
        let d1 = remove_file path (put tmp content d) in
        if ae_rename e then (True, put path content (remove_file tmp d1))
        else if \<not> ae_direct_open e then (False, remove_file tmp d1)
        else (True, remove_file tmp
               (put path (if ae_direct_write e then content else take (ae_partial e) content) d1)))"

lemma write_text_atomic_other:
  "n \<noteq> path \<Longrightarrow> n \<noteq> path @ ''.tmp'' \<Longrightarrow>
     fget (snd (write_text_atomic e path text d)) n = fget d n"
  by (simp add: write_text_atomic_def Let_def)

lemma write_text_atomic_ok:
  "ae_tmp_open e \<Longrightarrow> ae_tmp_write e \<Longrightarrow> ae_rename e \<Longrightarrow>
     fget (snd (write_text_atomic e path text d)) =
       (fget d)(path @ ''.tmp'' := None, path \<mapsto> text_bytes text)"
  by (rule ext) (simp add: write_text_atomic_def Let_def)

lemma dir_ok_write_text_atomic [inv_intros]:
  "dir_ok d \<Longrightarrow> dir_ok (snd (write_text_atomic e path text d))"
  by (simp add: write_text_atomic_def Let_def)

section \<open>JSON string escapes\<close>

fun json_escape_char :: "char \<Rightarrow> string" where
  "json_escape_char c =
     (if c = CHR 0x22 then [CHR 0x5C, CHR 0x22]
      else if c = CHR 0x5C then [CHR 0x5C, CHR 0x5C]
      else if c = CHR 0x0A then [CHR 0x5C, CHR ''n'']
      else if c = CHR 0x0D then [CHR 0x5C, CHR ''r'']
      else if c = CHR 0x09 then [CHR 0x5C, CHR ''t'']
      else [c])"

definition json_escape :: "string \<Rightarrow> string" where
  "json_escape s = concat (map json_escape_char s)"

lemma json_escape_simps [simp]:
  "json_escape [] = []" "json_escape (c # s) = json_escape_char c @ json_escape s"
  by (simp_all add: json_escape_def)

definition json_plain :: "char \<Rightarrow> bool" where
  "json_plain c \<longleftrightarrow> c \<notin> {CHR 0x22, CHR 0x5C, CHR 0x0A, CHR 0x0D, CHR 0x09}"

lemma json_escape_plain: "list_all json_plain s \<Longrightarrow> json_escape s = s"
  by (induction s) (auto simp: json_plain_def)

text \<open>\<open>std::filesystem::path::operator/\<close> for a relative right-hand side.\<close>

definition path_join :: "string \<Rightarrow> string \<Rightarrow> string" where
  "path_join p q = (if p = [] \<or> last p = CHR ''/'' then p @ q else p @ ''/'' @ q)"

end
