(* ===== verification/RuntimeConfig.thy ===== *)
theory RuntimeConfig
  imports Prelude
begin

text \<open>
  The recorder's configuration, \<open>runtimepc/include/ego_runtime/config.hpp\<close> and
  \<open>runtimepc/src/config.cpp\<close>: the record with its defaults, the line-oriented file format, the
  command line and the environment, in the order in which they override each other. A \<open>double\<close>
  is its 64-bit pattern; the conversion \<open>std::stod\<close> is the argument \<open>stod\<close>. An exception of a
  number conversion is \<open>Inl\<close> of its name: nothing catches it.
\<close>

type_synonym f64 = u64

datatype transport_mode = kEgoContractTcp

definition parse_transport_mode :: "string \<Rightarrow> transport_mode" where
  "parse_transport_mode value = kEgoContractTcp"

record offline_hook =
  oh_enabled :: bool
  oh_binary :: string
  oh_config_path :: string
  oh_s3_config_path :: string
  oh_skip_s3 :: bool

record runtime_config =
  rc_transport :: transport_mode
  rc_ego_host :: string
  rc_board_control_port :: u16
  rc_data_port :: u16
  rc_control_port :: u16
  rc_control_pipe_name :: string
  rc_data_root :: string
  rc_chunk_max_bytes :: u64
  rc_chunk_max_sec :: u32
  rc_flush_packets :: u32
  rc_flush_interval_sec :: u32
  rc_warn_free_gb :: f64
  rc_critical_free_gb :: f64
  rc_warn_free_percent :: f64
  rc_critical_free_percent :: f64
  rc_auto_start :: bool
  rc_vehicle_id :: string
  rc_software_version :: string
  rc_report_interval_sec :: u32
  rc_time_gap_threshold_ms :: u32
  rc_packet_buffer_capacity :: nat
  rc_packet_buffer_max_bytes :: u64
  rc_max_payload_bytes :: u32
  rc_scenario_id :: string
  rc_scenario_name :: string
  rc_operator_name :: string
  rc_notes :: string
  rc_test_stand_config :: string
  rc_config_path :: string
  rc_config_file_loaded :: bool
  rc_input_file :: string
  rc_daemon_mode :: bool
  rc_offline :: offline_hook

definition default_offline_hook :: offline_hook where
  "default_offline_hook = \<lparr>oh_enabled = True, oh_binary = ''/usr/local/bin/ego-offline'',
     oh_config_path = ''/etc/ego-offline/config.yaml'',
     oh_s3_config_path = ''/etc/ego-offline/s3.local.yaml'', oh_skip_s3 = False\<rparr>"

definition default_config :: runtime_config where
  "default_config = \<lparr>rc_transport = kEgoContractTcp, rc_ego_host = ''192.168.10.50'',
     rc_board_control_port = 5000, rc_data_port = 5001, rc_control_port = 19002,
     rc_control_pipe_name = ''ego-runtime-ctl'', rc_data_root = ''/data/ego-sessions'',
     rc_chunk_max_bytes = 4294967296, rc_chunk_max_sec = 3600, rc_flush_packets = 1000,
     rc_flush_interval_sec = 1,
     rc_warn_free_gb = 0x4049000000000000, rc_critical_free_gb = 0x4024000000000000,
     rc_warn_free_percent = 0x402E000000000000, rc_critical_free_percent = 0x4014000000000000,
     rc_auto_start = False, rc_vehicle_id = ''CAR-001'', rc_software_version = ''1.0.0'',
     rc_report_interval_sec = 10, rc_time_gap_threshold_ms = 50,
     rc_packet_buffer_capacity = 4096, rc_packet_buffer_max_bytes = 536870912,
     rc_max_payload_bytes = 65536, rc_scenario_id = '''', rc_scenario_name = '''',
     rc_operator_name = '''', rc_notes = '''', rc_test_stand_config = '''', rc_config_path = '''',
     rc_config_file_loaded = False, rc_input_file = '''', rc_daemon_mode = False,
     rc_offline = default_offline_hook\<rparr>"

section \<open>One setting\<close>

definition unquote :: "string \<Rightarrow> string" where
  "unquote s = (if length s \<ge> 2 \<and> hd s = CHR 0x22 \<and> last s = CHR 0x22
    then slice 1 (length s - 2) s else s)"

definition truthy :: "string \<Rightarrow> bool" where
  "truthy value \<longleftrightarrow> value = ''true'' \<or> value = ''1''"

text \<open>\<open>static_cast\<close> of the parsed \<open>unsigned long\<close> to the field's width drops the high bits.\<close>

abbreviation set_num :: "string \<Rightarrow> ('a::len word \<Rightarrow> runtime_config) \<Rightarrow> string + runtime_config" where
  "set_num value upd \<equiv> sum_bind (stoul value) (\<lambda>n. Inr (upd (ucast n)))"

definition parse_scalar ::
  "(string \<Rightarrow> string + f64) \<Rightarrow> string \<Rightarrow> string \<Rightarrow> runtime_config \<Rightarrow> string + runtime_config"
where
  "parse_scalar stod key value cfg =
    (if key = ''network.transport''
       then Inr (cfg\<lparr>rc_transport := parse_transport_mode (unquote value)\<rparr>)
     else if key = ''network.ego_host'' then Inr (cfg\<lparr>rc_ego_host := unquote value\<rparr>)
     else if key = ''network.control_port''
       then set_num value (\<lambda>n. cfg\<lparr>rc_board_control_port := n\<rparr>)
     else if key = ''network.data_port'' then set_num value (\<lambda>n. cfg\<lparr>rc_data_port := n\<rparr>)
     else if key = ''network.max_payload_bytes''
       then set_num value (\<lambda>n. cfg\<lparr>rc_max_payload_bytes := n\<rparr>)
     else if key = ''ipc.port'' then set_num value (\<lambda>n. cfg\<lparr>rc_control_port := n\<rparr>)
     else if key = ''control.port'' then set_num value (\<lambda>n. cfg\<lparr>rc_control_port := n\<rparr>)
     else if key = ''storage.data_root'' then Inr (cfg\<lparr>rc_data_root := unquote value\<rparr>)
     else if key = ''storage.chunk_max_bytes''
       then set_num value (\<lambda>n. cfg\<lparr>rc_chunk_max_bytes := n\<rparr>)
     else if key = ''storage.chunk_max_sec'' then set_num value (\<lambda>n. cfg\<lparr>rc_chunk_max_sec := n\<rparr>)
     else if key = ''storage.flush_packets'' then set_num value (\<lambda>n. cfg\<lparr>rc_flush_packets := n\<rparr>)
     else if key = ''storage.flush_interval_sec''
       then set_num value (\<lambda>n. cfg\<lparr>rc_flush_interval_sec := n\<rparr>)
     else if key = ''storage.warn_free_gb''
       then sum_bind (stod value) (\<lambda>d. Inr (cfg\<lparr>rc_warn_free_gb := d\<rparr>))
     else if key = ''storage.critical_free_gb''
       then sum_bind (stod value) (\<lambda>d. Inr (cfg\<lparr>rc_critical_free_gb := d\<rparr>))
     else if key = ''storage.warn_free_percent''
       then sum_bind (stod value) (\<lambda>d. Inr (cfg\<lparr>rc_warn_free_percent := d\<rparr>))
     else if key = ''storage.critical_free_percent''
       then sum_bind (stod value) (\<lambda>d. Inr (cfg\<lparr>rc_critical_free_percent := d\<rparr>))
     else if key = ''session.auto_start_on_session_started''
       then Inr (cfg\<lparr>rc_auto_start := truthy value\<rparr>)
     else if key = ''session.vehicle_id'' then Inr (cfg\<lparr>rc_vehicle_id := unquote value\<rparr>)
     else if key = ''session.test_stand_config''
       then Inr (cfg\<lparr>rc_test_stand_config := unquote value\<rparr>)
     else if key = ''diagnostics.report_interval_sec''
       then set_num value (\<lambda>n. cfg\<lparr>rc_report_interval_sec := n\<rparr>)
     else if key = ''diagnostics.time_gap_threshold_ms''
       then set_num value (\<lambda>n. cfg\<lparr>rc_time_gap_threshold_ms := n\<rparr>)
     else if key = ''offline.enabled''
       then Inr (cfg\<lparr>rc_offline := (rc_offline cfg)\<lparr>oh_enabled := truthy value\<rparr>\<rparr>)
     else if key = ''offline.binary''
       then Inr (cfg\<lparr>rc_offline := (rc_offline cfg)\<lparr>oh_binary := unquote value\<rparr>\<rparr>)
     else if key = ''offline.config''
       then Inr (cfg\<lparr>rc_offline := (rc_offline cfg)\<lparr>oh_config_path := unquote value\<rparr>\<rparr>)
     else if key = ''offline.s3_config''
       then Inr (cfg\<lparr>rc_offline := (rc_offline cfg)\<lparr>oh_s3_config_path := unquote value\<rparr>\<rparr>)
     else if key = ''offline.skip_s3''
       then Inr (cfg\<lparr>rc_offline := (rc_offline cfg)\<lparr>oh_skip_s3 := truthy value\<rparr>\<rparr>)
     else Inr cfg)"

section \<open>The file\<close>

text \<open>One line, with the current section: comments go first, then white space; a line that ends in a
  colon opens a section.\<close>

definition config_line ::
  "(string \<Rightarrow> string + f64) \<Rightarrow> string \<Rightarrow> string \<times> runtime_config \<Rightarrow> string + (string \<times> runtime_config)"
where
  "config_line stod raw st =
     (case st of (sec, cfg) \<Rightarrow>
       let line = trim (before_char CHR ''#'' raw) in
       if line = [] then Inr (sec, cfg)
       else if last line = CHR '':'' then Inr (butlast line, cfg)
       else case after_char CHR '':'' line of
          None \<Rightarrow> Inr (sec, cfg)
        | Some v \<Rightarrow>
            let key = trim (before_char CHR '':'' line);
                val = trim v;
                key' = (if sec \<noteq> [] then sec @ ''.'' @ key else key)
            in sum_bind (parse_scalar stod key' val cfg) (\<lambda>cfg'. Inr (sec, cfg')))"

primrec config_lines ::
  "(string \<Rightarrow> string + f64) \<Rightarrow> string list \<Rightarrow> string \<times> runtime_config \<Rightarrow> string + (string \<times> runtime_config)"
where
  "config_lines stod [] st = Inr st"
| "config_lines stod (l # ls) st = sum_bind (config_line stod l st) (config_lines stod ls)"

text \<open>\<open>LoadConfigFromFile\<close>; \<open>None\<close> is a file that cannot be opened.\<close>

definition load_config_from_file ::
  "(string \<Rightarrow> string + f64) \<Rightarrow> string \<Rightarrow> string option \<Rightarrow> runtime_config \<Rightarrow> string + runtime_config"
where
  "load_config_from_file stod path file base =
     (case file of
        None \<Rightarrow> Inr (base\<lparr>rc_config_path := '''', rc_config_file_loaded := False\<rparr>)
      | Some text \<Rightarrow>
          sum_bind (config_lines stod (getlines text) ('''', base)) (\<lambda>(sec, cfg).
            Inr (cfg\<lparr>rc_config_path := path, rc_config_file_loaded := True\<rparr>)))"

section \<open>Command line and environment\<close>

definition env_truthy :: "string \<Rightarrow> bool" where
  "env_truthy v \<longleftrightarrow> v \<noteq> [] \<and> hd v \<in> {CHR ''1'', CHR ''t'', CHR ''T'', CHR ''y'', CHR ''Y''}"

definition env_over ::
  "(string \<Rightarrow> string option) \<Rightarrow> string \<Rightarrow> (string \<Rightarrow> runtime_config \<Rightarrow> runtime_config)
     \<Rightarrow> runtime_config \<Rightarrow> runtime_config"
where
  "env_over getenv name upd cfg = (case getenv name of None \<Rightarrow> cfg | Some v \<Rightarrow> upd v cfg)"

definition apply_env_overrides ::
  "(string \<Rightarrow> string option) \<Rightarrow> runtime_config \<Rightarrow> runtime_config"
where
  "apply_env_overrides getenv cfg =
     (env_over getenv ''EGO_OFFLINE_S3_CONFIG'' (\<lambda>v c. c\<lparr>rc_offline := (rc_offline c)\<lparr>oh_s3_config_path := v\<rparr>\<rparr>)
     (env_over getenv ''EGO_OFFLINE_CONFIG'' (\<lambda>v c. c\<lparr>rc_offline := (rc_offline c)\<lparr>oh_config_path := v\<rparr>\<rparr>)
     (env_over getenv ''EGO_OFFLINE_BINARY'' (\<lambda>v c. c\<lparr>rc_offline := (rc_offline c)\<lparr>oh_binary := v\<rparr>\<rparr>)
     (env_over getenv ''EGO_OFFLINE_ENABLED''
        (\<lambda>v c. c\<lparr>rc_offline := (rc_offline c)\<lparr>oh_enabled := env_truthy v\<rparr>\<rparr>)
     (env_over getenv ''EGO_RUNTIME_VEHICLE_ID'' (\<lambda>v c. c\<lparr>rc_vehicle_id := v\<rparr>)
     (env_over getenv ''EGO_RUNTIME_EGO_HOST'' (\<lambda>v c. c\<lparr>rc_ego_host := v\<rparr>)
     (env_over getenv ''EGO_RUNTIME_DATA_ROOT'' (\<lambda>v c. c\<lparr>rc_data_root := v\<rparr>) cfg)))))))"

text \<open>The argument loop; the state is the configuration and \<open>cli_data_root\<close>. \<open>files\<close> gives the
  contents of readable files.\<close>

fun parse_args ::
  "(string \<Rightarrow> string + f64) \<Rightarrow> (string \<Rightarrow> string option) \<Rightarrow> string list
     \<Rightarrow> runtime_config \<times> string \<Rightarrow> string + (runtime_config \<times> string)"
where
  "parse_args stod files [] (cfg, root) = Inr (cfg, root)"
| "parse_args stod files [arg] (cfg, root) =
     Inr (if arg = ''--daemon'' then (cfg\<lparr>rc_daemon_mode := True\<rparr>, root) else (cfg, root))"
| "parse_args stod files (arg # v # rest) (cfg, root) =
     (if arg = ''--config'' then
        sum_bind (load_config_from_file stod v (files v) cfg)
          (\<lambda>cfg'. parse_args stod files rest (cfg', root))
      else if arg = ''--data-root'' then parse_args stod files rest (cfg, v)
      else if arg = ''--input'' then parse_args stod files rest (cfg\<lparr>rc_input_file := v\<rparr>, root)
      else if arg = ''--scenario-id''
        then parse_args stod files rest (cfg\<lparr>rc_scenario_id := v\<rparr>, root)
      else if arg = ''--scenario-name''
        then parse_args stod files rest (cfg\<lparr>rc_scenario_name := v\<rparr>, root)
      else if arg = ''--operator''
        then parse_args stod files rest (cfg\<lparr>rc_operator_name := v\<rparr>, root)
      else if arg = ''--notes'' then parse_args stod files rest (cfg\<lparr>rc_notes := v\<rparr>, root)
      else if arg = ''--daemon''
        then parse_args stod files (v # rest) (cfg\<lparr>rc_daemon_mode := True\<rparr>, root)
      else parse_args stod files (v # rest) (cfg, root))"

definition load_config ::
  "(string \<Rightarrow> string + f64) \<Rightarrow> (string \<Rightarrow> string option) \<Rightarrow> (string \<Rightarrow> string option) \<Rightarrow> string list
     \<Rightarrow> string + runtime_config"
where
  "load_config stod files getenv args =
     sum_bind (case files ''/etc/ego-runtime/config.yaml'' of
         None \<Rightarrow> Inr default_config
       | Some text \<Rightarrow>
           load_config_from_file stod ''/etc/ego-runtime/config.yaml'' (Some text) default_config)
     (\<lambda>cfg. sum_bind (parse_args stod files args (cfg, ''''))
       (\<lambda>(cfg', cli_data_root).
         Inr (apply_env_overrides getenv
           (if cli_data_root \<noteq> [] then cfg'\<lparr>rc_data_root := cli_data_root\<rparr> else cfg'))))"

section \<open>What a file means\<close>

definition tight :: "string \<Rightarrow> bool" where
  "tight s \<longleftrightarrow> s \<noteq> [] \<and> \<not> is_space (hd s) \<and> \<not> is_space (last s)"

lemma dropWhile_tight: "tight s \<Longrightarrow> \<forall>c \<in> set pre. is_space c \<Longrightarrow> dropWhile is_space (pre @ s) = s"
  by (induction pre) (auto simp: tight_def dropWhile_eq_self_iff)

lemma trim_tight:
  assumes "tight s" and "\<forall>c \<in> set pre. is_space c"
  shows "trim (pre @ s) = s"
proof -
  have "dropWhile is_space (rev s) = rev s"
    using assms(1) by (simp add: tight_def hd_rev dropWhile_eq_self_iff)
  then show ?thesis by (simp add: trim_def dropWhile_tight [OF assms])
qed

lemma trim_tight_self: "tight s \<Longrightarrow> trim s = s"
  using trim_tight [of s "[]"] by simp

definition clean_name :: "string \<Rightarrow> bool" where
  "clean_name s \<longleftrightarrow> tight s \<and> CHR ''#'' \<notin> set s \<and> CHR '':'' \<notin> set s \<and> CHR 0x0A \<notin> set s"

definition clean_value :: "string \<Rightarrow> bool" where
  "clean_value v \<longleftrightarrow> tight v \<and> CHR ''#'' \<notin> set v \<and> last v \<noteq> CHR '':'' \<and> CHR 0x0A \<notin> set v"

text \<open>A setting as the shipped configuration files write it: a section line and an indented line.\<close>

definition setting_lines :: "string \<times> string \<times> string \<Rightarrow> string list" where
  "setting_lines x = (case x of (sec, key, val) \<Rightarrow> [sec @ '':'', ''  '' @ key @ '': '' @ val])"

definition setting_ok :: "string \<times> string \<times> string \<Rightarrow> bool" where
  "setting_ok x \<longleftrightarrow> (case x of (sec, key, val) \<Rightarrow> clean_name sec \<and> clean_name key \<and> clean_value val)"

definition settings_text :: "(string \<times> string \<times> string) list \<Rightarrow> string" where
  "settings_text xs = concat (map (\<lambda>l. l @ [CHR 0x0A]) (concat (map setting_lines xs)))"

fun apply_settings ::
  "(string \<Rightarrow> string + f64) \<Rightarrow> (string \<times> string \<times> string) list \<Rightarrow> runtime_config
     \<Rightarrow> string + runtime_config"
where
  "apply_settings stod [] cfg = Inr cfg"
| "apply_settings stod ((sec, key, val) # xs) cfg =
     sum_bind (parse_scalar stod (sec @ ''.'' @ key) val cfg) (apply_settings stod xs)"

lemma before_char_none: "c \<notin> set s \<Longrightarrow> before_char c s = s"
  by (induction s) (auto simp: before_char_def)

lemma config_line_section:
  assumes "clean_name sec"
  shows "config_line stod (sec @ '':'') (s0, cfg) = Inr (sec, cfg)"
proof -
  have "tight (sec @ '':'')" using assms by (simp add: clean_name_def tight_def is_space_def Let_def)
  then show ?thesis
    using assms by (simp add: config_line_def Let_def before_char_none clean_name_def trim_tight_self)
qed

lemma config_line_setting:
  assumes sec: "sec \<noteq> []" and key: "clean_name key" and val: "clean_value val"
  shows "config_line stod (''  '' @ key @ '': '' @ val) (sec, cfg) =
    sum_bind (parse_scalar stod (sec @ ''.'' @ key) val cfg) (\<lambda>cfg'. Inr (sec, cfg'))"
proof -
  have sp: "is_space CHR '' ''" by (simp add: is_space_def)
  let ?l = "key @ '': '' @ val"
  have l: "tight ?l" using key val by (auto simp: clean_name_def clean_value_def tight_def)
  have "CHR ''#'' \<notin> set (''  '' @ ?l)"
    using key val by (auto simp: clean_name_def clean_value_def)
  then have line: "trim (before_char CHR ''#'' (''  '' @ ?l)) = ?l"
    using trim_tight [OF l, of "''  ''"] sp by (simp add: before_char_none)
  have "last ?l \<noteq> CHR '':''" using val by (auto simp: clean_value_def tight_def)
  moreover have "CHR '':'' \<notin> set key" using key by (simp add: clean_name_def)
  then have "after_char CHR '':'' ?l = Some ('' '' @ val)" "before_char CHR '':'' ?l = key"
    using after_char_append [of "CHR '':''" key "'' '' @ val"]
      before_char_append [of "CHR '':''" key "'' '' @ val"] by simp_all
  moreover have "trim key = key" "trim ('' '' @ val) = val"
    using key val sp trim_tight [of val "'' ''"]
    by (simp_all add: clean_name_def clean_value_def trim_tight_self)
  moreover have "?l \<noteq> []" by simp
  ultimately show ?thesis
    unfolding config_line_def using sec by (simp only: line Let_def prod.case option.case) simp
qed

lemma config_lines_settings:
  assumes "list_all setting_ok xs"
  shows "(case config_lines stod (concat (map setting_lines xs)) (s0, cfg) of
      Inl e \<Rightarrow> Inl e | Inr (s, c) \<Rightarrow> Inr c) = apply_settings stod xs cfg"
  using assms
proof (induction xs arbitrary: s0 cfg)
  case Nil
  then show ?case by simp
next
  case (Cons x xs)
  obtain sec key val where x: "x = (sec, key, val)" by (cases x)
  have ok: "clean_name sec" "clean_name key" "clean_value val"
    using Cons.prems by (simp_all add: x setting_ok_def)
  then have "sec \<noteq> []" by (simp add: clean_name_def tight_def)
  then show ?case
    using Cons ok config_line_section [OF ok(1)] config_line_setting [of sec key val]
    by (cases "parse_scalar stod (sec @ ''.'' @ key) val cfg") (auto simp: x setting_lines_def)
qed

lemma settings_text_lines:
  assumes "list_all setting_ok xs"
  shows "getlines (settings_text xs) = concat (map setting_lines xs)"
proof -
  have "\<forall>l \<in> set (concat (map setting_lines xs)). CHR 0x0A \<notin> set l"
    using assms
    by (auto simp: list_all_iff setting_ok_def setting_lines_def clean_name_def clean_value_def)
  from getlines_lines [OF this, of "[]"] show ?thesis by (simp add: settings_text_def)
qed

text \<open>A configuration file of the shipped shape - a section line and an indented \<open>key: value\<close>
  line per setting, names and values without comment characters - means exactly its settings,
  applied in order to the configuration it is loaded over; a failing number conversion surfaces as
  that conversion's exception.\<close>

theorem config_file_meaning:
  assumes "list_all setting_ok xs"
  shows "load_config_from_file stod path (Some (settings_text xs)) base =
    sum_bind (apply_settings stod xs base)
      (\<lambda>cfg. Inr (cfg\<lparr>rc_config_path := path, rc_config_file_loaded := True\<rparr>))"
proof -
  show ?thesis
    by (cases "config_lines stod (concat (map setting_lines xs)) ('''', base)")
      (auto simp: load_config_from_file_def settings_text_lines [OF assms]
        config_lines_settings [OF assms, of stod "''''" base, symmetric])
qed

theorem config_file_meaning_witness:
  "load_config_from_file (\<lambda>_. Inl ''invalid_argument'') ''c.yaml''
      (Some (settings_text [(''network'', ''data_port'', ''5002''), (''session'', ''vehicle_id'', ''A:7'')]))
      default_config =
    Inr (default_config\<lparr>rc_data_port := 5002, rc_vehicle_id := ''A:7'',
      rc_config_path := ''c.yaml'', rc_config_file_loaded := True\<rparr>)"
proof -
  have ok: "list_all setting_ok
      [(''network'', ''data_port'', ''5002''), (''session'', ''vehicle_id'', ''A:7'')]"
    by (simp add: setting_ok_def clean_name_def clean_value_def tight_def is_space_def Let_def)
  have "stoul ''5002'' = Inr 5002"
    by (simp add: stoul_def Let_def is_space_def is_digit_def digits_val_def digit_val_def)
  then show ?thesis
    unfolding config_file_meaning [OF ok]
    by (simp add: parse_scalar_def unquote_def default_config_def)
qed

end
