(* ===== verification/ChunkWriter.thy ===== *)
theory ChunkWriter
  imports ContractFrameIo Files RuntimeConfig
begin

text \<open>
  The chunked recorder, \<open>runtimepc/src/chunk_writer.cpp\<close>: frames are appended to \<open>ego_<id>.bin\<close>, an
  index line is appended to \<open>ego.index\<close>, and every flush rewrites \<open>ego_manifest.json\<close>. Every public
  operation holds the mutex. The outcomes of the system calls and the readings of the steady
  clock (in nanoseconds) are arguments, one record per call.
\<close>

section \<open>State\<close>

record chunk_info =
  ci_filename :: string
  ci_bytes :: u64
  ci_first_ts_ns :: u64
  ci_last_ts_ns :: u64
  ci_packet_count :: u32

record chunk_writer =
  cw_config :: runtime_config
  cw_chunk :: ofstream
  cw_index :: ofstream
  cw_chunk_id :: u32
  cw_offset :: u64
  cw_chunk_bytes :: u64
  cw_since_flush :: u32
  cw_last_flush :: nat
  cw_opened_at :: nat
  cw_total_bytes :: u64
  cw_total_packets :: u32
  cw_chunks :: "chunk_info list"

type_synonym writer_state = "chunk_writer \<times> dir"

text \<open>One call's environment. \<open>we_spill\<close> and \<open>we_index_spill\<close>: how much of the stream buffers
  reaches the files by itself. The suffix 1 is for the flush of a rotation, 2 for the flush at the
  end of a write or in \<open>Close\<close>.\<close>

record writer_env =
  we_chunk_open :: bool
  we_index_open :: bool
  we_write :: bool
  we_index_write :: bool
  we_spill :: nat
  we_index_spill :: nat
  we_flush1 :: bool
  we_index_flush1 :: bool
  we_atomic1 :: atomic_env
  we_close :: bool
  we_flush2 :: bool
  we_index_flush2 :: bool
  we_atomic2 :: atomic_env
  we_index_close :: bool
  we_now_rotate :: nat
  we_now_flush1 :: nat
  we_now_open :: nat
  we_now_check :: nat
  we_now_flush2 :: nat

definition new_chunk_writer :: "nat \<Rightarrow> runtime_config \<Rightarrow> chunk_writer" where
  "new_chunk_writer now cfg = \<lparr>cw_config = cfg, cw_chunk = closed_stream, cw_index = closed_stream,
     cw_chunk_id = 0, cw_offset = 0, cw_chunk_bytes = 0, cw_since_flush = 0, cw_last_flush = now,
     cw_opened_at = 0, cw_total_bytes = 0, cw_total_packets = 0, cw_chunks = []\<rparr>"

section \<open>Operations\<close>

definition on_chunk :: "(ofstream \<times> dir \<Rightarrow> ofstream \<times> dir) \<Rightarrow> writer_state \<Rightarrow> writer_state" where
  "on_chunk f ws = (case f (cw_chunk (fst ws), snd ws) of (s, d) \<Rightarrow> ((fst ws)\<lparr>cw_chunk := s\<rparr>, d))"

definition on_index :: "(ofstream \<times> dir \<Rightarrow> ofstream \<times> dir) \<Rightarrow> writer_state \<Rightarrow> writer_state" where
  "on_index f ws = (case f (cw_index (fst ws), snd ws) of (s, d) \<Rightarrow> ((fst ws)\<lparr>cw_index := s\<rparr>, d))"

definition chunk_name :: "nat \<Rightarrow> string" where
  "chunk_name i = ''ego_'' @ dec i @ ''.bin''"

definition open_chunk :: "writer_env \<Rightarrow> nat \<Rightarrow> writer_state \<Rightarrow> bool \<times> writer_state" where
  "open_chunk e now ws =
     (let filename = chunk_name (unat (cw_chunk_id (fst ws)));
          ws1 = on_chunk (os_open_file (we_chunk_open e) True filename) ws
      in if \<not> os_good (cw_chunk (fst ws1)) then (False, ws1)
         else
           let ws2 = (if os_open (cw_index (fst ws1)) then ws1
                      else on_index (os_open_file (we_index_open e) False ''ego.index'') ws1);
               w = fst ws2
           in (True, (w\<lparr>cw_offset := 0, cw_chunk_bytes := 0, cw_opened_at := now,
                        cw_chunks := cw_chunks w @ [\<lparr>ci_filename = filename, ci_bytes = 0,
                          ci_first_ts_ns = 0, ci_last_ts_ns = 0, ci_packet_count = 0\<rparr>]\<rparr>,
                      snd ws2)))"

definition open_writer :: "writer_env \<Rightarrow> writer_state \<Rightarrow> bool \<times> writer_state" where
  "open_writer e ws = open_chunk e (we_now_open e) ws"

text \<open>\<open>UpdateManifest\<close>: the text and the atomic write.\<close>

definition nl :: string where "nl = [CHR 0x0A]"

definition quoted :: "string \<Rightarrow> string" where "quoted s = [CHR 0x22] @ s @ [CHR 0x22]"

definition manifest_chunk :: "nat \<Rightarrow> chunk_info \<Rightarrow> bool \<Rightarrow> string" where
  "manifest_chunk i c comma =
     ''    {'' @ nl @
     ''      '' @ quoted ''chunk_id'' @ '': '' @ dec i @ '','' @ nl @
     ''      '' @ quoted ''file'' @ '': '' @ quoted (json_escape (ci_filename c)) @ '','' @ nl @
     ''      '' @ quoted ''bytes'' @ '': '' @ dec (unat (ci_bytes c)) @ '','' @ nl @
     ''      '' @ quoted ''first_ts_ns'' @ '': '' @ dec (unat (ci_first_ts_ns c)) @ '','' @ nl @
     ''      '' @ quoted ''last_ts_ns'' @ '': '' @ dec (unat (ci_last_ts_ns c)) @ '','' @ nl @
     ''      '' @ quoted ''packet_count'' @ '': '' @ dec (unat (ci_packet_count c)) @ nl @
     ''    }'' @ (if comma then '','' else '''') @ nl"

fun manifest_chunks :: "nat \<Rightarrow> chunk_info list \<Rightarrow> string" where
  "manifest_chunks i [] = ''''"
| "manifest_chunks i (c # cs) = manifest_chunk i c (cs \<noteq> []) @ manifest_chunks (Suc i) cs"

definition manifest_text :: "chunk_info list \<Rightarrow> string" where
  "manifest_text cs =
     ''{'' @ nl @ ''  '' @ quoted ''chunks'' @ '': ['' @ nl @ manifest_chunks 0 cs @
     ''  ]'' @ nl @ ''}'' @ nl"

definition update_manifest :: "atomic_env \<Rightarrow> writer_state \<Rightarrow> writer_state" where
  "update_manifest a ws =
     (fst ws, snd (write_text_atomic a ''ego_manifest.json'' (manifest_text (cw_chunks (fst ws)))
        (snd ws)))"

definition flush_writer ::
  "bool \<Rightarrow> nat \<Rightarrow> bool \<Rightarrow> nat \<Rightarrow> atomic_env \<Rightarrow> nat \<Rightarrow> writer_state \<Rightarrow> writer_state"
where
  "flush_writer ok k iok ik a now ws =
     (let ws1 = (if os_open (cw_chunk (fst ws)) then on_chunk (os_flush ok k) ws else ws);
          ws2 = (if os_open (cw_index (fst ws1)) then on_index (os_flush iok ik) ws1 else ws1);
          w = fst ws2
      in update_manifest a (w\<lparr>cw_since_flush := 0, cw_last_flush := now\<rparr>, snd ws2))"

text \<open>\<open>duration_cast<seconds>\<close> of a difference of clock readings.\<close>

definition elapsed_sec :: "nat \<Rightarrow> nat \<Rightarrow> nat" where
  "elapsed_sec now start = (now - start) div 1000000000"

definition rotate_if_needed :: "writer_env \<Rightarrow> writer_state \<Rightarrow> bool \<times> writer_state" where
  "rotate_if_needed e ws =
     (let w = fst ws in
      if \<not> os_open (cw_chunk w) then open_chunk e (we_now_open e) ws
      else
        let size_limit = cw_chunk_bytes w \<ge> rc_chunk_max_bytes (cw_config w);
            time_limit = elapsed_sec (we_now_rotate e) (cw_opened_at w)
              \<ge> unat (rc_chunk_max_sec (cw_config w))
        in if \<not> size_limit \<and> \<not> time_limit then (True, ws)
           else
             let ws1 = flush_writer (we_flush1 e) (we_spill e) (we_index_flush1 e)
                   (we_index_spill e) (we_atomic1 e) (we_now_flush1 e) ws;
                 ws2 = on_chunk (os_close (we_close e) (we_spill e)) ws1;
                 w2 = fst ws2
             in open_chunk e (we_now_open e)
                  (w2\<lparr>cw_chunk_id := cw_chunk_id w2 + 1\<rparr>, snd ws2))"

definition index_line :: "u64 \<Rightarrow> u64 \<Rightarrow> u32 \<Rightarrow> u64 \<Rightarrow> u32 \<Rightarrow> u32 \<Rightarrow> string" where
  "index_line offset t0_ns frame_type seq chunk_id payload_size =
     dec (unat offset) @ '','' @ dec (unat t0_ns) @ '','' @ dec (unat frame_type) @ '','' @
     dec (unat seq) @ '','' @ dec (unat chunk_id) @ '','' @ dec (unat payload_size)"

definition append_contract_index ::
  "writer_env \<Rightarrow> ego_frame_header \<Rightarrow> writer_state \<Rightarrow> writer_state"
where
  "append_contract_index e h ws =
     (if \<not> os_good (cw_index (fst ws)) then ws
      else on_index (os_write (we_index_write e) (we_index_spill e)
        (text_bytes (index_line (cw_offset (fst ws)) (eh_t0_ns h) (eh_frame_type h) (eh_seq h)
           (cw_chunk_id (fst ws)) (eh_payload_size h) @ nl))) ws)"

text \<open>The counters after a write, and the update of the last chunk's description.\<close>

definition count_in_chunk :: "ego_frame_header \<Rightarrow> nat \<Rightarrow> chunk_info \<Rightarrow> chunk_info" where
  "count_in_chunk h n c =
     (let c1 = c\<lparr>ci_bytes := ci_bytes c + of_nat n, ci_packet_count := ci_packet_count c + 1\<rparr>;
          c2 = (if ci_packet_count c1 = 1 then c1\<lparr>ci_first_ts_ns := eh_t0_ns h\<rparr> else c1)
      in c2\<lparr>ci_last_ts_ns := eh_t1_ns h\<rparr>)"

definition count_frame :: "ego_frame_header \<Rightarrow> nat \<Rightarrow> chunk_writer \<Rightarrow> chunk_writer" where
  "count_frame h n w =
     w\<lparr>cw_offset := cw_offset w + of_nat n, cw_chunk_bytes := cw_chunk_bytes w + of_nat n,
       cw_total_bytes := cw_total_bytes w + of_nat n, cw_total_packets := cw_total_packets w + 1,
       cw_chunks := (if cw_chunks w = [] then []
         else butlast (cw_chunks w) @ [count_in_chunk h n (last (cw_chunks w))]),
       cw_since_flush := cw_since_flush w + 1\<rparr>"

definition write_contract_frame :: "writer_env \<Rightarrow> bytes \<Rightarrow> writer_state \<Rightarrow> bool \<times> writer_state" where
  "write_contract_frame e frame ws =
     (if length frame < 72 then (False, ws)
      else case rotate_if_needed e ws of
        (False, ws1) \<Rightarrow> (False, ws1)
      | (True, ws1) \<Rightarrow>
          let h = header_of_bytes frame in
          if eh_magic h \<noteq> EGO_FRAME_MAGIC then (False, ws1)
          else
            let ws2 = on_chunk (os_write (we_write e) (we_spill e) frame) ws1 in
            if \<not> os_good (cw_chunk (fst ws2)) then (False, ws2)
            else
              let ws3 = append_contract_index e h ws2;
                  w = count_frame h (length frame) (fst ws3);
                  ws4 = (w, snd ws3)
              in (True,
                  if cw_since_flush w \<ge> rc_flush_packets (cw_config w) \<or>
                     elapsed_sec (we_now_check e) (cw_last_flush w)
                       \<ge> unat (rc_flush_interval_sec (cw_config w))
                  then flush_writer (we_flush2 e) (we_spill e) (we_index_flush2 e)
                         (we_index_spill e) (we_atomic2 e) (we_now_flush2 e) ws4
                  else ws4))"

definition close_writer :: "writer_env \<Rightarrow> writer_state \<Rightarrow> writer_state" where
  "close_writer e ws =
     (let ws1 = flush_writer (we_flush2 e) (we_spill e) (we_index_flush2 e) (we_index_spill e)
            (we_atomic2 e) (we_now_flush2 e) ws;
          ws2 = (if os_open (cw_chunk (fst ws1)) then on_chunk (os_close (we_close e) (we_spill e)) ws1
                 else ws1)
      in if os_open (cw_index (fst ws2))
         then on_index (os_close (we_index_close e) (we_index_spill e)) ws2 else ws2)"

definition total_bytes_written :: "chunk_writer \<Rightarrow> u64" where
  "total_bytes_written w = cw_total_bytes w"

definition total_packets_written :: "chunk_writer \<Rightarrow> u32" where
  "total_packets_written w = cw_total_packets w"

text \<open>A sequence of writes. The log holds, for every write that returned \<open>true\<close>, the chunk and
  offset its index line names, and the frame.\<close>

type_synonym entry = "nat \<times> nat \<times> bytes"

fun write_all :: "(writer_env \<times> bytes) list \<Rightarrow> writer_state \<Rightarrow> entry list \<times> writer_state" where
  "write_all [] ws = ([], ws)"
| "write_all ((e, f) # xs) ws =
     (case write_contract_frame e f ws of (ok, ws1) \<Rightarrow>
        (case write_all xs ws1 of (log, ws2) \<Rightarrow>
          (if ok then (unat (cw_chunk_id (fst ws1)),
                       unat (cw_offset (fst ws1) - of_nat (length f)), f) # log
           else log, ws2)))"

section \<open>File names\<close>

lemma chunk_name_inj [simp]: "chunk_name i = chunk_name j \<longleftrightarrow> i = j"
  by (simp add: chunk_name_def dec_eq_iff)

lemma chunk_name_neq [simp]:
  "chunk_name i \<noteq> ''ego.index''" "''ego.index'' \<noteq> chunk_name i"
  "chunk_name i \<noteq> ''ego_manifest.json''" "''ego_manifest.json'' \<noteq> chunk_name i"
  "chunk_name i \<noteq> ''ego_manifest.json.tmp''" "''ego_manifest.json.tmp'' \<noteq> chunk_name i"
proof -
  obtain c cs where c: "dec i = c # cs" "is_digit c"
    using hd_dec_digit [of i] by (cases "dec i") auto
  have "c \<noteq> CHR ''m''" using c(2) by (auto simp: is_digit_def)
  with c(1) have m: "chunk_name i \<noteq> ''ego_manifest.json'' \<and> chunk_name i \<noteq> ''ego_manifest.json.tmp''"
    by (auto simp: chunk_name_def)
  then show "chunk_name i \<noteq> ''ego_manifest.json''" "''ego_manifest.json'' \<noteq> chunk_name i"
    "chunk_name i \<noteq> ''ego_manifest.json.tmp''" "''ego_manifest.json.tmp'' \<noteq> chunk_name i"
    by metis+
  show "chunk_name i \<noteq> ''ego.index''" "''ego.index'' \<noteq> chunk_name i"
    by (simp_all add: chunk_name_def)
qed

section \<open>Recording without failures\<close>

text \<open>The specification: the log determines every file. A chunk's frames are those logged for it.\<close>

definition chunk_frames :: "nat \<Rightarrow> entry list \<Rightarrow> bytes list" where
  "chunk_frames i log = map (\<lambda>x. snd (snd x)) (filter (\<lambda>x. fst x = i) log)"

definition log_frames :: "entry list \<Rightarrow> bytes list" where
  "log_frames log = map (\<lambda>x. snd (snd x)) log"

definition summary :: "nat \<Rightarrow> entry list \<Rightarrow> chunk_info" where
  "summary i log = (let fs = chunk_frames i log in
     \<lparr>ci_filename = chunk_name i, ci_bytes = of_nat (length (concat fs)),
      ci_first_ts_ns = (if fs = [] then 0 else eh_t0_ns (header_of_bytes (hd fs))),
      ci_last_ts_ns = (if fs = [] then 0 else eh_t1_ns (header_of_bytes (last fs))),
      ci_packet_count = of_nat (length fs)\<rparr>)"

definition entry_line :: "entry \<Rightarrow> string" where
  "entry_line x = (case x of (c, off, f) \<Rightarrow>
     (let h = header_of_bytes f in
      index_line (of_nat off) (eh_t0_ns h) (eh_frame_type h) (eh_seq h) (of_nat c) (eh_payload_size h)))"

definition index_text :: "entry list \<Rightarrow> string" where
  "index_text log = concat (map (\<lambda>x. entry_line x @ nl) log)"

lemma chunk_frames_snoc:
  "chunk_frames i (log @ [(c, off, f)]) = chunk_frames i log @ (if c = i then [f] else [])"
  by (simp add: chunk_frames_def)

lemma chunk_frames_Nil [simp]: "chunk_frames i [] = []"
  by (simp add: chunk_frames_def)

lemma index_text_snoc: "index_text (log @ [x]) = index_text log @ entry_line x @ nl"
  by (simp add: index_text_def)

lemma length_chunk_frames: "length (chunk_frames i log) \<le> length log"
  by (simp add: chunk_frames_def)

lemma length_chunk_bytes: "length (concat (chunk_frames i log)) \<le> length (concat (log_frames log))"
  by (induction log) (auto simp: chunk_frames_def log_frames_def)

text \<open>The environment in which nothing fails.\<close>

definition good_env :: "writer_env \<Rightarrow> bool" where
  "good_env e \<longleftrightarrow> we_chunk_open e \<and> we_index_open e \<and> we_write e \<and> we_index_write e \<and>
     we_flush1 e \<and> we_index_flush1 e \<and> we_close e \<and> we_flush2 e \<and> we_index_flush2 e \<and>
     we_index_close e \<and>
     ae_tmp_open (we_atomic1 e) \<and> ae_tmp_write (we_atomic1 e) \<and> ae_rename (we_atomic1 e) \<and>
     ae_tmp_open (we_atomic2 e) \<and> ae_tmp_write (we_atomic2 e) \<and> ae_rename (we_atomic2 e)"

text \<open>The names the writer owns; everything else in the directory is left alone.\<close>

definition own_names :: "nat \<Rightarrow> string set" where
  "own_names n = chunk_name ` {..<n} \<union> {''ego.index'', ''ego_manifest.json''}"

text \<open>\<open>rec_inv d0 n log ws\<close>: after \<open>n\<close> calls on a directory that was \<open>d0\<close> at \<open>Open\<close>, \<open>log\<close> being what
  was recorded.\<close>

definition rec_inv :: "dir \<Rightarrow> nat \<Rightarrow> entry list \<Rightarrow> writer_state \<Rightarrow> bool" where
  "rec_inv d0 n log ws \<longleftrightarrow> (case ws of (w, d) \<Rightarrow>
     let cur = unat (cw_chunk_id w); here = length (concat (chunk_frames cur log)) in
     (os_open (cw_chunk w) \<and> os_good (cw_chunk w) \<and> os_name (cw_chunk w) = chunk_name cur) \<and>
     (os_open (cw_index w) \<and> os_good (cw_index w) \<and> os_name (cw_index w) = ''ego.index'') \<and>
     os_image (cw_chunk w, d) = concat (chunk_frames cur log) \<and>
     (\<forall>i<cur. fget d (chunk_name i) = Some (concat (chunk_frames i log))) \<and>
     os_image (cw_index w, d) = text_bytes (index_text log) \<and>
     cw_chunks w = map (\<lambda>i. summary i log) [0..<Suc cur] \<and>
     cw_offset w = of_nat here \<and> cw_chunk_bytes w = of_nat here \<and>
     cw_total_bytes w = of_nat (length (concat (log_frames log))) \<and>
     cw_total_packets w = of_nat (length log) \<and>
     (\<forall>x\<in>set log. fst x \<le> cur) \<and> sorted (map fst log) \<and>
     (\<forall>k<length log. fst (snd (log ! k)) =
        length (concat (chunk_frames (fst (log ! k)) (take k log)))) \<and>
     cur \<le> n \<and> length log \<le> n \<and>
     fget d (chunk_name cur) \<noteq> None \<and> fget d ''ego.index'' \<noteq> None \<and>
     dir_ok d \<and> (\<forall>m. m \<notin> own_names (Suc cur) \<longrightarrow> m \<noteq> ''ego_manifest.json.tmp'' \<longrightarrow>
        fget d m = fget d0 m) \<and>
     (fget d0 ''ego_manifest.json.tmp'' = None \<longrightarrow> fget d ''ego_manifest.json.tmp'' = None))"

lemma on_chunk_simps [simp]:
  "fst (on_chunk f ws) = (fst ws)\<lparr>cw_chunk := fst (f (cw_chunk (fst ws), snd ws))\<rparr>"
  "snd (on_chunk f ws) = snd (f (cw_chunk (fst ws), snd ws))"
  by (simp_all add: on_chunk_def split: prod.splits)

lemma on_index_simps [simp]:
  "fst (on_index f ws) = (fst ws)\<lparr>cw_index := fst (f (cw_index (fst ws), snd ws))\<rparr>"
  "snd (on_index f ws) = snd (f (cw_index (fst ws), snd ws))"
  by (simp_all add: on_index_def split: prod.splits)

text \<open>A stream's image does not see operations on files of other names.\<close>

lemma os_image_frame:
  "fget d' (os_name s) = fget d (os_name s) \<Longrightarrow> os_image (s, d') = os_image (s, d)"
  by (simp add: os_image_def contents_def)

text \<open>Good streams: the writer's two streams are open, good and on the expected files.\<close>

definition good_streams :: "chunk_writer \<Rightarrow> bool" where
  "good_streams w \<longleftrightarrow>
     os_open (cw_chunk w) \<and> os_good (cw_chunk w) \<and>
     os_name (cw_chunk w) = chunk_name (unat (cw_chunk_id w)) \<and>
     os_open (cw_index w) \<and> os_good (cw_index w) \<and> os_name (cw_index w) = ''ego.index''"

lemma flush_good:
  assumes g: "good_streams w" and a: "ae_tmp_open a" "ae_tmp_write a" "ae_rename a"
  shows "fst (flush_writer True k True ik a now (w, d)) =
      w\<lparr>cw_chunk := (cw_chunk w)\<lparr>os_buf := []\<rparr>, cw_index := (cw_index w)\<lparr>os_buf := []\<rparr>,
        cw_since_flush := 0, cw_last_flush := now\<rparr>"
    and "fget (snd (flush_writer True k True ik a now (w, d))) =
      (fget d)(chunk_name (unat (cw_chunk_id w)) \<mapsto> os_image (cw_chunk w, d),
        ''ego.index'' \<mapsto> os_image (cw_index w, d), ''ego_manifest.json.tmp'' := None,
        ''ego_manifest.json'' \<mapsto> text_bytes (manifest_text (cw_chunks w)))"
    and "dir_ok d \<Longrightarrow> dir_ok (snd (flush_writer True k True ik a now (w, d)))"
  using g a write_text_atomic_ok [of a "''ego_manifest.json''"]
  by (auto simp: flush_writer_def update_manifest_def Let_def good_streams_def os_flush_def
      os_spill_def os_image_def contents_def intro: inv_intros intro!: ext)

lemma elapsed_0 [simp]: "elapsed_sec t t = 0"
  by (simp add: elapsed_sec_def)

lemma rotate_good:
  assumes g: "good_streams w" and e: "good_env e"
  obtains (keep) "rotate_if_needed e (w, d) = (True, (w, d))"
  | (rotate) w' d' where "rotate_if_needed e (w, d) = (True, (w', d'))"
    "w' = w\<lparr>cw_chunk := \<lparr>os_open = True, os_good = True,
          os_name = chunk_name (unat (cw_chunk_id w + 1)), os_buf = []\<rparr>,
        cw_index := (cw_index w)\<lparr>os_buf := []\<rparr>, cw_chunk_id := cw_chunk_id w + 1,
        cw_offset := 0, cw_chunk_bytes := 0, cw_since_flush := 0,
        cw_last_flush := we_now_flush1 e, cw_opened_at := we_now_open e,
        cw_chunks := cw_chunks w @ [summary (unat (cw_chunk_id w + 1)) []]\<rparr>"
    "fget d' = (fget d)(chunk_name (unat (cw_chunk_id w)) \<mapsto> os_image (cw_chunk w, d),
        ''ego.index'' \<mapsto> os_image (cw_index w, d), ''ego_manifest.json.tmp'' := None,
        ''ego_manifest.json'' \<mapsto> text_bytes (manifest_text (cw_chunks w)),
        chunk_name (unat (cw_chunk_id w + 1)) \<mapsto> [])"
    "dir_ok d \<Longrightarrow> dir_ok d'"
proof (cases "\<not> cw_chunk_bytes w \<ge> rc_chunk_max_bytes (cw_config w) \<and>
    \<not> elapsed_sec (we_now_rotate e) (cw_opened_at w) \<ge> unat (rc_chunk_max_sec (cw_config w))")
  case True
  with g show ?thesis
    by (intro keep) (auto simp: rotate_if_needed_def good_streams_def Let_def)
next
  case False
  have ae: "ae_tmp_open (we_atomic1 e)" "ae_tmp_write (we_atomic1 e)" "ae_rename (we_atomic1 e)"
    using e by (simp_all add: good_env_def)
  obtain w1 d1 where f: "flush_writer True (we_spill e) True (we_index_spill e) (we_atomic1 e)
      (we_now_flush1 e) (w, d) = (w1, d1)" by fastforce
  note fl = flush_good [OF g ae, where k = "we_spill e" and ik = "we_index_spill e"
      and now = "we_now_flush1 e" and d = d, unfolded f fst_conv snd_conv]
  let ?d2 = "put (chunk_name (unat (cw_chunk_id w))) (contents d1 (chunk_name (unat (cw_chunk_id w)))) d1"
  have d2: "fget ?d2 = fget d1"
    using fl(2) by (auto simp: contents_def)
  have "rotate_if_needed e (w, d) = (True,
      (w\<lparr>cw_chunk := \<lparr>os_open = True, os_good = True,
          os_name = chunk_name (unat (cw_chunk_id w + 1)), os_buf = []\<rparr>,
        cw_index := (cw_index w)\<lparr>os_buf := []\<rparr>, cw_chunk_id := cw_chunk_id w + 1,
        cw_offset := 0, cw_chunk_bytes := 0, cw_since_flush := 0,
        cw_last_flush := we_now_flush1 e, cw_opened_at := we_now_open e,
        cw_chunks := cw_chunks w @ [summary (unat (cw_chunk_id w + 1)) []]\<rparr>,
       put (chunk_name (unat (cw_chunk_id w + 1))) [] ?d2))"
    using False g e f fl(1)
    by (auto simp: rotate_if_needed_def Let_def good_streams_def good_env_def open_chunk_def
        on_chunk_def os_close_def os_spill_def os_open_file_def summary_def)
  note r = this
  have "fget (put (chunk_name (unat (cw_chunk_id w + 1))) [] ?d2) =
      (fget d)(chunk_name (unat (cw_chunk_id w)) \<mapsto> os_image (cw_chunk w, d),
        ''ego.index'' \<mapsto> os_image (cw_index w, d), ''ego_manifest.json.tmp'' := None,
        ''ego_manifest.json'' \<mapsto> text_bytes (manifest_text (cw_chunks w)),
        chunk_name (unat (cw_chunk_id w + 1)) \<mapsto> [])"
    by (simp only: fget_put_upd [of _ "[]"] d2 fl(2))
  from rotate [OF r refl this] fl(3) show ?thesis by simp
qed

subsection \<open>Every write preserves the invariant\<close>

lemma rec_inv_streams: "rec_inv d0 n log (w, d) \<Longrightarrow> good_streams w"
  by (simp add: rec_inv_def good_streams_def Let_def)

lemma chunk_frames_new:
  "\<forall>x\<in>set log. fst x \<le> c \<Longrightarrow> c < i \<Longrightarrow> chunk_frames i log = []"
  by (auto simp: chunk_frames_def filter_empty_conv)

lemma summary_new: "chunk_frames i log = [] \<Longrightarrow> summary i log = summary i []"
  by (simp add: summary_def)

lemma own_names_mono: "m \<le> n \<Longrightarrow> own_names m \<subseteq> own_names n"
  by (auto simp: own_names_def)

lemma rec_inv_flush:
  assumes inv: "rec_inv d0 n log (w, d)"
    and a: "ae_tmp_open a" "ae_tmp_write a" "ae_rename a"
    and f: "flush_writer True k True ik a now (w, d) = (w', d')"
  shows "rec_inv d0 n log (w', d')"
    and "fget d' = (fget d)(chunk_name (unat (cw_chunk_id w)) \<mapsto> os_image (cw_chunk w, d),
        ''ego.index'' \<mapsto> os_image (cw_index w, d), ''ego_manifest.json.tmp'' := None,
        ''ego_manifest.json'' \<mapsto> text_bytes (manifest_text (cw_chunks w)))"
    and "w' = w\<lparr>cw_chunk := (cw_chunk w)\<lparr>os_buf := []\<rparr>, cw_index := (cw_index w)\<lparr>os_buf := []\<rparr>,
        cw_since_flush := 0, cw_last_flush := now\<rparr>"
proof -
  note fl = flush_good [OF rec_inv_streams [OF inv] a, where k = k and ik = ik and now = now
      and d = d, unfolded f fst_conv snd_conv]
  show d': "fget d' = (fget d)(chunk_name (unat (cw_chunk_id w)) \<mapsto> os_image (cw_chunk w, d),
        ''ego.index'' \<mapsto> os_image (cw_index w, d), ''ego_manifest.json.tmp'' := None,
        ''ego_manifest.json'' \<mapsto> text_bytes (manifest_text (cw_chunks w)))"
    and w': "w' = w\<lparr>cw_chunk := (cw_chunk w)\<lparr>os_buf := []\<rparr>,
        cw_index := (cw_index w)\<lparr>os_buf := []\<rparr>, cw_since_flush := 0, cw_last_flush := now\<rparr>"
    by (fact fl)+
  have "contents d' (chunk_name (unat (cw_chunk_id w))) = os_image (cw_chunk w, d)"
    "contents d' ''ego.index'' = os_image (cw_index w, d)"
    by (simp_all add: contents_def d')
  moreover have "os_name (cw_chunk w) = chunk_name (unat (cw_chunk_id w))"
    "os_name (cw_index w) = ''ego.index''"
    using rec_inv_streams [OF inv] by (simp_all add: good_streams_def)
  ultimately show "rec_inv d0 n log (w', d')"
    using inv fl(3) by (simp add: rec_inv_def Let_def w' d' os_image_def own_names_def)
qed

lemma rec_inv_rotate:
  assumes inv: "rec_inv d0 n log (w, d)" and e: "good_env e" and n: "n + 1 < 2 ^ 32"
  obtains w' d' where "rotate_if_needed e (w, d) = (True, (w', d'))"
    and "rec_inv d0 (n + 1) log (w', d')"
proof (cases rule: rotate_good [OF rec_inv_streams [OF inv] e, of d, consumes 0, case_names keep rotate])
  case keep
  moreover have "rec_inv d0 (n + 1) log (w, d)" using inv by (simp add: rec_inv_def Let_def)
  ultimately show ?thesis using that by blast
next
  case (rotate w' d')
  let ?c = "unat (cw_chunk_id w)"
  have cn: "?c \<le> n" using inv by (simp add: rec_inv_def Let_def)
  have c': "unat (cw_chunk_id w + 1) = Suc ?c"
    using cn n by (simp add: unat_word_ariths)
  have new: "chunk_frames (Suc ?c) log = []"
    using inv by (intro chunk_frames_new [of _ ?c]) (simp_all add: rec_inv_def Let_def)
  have nm: "os_name (cw_chunk w) = chunk_name ?c" "os_name (cw_index w) = ''ego.index''"
    using rec_inv_streams [OF inv] by (simp_all add: good_streams_def)
  have img: "os_image (cw_chunk w, d) = concat (chunk_frames ?c log)"
    "os_image (cw_index w, d) = text_bytes (index_text log)"
    using inv by (simp_all add: rec_inv_def Let_def)
  have "contents d' (chunk_name (Suc ?c)) = []" "contents d' ''ego.index'' = text_bytes (index_text log)"
    by (simp_all add: contents_def rotate(3) c' img)
  then have "rec_inv d0 (n + 1) log (w', d')"
    using inv cn rotate(4)
    by (auto simp: rec_inv_def Let_def rotate(2,3) c' os_image_def nm new own_names_def
        less_Suc_eq img summary_new [OF new])
  with rotate(1) show ?thesis using that by blast
qed

lemma os_write_keeps_file:
  "fget (snd sd) m \<noteq> None \<Longrightarrow> fget (snd (os_write ok k bs sd)) m \<noteq> None"
  by (cases sd) (auto simp: os_write_def os_spill_def)

lemma count_in_chunk_summary:
  assumes len: "length log + 1 < 2 ^ 32"
  shows "count_in_chunk (header_of_bytes f) (length f) (summary c log)
    = summary c (log @ [(c, off, f)])"
proof -
  let ?fs = "chunk_frames c log"
  have "length ?fs + 1 < 2 ^ 32" using length_chunk_frames [of c log] len by linarith
  then have one: "(of_nat (length ?fs) :: u32) = 0 \<longleftrightarrow> ?fs = []"
    by (cases ?fs) (simp_all add: word_of_nat_eq_0_iff nat_dvd_not_less del: of_nat_Suc)
  have "summary c (log @ [(c, off, f)]) = \<lparr>ci_filename = chunk_name c,
      ci_bytes = of_nat (length (concat ?fs)) + of_nat (length f),
      ci_first_ts_ns = (if ?fs = [] then eh_t0_ns (header_of_bytes f)
        else eh_t0_ns (header_of_bytes (hd ?fs))),
      ci_last_ts_ns = eh_t1_ns (header_of_bytes f),
      ci_packet_count = of_nat (length ?fs) + 1\<rparr>"
    by (simp add: summary_def Let_def chunk_frames_snoc add.commute)
  then show ?thesis
    by (auto simp: count_in_chunk_def summary_def Let_def one)
qed

lemma rec_inv_append:
  assumes inv: "rec_inv d0 n log (w, d)" and n: "length log < n" "n < 2 ^ 32"
    and s: "os_write True k f (cw_chunk w, d) = (s2, d2)"
    and i: "os_write True ik line (cw_index w, d2) = (i3, d3)"
    and line: "line = text_bytes (index_line (cw_offset w) (eh_t0_ns h) (eh_frame_type h)
      (eh_seq h) (cw_chunk_id w) (eh_payload_size h) @ nl)"
    and h: "h = header_of_bytes f"
    and c: "c = unat (cw_chunk_id w)" and off: "off = length (concat (chunk_frames c log))"
  shows "rec_inv d0 n (log @ [(c, off, f)])
    (count_frame h (length f) (w\<lparr>cw_chunk := s2, cw_index := i3\<rparr>), d3)"
proof -
  let ?log = "log @ [(c, off, f)]"
  have st: "good_streams w" by (rule rec_inv_streams [OF inv])
  have nm: "os_name (cw_chunk w) = chunk_name c" "os_name (cw_index w) = ''ego.index''"
    and opn: "os_open (cw_chunk w)" "os_good (cw_chunk w)" "os_open (cw_index w)" "os_good (cw_index w)"
    using st by (simp_all add: good_streams_def c)
  have s2: "os_open s2" "os_good s2" "os_name s2 = chunk_name c"
    using os_write_fst [of True k f "(cw_chunk w, d)"] opn nm by (simp_all add: s)
  have i3: "os_open i3" "os_good i3" "os_name i3 = ''ego.index''"
    using os_write_fst [of True ik line "(cw_index w, d2)"] opn nm by (simp_all add: i)
  have d2: "fget d2 m = fget d m" if "m \<noteq> chunk_name c" for m
    using os_write_other [of m "(cw_chunk w, d)" True k f] nm that by (simp add: s)
  have d3: "fget d3 m = fget d2 m" if "m \<noteq> ''ego.index''" for m
    using os_write_other [of m "(cw_index w, d2)" True ik line] nm that by (simp add: i)
  have img: "os_image (s2, d3) = concat (chunk_frames c log) @ f"
  proof -
    have "os_image (s2, d3) = os_image (s2, d2)"
      by (rule os_image_frame) (simp add: s2 d3)
    also have "\<dots> = os_image (cw_chunk w, d) @ f"
      using os_image_write [of True k f "(cw_chunk w, d)"] opn by (simp add: s)
    finally show ?thesis using inv by (simp add: rec_inv_def Let_def c)
  qed
  have entry: "index_line (cw_offset w) (eh_t0_ns h) (eh_frame_type h) (eh_seq h) (cw_chunk_id w)
      (eh_payload_size h) = entry_line (c, off, f)"
    using inv by (simp add: entry_line_def Let_def h c off rec_inv_def)
  have idx: "os_image (i3, d3) = text_bytes (index_text ?log)"
  proof -
    have "os_image (i3, d3) = os_image (cw_index w, d2) @ line"
      using os_image_write [of True ik line "(cw_index w, d2)"] opn by (simp add: i)
    also have "line = text_bytes (entry_line (c, off, f) @ nl)" by (simp add: line entry)
    also have "os_image (cw_index w, d2) = os_image (cw_index w, d)"
      by (rule os_image_frame) (simp add: nm d2)
    finally show ?thesis using inv by (simp add: rec_inv_def Let_def index_text_snoc)
  qed
  have ok: "dir_ok d3"
    using inv dir_ok_streams(2) [of "(cw_chunk w, d)" True k f]
      dir_ok_streams(2) [of "(cw_index w, d2)" True ik line]
    by (simp add: rec_inv_def Let_def s i)
  have ex: "fget d3 (chunk_name c) \<noteq> None" "fget d3 ''ego.index'' \<noteq> None"
    using inv os_write_keeps_file [of "(cw_chunk w, d)" "chunk_name c" True k f]
      os_write_keeps_file [of "(cw_index w, d2)" _ True ik line]
    by (simp_all add: rec_inv_def Let_def s i d2 c)
  have chunks: "butlast (cw_chunks w) @ [count_in_chunk h (length f) (last (cw_chunks w))]
      = map (\<lambda>i. summary i ?log) [0..<Suc c]"
  proof -
    have "cw_chunks w = map (\<lambda>i. summary i log) [0..<Suc c]"
      using inv by (simp add: rec_inv_def Let_def c)
    moreover have "summary i ?log = summary i log" if "i < c" for i
      using that by (simp add: summary_def chunk_frames_snoc)
    moreover have "count_in_chunk h (length f) (summary c log) = summary c ?log"
      unfolding h using n by (intro count_in_chunk_summary) auto
    ultimately show ?thesis by simp
  qed
  have others: "fget d3 m = fget d m" if "m \<notin> own_names (Suc c)" for m
    using that by (auto simp: own_names_def lessThan_Suc d2 d3)
  have "cw_chunks w \<noteq> []" using inv by (simp add: rec_inv_def Let_def)
  then show ?thesis
    using inv n img idx ok ex chunks s2 i3
    unfolding rec_inv_def count_frame_def
    by (auto simp: Let_def c [symmetric] chunk_frames_snoc log_frames_def off d2 d3 sorted_append
        nth_append others less_Suc_eq)
qed

text \<open>Every write of a frame with the right magic succeeds and extends the log.\<close>

lemma rec_inv_write:
  assumes inv: "rec_inv d0 n log (w, d)" and e: "good_env e" and n: "n + 1 < 2 ^ 32"
    and f: "72 \<le> length f" "eh_magic (header_of_bytes f) = EGO_FRAME_MAGIC"
    and small: "length (concat (log_frames log)) + length f < 2 ^ 64"
  obtains c off ws' where "write_contract_frame e f (w, d) = (True, ws')"
    and "c = unat (cw_chunk_id (fst ws'))"
    and "off = unat (cw_offset (fst ws') - of_nat (length f))"
    and "rec_inv d0 (n + 1) (log @ [(c, off, f)]) ws'"
proof -
  obtain w1 d1 where r: "rotate_if_needed e (w, d) = (True, (w1, d1))"
    and inv1: "rec_inv d0 (n + 1) log (w1, d1)"
    by (rule rec_inv_rotate [OF inv e n])
  have st: "good_streams w1" by (rule rec_inv_streams [OF inv1])
  have log: "length log < n + 1" using inv by (simp add: rec_inv_def Let_def)
  let ?h = "header_of_bytes f"
  obtain s2 d2 where s: "os_write True (we_spill e) f (cw_chunk w1, d1) = (s2, d2)" by fastforce
  have s2: "os_good s2"
    using os_write_fst(3) [of True "we_spill e" f "(cw_chunk w1, d1)"] st
    by (simp add: s good_streams_def)
  define line where "line = text_bytes (index_line (cw_offset w1) (eh_t0_ns ?h) (eh_frame_type ?h)
      (eh_seq ?h) (cw_chunk_id w1) (eh_payload_size ?h) @ nl)"
  obtain i3 d3 where i: "os_write True (we_index_spill e) line (cw_index w1, d2) = (i3, d3)"
    by fastforce
  let ?c = "unat (cw_chunk_id w1)"
  let ?off = "length (concat (chunk_frames ?c log))"
  let ?w4 = "count_frame ?h (length f) (w1\<lparr>cw_chunk := s2, cw_index := i3\<rparr>)"
  have inv4: "rec_inv d0 (n + 1) (log @ [(?c, ?off, f)]) (?w4, d3)"
    by (rule rec_inv_append [OF inv1 log _ s i line_def refl refl refl]) (use n in simp)
  have off: "?off = unat (cw_offset ?w4 - of_nat (length f))"
  proof -
    have "cw_offset w1 = of_nat ?off" using inv1 by (simp add: rec_inv_def Let_def)
    then have "cw_offset ?w4 - of_nat (length f) = of_nat ?off" by (simp add: count_frame_def)
    moreover have "?off < 2 ^ 64" using length_chunk_bytes [of ?c log] small by linarith
    ultimately show ?thesis by (simp only: unat_of_nat_small len_of_numeral_defs) (simp add: unat_of_nat_small)
  qed
  have w4: "cw_chunk_id ?w4 = cw_chunk_id w1" by (simp add: count_frame_def)
  let ?ws' = "if cw_since_flush ?w4 \<ge> rc_flush_packets (cw_config ?w4) \<or>
         elapsed_sec (we_now_check e) (cw_last_flush ?w4) \<ge> unat (rc_flush_interval_sec (cw_config ?w4))
       then flush_writer True (we_spill e) True (we_index_spill e) (we_atomic2 e)
         (we_now_flush2 e) (?w4, d3) else (?w4, d3)"
  have ws: "on_chunk (os_write True (we_spill e) f) (w1, d1) = (w1\<lparr>cw_chunk := s2\<rparr>, d2)"
    by (simp add: on_chunk_def s)
  have idx: "append_contract_index e ?h (w1\<lparr>cw_chunk := s2\<rparr>, d2)
      = (w1\<lparr>cw_chunk := s2, cw_index := i3\<rparr>, d3)"
    using st e i line_def
    by (simp add: append_contract_index_def on_index_def good_streams_def good_env_def)
  have "write_contract_frame e f (w, d) = (True, ?ws')"
    using f e s2 st unfolding write_contract_frame_def
    by (simp add: r ws idx good_env_def good_streams_def Let_def)
  moreover have "rec_inv d0 (n + 1) (log @ [(?c, ?off, f)]) ?ws' \<and>
      cw_chunk_id (fst ?ws') = cw_chunk_id w1 \<and> cw_offset (fst ?ws') = cw_offset ?w4"
  proof (cases "cw_since_flush ?w4 \<ge> rc_flush_packets (cw_config ?w4) \<or>
         elapsed_sec (we_now_check e) (cw_last_flush ?w4) \<ge> unat (rc_flush_interval_sec (cw_config ?w4))")
    case True
    obtain w5 d5 where fl: "flush_writer True (we_spill e) True (we_index_spill e) (we_atomic2 e)
         (we_now_flush2 e) (?w4, d3) = (w5, d5)" by fastforce
    have ae: "ae_tmp_open (we_atomic2 e)" "ae_tmp_write (we_atomic2 e)" "ae_rename (we_atomic2 e)"
      using e by (simp_all add: good_env_def)
    from rec_inv_flush [OF inv4 ae fl] True fl w4 show ?thesis by simp
  next
    case False
    with inv4 w4 show ?thesis by simp
  qed
  ultimately show ?thesis using off by (intro that [of ?ws' ?c ?off]) auto
qed

lemma rec_inv_open:
  assumes e: "good_env e" and d: "dir_ok d0" "fget d0 ''ego.index'' = None"
  obtains ws where "open_writer e (new_chunk_writer now cfg, d0) = (True, ws)"
    and "rec_inv d0 0 [] ws"
proof -
  let ?d1 = "put (chunk_name 0) [] d0"
  let ?w = "(new_chunk_writer now cfg)\<lparr>
      cw_chunk := \<lparr>os_open = True, os_good = True, os_name = chunk_name 0, os_buf = []\<rparr>,
      cw_index := \<lparr>os_open = True, os_good = True, os_name = ''ego.index'', os_buf = []\<rparr>,
      cw_offset := 0, cw_chunk_bytes := 0, cw_opened_at := we_now_open e,
      cw_chunks := [summary 0 []]\<rparr>"
  have "open_writer e (new_chunk_writer now cfg, d0) = (True, (?w, put ''ego.index'' [] ?d1))"
    using e d(2)
    by (simp add: open_writer_def open_chunk_def new_chunk_writer_def on_chunk_def on_index_def
        os_open_file_def closed_stream_def good_env_def Let_def summary_def contents_def)
  moreover have "rec_inv d0 0 [] (?w, put ''ego.index'' [] ?d1)"
    using d by (auto simp: rec_inv_def Let_def new_chunk_writer_def os_image_def own_names_def
        index_text_def log_frames_def)
  ultimately show ?thesis by (rule that)
qed

lemma rec_inv_close:
  assumes inv: "rec_inv d0 n log (w, d)" and e: "good_env e"
    and c: "close_writer e (w, d) = (w', d')" and cur: "cur = unat (cw_chunk_id w)"
  shows "\<forall>i\<le>cur. fget d' (chunk_name i) = Some (concat (chunk_frames i log))"
    and "fget d' ''ego.index'' = Some (text_bytes (index_text log))"
    and "fget d' ''ego_manifest.json'' =
      Some (text_bytes (manifest_text (map (\<lambda>i. summary i log) [0..<Suc cur])))"
    and "\<forall>m. m \<notin> own_names (Suc cur) \<and> m \<noteq> ''ego_manifest.json.tmp'' \<longrightarrow> fget d' m = fget d0 m"
    and "fget d' ''ego_manifest.json.tmp'' = None"
    and "dir_ok d'" and "cw_total_bytes w' = cw_total_bytes w"
    and "cw_total_packets w' = cw_total_packets w"
proof -
  have ae: "ae_tmp_open (we_atomic2 e)" "ae_tmp_write (we_atomic2 e)" "ae_rename (we_atomic2 e)"
    using e by (simp_all add: good_env_def)
  obtain w1 d1 where f: "flush_writer True (we_spill e) True (we_index_spill e) (we_atomic2 e)
      (we_now_flush2 e) (w, d) = (w1, d1)" by fastforce
  note fl = rec_inv_flush [OF inv ae f]
  have st: "good_streams w" by (rule rec_inv_streams [OF inv])
  have nm: "os_name (cw_chunk w) = chunk_name cur" "os_name (cw_index w) = ''ego.index''"
    using st by (simp_all add: good_streams_def cur)
  have img: "os_image (cw_chunk w, d) = concat (chunk_frames cur log)"
    "os_image (cw_index w, d) = text_bytes (index_text log)"
    "cw_chunks w = map (\<lambda>i. summary i log) [0..<Suc cur]"
    using inv by (simp_all add: rec_inv_def Let_def cur)
  have d1: "fget d1 = (fget d)(chunk_name cur \<mapsto> concat (chunk_frames cur log),
        ''ego.index'' \<mapsto> text_bytes (index_text log), ''ego_manifest.json.tmp'' := None,
        ''ego_manifest.json'' \<mapsto>
          text_bytes (manifest_text (map (\<lambda>i. summary i log) [0..<Suc cur])))"
    using fl(2) by (simp only: img cur [symmetric])
  have close: "w' = w1\<lparr>cw_chunk := cw_chunk w', cw_index := cw_index w'\<rparr>"
    "d' = put ''ego.index'' (contents (put (chunk_name cur) (contents d1 (chunk_name cur)) d1)
            ''ego.index'') (put (chunk_name cur) (contents d1 (chunk_name cur)) d1)"
    using c st e f fl(3) nm
    by (auto simp: close_writer_def Let_def good_streams_def good_env_def on_chunk_def on_index_def
        os_close_def os_spill_def)
  have d': "fget d' = fget d1"
    unfolding close(2) by (rule ext) (simp add: contents_def d1)
  have old: "\<forall>i<cur. fget d (chunk_name i) = Some (concat (chunk_frames i log))"
    "\<forall>m. m \<notin> own_names (Suc cur) \<longrightarrow> m \<noteq> ''ego_manifest.json.tmp'' \<longrightarrow> fget d m = fget d0 m"
    using inv by (simp_all add: rec_inv_def Let_def cur)
  show "\<forall>i\<le>cur. fget d' (chunk_name i) = Some (concat (chunk_frames i log))"
    using old(1) by (auto simp: d' d1 le_less)
  show "fget d' ''ego.index'' = Some (text_bytes (index_text log))"
    "fget d' ''ego_manifest.json'' =
      Some (text_bytes (manifest_text (map (\<lambda>i. summary i log) [0..<Suc cur])))"
    "fget d' ''ego_manifest.json.tmp'' = None"
    by (simp_all add: d' d1)
  show "\<forall>m. m \<notin> own_names (Suc cur) \<and> m \<noteq> ''ego_manifest.json.tmp'' \<longrightarrow> fget d' m = fget d0 m"
    using old(2) by (auto simp: d' d1 own_names_def)
  have "dir_ok d1" using fl(1) by (simp add: rec_inv_def Let_def)
  then show "dir_ok d'" unfolding close(2) by simp
  have "cw_total_bytes w' = cw_total_bytes w1" "cw_total_packets w' = cw_total_packets w1"
    by (subst close(1), simp)+
  then show "cw_total_bytes w' = cw_total_bytes w" "cw_total_packets w' = cw_total_packets w"
    by (simp_all add: fl(3))
qed

text \<open>Writing a whole sequence.\<close>

definition good_call :: "writer_env \<times> bytes \<Rightarrow> bool" where
  "good_call x \<longleftrightarrow> good_env (fst x) \<and> 72 \<le> length (snd x)
     \<and> eh_magic (header_of_bytes (snd x)) = EGO_FRAME_MAGIC"

lemma log_frames_append [simp]: "log_frames (a @ b) = log_frames a @ log_frames b"
  by (simp add: log_frames_def)

lemma rec_inv_write_all:
  assumes "write_all xs ws = (log, ws')" and "rec_inv d0 n log0 ws"
    and "list_all good_call xs" and "n + length xs < 2 ^ 32"
    and "length (concat (log_frames log0)) + length (concat (map snd xs)) < 2 ^ 64"
  shows "rec_inv d0 (n + length xs) (log0 @ log) ws' \<and> log_frames log = map snd xs"
  using assms
proof (induction xs arbitrary: ws log n log0)
  case Nil
  then show ?case by (simp add: log_frames_def)
next
  case (Cons x xs)
  obtain e f where x: "x = (e, f)" by (cases x)
  obtain w d where ws: "ws = (w, d)" by (cases ws)
  have g: "good_env e" "72 \<le> length f" "eh_magic (header_of_bytes f) = EGO_FRAME_MAGIC"
    using Cons.prems(3) by (simp_all add: x good_call_def)
  have "n + 1 < 2 ^ 32" "length (concat (log_frames log0)) + length f < 2 ^ 64"
    using Cons.prems(4,5) by (simp_all add: x)
  from rec_inv_write [OF Cons.prems(2)[unfolded ws] g(1) this(1) g(2,3) this(2)]
  obtain c off ws1 where w: "write_contract_frame e f ws = (True, ws1)"
    "c = unat (cw_chunk_id (fst ws1))" "off = unat (cw_offset (fst ws1) - of_nat (length f))"
    "rec_inv d0 (n + 1) (log0 @ [(c, off, f)]) ws1"
    unfolding ws by blast
  obtain log1 where l: "write_all xs ws1 = (log1, ws')" "log = (c, off, f) # log1"
    using Cons.prems(1) w by (auto simp: x split: prod.splits)
  have "rec_inv d0 (n + 1 + length xs) ((log0 @ [(c, off, f)]) @ log1) ws' \<and>
      log_frames log1 = map snd xs"
    by (rule Cons.IH [OF l(1) w(4)]) (use Cons.prems(3,4,5) in \<open>simp_all add: x log_frames_def\<close>)
  then show ?case by (simp add: l(2) x log_frames_def)
qed

section \<open>A whole recording\<close>

text \<open>The life of a writer: \<open>Open\<close>, the writes, \<open>Close\<close>.\<close>

definition record_session ::
  "writer_env \<Rightarrow> nat \<Rightarrow> runtime_config \<Rightarrow> (writer_env \<times> bytes) list \<Rightarrow> writer_env \<Rightarrow> dir
     \<Rightarrow> entry list \<times> writer_state"
where
  "record_session e0 now cfg xs ec d0 =
     (case open_writer e0 (new_chunk_writer now cfg, d0) of (_, ws0) \<Rightarrow>
        (case write_all xs ws0 of (log, ws1) \<Rightarrow> (log, close_writer ec ws1)))"

definition fair_recording :: "writer_env \<Rightarrow> (writer_env \<times> bytes) list \<Rightarrow> writer_env \<Rightarrow> dir \<Rightarrow> bool" where
  "fair_recording e0 xs ec d0 \<longleftrightarrow> good_env e0 \<and> good_env ec \<and> list_all good_call xs \<and>
     length xs < 2 ^ 32 \<and> length (concat (map snd xs)) < 2 ^ 64 \<and>
     dir_ok d0 \<and> fget d0 ''ego.index'' = None"

lemma sorted_filter_split:
  "sorted (map fst log) \<Longrightarrow> filter (\<lambda>x. fst x < Suc n) log =
     filter (\<lambda>x. fst x < n) log @ filter (\<lambda>x. fst x = (n::nat)) log"
proof (induction log)
  case (Cons x log)
  show ?case
  proof (cases "fst x < n")
    case True
    with Cons show ?thesis by simp
  next
    case False
    with Cons.prems have "filter (\<lambda>x. fst x < n) (x # log) = []"
      by (auto simp: filter_empty_conv)
    moreover have "filter (\<lambda>x. fst x < Suc n) (x # log) = filter (\<lambda>x. fst x = n) (x # log)"
      using False Cons.prems by (intro filter_cong) auto
    ultimately show ?thesis by simp
  qed
qed simp

lemma chunks_in_order:
  assumes "sorted (map fst log)"
  shows "concat (map (\<lambda>i. chunk_frames i log) [0..<n]) = log_frames (filter (\<lambda>x. fst x < n) log)"
  using assms
  by (induction n) (simp_all add: log_frames_def sorted_filter_split chunk_frames_def)

lemma concat_chunks:
  assumes "sorted (map fst log)" and "\<forall>x\<in>set log. fst x \<le> n"
  shows "concat (map (\<lambda>i. concat (chunk_frames i log)) [0..<Suc n]) = concat (log_frames log)"
proof -
  have "filter (\<lambda>x. fst x < Suc n) log = log"
    using assms(2) by (auto simp: filter_id_conv)
  then have "concat (concat (map (\<lambda>i. chunk_frames i log) [0..<Suc n])) = concat (log_frames log)"
    using chunks_in_order [OF assms(1), of "Suc n"] by simp
  moreover have "concat (concat (map (\<lambda>i. chunk_frames i log) xs))
      = concat (map (\<lambda>i. concat (chunk_frames i log)) xs)" for xs
    by (induction xs) auto
  ultimately show ?thesis by simp
qed

text \<open>Everything a fair recording leaves behind. \<open>last_chunk\<close> is the number of the last chunk.\<close>

lemma recorded:
  assumes fair: "fair_recording e0 xs ec d0"
    and rec: "record_session e0 now cfg xs ec d0 = (log, (w, d))"
  obtains last_chunk where "log_frames log = map snd xs"
    and "\<forall>i\<le>last_chunk. fget d (chunk_name i) = Some (concat (chunk_frames i log))"
    and "\<forall>x\<in>set log. fst x \<le> last_chunk" and "sorted (map fst log)"
    and "\<forall>k<length log. fst (snd (log ! k)) =
        length (concat (chunk_frames (fst (log ! k)) (take k log)))"
    and "fget d ''ego.index'' = Some (text_bytes (index_text log))"
    and "fget d ''ego_manifest.json'' =
      Some (text_bytes (manifest_text (map (\<lambda>i. summary i log) [0..<Suc last_chunk])))"
    and "\<forall>m. m \<notin> own_names (Suc last_chunk) \<and> m \<noteq> ''ego_manifest.json.tmp'' \<longrightarrow> fget d m = fget d0 m"
    and "fget d ''ego_manifest.json.tmp'' = None" and "dir_ok d"
    and "cw_total_bytes w = of_nat (length (concat (map snd xs)))"
    and "cw_total_packets w = of_nat (length xs)" and "last_chunk \<le> length xs"
proof -
  have e: "good_env e0" "good_env ec" "list_all good_call xs" "length xs < 2 ^ 32"
    "length (concat (map snd xs)) < 2 ^ 64" "dir_ok d0" "fget d0 ''ego.index'' = None"
    using fair by (simp_all add: fair_recording_def)
  obtain ws0 where o: "open_writer e0 (new_chunk_writer now cfg, d0) = (True, ws0)"
    "rec_inv d0 0 [] ws0"
    by (rule rec_inv_open [OF e(1,6,7)])
  obtain w1 d1 where r: "write_all xs ws0 = (log, (w1, d1))" "close_writer ec (w1, d1) = (w, d)"
    using rec o(1) by (auto simp: record_session_def split: prod.splits)
  have inv: "rec_inv d0 (length xs) log (w1, d1)" and fr: "log_frames log = map snd xs"
    using rec_inv_write_all [OF r(1) o(2) e(3)] e(4,5) by (auto simp: log_frames_def)
  note cl = rec_inv_close [OF inv e(2) r(2) refl]
  have len: "length log = length xs"
    using arg_cong [OF fr, of length] by (simp add: log_frames_def)
  show ?thesis
    using inv cl fr len
    by (intro that [of "unat (cw_chunk_id w1)"]) (simp_all add: rec_inv_def Let_def)
qed

text \<open>C1: Recording is lossless: when no system call fails, every frame offered to the writer is
  accepted, and after \<open>Close\<close> the chunk files, in the order of their numbers, concatenate to exactly
  the offered frames in order, however sizes and clock readings made the writer rotate and flush;
  the byte and packet totals are exact and no other file of the directory has changed.\<close>

theorem recording_lossless:
  assumes "fair_recording e0 xs ec d0"
    and "record_session e0 now cfg xs ec d0 = (log, (w, d))"
  shows "log_frames log = map snd xs \<and>
    (\<exists>n\<le>length xs. concat (map (\<lambda>i. contents d (chunk_name i)) [0..<Suc n]) = concat (map snd xs) \<and>
      (\<forall>m. m \<notin> own_names (Suc n) \<and> m \<noteq> ''ego_manifest.json.tmp'' \<longrightarrow> fget d m = fget d0 m)) \<and>
    total_bytes_written w = of_nat (length (concat (map snd xs))) \<and>
    total_packets_written w = of_nat (length xs)"
proof (rule recorded [OF assms])
  fix n
  assume r: "log_frames log = map snd xs"
    "\<forall>i\<le>n. fget d (chunk_name i) = Some (concat (chunk_frames i log))"
    "\<forall>x\<in>set log. fst x \<le> n" "sorted (map fst log)"
    "\<forall>m. m \<notin> own_names (Suc n) \<and> m \<noteq> ''ego_manifest.json.tmp'' \<longrightarrow> fget d m = fget d0 m"
    "cw_total_bytes w = of_nat (length (concat (map snd xs)))"
    "cw_total_packets w = of_nat (length xs)" "n \<le> length xs"
  have "map (\<lambda>i. contents d (chunk_name i)) [0..<Suc n]
      = map (\<lambda>i. concat (chunk_frames i log)) [0..<Suc n]"
    using r(2) by (intro map_cong) (auto simp: contents_def)
  then have "concat (map (\<lambda>i. contents d (chunk_name i)) [0..<Suc n]) = concat (map snd xs)"
    using concat_chunks [OF r(4,3)] r(1) by (simp only:)
  with r show ?thesis
    by (auto simp: total_bytes_written_def total_packets_written_def intro!: exI [of _ n])
qed

definition demo_env :: writer_env where
  "demo_env = \<lparr>we_chunk_open = True, we_index_open = True, we_write = True, we_index_write = True,
     we_spill = 3, we_index_spill = 0, we_flush1 = True, we_index_flush1 = True,
     we_atomic1 = ok_atomic, we_close = True, we_flush2 = True, we_index_flush2 = True,
     we_atomic2 = ok_atomic, we_index_close = True, we_now_rotate = 5, we_now_flush1 = 6,
     we_now_open = 7, we_now_check = 8, we_now_flush2 = 9\<rparr>"

definition demo_calls :: "(writer_env \<times> bytes) list" where
  "demo_calls = [(demo_env, build_contract_frame 1 IMU_WINDOW [9]),
     (demo_env, build_contract_frame 2 AUDIO_BLOCK [1, 2])]"

lemma demo_fair: "fair_recording demo_env demo_calls demo_env []"
proof -
  have "good_env demo_env" by (simp add: good_env_def demo_env_def ok_atomic_def)
  moreover have "eh_magic (header_of_bytes (build_contract_frame s t p)) = EGO_FRAME_MAGIC" for s t p
    by (simp add: build_contract_frame_header Let_def make_frame_header_def)
  ultimately show ?thesis
    by (simp add: fair_recording_def demo_calls_def good_call_def)
qed

theorem recording_lossless_witness:
  "\<exists>log w d. record_session demo_env 0 (default_config\<lparr>rc_chunk_max_bytes := 70\<rparr>) demo_calls demo_env []
      = (log, (w, d)) \<and> log_frames log = map snd demo_calls \<and>
    total_packets_written w = of_nat (length demo_calls)"
proof -
  obtain log w d where r: "record_session demo_env 0 (default_config\<lparr>rc_chunk_max_bytes := 70\<rparr>)
      demo_calls demo_env [] = (log, (w, d))" by (metis prod_cases3)
  from recording_lossless [OF demo_fair r] r show ?thesis by blast
qed

subsection \<open>The index\<close>

lemma newline_not_digit: "CHR 0x0A \<notin> set (dec n)"
  using dec_digits [of "CHR 0x0A" n] by (auto simp: is_digit_def)

lemma entry_line_no_newline: "CHR 0x0A \<notin> set (entry_line x)"
  by (cases x) (auto simp: entry_line_def index_line_def Let_def newline_not_digit)

lemma index_lines: "getlines (index_text log) = map entry_line log"
  using getlines_lines [of "map entry_line log" "[]"] entry_line_no_newline
  by (simp add: index_text_def nl_def o_def)

lemma entry_in_chunk:
  assumes "k < length log" and "log ! k = (c, off, f)"
    and "off = length (concat (chunk_frames c (take k log)))"
  shows "slice off (length f) (concat (chunk_frames c log)) = f"
proof -
  have "log = take k log @ (c, off, f) # drop (Suc k) log"
    using assms(1,2) by (metis id_take_nth_drop)
  from arg_cong [OF this, of "chunk_frames c"] have "chunk_frames c log
      = chunk_frames c (take k log) @ f # chunk_frames c (drop (Suc k) log)"
    by (simp add: chunk_frames_def)
  then show ?thesis by (simp add: assms(3) slice_def)
qed

text \<open>The index locates every frame: after a recording in which no system call fails, \<open>ego.index\<close>
  has exactly one line per offered frame, in order, and the chunk number and offset on the line are
  where that frame's bytes are in the chunk files; the other columns are the frame's own header
  fields.\<close>

theorem index_locates_frames:
  assumes "fair_recording e0 xs ec d0"
    and "record_session e0 now cfg xs ec d0 = (log, (w, d))"
  shows "\<exists>locs. getlines (bytes_text (contents d ''ego.index'')) =
      map2 (\<lambda>(c, off) f. entry_line (c, off, f)) locs (map snd xs) \<and>
    length locs = length xs \<and>
    list_all2 (\<lambda>(c, off) f. slice off (length f) (contents d (chunk_name c)) = f) locs (map snd xs)"
proof (rule recorded [OF assms])
  fix n
  assume fr: "log_frames log = map snd xs"
    and ch: "\<forall>i\<le>n. fget d (chunk_name i) = Some (concat (chunk_frames i log))"
    and le: "\<forall>x\<in>set log. fst x \<le> n"
    and off: "\<forall>k<length log. fst (snd (log ! k)) =
        length (concat (chunk_frames (fst (log ! k)) (take k log)))"
    and idx: "fget d ''ego.index'' = Some (text_bytes (index_text log))"
  let ?locs = "map (\<lambda>(c, off, f). (c, off)) log"
  have len: "length log = length xs" using arg_cong [OF fr, of length] by (simp add: log_frames_def)
  have fs: "map snd xs = map (\<lambda>(c, off, f). f) log"
    unfolding fr [symmetric] log_frames_def by (simp add: case_prod_unfold)
  have "getlines (bytes_text (contents d ''ego.index'')) = map entry_line log"
    by (simp add: contents_def idx index_lines)
  also have "\<dots> = map2 (\<lambda>(c, off) f. entry_line (c, off, f)) ?locs (map snd xs)"
    unfolding fs by (intro nth_equalityI) (auto simp: split_beta)
  finally have a: "getlines (bytes_text (contents d ''ego.index'')) =
      map2 (\<lambda>(c, off) f. entry_line (c, off, f)) ?locs (map snd xs)" .
  have "slice off (length f) (contents d (chunk_name c)) = f"
    if k: "k < length log" and e: "log ! k = (c, off, f)" for k c off f
  proof -
    have "c \<le> n" using le nth_mem [OF k] e by force
    then have "contents d (chunk_name c) = concat (chunk_frames c log)"
      using ch by (simp add: contents_def)
    moreover have "off = length (concat (chunk_frames c (take k log)))" using off k e by force
    ultimately show ?thesis using entry_in_chunk [OF k e] by simp
  qed
  then have "list_all2 (\<lambda>(c, off) f. slice off (length f) (contents d (chunk_name c)) = f)
      ?locs (map snd xs)"
    unfolding fs by (auto simp: list_all2_conv_all_nth split_beta)
  with a len show ?thesis by (intro exI [of _ ?locs]) simp
qed

theorem index_locates_frames_witness:
  "\<exists>log w d. record_session demo_env 0 default_config demo_calls demo_env [] = (log, (w, d)) \<and>
    (\<exists>locs. getlines (bytes_text (contents d ''ego.index'')) =
      map2 (\<lambda>(c, off) f. entry_line (c, off, f)) locs (map snd demo_calls) \<and> length locs = 2)"
proof -
  obtain log w d where r: "record_session demo_env 0 default_config demo_calls demo_env []
      = (log, (w, d))" by (metis prod_cases3)
  from index_locates_frames [OF demo_fair r] r show ?thesis by (auto simp: demo_calls_def)
qed

section \<open>Recording when the disk fails\<close>

text \<open>What the log promises is independent of failures of \<open>open\<close>, \<open>write\<close> and \<open>flush\<close>. The bytes
  written to a chunk so far are in its file, followed, for the open chunk, by the stream's buffer.\<close>

definition chunk_image :: "nat \<Rightarrow> writer_state \<Rightarrow> bytes" where
  "chunk_image c ws = (case ws of (w, d) \<Rightarrow>
     if os_open (cw_chunk w) \<and> c = unat (cw_chunk_id w) then os_image (cw_chunk w, d)
     else contents d (chunk_name c))"

definition loc_inv :: "nat \<Rightarrow> nat \<Rightarrow> entry list \<Rightarrow> writer_state \<Rightarrow> bool" where
  "loc_inv n b log ws \<longleftrightarrow> (case ws of (w, d) \<Rightarrow>
     let cur = unat (cw_chunk_id w) in
     (os_open (cw_chunk w) \<longrightarrow> os_name (cw_chunk w) = chunk_name cur) \<and>
     (os_open (cw_chunk w) \<and> os_good (cw_chunk w) \<longrightarrow>
        cw_offset w = of_nat (length (chunk_image cur ws))) \<and>
     (os_open (cw_chunk w) \<longrightarrow> length (chunk_image cur ws) \<le> b) \<and>
     (os_open (cw_index w) \<longrightarrow> os_name (cw_index w) = ''ego.index'') \<and>
     (\<forall>(c, off, f)\<in>set log. (c < cur \<or> c = cur \<and> os_open (cw_chunk w)) \<and>
        off + length f \<le> length (chunk_image c ws) \<and>
        slice off (length f) (chunk_image c ws) = f) \<and>
     cur \<le> n)"

lemma loc_invI:
  assumes "os_open (cw_chunk w) \<Longrightarrow> os_name (cw_chunk w) = chunk_name (unat (cw_chunk_id w))"
    and "os_open (cw_chunk w) \<Longrightarrow> os_good (cw_chunk w) \<Longrightarrow>
      cw_offset w = of_nat (length (chunk_image (unat (cw_chunk_id w)) (w, d)))"
    and "os_open (cw_chunk w) \<Longrightarrow> length (chunk_image (unat (cw_chunk_id w)) (w, d)) \<le> b"
    and "os_open (cw_index w) \<Longrightarrow> os_name (cw_index w) = ''ego.index''"
    and "\<And>c off f. (c, off, f) \<in> set log \<Longrightarrow>
      c < unat (cw_chunk_id w) \<or> c = unat (cw_chunk_id w) \<and> os_open (cw_chunk w)"
    and "\<And>c off f. (c, off, f) \<in> set log \<Longrightarrow> off + length f \<le> length (chunk_image c (w, d))"
    and "\<And>c off f. (c, off, f) \<in> set log \<Longrightarrow> slice off (length f) (chunk_image c (w, d)) = f"
    and "unat (cw_chunk_id w) \<le> n"
  shows "loc_inv n b log (w, d)"
  using assms unfolding loc_inv_def Let_def prod.case by blast

lemma loc_inv_cong:
  assumes "loc_inv n b log (w, d)"
    and "\<forall>c. chunk_image c (w', d') = chunk_image c (w, d)"
    and "os_open (cw_chunk w') = os_open (cw_chunk w)" "os_name (cw_chunk w') = os_name (cw_chunk w)"
    and "os_good (cw_chunk w') \<longrightarrow> os_good (cw_chunk w)"
    and "os_open (cw_index w') \<longrightarrow> os_name (cw_index w') = ''ego.index''"
    and "cw_chunk_id w' = cw_chunk_id w" "cw_offset w' = cw_offset w"
  shows "loc_inv n b log (w', d')"
  using assms by (simp add: loc_inv_def Let_def)

lemma chunk_image_other_files:
  assumes "\<forall>c. fget d' (chunk_name c) = fget d (chunk_name c)"
    and "os_open (cw_chunk w) \<longrightarrow> os_name (cw_chunk w) = chunk_name (unat (cw_chunk_id w))"
    and "cw_chunk w' = cw_chunk w" "cw_chunk_id w' = cw_chunk_id w"
  shows "chunk_image c (w', d') = chunk_image c (w, d)"
  using assms by (auto simp: chunk_image_def os_image_def contents_def)

lemma loc_inv_on_chunk_flush:
  assumes "loc_inv n b log (w, d)" and "os_flush ok k (cw_chunk w, d) = (s', d')"
  shows "loc_inv n b log (w\<lparr>cw_chunk := s'\<rparr>, d')"
proof (cases "os_open (cw_chunk w)")
  case True
  have nm: "os_name (cw_chunk w) = chunk_name (unat (cw_chunk_id w))"
    using assms(1) True by (simp add: loc_inv_def Let_def)
  have s': "os_open s' = os_open (cw_chunk w)" "os_name s' = os_name (cw_chunk w)"
    "os_image (s', d') = os_image (cw_chunk w, d)"
    using os_flush_fst(1,2) [of ok k "(cw_chunk w, d)"] os_image_flush [of ok k "(cw_chunk w, d)"]
    by (simp_all add: assms(2))
  have g: "os_good s' \<longrightarrow> os_good (cw_chunk w)"
    using assms(2) by (auto simp: os_flush_def os_spill_def split: if_splits)
  have "fget d' m = fget d m" if "m \<noteq> os_name (cw_chunk w)" for m
    using os_flush_other [of m "(cw_chunk w, d)" ok k] that by (simp add: assms(2))
  then have "chunk_image c (w\<lparr>cw_chunk := s'\<rparr>, d') = chunk_image c (w, d)" for c
    using s' True nm by (auto simp: chunk_image_def contents_def)
  with assms(1) s' g show ?thesis
    by (intro loc_inv_cong [OF assms(1)]) (auto simp: loc_inv_def Let_def)
next
  case False
  then have "s' = cw_chunk w" "d' = d" using assms(2) by (auto simp: os_flush_def)
  with assms(1) show ?thesis by simp
qed

lemma loc_inv_frame:
  assumes "loc_inv n b log (w, d)"
    and "\<forall>c. fget d' (chunk_name c) = fget d (chunk_name c)"
    and "cw_chunk w' = cw_chunk w" "cw_chunk_id w' = cw_chunk_id w" "cw_offset w' = cw_offset w"
    and "os_open (cw_index w') \<longrightarrow> os_name (cw_index w') = ''ego.index''"
  shows "loc_inv n b log (w', d')"
  using assms chunk_image_other_files [OF assms(2) _ assms(3,4)]
  by (intro loc_inv_cong [OF assms(1)]) (auto simp: loc_inv_def Let_def)

lemma loc_inv_flush:
  assumes inv: "loc_inv n b log (w, d)"
    and f: "flush_writer ok k iok ik a now (w, d) = (w', d')"
  shows "loc_inv n b log (w', d')" and "os_open (cw_chunk w') = os_open (cw_chunk w)"
    and "cw_chunk_id w' = cw_chunk_id w" and "cw_offset w' = cw_offset w"
proof -
  obtain s1 d1 where s1: "(if os_open (cw_chunk w) then os_flush ok k (cw_chunk w, d)
      else (cw_chunk w, d)) = (s1, d1)" by fastforce
  have inv1: "loc_inv n b log (w\<lparr>cw_chunk := s1\<rparr>, d1)"
    using s1 loc_inv_on_chunk_flush [OF inv] inv by (auto split: if_splits)
  obtain i2 d2 where i2: "(if os_open (cw_index w) then os_flush iok ik (cw_index w, d1)
      else (cw_index w, d1)) = (i2, d2)" by fastforce
  have idx: "os_open (cw_index w) \<longrightarrow> os_name (cw_index w) = ''ego.index''"
    using inv by (simp add: loc_inv_def Let_def)
  have i2': "os_open i2 = os_open (cw_index w)" "os_name i2 = os_name (cw_index w)"
    using os_flush_fst(1,2) [of iok ik "(cw_index w, d1)"] by (metis i2 fst_conv)+
  have "fget d2 (chunk_name c) = fget d1 (chunk_name c)" for c
    using i2 idx os_flush_other [of "chunk_name c" "(cw_index w, d1)" iok ik] by (auto split: if_splits)
  moreover have w': "w' = w\<lparr>cw_chunk := s1, cw_index := i2, cw_since_flush := 0, cw_last_flush := now\<rparr>"
    and d': "d' = snd (write_text_atomic a ''ego_manifest.json'' (manifest_text (cw_chunks w)) d2)"
    using f s1 i2
    by (auto simp: flush_writer_def update_manifest_def on_chunk_def on_index_def Let_def
        split: if_splits)
  moreover have "fget d' (chunk_name c) = fget d2 (chunk_name c)" for c
    by (simp add: d' write_text_atomic_other)
  ultimately show "loc_inv n b log (w', d')"
    by (intro loc_inv_frame [OF inv1]) (simp_all add: i2' idx)
  have "os_open s1 = os_open (cw_chunk w)"
    using os_flush_fst(1) [of ok k "(cw_chunk w, d)"] by (metis s1 fst_conv)
  then show "os_open (cw_chunk w') = os_open (cw_chunk w)" "cw_chunk_id w' = cw_chunk_id w"
    "cw_offset w' = cw_offset w" by (simp_all add: w')
qed

text \<open>Opening the next chunk never touches a chunk that has entries.\<close>

lemma loc_inv_open:
  assumes inv: "loc_inv n b log (w, d)" and closed: "\<not> os_open (cw_chunk w)"
    and o: "open_chunk e now (w, d) = (ok, (w', d'))"
  shows "loc_inv n b log (w', d')" and "ok \<Longrightarrow> os_open (cw_chunk w') \<and> os_good (cw_chunk w')"
    and "cw_chunk_id w' = cw_chunk_id w" and "ok \<or> \<not> os_open (cw_chunk w')"
proof -
  let ?c = "unat (cw_chunk_id w)"
  have idx: "os_open (cw_index w) \<longrightarrow> os_name (cw_index w) = ''ego.index''"
    using inv by (simp add: loc_inv_def Let_def)
  have old: "\<forall>(c, off, f)\<in>set log. c < ?c" using inv closed by (auto simp: loc_inv_def Let_def)
  have "loc_inv n b log (w', d') \<and> (ok \<longrightarrow> os_open (cw_chunk w') \<and> os_good (cw_chunk w')) \<and>
      cw_chunk_id w' = cw_chunk_id w \<and> (ok \<or> \<not> os_open (cw_chunk w'))"
  proof (cases "we_chunk_open e")
    case False
    then have "ok = False" "w' = w\<lparr>cw_chunk := (cw_chunk w)\<lparr>os_good := False\<rparr>\<rparr>" "d' = d"
      using o by (auto simp: open_chunk_def on_chunk_def os_open_file_def Let_def)
    with inv closed show ?thesis by (auto simp: loc_inv_def Let_def chunk_image_def)
  next
    case True
    let ?s = "\<lparr>os_open = True, os_good = True, os_name = chunk_name ?c, os_buf = []\<rparr>"
    let ?d1 = "put (chunk_name ?c) [] d"
    obtain i2 d2 where i2: "(if os_open (cw_index w) then (cw_index w, ?d1)
        else os_open_file (we_index_open e) False ''ego.index'' (cw_index w, ?d1)) = (i2, d2)"
      by fastforce
    have w': "ok" "w' = w\<lparr>cw_chunk := ?s, cw_index := i2, cw_offset := 0, cw_chunk_bytes := 0,
        cw_opened_at := now, cw_chunks := cw_chunks w @ [\<lparr>ci_filename = chunk_name ?c,
          ci_bytes = 0, ci_first_ts_ns = 0, ci_last_ts_ns = 0, ci_packet_count = 0\<rparr>]\<rparr>" "d' = d2"
      using o i2 closed True
      by (auto simp: open_chunk_def on_chunk_def on_index_def os_open_file_def Let_def
          split: if_splits)
    have i2': "os_open i2 \<longrightarrow> os_name i2 = ''ego.index''"
      using i2 idx by (auto simp: os_open_file_def split: if_splits)
    have d2: "fget d2 (chunk_name c) = (if c = ?c then Some [] else fget d (chunk_name c))" for c
      using i2 by (auto simp: os_open_file_def split: if_splits)
    have img: "chunk_image c (w', d') = (if c = ?c then [] else chunk_image c (w, d))" for c
      using closed by (auto simp: chunk_image_def w' os_image_def contents_def d2)
    have ent: "\<forall>(c, off, f)\<in>set log. c < ?c \<and> off + length f \<le> length (chunk_image c (w', d')) \<and>
        slice off (length f) (chunk_image c (w', d')) = f"
      using inv closed by (auto simp: loc_inv_def Let_def img)
    have st: "os_open (cw_chunk w')" "os_good (cw_chunk w')" "os_name (cw_chunk w') = chunk_name ?c"
      "cw_chunk_id w' = cw_chunk_id w" "cw_offset w' = 0" "cw_index w' = i2"
      by (simp_all add: w'(2))
    have "?c \<le> n" using inv by (simp add: loc_inv_def Let_def)
    then have "loc_inv n b log (w', d')"
      using ent i2' unfolding loc_inv_def Let_def prod.case
      by (auto simp: st img [of ?c])
    with st w'(1) show ?thesis by simp
  qed
  then show "loc_inv n b log (w', d')" "ok \<Longrightarrow> os_open (cw_chunk w') \<and> os_good (cw_chunk w')"
    "cw_chunk_id w' = cw_chunk_id w" "ok \<or> \<not> os_open (cw_chunk w')" by blast+
qed

lemma loc_inv_close_chunk:
  assumes inv: "loc_inv n b log (w, d)" and opn: "os_open (cw_chunk w)"
    and c: "os_close True k (cw_chunk w, d) = (s', d')" and n: "n + 1 < 2 ^ 32"
  shows "loc_inv (n + 1) b log (w\<lparr>cw_chunk := s', cw_chunk_id := cw_chunk_id w + 1\<rparr>, d')"
    and "\<not> os_open s'"
    and "\<forall>(c, off, f)\<in>set log. slice off (length f) (contents d' (chunk_name c)) = f"
proof -
  let ?c = "unat (cw_chunk_id w)"
  have cn: "?c \<le> n" and nm: "os_name (cw_chunk w) = chunk_name ?c"
    using inv opn by (simp_all add: loc_inv_def Let_def)
  have c': "unat (cw_chunk_id w + 1) = Suc ?c" using cn n by (simp add: unat_word_ariths)
  show s': "\<not> os_open s'" using os_close_closed [of True k "(cw_chunk w, d)"] by (simp add: c)
  have "fget d' m = fget d m" if "m \<noteq> os_name (cw_chunk w)" for m
    using os_close_other [of m "(cw_chunk w, d)" True k] that by (simp add: c)
  moreover have "fget d' (chunk_name ?c) = Some (os_image (cw_chunk w, d))"
    using os_close_file [of "(cw_chunk w, d)" k] opn nm by (simp add: c)
  ultimately have img: "contents d' (chunk_name c) = chunk_image c (w, d)" for c
    using opn nm by (auto simp: chunk_image_def contents_def)
  then have "chunk_image c (w\<lparr>cw_chunk := s', cw_chunk_id := cw_chunk_id w + 1\<rparr>, d')
      = chunk_image c (w, d)" for c
    using s' by (simp add: chunk_image_def)
  then show "loc_inv (n + 1) b log (w\<lparr>cw_chunk := s', cw_chunk_id := cw_chunk_id w + 1\<rparr>, d')"
    using inv s' cn by (fastforce simp: loc_inv_def Let_def c')
  show "\<forall>(c, off, f)\<in>set log. slice off (length f) (contents d' (chunk_name c)) = f"
    using inv by (auto simp: loc_inv_def Let_def img)
qed

lemma loc_inv_rotate:
  assumes inv: "loc_inv n b log (w, d)" and e: "we_close e" and n: "n + 1 < 2 ^ 32"
    and r: "rotate_if_needed e (w, d) = (ok, (w', d'))"
  shows "loc_inv (n + 1) b log (w', d') \<and> (ok \<longrightarrow> os_open (cw_chunk w'))"
proof (cases "os_open (cw_chunk w)")
  case False
  with r have "open_chunk e (we_now_open e) (w, d) = (ok, (w', d'))"
    by (simp add: rotate_if_needed_def Let_def)
  from loc_inv_open [OF inv False this] show ?thesis by (auto simp: loc_inv_def Let_def)
next
  case opn: True
  show ?thesis
  proof (cases "\<not> cw_chunk_bytes w \<ge> rc_chunk_max_bytes (cw_config w) \<and>
    \<not> elapsed_sec (we_now_rotate e) (cw_opened_at w) \<ge> unat (rc_chunk_max_sec (cw_config w))")
    case True
    with r opn have "ok" "w' = w" "d' = d" by (auto simp: rotate_if_needed_def Let_def)
    with inv opn show ?thesis by (auto simp: loc_inv_def Let_def)
  next
    case False
    obtain w1 d1 where f: "flush_writer (we_flush1 e) (we_spill e) (we_index_flush1 e)
        (we_index_spill e) (we_atomic1 e) (we_now_flush1 e) (w, d) = (w1, d1)" by fastforce
    obtain s2 d2 where c: "os_close True (we_spill e) (cw_chunk w1, d1) = (s2, d2)" by fastforce
    note fl = loc_inv_flush [OF inv f]
    note cl = loc_inv_close_chunk [OF fl(1) _ c n]
    have "open_chunk e (we_now_open e) (w1\<lparr>cw_chunk := s2, cw_chunk_id := cw_chunk_id w1 + 1\<rparr>, d2)
        = (ok, (w', d'))"
      using r opn False f c e by (auto simp: rotate_if_needed_def Let_def on_chunk_def)
    from loc_inv_open [OF _ _ this] cl fl(2) opn show ?thesis by simp
  qed
qed

lemma slice_append_within: "off + n \<le> length xs \<Longrightarrow> slice off n (xs @ ys) = slice off n xs"
  by (simp add: slice_def)

text \<open>An accepted write adds its entry; a refused one adds nothing and harms nothing.\<close>

lemma loc_inv_os_write:
  assumes inv: "loc_inv n b log (w, d)" and opn: "os_open (cw_chunk w)"
    and s: "os_write ok k f (cw_chunk w, d) = (s2, d2)" and b: "b + length f < 2 ^ 64"
  defines "c \<equiv> unat (cw_chunk_id w)"
  shows "os_good s2 \<Longrightarrow> loc_inv n (b + length f) (log @ [(c, unat (cw_offset w), f)])
      (w\<lparr>cw_chunk := s2, cw_offset := cw_offset w + of_nat (length f)\<rparr>, d2)"
    and "\<not> os_good s2 \<Longrightarrow> loc_inv n (b + length f) log (w\<lparr>cw_chunk := s2\<rparr>, d2)"
    and "os_open s2"
proof -
  have nm: "os_name (cw_chunk w) = chunk_name c"
    using inv opn by (simp add: loc_inv_def Let_def c_def)
  have s2: "os_open s2" "os_name s2 = chunk_name c"
    "os_good s2 \<longleftrightarrow> os_good (cw_chunk w) \<and> ok"
    using os_write_fst [of ok k f "(cw_chunk w, d)"] opn nm by (simp_all add: s)
  show "os_open s2" by (fact s2)
  have other: "fget d2 m = fget d m" if "m \<noteq> chunk_name c" for m
    using os_write_other [of m "(cw_chunk w, d)" ok k f] nm that by (simp add: s)
  have img2: "os_image (s2, d2) = os_image (cw_chunk w, d) @ (if os_good (cw_chunk w) then f else [])"
    using os_image_write [of ok k f "(cw_chunk w, d)"] opn by (simp add: s)
  have img: "chunk_image i (w\<lparr>cw_chunk := s2, cw_offset := off\<rparr>, d2) =
      (if i = c then chunk_image c (w, d) @ (if os_good (cw_chunk w) then f else [])
       else chunk_image i (w, d))" for i off
    using opn s2 img2 other by (auto simp: chunk_image_def c_def contents_def)
  have len: "length (chunk_image c (w, d)) \<le> b"
    using inv opn by (simp add: loc_inv_def Let_def c_def)
  have ent: "\<forall>(i, off, g)\<in>set log. i \<le> c \<and>
      off + length g \<le> length (chunk_image i (w\<lparr>cw_chunk := s2, cw_offset := v\<rparr>, d2)) \<and>
      slice off (length g) (chunk_image i (w\<lparr>cw_chunk := s2, cw_offset := v\<rparr>, d2)) = g" for v
    using inv by (auto simp: loc_inv_def Let_def img c_def slice_append_within)
  {
    assume "os_good s2"
    then have g: "os_good (cw_chunk w)" using s2 by simp
    then have off: "cw_offset w = of_nat (length (chunk_image c (w, d)))"
      using inv opn by (simp add: loc_inv_def Let_def c_def)
    then have uoff: "unat (cw_offset w) = length (chunk_image c (w, d))"
      using len b by (simp add: unat_of_nat_small)
    let ?w' = "w\<lparr>cw_chunk := s2, cw_offset := cw_offset w + of_nat (length f)\<rparr>"
    have "cw_offset w + of_nat (length f) = of_nat (length (chunk_image c (?w', d2)))"
      using g off by (simp add: img)
    moreover have "slice (unat (cw_offset w)) (length f) (chunk_image c (?w', d2)) = f"
      using g uoff by (simp add: img slice_def)
    moreover have "length (chunk_image c (?w', d2)) = unat (cw_offset w) + length f"
      using g uoff by (simp add: img)
    moreover have "\<forall>x\<in>set log. fst x < c \<or> fst x = c \<and> os_open s2"
      using ent [of 0] s2 by fastforce
    moreover have "c \<le> n" "os_open (cw_index w) \<longrightarrow> os_name (cw_index w) = ''ego.index''"
      using inv by (simp_all add: loc_inv_def Let_def c_def)
    ultimately show "loc_inv n (b + length f) (log @ [(c, unat (cw_offset w), f)]) (?w', d2)"
      using ent [of "cw_offset w + of_nat (length f)"] s2(1,2) len uoff
      by (intro loc_invI) (auto simp: c_def [symmetric])
  next
    assume ng: "\<not> os_good s2"
    have w: "w\<lparr>cw_chunk := s2\<rparr> = w\<lparr>cw_chunk := s2, cw_offset := cw_offset w\<rparr>" by simp
    have "length (chunk_image c (w\<lparr>cw_chunk := s2\<rparr>, d2)) \<le> b + length f"
      using len by (subst w, subst img) simp
    moreover have "c \<le> n" "os_open (cw_index w) \<longrightarrow> os_name (cw_index w) = ''ego.index''"
      using inv by (simp_all add: loc_inv_def Let_def c_def)
    moreover have "\<forall>x\<in>set log. fst x < c \<or> fst x = c \<and> os_open s2"
      using ent [of 0] s2(1) by fastforce
    ultimately show "loc_inv n (b + length f) log (w\<lparr>cw_chunk := s2\<rparr>, d2)"
      using ent [of "cw_offset w", folded w] s2(1,2) ng
      by (intro loc_invI) (auto simp: c_def [symmetric])
  }
qed

lemma loc_inv_write:
  assumes inv: "loc_inv n b log (w, d)" and e: "we_close e" and n: "n + 1 < 2 ^ 32"
    and b: "b + length f < 2 ^ 64"
    and r: "write_contract_frame e f (w, d) = (ok, ws')"
  shows "loc_inv (n + 1) (b + length f)
    (if ok then log @ [(unat (cw_chunk_id (fst ws')),
        unat (cw_offset (fst ws') - of_nat (length f)), f)] else log) ws'"
proof (cases "length f < 72")
  case True
  with r inv show ?thesis by (auto simp: write_contract_frame_def loc_inv_def Let_def)
next
  case long: False
  obtain okr w1 d1 where rot: "rotate_if_needed e (w, d) = (okr, (w1, d1))" by (metis prod_cases3)
  from loc_inv_rotate [OF inv e n rot]
  have inv1: "loc_inv (n + 1) b log (w1, d1)" and opn: "okr \<longrightarrow> os_open (cw_chunk w1)" by auto
  then have weak: "loc_inv (n + 1) (b + length f) log (w1, d1)" by (auto simp: loc_inv_def Let_def)
  show ?thesis
  proof (cases "okr \<and> eh_magic (header_of_bytes f) = EGO_FRAME_MAGIC")
    case False
    with r long rot weak show ?thesis
      by (auto simp: write_contract_frame_def Let_def split: if_splits bool.splits)
  next
    case True
    obtain s2 d2 where s: "os_write (we_write e) (we_spill e) f (cw_chunk w1, d1) = (s2, d2)"
      by fastforce
    note ow = loc_inv_os_write [OF inv1 _ s b]
    have ws2: "on_chunk (os_write (we_write e) (we_spill e) f) (w1, d1) = (w1\<lparr>cw_chunk := s2\<rparr>, d2)"
      by (simp add: on_chunk_def s)
    show ?thesis
    proof (cases "os_good s2")
      case False
      with True r long rot ws2 have "ok = False" "ws' = (w1\<lparr>cw_chunk := s2\<rparr>, d2)"
        by (simp_all add: write_contract_frame_def Let_def del: on_chunk_simps)
      with ow(2) False True opn show ?thesis by simp
    next
      case good: True
      let ?h = "header_of_bytes f"
      obtain w3 d3 where ws3: "append_contract_index e ?h (w1\<lparr>cw_chunk := s2\<rparr>, d2) = (w3, d3)"
        by fastforce
      let ?w4 = "count_frame ?h (length f) w3"
      let ?log = "log @ [(unat (cw_chunk_id w1), unat (cw_offset w1), f)]"
      have idx: "os_open (cw_index w1) \<longrightarrow> os_name (cw_index w1) = ''ego.index''"
        using inv1 by (simp add: loc_inv_def Let_def)
      have w3: "w3 = w1\<lparr>cw_chunk := s2, cw_index := cw_index w3\<rparr>"
        "os_open (cw_index w3) \<longrightarrow> os_name (cw_index w3) = ''ego.index''"
        "fget d3 (chunk_name c) = fget d2 (chunk_name c)" for c
        using ws3 idx
        by (auto simp: append_contract_index_def on_index_def os_write_def os_spill_def
            split: if_splits prod.splits)
      have w4: "cw_chunk ?w4 = s2" "cw_chunk_id ?w4 = cw_chunk_id w1"
        "cw_offset ?w4 = cw_offset w1 + of_nat (length f)" "cw_index ?w4 = cw_index w3"
        by (subst w3(1), simp add: count_frame_def)+
      have inv4: "loc_inv (n + 1) (b + length f) ?log (?w4, d3)"
        by (rule loc_inv_frame [OF ow(1)]) (use good True opn w3(2,3) w4 in simp_all)
      have off: "unat (cw_offset ?w4 - of_nat (length f)) = unat (cw_offset w1)"
        and cid: "cw_chunk_id ?w4 = cw_chunk_id w1"
        by (simp_all add: w4)
      let ?fl = "cw_since_flush ?w4 \<ge> rc_flush_packets (cw_config ?w4) \<or>
         elapsed_sec (we_now_check e) (cw_last_flush ?w4) \<ge> unat (rc_flush_interval_sec (cw_config ?w4))"
      have "write_contract_frame e f (w, d) =
          (True, if ?fl then flush_writer (we_flush2 e) (we_spill e) (we_index_flush2 e)
            (we_index_spill e) (we_atomic2 e) (we_now_flush2 e) (?w4, d3) else (?w4, d3))"
        using True long rot ws2 good ws3
        by (simp add: write_contract_frame_def Let_def del: on_chunk_simps)
      then have res: "ok" "ws' = (if ?fl then flush_writer (we_flush2 e) (we_spill e)
            (we_index_flush2 e) (we_index_spill e) (we_atomic2 e) (we_now_flush2 e) (?w4, d3)
          else (?w4, d3))"
        unfolding r by (simp_all only: prod.inject)
      show ?thesis
      proof (cases ?fl)
        case flush: True
        obtain w5 d5 where fl: "flush_writer (we_flush2 e) (we_spill e) (we_index_flush2 e)
            (we_index_spill e) (we_atomic2 e) (we_now_flush2 e) (?w4, d3) = (w5, d5)" by fastforce
        from loc_inv_flush [OF inv4 fl] flush fl res off cid show ?thesis by simp
      next
        case False
        with inv4 res off cid show ?thesis by simp
      qed
    qed
  qed
qed

lemma loc_inv_write_all:
  assumes "write_all xs ws = (log, ws')" and "loc_inv n b log0 ws"
    and "\<forall>x\<in>set xs. we_close (fst x)" and "n + length xs < 2 ^ 32"
    and "b + length (concat (map snd xs)) < 2 ^ 64"
  shows "loc_inv (n + length xs) (b + length (concat (map snd xs))) (log0 @ log) ws'"
  using assms
proof (induction xs arbitrary: ws log n b log0)
  case Nil
  then show ?case by simp
next
  case (Cons x xs)
  obtain e f where x: "x = (e, f)" by (cases x)
  obtain w d where ws: "ws = (w, d)" by (cases ws)
  obtain ok ws1 where w: "write_contract_frame e f ws = (ok, ws1)" by (rule prod.exhaust)
  let ?new = "if ok then [(unat (cw_chunk_id (fst ws1)),
      unat (cw_offset (fst ws1) - of_nat (length f)), f)] else []"
  have n: "we_close e" "n + 1 < 2 ^ 32" "b + length f < 2 ^ 64"
    using Cons.prems(3,4,5) by (simp_all add: x)
  have inv1: "loc_inv (n + 1) (b + length f) (log0 @ ?new) ws1"
    using loc_inv_write [OF Cons.prems(2)[unfolded ws] n w[unfolded ws]] by (cases ok) simp_all
  obtain log1 where l: "write_all xs ws1 = (log1, ws')" "log = ?new @ log1"
    using Cons.prems(1) w by (auto simp: x split: prod.splits)
  have "loc_inv (n + 1 + length xs) (b + length f + length (concat (map snd xs)))
      ((log0 @ ?new) @ log1) ws'"
    by (rule Cons.IH [OF l(1) inv1]) (use Cons.prems(3,4,5) in \<open>simp_all add: x\<close>)
  then show ?case by (simp add: l(2) x add.assoc)
qed

lemma close_writer_image:
  assumes inv: "loc_inv n b log (w, d)" and e: "we_close e" and c: "close_writer e (w, d) = (w', d')"
  shows "\<forall>(c, off, f)\<in>set log. slice off (length f) (contents d' (chunk_name c)) = f"
proof -
  obtain w1 d1 where f: "flush_writer (we_flush2 e) (we_spill e) (we_index_flush2 e)
      (we_index_spill e) (we_atomic2 e) (we_now_flush2 e) (w, d) = (w1, d1)" by fastforce
  note fl = loc_inv_flush [OF inv f]
  obtain w2 d2 where w2: "(if os_open (cw_chunk w1)
      then on_chunk (os_close (we_close e) (we_spill e)) (w1, d1) else (w1, d1)) = (w2, d2)" by fastforce
  have i2: "cw_index w2 = cw_index w1" using w2 by (auto simp: on_chunk_def split: if_splits prod.splits)
  have m: "\<forall>(c, off, f)\<in>set log. slice off (length f) (contents d2 (chunk_name c)) = f"
  proof (cases "os_open (cw_chunk w1)")
    case True
    have img: "contents d2 (chunk_name c) = chunk_image c (w1, d1)" for c
    proof -
      have nm: "os_name (cw_chunk w1) = chunk_name (unat (cw_chunk_id w1))"
        using fl(1) True by (simp add: loc_inv_def Let_def)
      have "d2 = snd (os_close True (we_spill e) (cw_chunk w1, d1))"
        using w2 True e by (auto simp: on_chunk_def split: prod.splits)
      then show ?thesis
        using True nm os_close_file [of "(cw_chunk w1, d1)" "we_spill e"]
          os_close_other [of "chunk_name c" "(cw_chunk w1, d1)" True "we_spill e"]
        by (cases "c = unat (cw_chunk_id w1)") (auto simp: chunk_image_def contents_def)
    qed
    show ?thesis using fl(1) by (auto simp: loc_inv_def Let_def img)
  next
    case False
    then have "d2 = d1" using w2 by simp
    with False fl(1) show ?thesis by (auto simp: loc_inv_def Let_def chunk_image_def)
  qed
  have idx: "os_open (cw_index w2) \<longrightarrow> os_name (cw_index w2) = ''ego.index''"
    using fl(1) by (simp add: i2 loc_inv_def Let_def)
  have "(w', d') = (if os_open (cw_index w2)
      then on_index (os_close (we_index_close e) (we_index_spill e)) (w2, d2) else (w2, d2))"
    using c unfolding close_writer_def f Let_def fst_conv snd_conv
    by (simp only: w2 fst_conv)
  then have "fget d' (chunk_name c) = fget d2 (chunk_name c)" for c
    using idx os_close_other [of "chunk_name c" "(cw_index w2, d2)" "we_index_close e" "we_index_spill e"]
    by (auto simp: on_index_def split: if_splits prod.splits)
  with m show ?thesis by (simp add: contents_def)
qed

text \<open>C2: What the writer acknowledged stays where it said, whatever fails: for any outcomes of opening,
  writing, flushing, renaming and of the index stream, any spilling of buffers and any clock, as
  long as closing a chunk file succeeds, every frame whose write returned \<open>true\<close> is found after
  \<open>Close\<close> at the chunk number and offset recorded for it; no later rotation or failed write
  damages it.\<close>

theorem acknowledged_frames_survive:
  assumes "open_writer e0 (new_chunk_writer now cfg, d0) = (ok, ws0)"
    and "write_all xs ws0 = (log, ws1)" and "close_writer ec ws1 = (w, d)"
    and "\<forall>x\<in>set xs. we_close (fst x)" and "we_close ec"
    and "length xs < 2 ^ 32" and "length (concat (map snd xs)) < 2 ^ 64"
  shows "\<forall>(c, off, f)\<in>set log. slice off (length f) (contents d (chunk_name c)) = f"
proof -
  obtain w0 d0' where ws0: "ws0 = (w0, d0')" by (cases ws0)
  have "loc_inv 0 0 [] (new_chunk_writer now cfg, d0)"
    by (simp add: loc_inv_def Let_def new_chunk_writer_def closed_stream_def)
  moreover have "\<not> os_open (cw_chunk (new_chunk_writer now cfg))"
    by (simp add: new_chunk_writer_def closed_stream_def)
  ultimately have "loc_inv 0 0 [] ws0"
    using loc_inv_open(1) assms(1) unfolding open_writer_def ws0 by blast
  from loc_inv_write_all [OF assms(2) this assms(4)] assms(6,7)
  have inv: "loc_inv (length xs) (length (concat (map snd xs))) log ws1" by simp
  obtain w1 d1 where ws1: "ws1 = (w1, d1)" by (rule prod.exhaust)
  from close_writer_image [OF inv [unfolded ws1] assms(5) assms(3) [unfolded ws1]] show ?thesis .
qed

theorem acknowledged_frames_survive_witness:
  "\<exists>ok ws0 log ws1 w d.
    open_writer demo_env (new_chunk_writer 0 default_config, []) = (ok, ws0) \<and>
    write_all [(demo_env, build_contract_frame 1 IMU_WINDOW [9]),
      (demo_env\<lparr>we_write := False, we_spill := 40, we_flush1 := False\<rparr>,
       build_contract_frame 2 IMU_WINDOW [7])] ws0 = (log, ws1) \<and>
    close_writer demo_env ws1 = (w, d) \<and> log \<noteq> [] \<and>
    list_all (\<lambda>(c, off, f). slice off (length f) (contents d (chunk_name c)) = f) log"
proof -
  let ?f = "build_contract_frame 1 IMU_WINDOW [9]"
  let ?xs = "[(demo_env, ?f), (demo_env\<lparr>we_write := False, we_spill := 40, we_flush1 := False\<rparr>,
       build_contract_frame 2 IMU_WINDOW [7])]"
  have ge: "good_env demo_env" by (simp add: good_env_def demo_env_def ok_atomic_def)
  obtain ws0 where o: "open_writer demo_env (new_chunk_writer 0 default_config, []) = (True, ws0)"
    "rec_inv [] 0 [] ws0"
    by (rule rec_inv_open [OF ge, of "[]"]) simp_all
  obtain w0 d0 where ws0: "ws0 = (w0, d0)" by (rule prod.exhaust)
  have hdr: "eh_magic (header_of_bytes ?f) = EGO_FRAME_MAGIC"
    by (simp add: build_contract_frame_header Let_def make_frame_header_def)
  have small: "(0 :: nat) + 1 < 2 ^ 32" "72 \<le> length ?f"
    "length (concat (log_frames [])) + length ?f < 2 ^ 64"
    by (simp_all add: log_frames_def)
  obtain wsa where wr: "write_contract_frame demo_env ?f ws0 = (True, wsa)"
    using rec_inv_write [OF o(2)[unfolded ws0] ge small(1,2) hdr small(3)] unfolding ws0 by blast
  obtain log ws1 where r: "write_all ?xs ws0 = (log, ws1)" by (rule prod.exhaust)
  obtain w d where c: "close_writer demo_env ws1 = (w, d)" by (rule prod.exhaust)
  have "log \<noteq> []" using r wr by (auto split: prod.splits)
  moreover have "\<forall>(c, off, f)\<in>set log. slice off (length f) (contents d (chunk_name c)) = f"
    by (rule acknowledged_frames_survive [OF o(1) r c]) (simp_all add: demo_env_def)
  then have "list_all (\<lambda>(c, off, f). slice off (length f) (contents d (chunk_name c)) = f) log"
    unfolding list_all_iff .
  ultimately show ?thesis using o(1) r c by blast
qed

end
