(* ===== verification/SessionIntegrity.thy ===== *)
theory SessionIntegrity
  imports ChunkWriter
begin

text \<open>
  The check of a finished session, \<open>runtimepc/src/session_integrity.cpp\<close>, over the session directory
  of the recorder. A file that exists but cannot be read yields no bytes, as an unopened stream
  does.
\<close>

section \<open>The check\<close>

datatype integrity_result = IOk | IWarning | IFailed

record integrity_report =
  ir_result :: integrity_result
  ir_detail :: string

text \<open>\<open>std::filesystem::path::extension\<close> of a file name.\<close>

definition extension :: "string \<Rightarrow> string" where
  "extension n =
     (let r = takeWhile (\<lambda>c. c \<noteq> CHR ''.'') (rev n) in
      if n = ''.'' \<or> n = ''..'' \<or> length r = length n \<or> length r + 1 = length n then ''''
      else ''.'' @ rev r)"

definition has_tmp_files :: "dir \<Rightarrow> bool" where
  "has_tmp_files d \<longleftrightarrow> (\<exists>entry \<in> set d. extension (fst entry) = ''.tmp'')"

definition is_chunk_file :: "string \<Rightarrow> bool" where
  "is_chunk_file n \<longleftrightarrow> extension n = ''.bin'' \<and> take 4 n = ''ego_''"

text \<open>The loop over the directory: \<open>None\<close> is the early return on an invalid chunk.\<close>

primrec count_chunk_frames ::
  "(string \<Rightarrow> bool) \<Rightarrow> u32 \<Rightarrow> dir \<Rightarrow> u64 \<Rightarrow> u64 option"
where
  "count_chunk_frames readable mx [] file_packets = Some file_packets"
| "count_chunk_frames readable mx (entry # entries) file_packets =
     (if \<not> is_chunk_file (fst entry) then count_chunk_frames readable mx entries file_packets
      else
        let bs = (if readable (fst entry) then snd entry else []);
            count = count_contract_frames_in_bytes bs mx
        in if count = 0 \<and> bs \<noteq> [] then None
           else count_chunk_frames readable mx entries (file_packets + of_nat count))"

definition index_packets :: "bytes \<Rightarrow> u64" where
  "index_packets bs = of_nat (length (filter (\<lambda>l. l \<noteq> []) (getlines (bytes_text bs))))"

text \<open>\<open>None\<close> is a missing session directory.\<close>

definition check_session_integrity ::
  "(string \<Rightarrow> bool) \<Rightarrow> dir option \<Rightarrow> u32 \<Rightarrow> integrity_report"
where
  "check_session_integrity readable root mx =
     (case root of
        None \<Rightarrow> \<lparr>ir_result = IFailed, ir_detail = ''session directory missing''\<rparr>
      | Some d \<Rightarrow>
          if has_tmp_files d
          then \<lparr>ir_result = IWarning, ir_detail = ''leftover .tmp files''\<rparr>
          else if fget d ''ego_manifest.json'' = None \<or> fget d ''ego.index'' = None
          then \<lparr>ir_result = IFailed, ir_detail = ''manifest or index missing''\<rparr>
          else
            let indexed_packets = index_packets
                  (if readable ''ego.index'' then contents d ''ego.index'' else [])
            in case count_chunk_frames readable mx d 0 of
                 None \<Rightarrow> \<lparr>ir_result = IFailed, ir_detail = ''invalid contract frame stream in chunk''\<rparr>
               | Some file_packets \<Rightarrow>
                   if indexed_packets \<noteq> file_packets
                   then \<lparr>ir_result = IWarning, ir_detail = ''index count mismatch with chunk frames''\<rparr>
                   else \<lparr>ir_result = IOk, ir_detail = ''ok''\<rparr>)"

section \<open>What a good verdict means\<close>

text \<open>The chunk files of a directory as the loop sees them.\<close>

definition chunk_files :: "dir \<Rightarrow> dir" where
  "chunk_files d = filter (\<lambda>x. is_chunk_file (fst x)) d"

lemma count_chunk_frames_readable:
  "count_chunk_frames (\<lambda>_. True) mx d n =
     (if list_all (\<lambda>x. snd x = [] \<or> count_contract_frames_in_bytes (snd x) mx \<noteq> 0) (chunk_files d)
      then Some (n + of_nat (\<Sum>x\<leftarrow>chunk_files d. count_contract_frames_in_bytes (snd x) mx))
      else None)"
  by (induction d arbitrary: n) (auto simp: chunk_files_def Let_def)

lemma dir_sum:
  assumes "dir_ok d"
  shows "(\<Sum>x\<leftarrow>d. g x) = (\<Sum>m\<in>fst ` set d. g (m, the (fget d m)) :: nat)"
proof -
  have "distinct d" using assms by (simp add: dir_ok_def distinct_map)
  then have "(\<Sum>x\<leftarrow>d. g x) = sum g (set d)" by (rule sum_list_distinct_conv_sum_set)
  also have "\<dots> = (\<Sum>m\<in>fst ` set d. g (m, the (fget d m)))"
  proof (rule sum.reindex_cong)
    show "inj_on (\<lambda>m. (m, the (fget d m))) (fst ` set d)" by (rule inj_onI) simp
    show "set d = (\<lambda>m. (m, the (fget d m))) ` fst ` set d"
      using assms by (force simp: dir_ok_def image_image map_of_eq_Some_iff)
  qed simp
  finally show ?thesis .
qed

section \<open>The recorder's sessions pass\<close>

lemma extension_suffix:
  "CHR ''.'' \<notin> set b \<Longrightarrow> a \<noteq> [] \<Longrightarrow> a \<noteq> ''.'' \<or> b \<noteq> [] \<Longrightarrow> extension (a @ ''.'' @ b) = ''.'' @ b"
proof -
  assume b: "CHR ''.'' \<notin> set b" and a: "a \<noteq> []" and ab: "a \<noteq> ''.'' \<or> b \<noteq> []"
  have t: "takeWhile (\<lambda>c. c \<noteq> CHR ''.'') (rev b @ CHR ''.'' # rev a) = rev b"
    using b by (induction "rev b" arbitrary: b) (auto simp: takeWhile_append)
  have "a @ ''.'' @ b \<noteq> ''.''" using a by (cases a) auto
  moreover have "a @ ''.'' @ b \<noteq> ''..''" using a ab by (cases a) (auto simp: append_eq_Cons_conv)
  ultimately show ?thesis using a by (simp add: extension_def Let_def t)
qed

lemma extension_own:
  "extension (chunk_name i) = ''.bin''" "extension ''ego.index'' = ''.index''"
  "extension ''ego_manifest.json'' = ''.json''"
proof -
  show "extension (chunk_name i) = ''.bin''"
    using extension_suffix [of "''bin''" "''ego_'' @ dec i"] by (simp add: chunk_name_def)
qed (simp_all add: extension_def)

lemma is_chunk_file_name [simp]: "is_chunk_file (chunk_name i)"
  by (simp add: is_chunk_file_def extension_own) (simp add: chunk_name_def)

lemma not_chunk_file [simp]: "\<not> is_chunk_file ''ego.index''" "\<not> is_chunk_file ''ego_manifest.json''"
  by (simp_all add: is_chunk_file_def extension_own)

lemma count_chunk_frames_report:
  "check_session_integrity (\<lambda>_. True) (Some d) mx = \<lparr>ir_result = IOk, ir_detail = ''ok''\<rparr> \<longleftrightarrow>
     \<not> has_tmp_files d \<and> fget d ''ego_manifest.json'' \<noteq> None \<and> fget d ''ego.index'' \<noteq> None \<and>
     list_all (\<lambda>x. snd x = [] \<or> count_contract_frames_in_bytes (snd x) mx \<noteq> 0) (chunk_files d) \<and>
     index_packets (contents d ''ego.index'') =
       of_nat (\<Sum>x\<leftarrow>chunk_files d. count_contract_frames_in_bytes (snd x) mx)"
  by (simp add: check_session_integrity_def count_chunk_frames_readable Let_def)

text \<open>The directory a recording starts in: no leftovers.\<close>

definition clean_dir :: "dir \<Rightarrow> bool" where
  "clean_dir d0 \<longleftrightarrow> dir_ok d0 \<and> \<not> has_tmp_files d0 \<and> chunk_files d0 = [] \<and>
     fget d0 ''ego.index'' = None"

lemma fget_in_dir: "m \<in> fst ` set d \<longleftrightarrow> fget d m \<noteq> None"
  by (metis domIff dom_map_of_conv_image_fst)

lemma dir_all: "(\<forall>x\<in>set d. \<not> P (fst x)) \<longleftrightarrow> (\<forall>m. P m \<longrightarrow> fget d m = None)"
proof -
  have "(\<forall>x\<in>set d. \<not> P (fst x)) \<longleftrightarrow> (\<forall>m\<in>fst ` set d. \<not> P m)" by simp
  also have "\<dots> \<longleftrightarrow> (\<forall>m. P m \<longrightarrow> m \<notin> fst ` set d)" by blast
  finally show ?thesis unfolding fget_in_dir by simp
qed

lemma no_chunk_files: "chunk_files d = [] \<longleftrightarrow> (\<forall>m. is_chunk_file m \<longrightarrow> fget d m = None)"
  unfolding chunk_files_def filter_empty_conv by (rule dir_all)

lemma no_tmp_files: "\<not> has_tmp_files d \<longleftrightarrow> (\<forall>m. extension m = ''.tmp'' \<longrightarrow> fget d m = None)"
  unfolding has_tmp_files_def using dir_all [of d "\<lambda>m. extension m = ''.tmp''"] by blast

lemma index_packets_text: "index_packets (text_bytes (index_text log)) = of_nat (length log)"
proof -
  have "entry_line x \<noteq> []" for x by (cases x) (simp add: entry_line_def index_line_def Let_def)
  then show ?thesis by (simp add: index_packets_def index_lines)
qed

text \<open>The closed directory of any log of valid frames passes.\<close>

lemma closed_ok:
  assumes clean: "clean_dir d0" and valid: "\<forall>f\<in>set (log_frames log). valid_frame mx f"
    and ch: "\<forall>i\<le>n. fget d (chunk_name i) = Some (concat (chunk_frames i log))"
    and le: "\<forall>x\<in>set log. fst x \<le> n" and srt: "sorted (map fst log)"
    and idx: "fget d ''ego.index'' = Some (text_bytes (index_text log))"
    and man: "fget d ''ego_manifest.json'' \<noteq> None"
    and oth: "\<forall>m. m \<notin> own_names (Suc n) \<and> m \<noteq> ''ego_manifest.json.tmp'' \<longrightarrow> fget d m = fget d0 m"
    and tmp: "fget d ''ego_manifest.json.tmp'' = None" and ok: "dir_ok d"
  shows "check_session_integrity (\<lambda>_. True) (Some d) mx = \<lparr>ir_result = IOk, ir_detail = ''ok''\<rparr>"
proof -
  have vf: "\<forall>f\<in>set (chunk_frames i log). valid_frame mx f" for i
  proof -
    have "set (chunk_frames i log) \<subseteq> set (log_frames log)"
      by (auto simp: chunk_frames_def log_frames_def)
    with valid show ?thesis by blast
  qed
  then have cnt: "count_contract_frames_in_bytes (concat (chunk_frames i log)) mx
      = length (chunk_frames i log)" for i
    by (rule count_concat)
  have names: "m \<in> chunk_name ` {..<Suc n}" if "is_chunk_file m" "fget d m \<noteq> None" for m
  proof (rule ccontr)
    assume "m \<notin> chunk_name ` {..<Suc n}"
    with that(1) have "m \<notin> own_names (Suc n)" by (auto simp: own_names_def)
    with that(2) oth tmp have "fget d0 m \<noteq> None" by metis
    with clean that(1) show False by (simp add: clean_dir_def no_chunk_files)
  qed
  have "\<not> has_tmp_files d"
    unfolding no_tmp_files
  proof (intro allI impI)
    fix m assume m: "extension m = ''.tmp''"
    then have "m \<notin> own_names (Suc n)" by (auto simp: own_names_def extension_own)
    with oth tmp have "fget d m = None \<or> fget d m = fget d0 m" by metis
    moreover have "fget d0 m = None" using clean m by (simp add: clean_dir_def no_tmp_files)
    ultimately show "fget d m = None" by auto
  qed
  moreover have "list_all (\<lambda>x. snd x = [] \<or> count_contract_frames_in_bytes (snd x) mx \<noteq> 0)
      (chunk_files d)"
    unfolding list_all_iff
  proof
    fix x assume x: "x \<in> set (chunk_files d)"
    then have "is_chunk_file (fst x)" "x \<in> set d" by (simp_all add: chunk_files_def)
    moreover from this(2) have g: "fget d (fst x) = Some (snd x)"
      using ok by (cases x) (auto simp: dir_ok_def intro: map_of_is_SomeI)
    ultimately obtain i where i: "i \<le> n" "fst x = chunk_name i"
      using names [of "fst x"] by auto
    then have "snd x = concat (chunk_frames i log)" using ch g by simp
    then show "snd x = [] \<or> count_contract_frames_in_bytes (snd x) mx \<noteq> 0"
      by (cases "chunk_frames i log = []") (simp_all add: cnt)
  qed
  moreover have "(\<Sum>x\<leftarrow>chunk_files d. count_contract_frames_in_bytes (snd x) mx) = length log"
  proof -
    let ?g = "\<lambda>x. if is_chunk_file (fst x) then count_contract_frames_in_bytes (snd x) mx else 0"
    have "(\<Sum>x\<leftarrow>chunk_files d. count_contract_frames_in_bytes (snd x) mx) = (\<Sum>x\<leftarrow>d. ?g x)"
      unfolding chunk_files_def by (induction d) auto
    also have "\<dots> = (\<Sum>m\<in>fst ` set d. ?g (m, the (fget d m)))" by (rule dir_sum [OF ok])
    also have "\<dots> = (\<Sum>m\<in>chunk_name ` {..<Suc n}. ?g (m, the (fget d m)))"
    proof (rule sum.mono_neutral_right)
      show "chunk_name ` {..<Suc n} \<subseteq> fst ` set d" using ch by (auto simp: fget_in_dir)
      show "\<forall>m\<in>fst ` set d - chunk_name ` {..<Suc n}. ?g (m, the (fget d m)) = 0"
      proof
        fix m assume m: "m \<in> fst ` set d - chunk_name ` {..<Suc n}"
        then have "fget d m \<noteq> None" using fget_in_dir [of m d] by blast
        with names m have "\<not> is_chunk_file m" by blast
        then show "?g (m, the (fget d m)) = 0" by simp
      qed
    qed simp
    also have "\<dots> = (\<Sum>i<Suc n. length (chunk_frames i log))"
      by (subst sum.reindex) (auto simp: inj_on_def ch cnt intro!: sum.cong)
    also have "\<dots> = length (concat (map (\<lambda>i. chunk_frames i log) [0..<Suc n]))"
      by (simp add: length_concat o_def sum_list_sum_nth atLeast0LessThan)
    also have "\<dots> = length log"
    proof -
      have "filter (\<lambda>x. fst x < Suc n) log = log" using le by (auto simp: filter_id_conv)
      then show ?thesis unfolding chunks_in_order [OF srt] by (simp add: log_frames_def)
    qed
    finally show ?thesis .
  qed
  ultimately show ?thesis
    by (simp add: count_chunk_frames_report man idx contents_def index_packets_text)
qed

lemma recorded_ok:
  assumes clean: "clean_dir d0" and fair: "fair_recording e0 xs ec d0"
    and rec: "record_session e0 now cfg xs ec d0 = (log, (w, d))"
    and valid: "\<forall>x\<in>set xs. valid_frame mx (snd x)"
  shows "check_session_integrity (\<lambda>_. True) (Some d) mx = \<lparr>ir_result = IOk, ir_detail = ''ok''\<rparr>"
proof (rule recorded [OF fair rec])
  fix n
  assume r: "log_frames log = map snd xs"
    "\<forall>i\<le>n. fget d (chunk_name i) = Some (concat (chunk_frames i log))"
    "\<forall>x\<in>set log. fst x \<le> n" "sorted (map fst log)"
    "fget d ''ego.index'' = Some (text_bytes (index_text log))"
    "fget d ''ego_manifest.json'' =
      Some (text_bytes (manifest_text (map (\<lambda>i. summary i log) [0..<Suc n])))"
    "\<forall>m. m \<notin> own_names (Suc n) \<and> m \<noteq> ''ego_manifest.json.tmp'' \<longrightarrow> fget d m = fget d0 m"
    "fget d ''ego_manifest.json.tmp'' = None" "dir_ok d"
  then show ?thesis
    using valid by (intro closed_ok [OF clean _ r(2,3,4,5) _ r(7,8,9)]) auto
qed

text \<open>C8: A clean recording passes its own check: when frames that pass validation are recorded into a
  fresh session directory and no system call fails, \<open>CheckSessionIntegrity\<close> reports \<open>ok\<close> - the
  writer's chunk naming, rotation, index format and manifest agree with what the check looks
  for.\<close>

theorem clean_recording_passes_check:
  assumes "clean_dir d0" and "fair_recording e0 xs ec d0"
    and "record_session e0 now cfg xs ec d0 = (log, (w, d))"
    and "\<forall>x\<in>set xs. validate_contract_frame (snd x) mx = None"
  shows "check_session_integrity (\<lambda>_. True) (Some d) mx = \<lparr>ir_result = IOk, ir_detail = ''ok''\<rparr>"
  using assms by (rule recorded_ok)

theorem clean_recording_passes_check_witness:
  "\<exists>log w d. record_session demo_env 0 (default_config\<lparr>rc_chunk_max_bytes := 70\<rparr>) demo_calls demo_env []
      = (log, (w, d)) \<and>
    check_session_integrity (\<lambda>_. True) (Some d) 65536 = \<lparr>ir_result = IOk, ir_detail = ''ok''\<rparr>"
proof -
  obtain log w d where r: "record_session demo_env 0 (default_config\<lparr>rc_chunk_max_bytes := 70\<rparr>)
      demo_calls demo_env [] = (log, (w, d))" by (metis prod_cases3)
  have "\<forall>x\<in>set demo_calls. validate_contract_frame (snd x) 65536 = None"
    by (simp add: demo_calls_def built_frame_valid)
  from clean_recording_passes_check [OF _ demo_fair r this] r show ?thesis
    by (auto simp: clean_dir_def chunk_files_def has_tmp_files_def)
qed

section \<open>What the check does not see\<close>

lemma count_torn_tail:
  assumes "\<forall>f\<in>set fs. valid_frame mx f" and "length tail < 72"
  shows "count_contract_frames_in_bytes (concat fs @ tail) mx = length fs"
proof -
  have "for_each_from (concat fs @ tail) mx collect (length (concat fs)) fs
      = (tail = [], if tail = [] then '''' else ''truncated frame header'', fs)"
    using assms(2) by (subst for_each_from.simps) (auto simp: parse_frame_at_def)
  then show ?thesis
    using for_each_from_frames [OF assms(1), of "[]" tail "[]"]
    by (simp add: count_frames_collect for_each_contract_frame_def)
qed

lemma count_chunk_frames_update:
  assumes "fget d n = Some old"
    and "count_contract_frames_in_bytes new mx = count_contract_frames_in_bytes old mx"
    and "new = [] \<longleftrightarrow> old = []"
  shows "count_chunk_frames (\<lambda>_. True) mx (put n new d) acc = count_chunk_frames (\<lambda>_. True) mx d acc"
  using assms by (induction d arbitrary: acc) (auto simp: put_def Let_def)

lemma put_tmp_files: "fget d n = Some old \<Longrightarrow> has_tmp_files (put n new d) = has_tmp_files d"
proof (cases "extension n = ''.tmp''")
  case True
  assume "fget d n = Some old"
  with True no_tmp_files [of d] have "has_tmp_files d" by fastforce
  moreover have "has_tmp_files (put n new d)" using True no_tmp_files [of "put n new d"] by fastforce
  ultimately show ?thesis by simp
next
  case False
  then have "extension m = ''.tmp'' \<longrightarrow> fget (put n new d) m = fget d m" for m by auto
  then show ?thesis using no_tmp_files [of "put n new d"] no_tmp_files [of d] by metis
qed

text \<open>A torn tail goes unnoticed: appending fewer than 72 bytes of anything to a recorded chunk -
  what a crash or a full disk in the middle of a frame leaves - does not change the verdict
  \<open>ok\<close>, although iterating over that chunk reports an error.\<close>

theorem torn_tail_unnoticed:
  assumes "check_session_integrity (\<lambda>_. True) (Some d) mx = \<lparr>ir_result = IOk, ir_detail = ''ok''\<rparr>"
    and "fget d (chunk_name i) = Some (concat fs)" and "\<forall>f\<in>set fs. validate_contract_frame f mx = None"
    and "fs \<noteq> []" and "0 < length tail" and "length tail < 72"
  shows "check_session_integrity (\<lambda>_. True) (Some (put (chunk_name i) (concat fs @ tail) d)) mx =
      \<lparr>ir_result = IOk, ir_detail = ''ok''\<rparr> \<and>
    for_each_contract_frame (concat fs @ tail) mx collect [] = (False, ''truncated frame header'', fs)"
proof
  have "hd fs \<noteq> []" using assms(3,4) valid_frameD(1) [where f = "hd fs" and mx = mx] by auto
  then have ne: "concat fs \<noteq> []" using assms(4) by (cases fs) auto
  have cnt: "count_chunk_frames (\<lambda>_. True) mx (put (chunk_name i) (concat fs @ tail) d) acc
      = count_chunk_frames (\<lambda>_. True) mx d acc" for acc
  proof (rule count_chunk_frames_update [OF assms(2)])
    show "count_contract_frames_in_bytes (concat fs @ tail) mx
        = count_contract_frames_in_bytes (concat fs) mx"
      using count_torn_tail [OF assms(3,6)] count_concat [OF assms(3)] by simp
    show "(concat fs @ tail = []) = (concat fs = [])"
      using ne by (simp only: append_is_Nil_conv simp_thms)
  qed
  then show "check_session_integrity (\<lambda>_. True) (Some (put (chunk_name i) (concat fs @ tail) d)) mx =
      \<lparr>ir_result = IOk, ir_detail = ''ok''\<rparr>"
    using assms(1) put_tmp_files [OF assms(2)]
    by (simp add: check_session_integrity_def contents_def split: if_splits)
  have "for_each_from (concat fs @ tail) mx collect (length (concat fs)) fs
      = (False, ''truncated frame header'', fs)"
    using assms(5,6) by (subst for_each_from.simps) (auto simp: parse_frame_at_def)
  then show "for_each_contract_frame (concat fs @ tail) mx collect []
      = (False, ''truncated frame header'', fs)"
    using for_each_from_frames [OF assms(3), of "[]" tail "[]"]
    by (simp add: for_each_contract_frame_def)
qed

theorem torn_tail_unnoticed_witness:
  "\<exists>d i fs. check_session_integrity (\<lambda>_. True) (Some (put (chunk_name i) (concat fs @ [1, 2, 3]) d))
      65536 = \<lparr>ir_result = IOk, ir_detail = ''ok''\<rparr> \<and>
    for_each_contract_frame (concat fs @ [1, 2, 3]) 65536 collect []
      = (False, ''truncated frame header'', fs)"
proof -
  obtain log w d where r: "record_session demo_env 0 default_config demo_calls demo_env []
      = (log, (w, d))" by (metis prod_cases3)
  have v: "\<forall>x\<in>set demo_calls. valid_frame 65536 (snd x)"
    by (simp add: demo_calls_def built_frame_valid)
  have "clean_dir []" by (simp add: clean_dir_def chunk_files_def has_tmp_files_def)
  note ok = recorded_ok [OF this demo_fair r v]
  show ?thesis
  proof (rule recorded [OF demo_fair r])
    fix n
    assume fr: "log_frames log = map snd demo_calls"
      and ch: "\<forall>i\<le>n. fget d (chunk_name i) = Some (concat (chunk_frames i log))"
      and le: "\<forall>x\<in>set log. fst x \<le> n"
    have "log \<noteq> []" using fr by (auto simp: log_frames_def demo_calls_def)
    then obtain c off f l where log: "log = (c, off, f) # l" by (metis list.exhaust prod_cases3)
    let ?fs = "chunk_frames c log"
    have "set ?fs \<subseteq> set (log_frames log)" by (auto simp: chunk_frames_def log_frames_def)
    then have vf: "\<forall>g\<in>set ?fs. valid_frame 65536 g" using v unfolding fr by fastforce
    have fg: "fget d (chunk_name c) = Some (concat ?fs)" using ch le log by simp
    have ne: "?fs \<noteq> []" by (simp add: log chunk_frames_def)
    have "check_session_integrity (\<lambda>_. True) (Some (put (chunk_name c) (concat ?fs @ [1, 2, 3]) d))
      65536 = \<lparr>ir_result = IOk, ir_detail = ''ok''\<rparr> \<and>
      for_each_contract_frame (concat ?fs @ [1, 2, 3]) 65536 collect []
      = (False, ''truncated frame header'', ?fs)"
      by (rule torn_tail_unnoticed [OF ok fg vf ne]) simp_all
    then show ?thesis by blast
  qed
qed

end
