(* ===== verification/SessionManager.thy ===== *)
theory SessionManager
  imports RuntimeConfig Files
begin

text \<open>
  The session life cycle, \<open>runtimepc/src/session_manager.cpp\<close>: the operations on the active session,
  the texts of the two metadata files, and the transition system the operations generate. Every
  operation holds the manager's mutex. The generated session id and the UTC clock's text are
  arguments.
\<close>

section \<open>State\<close>

datatype session_state = SIdle | SRecording | SStopping | SClosed | SError

datatype runtime_error_code =
  EOk | ESessionBusy | ENotRecording | EStorageCritical | EConfigError | EInternalError

definition session_state_to_string :: "session_state \<Rightarrow> string" where
  "session_state_to_string st = (case st of SIdle \<Rightarrow> ''Idle'' | SRecording \<Rightarrow> ''Recording''
     | SStopping \<Rightarrow> ''Stopping'' | SClosed \<Rightarrow> ''Closed'' | SError \<Rightarrow> ''Error'')"

record scenario_metadata =
  sc_id :: string
  sc_name :: string
  sc_operator :: string
  sc_notes :: string

record session_info =
  si_session_id :: string
  si_storage_path :: string
  si_started_at_utc :: string
  si_stopped_at_utc :: string
  si_source_ip :: string
  si_stop_reason :: string
  si_state :: session_state

record session_manager =
  sm_config :: runtime_config
  sm_active :: "session_info option"
  sm_scenario :: scenario_metadata

definition new_session_manager :: "runtime_config \<Rightarrow> session_manager" where
  "new_session_manager cfg = \<lparr>sm_config = cfg, sm_active = None,
     sm_scenario = \<lparr>sc_id = '''', sc_name = '''', sc_operator = '''', sc_notes = ''''\<rparr>\<rparr>"

section \<open>Operations\<close>

definition sm_state :: "session_manager \<Rightarrow> session_state" where
  "sm_state m = (case sm_active m of None \<Rightarrow> SIdle | Some i \<Rightarrow> si_state i)"

definition sm_session_dir :: "session_manager \<Rightarrow> string" where
  "sm_session_dir m = (case sm_active m of None \<Rightarrow> '''' | Some i \<Rightarrow> si_storage_path i)"

definition sm_set_source_ip :: "string \<Rightarrow> session_manager \<Rightarrow> session_manager" where
  "sm_set_source_ip ip m = m\<lparr>sm_active := map_option (\<lambda>i. i\<lparr>si_source_ip := ip\<rparr>) (sm_active m)\<rparr>"

definition sm_start ::
  "string \<Rightarrow> string \<Rightarrow> scenario_metadata \<Rightarrow> string \<Rightarrow> session_manager
     \<Rightarrow> runtime_error_code \<times> session_manager"
where
  "sm_start new_id utc scenario source_ip m =
     (if (case sm_active m of None \<Rightarrow> False | Some i \<Rightarrow> si_state i = SRecording)
      then (ESessionBusy, m)
      else (EOk, m\<lparr>sm_scenario := scenario, sm_active := Some
        \<lparr>si_session_id = new_id,
         si_storage_path = path_join (path_join (rc_data_root (sm_config m)) ''sessions'') new_id,
         si_started_at_utc = utc, si_stopped_at_utc = '''', si_source_ip = source_ip,
         si_stop_reason = '''', si_state = SRecording\<rparr>\<rparr>))"

definition sm_stop :: "string \<Rightarrow> session_manager \<Rightarrow> runtime_error_code \<times> session_manager" where
  "sm_stop reason m =
     (case sm_active m of
        None \<Rightarrow> (ENotRecording, m)
      | Some i \<Rightarrow>
          if si_state i \<noteq> SRecording then (ENotRecording, m)
          else (EOk, m\<lparr>sm_active := Some (i\<lparr>si_state := SStopping, si_stop_reason := reason\<rparr>)\<rparr>))"

definition sm_emergency_stop ::
  "string \<Rightarrow> session_manager \<Rightarrow> runtime_error_code \<times> session_manager"
where
  "sm_emergency_stop reason m = sm_stop reason m"

definition sm_mark_stopped :: "string \<Rightarrow> string \<Rightarrow> session_manager \<Rightarrow> session_manager" where
  "sm_mark_stopped utc reason m =
     (case sm_active m of None \<Rightarrow> m
      | Some i \<Rightarrow> m\<lparr>sm_active := Some (i\<lparr>si_stopped_at_utc := utc, si_stop_reason := reason,
          si_state := SClosed\<rparr>)\<rparr>)"

definition sm_set_error :: "string \<Rightarrow> session_manager \<Rightarrow> session_manager" where
  "sm_set_error reason m =
     (case sm_active m of None \<Rightarrow> m
      | Some i \<Rightarrow> m\<lparr>sm_active := Some (i\<lparr>si_stop_reason := reason, si_state := SError\<rparr>)\<rparr>)"

text \<open>The metadata files: a line \<open>  "key": "value"\<close> per member.\<close>

definition qt :: "string \<Rightarrow> string" where "qt s = [CHR 0x22] @ s @ [CHR 0x22]"

definition json_line :: "string \<Rightarrow> string \<Rightarrow> bool \<Rightarrow> string" where
  "json_line key val comma =
     ''  '' @ qt key @ '': '' @ val @ (if comma then '','' else '''') @ [CHR 0x0A]"

definition session_metadata_text :: "runtime_config \<Rightarrow> session_info \<Rightarrow> string" where
  "session_metadata_text cfg i =
     ''{'' @ [CHR 0x0A] @
     json_line ''session_id'' (qt (json_escape (si_session_id i))) True @
     json_line ''started_at_utc'' (qt (json_escape (si_started_at_utc i))) True @
     json_line ''stopped_at_utc'' (qt (json_escape (si_stopped_at_utc i))) True @
     json_line ''vehicle_id'' (qt (json_escape (rc_vehicle_id cfg))) True @
     json_line ''test_stand_config'' (qt (json_escape
       (if rc_test_stand_config cfg = [] then ''default'' else rc_test_stand_config cfg))) True @
     json_line ''software_version'' (qt (json_escape (rc_software_version cfg))) True @
     json_line ''runtime_version'' (qt (json_escape (rc_software_version cfg))) True @
     json_line ''protocol_version'' (qt ''1'') True @
     json_line ''prod_protocol_version'' ''1'' True @
     json_line ''source_ip'' (qt (json_escape (si_source_ip i))) True @
     json_line ''storage_path'' (qt (json_escape (si_storage_path i))) True @
     json_line ''stop_reason'' (qt (json_escape (si_stop_reason i))) False @
     ''}'' @ [CHR 0x0A]"

definition scenario_metadata_text :: "scenario_metadata \<Rightarrow> string" where
  "scenario_metadata_text s =
     ''{'' @ [CHR 0x0A] @
     json_line ''scenario_id'' (qt (json_escape (sc_id s))) True @
     json_line ''scenario_name'' (qt (json_escape (sc_name s))) True @
     json_line ''operator'' (qt (json_escape (sc_operator s))) True @
     json_line ''notes'' (qt (json_escape (sc_notes s))) False @
     ''}'' @ [CHR 0x0A]"

definition write_session_metadata :: "atomic_env \<Rightarrow> session_manager \<Rightarrow> dir \<Rightarrow> dir" where
  "write_session_metadata a m d =
     (case sm_active m of None \<Rightarrow> d
      | Some i \<Rightarrow> snd (write_text_atomic a ''session_metadata.json''
          (session_metadata_text (sm_config m) i) d))"

definition write_scenario_metadata ::
  "atomic_env \<Rightarrow> scenario_metadata \<Rightarrow> session_manager \<Rightarrow> dir \<Rightarrow> dir"
where
  "write_scenario_metadata a s m d =
     (case sm_active m of None \<Rightarrow> d
      | Some i \<Rightarrow> snd (write_text_atomic a ''scenario_metadata.json'' (scenario_metadata_text s) d))"

section \<open>The life cycle\<close>

text \<open>Every state change any caller can cause.\<close>

inductive sm_step :: "session_manager \<Rightarrow> session_manager \<Rightarrow> bool" where
  start: "sm_start new_id utc scenario ip m = (rc, m') \<Longrightarrow> sm_step m m'"
| stop: "sm_stop reason m = (rc, m') \<Longrightarrow> sm_step m m'"
| mark: "sm_step m (sm_mark_stopped utc reason m)"
| error: "sm_step m (sm_set_error reason m)"
| source: "sm_step m (sm_set_source_ip ip m)"

inductive_cases sm_stepE: "sm_step m m'"

text \<open>The transition diagram of the states.\<close>

definition allowed :: "session_state \<Rightarrow> session_state \<Rightarrow> bool" where
  "allowed s t \<longleftrightarrow> s = t \<or>
     (case t of SIdle \<Rightarrow> False
      | SRecording \<Rightarrow> s \<noteq> SRecording
      | SStopping \<Rightarrow> s = SRecording
      | SClosed \<Rightarrow> s \<noteq> SIdle
      | SError \<Rightarrow> s \<noteq> SIdle)"

lemmas sm_defs = sm_state_def sm_start_def sm_stop_def sm_mark_stopped_def sm_set_error_def
  sm_set_source_ip_def sm_session_dir_def

inductive sm_reachable :: "runtime_config \<Rightarrow> session_manager \<Rightarrow> bool" for cfg where
  init: "sm_reachable cfg (new_session_manager cfg)"
| step: "sm_reachable cfg m \<Longrightarrow> sm_step m m' \<Longrightarrow> sm_reachable cfg m'"

lemma sm_step_inv:
  assumes "sm_step m m'"
    and "\<forall>i. sm_active m = Some i \<longrightarrow> si_state i \<noteq> SIdle"
  shows "(\<forall>i. sm_active m' = Some i \<longrightarrow> si_state i \<noteq> SIdle) \<and> sm_config m' = sm_config m"
  using assms
  by (cases rule: sm_step.cases) (auto simp: sm_defs split: option.splits if_splits)

lemma sm_reachable_inv:
  "sm_reachable cfg m \<Longrightarrow>
     (\<forall>i. sm_active m = Some i \<longrightarrow> si_state i \<noteq> SIdle) \<and> sm_config m = cfg"
proof (induction rule: sm_reachable.induct)
  case init
  then show ?case by (simp add: new_session_manager_def)
next
  case (step m m')
  with sm_step_inv [OF step.hyps(2)] show ?case by simp
qed

lemma sm_step_allowed:
  assumes "sm_step m m'" and "\<forall>i. sm_active m = Some i \<longrightarrow> si_state i \<noteq> SIdle"
  shows "allowed (sm_state m) (sm_state m')"
  using assms
  by (cases rule: sm_step.cases)
    (auto simp: sm_defs allowed_def split: option.splits if_splits session_state.splits)



end
