(* ===== verification/Diagnostics.thy ===== *)
theory Diagnostics
  imports RuntimeConfig Files
begin

text \<open>
  The counters of a running recorder, \<open>runtimepc/include/ego_runtime/diagnostics.hpp\<close>. All counters
  are 64 bits wide and wrap. The map of reject reasons is an association list (the order of the
  code's hash map is unspecified). The throughput, a floating-point quotient, is computed by the
  argument \<open>mbps\<close> from the bytes written and the elapsed time.
\<close>

record runtime_metrics =
  me_packets_received :: u64
  me_packets_written :: u64
  me_bad_packets :: u64
  me_seq_gaps :: u64
  me_packets_lost :: u64
  me_out_of_order :: u64
  me_time_gaps :: u64
  me_buffer_dropped :: u64
  me_write_mbps :: f64
  me_disk_free_gb :: f64
  me_health :: string
  me_adsp_status :: string
  me_reject_by_reason :: "(string \<times> u64) list"

record diagnostics =
  dg_packets_received :: u64
  dg_packets_written :: u64
  dg_bad_packets :: u64
  dg_seq_gaps :: u64
  dg_packets_lost :: u64
  dg_out_of_order :: u64
  dg_time_gaps :: u64
  dg_buffer_dropped :: u64
  dg_bytes_written :: u64
  dg_disk_free_gb :: f64
  dg_health :: string
  dg_adsp_status :: string
  dg_reject_by_reason :: "(string \<times> u64) list"

definition new_diagnostics :: diagnostics where
  "new_diagnostics = \<lparr>dg_packets_received = 0, dg_packets_written = 0, dg_bad_packets = 0,
     dg_seq_gaps = 0, dg_packets_lost = 0, dg_out_of_order = 0, dg_time_gaps = 0,
     dg_buffer_dropped = 0, dg_bytes_written = 0, dg_disk_free_gb = 0, dg_health = ''ok'',
     dg_adsp_status = ''unknown'', dg_reject_by_reason = []\<rparr>"

definition on_packet_received :: "diagnostics \<Rightarrow> diagnostics" where
  "on_packet_received g = g\<lparr>dg_packets_received := dg_packets_received g + 1\<rparr>"

definition on_packet_written :: "nat \<Rightarrow> diagnostics \<Rightarrow> diagnostics" where
  "on_packet_written n g = g\<lparr>dg_packets_written := dg_packets_written g + 1,
     dg_bytes_written := dg_bytes_written g + of_nat n\<rparr>"

definition on_bad_packet :: "string \<Rightarrow> diagnostics \<Rightarrow> diagnostics" where
  "on_bad_packet reason g =
     (let key = (if reason = [] then ''unknown'' else reason);
          n = (case map_of (dg_reject_by_reason g) key of None \<Rightarrow> 0 | Some k \<Rightarrow> k)
      in g\<lparr>dg_bad_packets := dg_bad_packets g + 1,
           dg_reject_by_reason := AList.update key (n + 1) (dg_reject_by_reason g)\<rparr>)"

definition on_time_gap :: "diagnostics \<Rightarrow> diagnostics" where
  "on_time_gap g = g\<lparr>dg_time_gaps := dg_time_gaps g + 1\<rparr>"

definition on_seq_gap :: "u64 \<Rightarrow> diagnostics \<Rightarrow> diagnostics" where
  "on_seq_gap lost g = g\<lparr>dg_seq_gaps := dg_seq_gaps g + 1, dg_packets_lost := dg_packets_lost g + lost\<rparr>"

definition on_out_of_order :: "diagnostics \<Rightarrow> diagnostics" where
  "on_out_of_order g = g\<lparr>dg_out_of_order := dg_out_of_order g + 1\<rparr>"

definition set_buffer_dropped :: "u64 \<Rightarrow> diagnostics \<Rightarrow> diagnostics" where
  "set_buffer_dropped n g = g\<lparr>dg_buffer_dropped := n\<rparr>"

definition set_disk_free_gb :: "f64 \<Rightarrow> diagnostics \<Rightarrow> diagnostics" where
  "set_disk_free_gb gb g = g\<lparr>dg_disk_free_gb := gb\<rparr>"

definition set_health :: "string \<Rightarrow> diagnostics \<Rightarrow> diagnostics" where
  "set_health h g = g\<lparr>dg_health := h\<rparr>"

definition set_adsp_status :: "string \<Rightarrow> diagnostics \<Rightarrow> diagnostics" where
  "set_adsp_status st g = g\<lparr>dg_adsp_status := st\<rparr>"

definition reset_rates :: "diagnostics \<Rightarrow> diagnostics" where
  "reset_rates g = g\<lparr>dg_bytes_written := 0\<rparr>"

text \<open>\<open>elapsed\<close> is \<open>None\<close> when the elapsed time is not positive.\<close>

definition snapshot :: "(u64 \<Rightarrow> f64 \<Rightarrow> f64) \<Rightarrow> f64 option \<Rightarrow> diagnostics \<Rightarrow> runtime_metrics" where
  "snapshot mbps elapsed g =
     \<lparr>me_packets_received = dg_packets_received g, me_packets_written = dg_packets_written g,
      me_bad_packets = dg_bad_packets g, me_seq_gaps = dg_seq_gaps g,
      me_packets_lost = dg_packets_lost g, me_out_of_order = dg_out_of_order g,
      me_time_gaps = dg_time_gaps g, me_buffer_dropped = dg_buffer_dropped g,
      me_write_mbps = (case elapsed of None \<Rightarrow> 0 | Some t \<Rightarrow> mbps (dg_bytes_written g) t),
      me_disk_free_gb = dg_disk_free_gb g, me_health = dg_health g,
      me_adsp_status = dg_adsp_status g, me_reject_by_reason = dg_reject_by_reason g\<rparr>"

lemmas diag_defs = on_packet_received_def on_packet_written_def on_bad_packet_def on_time_gap_def
  on_seq_gap_def on_out_of_order_def set_buffer_dropped_def set_health_def set_disk_free_gb_def

text \<open>Every rejected packet is counted under exactly one reason.\<close>

definition reject_total :: "diagnostics \<Rightarrow> u64" where
  "reject_total g = sum_list (map snd (dg_reject_by_reason g))"

lemma sum_update:
  "sum_list (map snd (AList.update k (v + 1) xs)) + (case map_of xs k of None \<Rightarrow> v | Some u \<Rightarrow> v) =
     sum_list (map snd xs) + (case map_of xs k of None \<Rightarrow> v + 1 + v | Some u \<Rightarrow> v + 1 + v - u)"
  for v :: u64
  by (induction xs) (auto simp: algebra_simps split: option.splits)

lemma on_bad_packet_total:
  "reject_total (on_bad_packet r g) = reject_total g + 1"
  using sum_update [of "if r = [] then ''unknown'' else r"
      "case map_of (dg_reject_by_reason g) (if r = [] then ''unknown'' else r) of
         None \<Rightarrow> 0 | Some k \<Rightarrow> k" "dg_reject_by_reason g"]
  by (auto simp: reject_total_def on_bad_packet_def Let_def algebra_simps split: option.splits)

end
