(* ===== verification/RuntimeService.thy ===== *)
theory RuntimeService
  imports PacketBuffer SessionIntegrity SessionManager Diagnostics
begin

text \<open>
  The recorder itself, \<open>runtimepc/src/runtime_service.cpp\<close>: what a frame does, starting, stopping and
  finalising a session, the writer thread, the control commands and the reports. The state holds
  the session manager, the counters, the buffer, the writer and the files of every session
  directory. Each public operation and each turn of the writer thread is one function; a history
  of the running recorder is a sequence of them.
\<close>

section \<open>State and environment\<close>

record runtime_service =
  rs_config :: runtime_config
  rs_sessions :: session_manager
  rs_error_log :: "(string \<times> string) list option"
  rs_buffer :: "packet_buffer option"
  rs_writer :: "(string \<times> chunk_writer) option"
  rs_diag :: diagnostics
  rs_daemon_running :: bool
  rs_stop_threads :: bool
  rs_threads :: bool
  rs_sync_file_mode :: bool
  rs_finalize_in_progress :: bool
  rs_last_ts_ns :: u64
  rs_seen_ts :: bool
  rs_seq_initialized :: bool
  rs_last_seq :: u64
  rs_fs :: "string \<Rightarrow> dir"
  rs_triggered :: "string list"

text \<open>What one operation takes from outside: the generated session id, clock texts and readings, the
  outcomes of its file operations (\<open>se_drain k\<close> for the \<open>k\<close>-th packet of a drain) and the printed
  floating-point numbers of the reports.\<close>

record svc_env =
  se_session_id :: string
  se_utc_start :: string
  se_utc_stop :: string
  se_now :: nat
  se_open :: writer_env
  se_write :: writer_env
  se_drain :: "nat \<Rightarrow> writer_env"
  se_close :: writer_env
  se_scenario_write :: atomic_env
  se_metadata_write :: atomic_env
  se_summary_write :: atomic_env
  se_report_write :: atomic_env
  se_readable :: "string \<Rightarrow> bool"
  se_duration_text :: string
  se_disk_text :: string
  se_mbps_text :: string

definition new_runtime_service :: "runtime_config \<Rightarrow> (string \<Rightarrow> dir) \<Rightarrow> runtime_service" where
  "new_runtime_service cfg fs = \<lparr>rs_config = cfg, rs_sessions = new_session_manager cfg,
     rs_error_log = None, rs_buffer = None, rs_writer = None, rs_diag = new_diagnostics,
     rs_daemon_running = False, rs_stop_threads = False, rs_threads = False,
     rs_sync_file_mode = False, rs_finalize_in_progress = False, rs_last_ts_ns = 0,
     rs_seen_ts = False, rs_seq_initialized = False, rs_last_seq = 0, rs_fs = fs,
     rs_triggered = []\<rparr>"

abbreviation rs_state :: "runtime_service \<Rightarrow> session_state" where
  "rs_state s \<equiv> sm_state (rs_sessions s)"

section \<open>Small helpers\<close>

definition log_error :: "string \<Rightarrow> string \<Rightarrow> runtime_service \<Rightarrow> runtime_service" where
  "log_error level msg s = s\<lparr>rs_error_log := map_option (\<lambda>l. l @ [(level, msg)]) (rs_error_log s)\<rparr>"

definition upd_diag :: "(diagnostics \<Rightarrow> diagnostics) \<Rightarrow> runtime_service \<Rightarrow> runtime_service" where
  "upd_diag f s = s\<lparr>rs_diag := f (rs_diag s)\<rparr>"

definition default_scenario :: "runtime_config \<Rightarrow> scenario_metadata" where
  "default_scenario cfg =
     \<lparr>sc_id = (if rc_scenario_id cfg = [] then ''default'' else rc_scenario_id cfg),
      sc_name = (if rc_scenario_name cfg = [] then ''session'' else rc_scenario_name cfg),
      sc_operator = (if rc_operator_name cfg = [] then ''operator'' else rc_operator_name cfg),
      sc_notes = rc_notes cfg\<rparr>"

text \<open>Writing one frame through the writer, in the writer's directory.\<close>

definition writer_write :: "writer_env \<Rightarrow> bytes \<Rightarrow> string \<times> chunk_writer \<Rightarrow> runtime_service
    \<Rightarrow> bool \<times> runtime_service" where
  "writer_write e frame pw s =
     (case pw of (p, w) \<Rightarrow>
       (case write_contract_frame e frame (w, rs_fs s p) of (ok, (w', d')) \<Rightarrow>
         (ok, s\<lparr>rs_writer := Some (p, w'), rs_fs := (rs_fs s)(p := d')\<rparr>)))"

text \<open>Destroying a writer closes its two streams.\<close>

definition destroy_writer :: "writer_env \<Rightarrow> runtime_service \<Rightarrow> runtime_service" where
  "destroy_writer e s =
     (case rs_writer s of
        None \<Rightarrow> s
      | Some (p, w) \<Rightarrow>
          let d1 = (if os_open (cw_chunk w)
                then snd (os_close (we_close e) (we_spill e) (cw_chunk w, rs_fs s p)) else rs_fs s p);
              d2 = (if os_open (cw_index w)
                then snd (os_close (we_index_close e) (we_index_spill e) (cw_index w, d1)) else d1)
          in s\<lparr>rs_writer := None, rs_fs := (rs_fs s)(p := d2)\<rparr>)"

section \<open>Starting\<close>

definition start_recording ::
  "svc_env \<Rightarrow> scenario_metadata \<Rightarrow> runtime_service \<Rightarrow> runtime_error_code \<times> runtime_service"
where
  "start_recording e scenario s =
     (case sm_start (se_session_id e) (se_utc_start e) scenario '''' (rs_sessions s) of (rc, m) \<Rightarrow>
        if rc \<noteq> EOk then (rc, s\<lparr>rs_sessions := m\<rparr>)
        else
          let dir = sm_session_dir m;
              s1 = destroy_writer (se_close e) (s\<lparr>rs_sessions := m, rs_error_log := Some [],
                     rs_buffer := Some (new_packet_buffer (rc_packet_buffer_capacity (rs_config s))
                       (rc_packet_buffer_max_bytes (rs_config s)))\<rparr>);
              w0 = new_chunk_writer (se_now e) (rs_config s)
          in case open_writer (se_open e) (w0, rs_fs s1 dir) of (ok, (w, d)) \<Rightarrow>
               let s2 = s1\<lparr>rs_writer := Some (dir, w), rs_fs := (rs_fs s1)(dir := d)\<rparr> in
               if \<not> ok then
                 (EInternalError,
                  (log_error ''ERROR'' ''failed to open chunk writer'' s2)
                    \<lparr>rs_sessions := sm_set_error ''chunk_open_failed'' m\<rparr>)
               else
                 (EOk, s2\<lparr>rs_fs := (rs_fs s2)(dir := write_scenario_metadata (se_scenario_write e)
                            scenario m (rs_fs s2 dir)),
                          rs_seen_ts := False, rs_last_ts_ns := 0,
                          rs_seq_initialized := False, rs_last_seq := 0\<rparr>))"

section \<open>Draining and finalising\<close>

lemma shorter_queue:
  "Some b = m \<Longrightarrow> pb_queue b = x # q \<Longrightarrow>
    length q < (case m of None \<Rightarrow> 0 | Some b \<Rightarrow> length (pb_queue b))"
  by (drule sym) simp

text \<open>The inner loop of \<open>DrainPacketBuffer\<close>: the state, whether it wrote anything, and whether it
  returned because of a failed write.\<close>

function drain_inner ::
  "(nat \<Rightarrow> writer_env) \<Rightarrow> nat \<Rightarrow> bool \<Rightarrow> runtime_service \<Rightarrow> (bool \<times> bool) \<times> runtime_service"
where
  "drain_inner env k wrote s =
     (case (rs_buffer s, rs_writer s) of
        (Some b, Some pw) \<Rightarrow>
          if pb_queue b = [] then ((wrote, False), s)
          else
            (case pop b of
               (None, b') \<Rightarrow> ((wrote, False), s\<lparr>rs_buffer := Some b'\<rparr>)
             | (Some packet, b') \<Rightarrow>
                 (case writer_write (env k) packet pw (s\<lparr>rs_buffer := Some b'\<rparr>) of
                    (True, s') \<Rightarrow>
                      drain_inner env (Suc k) True (upd_diag (on_packet_written (length packet)) s')
                  | (False, s') \<Rightarrow>
                      if rs_error_log s' = None then drain_inner env (Suc k) True s'
                      else ((True, True),
                        upd_diag (set_health ''failed'')
                          ((log_error ''ERROR'' ''disk write failed during drain'' s')
                             \<lparr>rs_sessions := sm_set_error ''disk_write_failed'' (rs_sessions s')\<rparr>))))
      | _ \<Rightarrow> ((wrote, False), s))"
  by pat_completeness auto
termination
  by (relation "measure (\<lambda>(env, k, wrote, s). case rs_buffer s of None \<Rightarrow> 0
      | Some b \<Rightarrow> length (pb_queue b))")
    (auto simp: pop_def writer_write_def upd_diag_def log_error_def intro: shorter_queue
       split: list.splits prod.splits)

declare drain_inner.simps [simp del]

text \<open>The retry loop of at most 200 turns.\<close>

fun drain_attempts :: "(nat \<Rightarrow> nat \<Rightarrow> writer_env) \<Rightarrow> nat \<Rightarrow> runtime_service \<Rightarrow> runtime_service" where
  "drain_attempts env 0 s = s"
| "drain_attempts env (Suc n) s =
     (case drain_inner (env n) 0 False s of ((wrote, failed), s') \<Rightarrow>
        if failed then s'
        else if \<not> wrote \<and> (case rs_buffer s' of None \<Rightarrow> True | Some b \<Rightarrow> size_of b = 0) then s'
        else drain_attempts env n s')"

definition drain_packet_buffer :: "(nat \<Rightarrow> writer_env) \<Rightarrow> runtime_service \<Rightarrow> runtime_service" where
  "drain_packet_buffer env s =
     (if rs_buffer s = None \<or> rs_writer s = None then s
      else drain_attempts (\<lambda>n. env) 200 s)"

text \<open>The reports. Numbers printed from a \<open>double\<close> come from the environment.\<close>

definition integrity_string :: "integrity_result \<Rightarrow> string" where
  "integrity_string r = (case r of IOk \<Rightarrow> ''ok'' | IWarning \<Rightarrow> ''warning'' | IFailed \<Rightarrow> ''failed'')"

definition final_summary_text ::
  "svc_env \<Rightarrow> diagnostics \<Rightarrow> integrity_report \<Rightarrow> string \<Rightarrow> string"
where
  "final_summary_text e g r reason =
     ''{'' @ nl @
     json_line ''stop_reason'' (qt (json_escape reason)) True @
     json_line ''duration_sec'' (se_duration_text e) True @
     json_line ''packets_received'' (dec (unat (dg_packets_received g))) True @
     json_line ''packets_written'' (dec (unat (dg_packets_written g))) True @
     json_line ''bad_packets'' (dec (unat (dg_bad_packets g))) True @
     json_line ''packet_loss'' (dec (unat (dg_packets_lost g))) True @
     json_line ''integrity'' (qt (integrity_string (ir_result r))) True @
     json_line ''integrity_detail'' (qt (json_escape (ir_detail r))) False @
     ''}'' @ nl"

fun reject_lines :: "bool \<Rightarrow> (string \<times> u64) list \<Rightarrow> string" where
  "reject_lines first [] = ''''"
| "reject_lines first ((k, n) # xs) =
     (if first then '''' else '','' @ nl) @ ''    '' @ qt (json_escape k) @ '': '' @ dec (unat n) @
     reject_lines False xs"

definition runtime_report_text :: "svc_env \<Rightarrow> diagnostics \<Rightarrow> string" where
  "runtime_report_text e g =
     ''{'' @ nl @
     json_line ''packets_received'' (dec (unat (dg_packets_received g))) True @
     json_line ''packets_written'' (dec (unat (dg_packets_written g))) True @
     json_line ''bad_packets'' (dec (unat (dg_bad_packets g))) True @
     json_line ''packet_loss'' (dec (unat (dg_packets_lost g))) True @
     json_line ''seq_gaps'' (dec (unat (dg_seq_gaps g))) True @
     json_line ''out_of_order'' (dec (unat (dg_out_of_order g))) True @
     json_line ''time_gaps'' (dec (unat (dg_time_gaps g))) True @
     json_line ''buffer_dropped'' (dec (unat (dg_buffer_dropped g))) True @
     json_line ''disk_free_gb'' (se_disk_text e) True @
     json_line ''write_mbps'' (se_mbps_text e) True @
     json_line ''health'' (qt (json_escape (dg_health g))) True @
     json_line ''adsp_status'' (qt (json_escape (dg_adsp_status g))) True @
     ''  '' @ qt ''reject_by_reason'' @ '': {'' @ nl @
     reject_lines True (dg_reject_by_reason g) @
     nl @ ''  }'' @ nl @ ''}'' @ nl"

definition write_in_session ::
  "atomic_env \<Rightarrow> string \<Rightarrow> string \<Rightarrow> runtime_service \<Rightarrow> runtime_service"
where
  "write_in_session a name text s =
     (let dir = sm_session_dir (rs_sessions s) in
      s\<lparr>rs_fs := (rs_fs s)(dir := snd (write_text_atomic a name text (rs_fs s dir)))\<rparr>)"

definition write_runtime_report :: "svc_env \<Rightarrow> runtime_service \<Rightarrow> runtime_service" where
  "write_runtime_report e s =
     (if sm_session_dir (rs_sessions s) = [] then s
      else write_in_session (se_report_write e) ''runtime_report.json''
        (runtime_report_text e (rs_diag s)) s)"

definition finalize_active_session :: "svc_env \<Rightarrow> string \<Rightarrow> runtime_service \<Rightarrow> runtime_service" where
  "finalize_active_session e reason s =
     (let session_dir = sm_session_dir (rs_sessions s);
          s1 = (if rs_sync_file_mode s then s
                else drain_packet_buffer (se_drain e) (s\<lparr>rs_stop_threads := True, rs_threads := False\<rparr>));
          s2 = (case rs_writer s1 of None \<Rightarrow> s1
                | Some (p, w) \<Rightarrow> (case close_writer (se_close e) (w, rs_fs s1 p) of (w', d) \<Rightarrow>
                    s1\<lparr>rs_writer := Some (p, w'), rs_fs := (rs_fs s1)(p := d)\<rparr>));
          s3 = s2\<lparr>rs_sessions := sm_mark_stopped (se_utc_stop e) reason (rs_sessions s2)\<rparr>;
          dir = sm_session_dir (rs_sessions s3);
          s4 = s3\<lparr>rs_fs := (rs_fs s3)(dir :=
                 write_session_metadata (se_metadata_write e) (rs_sessions s3) (rs_fs s3 dir))\<rparr>;
          integrity = check_session_integrity (se_readable e) (Some (rs_fs s4 dir))
                 (rc_max_payload_bytes (rs_config s4));
          s5 = write_in_session (se_summary_write e) ''final_runtime_summary.json''
                 (final_summary_text e (rs_diag s4) integrity reason) s4;
          s6 = destroy_writer (se_close e) (write_runtime_report e s5);
          s7 = s6\<lparr>rs_buffer := None, rs_error_log := None, rs_stop_threads := False\<rparr>;
          s8 = (if session_dir = [] then s7
                else s7\<lparr>rs_triggered := rs_triggered s7 @ [session_dir]\<rparr>)
      in if \<not> rs_sync_file_mode s8 \<and> rs_daemon_running s8 then s8\<lparr>rs_threads := True\<rparr> else s8)"

section \<open>Stopping\<close>

text \<open>In daemon mode the code waits, between the two halves, up to five seconds for the writer thread to
  empty the buffer; other threads' operations happen there.\<close>

definition stop_begin :: "string \<Rightarrow> runtime_service \<Rightarrow> runtime_error_code option \<times> runtime_service" where
  "stop_begin reason s =
     (if rs_finalize_in_progress s then (Some EOk, s)
      else if rs_state s \<noteq> SRecording \<and> rs_state s \<noteq> SStopping then (Some ENotRecording, s)
      else (None, s\<lparr>rs_finalize_in_progress := True,
                    rs_sessions := snd (sm_stop reason (rs_sessions s))\<rparr>))"

definition stop_end :: "svc_env \<Rightarrow> string \<Rightarrow> runtime_service \<Rightarrow> runtime_error_code \<times> runtime_service" where
  "stop_end e reason s =
     (let s1 = (if rs_sync_file_mode s then drain_packet_buffer (se_drain e) s else s)
      in (EOk, (finalize_active_session e reason s1)\<lparr>rs_finalize_in_progress := False\<rparr>))"

definition stop_recording ::
  "svc_env \<Rightarrow> string \<Rightarrow> runtime_service \<Rightarrow> runtime_error_code \<times> runtime_service"
where
  "stop_recording e reason s =
     (case stop_begin reason s of
        (Some rc, s') \<Rightarrow> (rc, s')
      | (None, s') \<Rightarrow> stop_end e reason s')"

definition emergency_stop ::
  "svc_env \<Rightarrow> string \<Rightarrow> runtime_service \<Rightarrow> runtime_error_code \<times> runtime_service"
where
  "emergency_stop e reason s = stop_recording e reason s"

section \<open>A frame\<close>

definition track_contract_seq :: "u64 \<Rightarrow> runtime_service \<Rightarrow> runtime_service" where
  "track_contract_seq seq s =
     (if \<not> rs_seq_initialized s then s\<lparr>rs_seq_initialized := True, rs_last_seq := seq\<rparr>
      else if seq \<le> rs_last_seq s then upd_diag on_out_of_order s
      else
        let s' = (if seq > rs_last_seq s + 1 then upd_diag (on_seq_gap (seq - rs_last_seq s - 1)) s
                  else s)
        in s'\<lparr>rs_last_seq := seq\<rparr>)"

definition track_time :: "u64 \<Rightarrow> runtime_service \<Rightarrow> runtime_service" where
  "track_time t0_ns s =
     (let gap_ns = ucast (rc_time_gap_threshold_ms (rs_config s)) * 1000000;
          s' = (if rs_seen_ts s \<and> t0_ns > rs_last_ts_ns s \<and> t0_ns - rs_last_ts_ns s > gap_ns
                then upd_diag on_time_gap s else s)
      in s'\<lparr>rs_last_ts_ns := t0_ns, rs_seen_ts := True\<rparr>)"

text \<open>The tail of the handler: recording the frame, directly or through the buffer.\<close>

definition store_frame :: "svc_env \<Rightarrow> bytes \<Rightarrow> runtime_service \<Rightarrow> runtime_service" where
  "store_frame e frame s =
     (if rs_state s \<noteq> SRecording then s
      else case (rs_sync_file_mode s, rs_writer s) of
        (True, Some pw) \<Rightarrow>
          (case writer_write (se_write e) frame pw s of
             (ok, s') \<Rightarrow> if ok then upd_diag (on_packet_written (length frame)) s' else s')
      | _ \<Rightarrow>
          (case rs_buffer s of
             None \<Rightarrow> s
           | Some b \<Rightarrow>
               let b' = push frame b;
                   s' = upd_diag (set_buffer_dropped (dropped_of b')) (s\<lparr>rs_buffer := Some b'\<rparr>)
               in if degraded_of b' then upd_diag (set_health ''degraded'') s' else s'))"

definition on_contract_frame :: "svc_env \<Rightarrow> bytes \<Rightarrow> runtime_service \<Rightarrow> runtime_service" where
  "on_contract_frame e frame s =
     (case validate_contract_frame frame (rc_max_payload_bytes (rs_config s)) of
        Some error \<Rightarrow>
          log_error ''WARN'' error
            (upd_diag (on_bad_packet (if error = [] then ''invalid_frame'' else error)) s)
      | None \<Rightarrow>
          let header = header_of_bytes frame;
              s1 = (if rc_auto_start (rs_config s) \<and> rs_state s = SIdle
                        \<and> eh_frame_type header = type_to_u32 SESSION_STARTED
                    then snd (start_recording e (default_scenario (rs_config s)) s) else s)
          in if eh_frame_type header = type_to_u32 SESSION_ENDED \<and> rs_state s1 = SRecording
             then snd (stop_recording e ''session_ended'' s1)
             else store_frame e frame
               (track_time (eh_t0_ns header)
                 (track_contract_seq (eh_seq header) (upd_diag on_packet_received s1))))"

text \<open>\<open>ProcessFileInput\<close>: frame \<open>k\<close> of the file is handled in environment \<open>env k\<close>.\<close>

definition process_file_input ::
  "(nat \<Rightarrow> svc_env) \<Rightarrow> bytes option \<Rightarrow> runtime_service \<Rightarrow> runtime_service"
where
  "process_file_input env input s =
     (case read_contract_frames_from_file input (rc_max_payload_bytes (rs_config s))
        (\<lambda>frame (k, s). (True, (Suc k, on_contract_frame (env k) frame s))) (0, s) of
        (_, error, (_, s')) \<Rightarrow> if error = [] then s' else log_error ''WARN'' error s')"

section \<open>The writer thread\<close>

text \<open>One turn of \<open>WriterLoop\<close>: the flag says whether the loop goes on.\<close>

definition writer_loop_turn :: "writer_env \<Rightarrow> runtime_service \<Rightarrow> bool \<times> runtime_service" where
  "writer_loop_turn e s =
     (if rs_stop_threads s then (False, s)
      else if rs_state s \<noteq> SRecording \<and> rs_state s \<noteq> SStopping then (True, s)
      else case (rs_buffer s, rs_writer s) of
        (Some b, Some pw) \<Rightarrow>
          (case pop b of
             (None, b') \<Rightarrow> (rs_state s \<noteq> SStopping, s\<lparr>rs_buffer := Some b'\<rparr>)
           | (Some packet, b') \<Rightarrow>
               (case writer_write e packet pw (s\<lparr>rs_buffer := Some b'\<rparr>) of
                  (True, s') \<Rightarrow> (True, upd_diag (on_packet_written (length packet)) s')
                | (False, s') \<Rightarrow>
                    (True,
                     if rs_error_log s' = None then s'
                     else upd_diag (set_health ''failed'')
                       ((log_error ''ERROR'' ''disk write failed'' s')
                          \<lparr>rs_sessions := sm_set_error ''disk_write_failed'' (rs_sessions s')\<rparr>))))
      | _ \<Rightarrow> (rs_state s \<noteq> SStopping, s))"

section \<open>Daemon and control\<close>

text \<open>\<open>StartDaemon\<close>, given whether the client connects; the storage monitor's callback is
  \<open>storage_alert\<close>.\<close>

definition start_daemon :: "bool \<Rightarrow> runtime_service \<Rightarrow> bool \<times> runtime_service" where
  "start_daemon connected s =
     (if rs_daemon_running s then (True, s)
      else
        let sync = (rc_input_file (rs_config s) \<noteq> []);
            s1 = s\<lparr>rs_stop_threads := False, rs_daemon_running := True, rs_sync_file_mode := sync\<rparr>
        in if \<not> sync \<and> \<not> connected then (False, s1\<lparr>rs_daemon_running := False\<rparr>)
           else (True, if sync then s1 else s1\<lparr>rs_threads := True\<rparr>))"

definition stop_daemon :: "runtime_service \<Rightarrow> runtime_service" where
  "stop_daemon s = s\<lparr>rs_stop_threads := True, rs_threads := False, rs_daemon_running := False\<rparr>"

datatype storage_level = LOk | LWarning | LCritical

definition storage_alert ::
  "svc_env \<Rightarrow> storage_level \<Rightarrow> f64 \<Rightarrow> runtime_service \<Rightarrow> runtime_service"
where
  "storage_alert e level free_gb s =
     (let s1 = upd_diag (set_disk_free_gb free_gb) s in
      case level of
        LOk \<Rightarrow> s1
      | LWarning \<Rightarrow> upd_diag (set_health ''degraded'') (log_error ''WARN'' ''storage warning'' s1)
      | LCritical \<Rightarrow> snd (emergency_stop e ''storage_critical''
          (log_error ''ERROR'' ''storage critical - emergency stop'' s1)))"

fun diag_reject_lines :: "(string \<times> u64) list \<Rightarrow> string" where
  "diag_reject_lines [] = ''''"
| "diag_reject_lines ((k, n) # xs) = ''reject_'' @ k @ ''='' @ dec (unat n) @ nl @ diag_reject_lines xs"

definition build_diagnostics_text :: "svc_env \<Rightarrow> runtime_service \<Rightarrow> string" where
  "build_diagnostics_text e s =
     (let g = rs_diag s;
          sid = (case sm_active (rs_sessions s) of None \<Rightarrow> '''' | Some i \<Rightarrow> si_session_id i)
      in ''session_state='' @ session_state_to_string (rs_state s) @ nl @
         ''session_id='' @ sid @ nl @
         ''ego_host='' @ rc_ego_host (rs_config s) @ nl @
         ''data_port='' @ dec (unat (rc_data_port (rs_config s))) @ nl @
         ''packets_received='' @ dec (unat (dg_packets_received g)) @ nl @
         ''packets_written='' @ dec (unat (dg_packets_written g)) @ nl @
         ''bad_packets='' @ dec (unat (dg_bad_packets g)) @ nl @
         ''packets_lost='' @ dec (unat (dg_packets_lost g)) @ nl @
         ''seq_gaps='' @ dec (unat (dg_seq_gaps g)) @ nl @
         ''disk_free_gb='' @ se_disk_text e @ nl @
         ''health='' @ dg_health g @ nl @
         diag_reject_lines (dg_reject_by_reason g))"

definition stop_reason_of :: "string \<Rightarrow> string" where
  "stop_reason_of cmd =
     (if length cmd > 5 then
        let r = drop 5 cmd in if r \<noteq> [] \<and> hd r = CHR '' '' then drop 1 r else r
      else ''ipc_stop'')"

definition handle_control_command ::
  "svc_env \<Rightarrow> string \<Rightarrow> runtime_service \<Rightarrow> string \<times> runtime_service"
where
  "handle_control_command e cmd s =
     (if cmd = ''PING'' then (''OK'' @ nl @ nl, s)
      else if cmd = ''STATUS'' \<or> cmd = ''DIAGNOSTICS'' \<or> cmd = ''STATS''
      then (build_diagnostics_text e s @ nl, s)
      else if take 4 cmd = ''STOP'' then
        (case stop_recording e (stop_reason_of cmd) s of (rc, s') \<Rightarrow>
          (if rc = EOk then ''OK stopped'' @ nl @ nl else ''ERR not_recording'' @ nl @ nl, s'))
      else if take 5 cmd = ''START'' then
        (case start_recording e (default_scenario (rs_config s)) s of (rc, s') \<Rightarrow>
          (if rc = EOk then ''OK recording'' @ nl @ nl
           else if rc = ESessionBusy then ''ERR session_busy'' @ nl @ nl
           else ''ERR start_failed'' @ nl @ nl, s'))
      else (''ERR unknown_command'' @ nl @ nl, s))"

definition build_runtime_report_json :: "runtime_service \<Rightarrow> string" where
  "build_runtime_report_json s =
     ''{'' @ nl @ ''  '' @ qt ''health'' @ '': '' @ qt (json_escape (dg_health (rs_diag s))) @ nl @ ''}'' @ nl"

end
