(* ===== verification/Recording.thy ===== *)
theory Recording
  imports RuntimeService
begin

text \<open>
  Recording a file from start to stop, the run \<open>ego-runtime --input\<close> makes: \<open>StartDaemon\<close>,
  \<open>StartRecording\<close>, \<open>ProcessFileInput\<close>, \<open>StopRecording\<close>. The definitions of
  \<open>RuntimeService\<close> are followed through all four, down to the files on disk.
\<close>

section \<open>Side files of a session\<close>

text \<open>Files written beside the chunks, index and manifest.\<close>

definition side_file :: "string \<Rightarrow> bool" where
  "side_file name \<longleftrightarrow> \<not> is_chunk_file name \<and> extension name \<noteq> ''.tmp'' \<and>
     name \<noteq> ''ego.index'' \<and> name \<noteq> ''ego_manifest.json''"

definition atomic_ok :: "atomic_env \<Rightarrow> bool" where
  "atomic_ok a \<longleftrightarrow> ae_tmp_open a \<and> ae_tmp_write a \<and> ae_rename a"

lemma side_files [simp]:
  "side_file ''scenario_metadata.json''" "side_file ''session_metadata.json''"
  "side_file ''final_runtime_summary.json''" "side_file ''runtime_report.json''"
  by (simp_all add: side_file_def is_chunk_file_def extension_def Let_def)

lemma extension_tmp: "name \<noteq> [] \<Longrightarrow> extension (name @ ''.tmp'') = ''.tmp''"
  using extension_suffix [of "''tmp''" name] by simp

lemma side_not_own:
  assumes "side_file name"
  shows "name \<notin> own_names k" and "name @ ''.tmp'' \<notin> own_names k"
    and "name \<noteq> ''ego_manifest.json.tmp''" and "name @ ''.tmp'' \<noteq> ''ego_manifest.json.tmp''"
proof -
  show "name \<notin> own_names k" using assms by (auto simp: side_file_def own_names_def)
  have ne: "name @ ''.tmp'' \<noteq> x" if "extension x \<noteq> ''.tmp''" "x \<noteq> ''.tmp''" for x
    using that extension_tmp [of name] by (cases "name = []") auto
  have c: "chunk_name i \<noteq> ''.tmp''" for i by (simp add: chunk_name_def)
  then show "name @ ''.tmp'' \<notin> own_names k"
    by (auto simp: own_names_def dest: ne [THEN notE, rotated 2] simp: extension_own)
  show "name \<noteq> ''ego_manifest.json.tmp''"
    using assms extension_tmp [of "''ego_manifest.json''"] by (auto simp: side_file_def)
  have "name @ ''.tmp'' = ''ego_manifest.json'' @ ''.tmp'' \<longleftrightarrow> name = ''ego_manifest.json''"
    by (rule append_same_eq)
  with assms show "name @ ''.tmp'' \<noteq> ''ego_manifest.json.tmp''" by (simp add: side_file_def)
qed

abbreviation side_write :: "atomic_env \<Rightarrow> string \<Rightarrow> string \<Rightarrow> dir \<Rightarrow> dir" where
  "side_write a name text d \<equiv> snd (write_text_atomic a name text d)"

lemma side_write_get:
  "atomic_ok a \<Longrightarrow> fget (side_write a name text d) m =
     (if m = name then Some (text_bytes text) else if m = name @ ''.tmp'' then None else fget d m)"
  by (auto simp: atomic_ok_def write_text_atomic_ok)

lemma clean_dir_side:
  assumes "clean_dir d" and "side_file name" and "atomic_ok a"
  shows "clean_dir (side_write a name text d)"
  using assms
  by (auto simp: clean_dir_def no_chunk_files no_tmp_files side_write_get side_file_def
      intro: dir_ok_write_text_atomic)

lemma rec_inv_side:
  assumes inv: "rec_inv d0 n log (w, d)" and name: "side_file name" and a: "atomic_ok a"
  shows "rec_inv (side_write a name text d0) n log (w, side_write a name text d)"
proof -
  have own: "fget (side_write a name text d) m = fget d m" if "m \<in> own_names k" for m k
    using that side_not_own(1,2) [OF name] by (auto simp: side_write_get [OF a])
  have c: "fget (side_write a name text d) (chunk_name i) = fget d (chunk_name i)" for i
    by (rule own [of _ "Suc i"]) (simp add: own_names_def)
  have i: "fget (side_write a name text d) ''ego.index'' = fget d ''ego.index''"
    by (rule own [of _ 0]) (simp add: own_names_def)
  show ?thesis
    using inv c i side_not_own [OF name]
    by (auto simp: rec_inv_def Let_def os_image_def contents_def side_write_get [OF a]
        intro: dir_ok_write_text_atomic)
qed

text \<open>What a closed recording of \<open>log\<close> over the chunks \<open>0..n\<close> leaves in a directory that was \<open>d0\<close>.\<close>

definition closed_dir :: "dir \<Rightarrow> entry list \<Rightarrow> nat \<Rightarrow> dir \<Rightarrow> bool" where
  "closed_dir d0 log n d \<longleftrightarrow>
     (\<forall>i\<le>n. fget d (chunk_name i) = Some (concat (chunk_frames i log))) \<and>
     fget d ''ego.index'' = Some (text_bytes (index_text log)) \<and>
     fget d ''ego_manifest.json'' \<noteq> None \<and> fget d ''ego_manifest.json.tmp'' = None \<and>
     (\<forall>m. m \<notin> own_names (Suc n) \<and> m \<noteq> ''ego_manifest.json.tmp'' \<longrightarrow> fget d m = fget d0 m) \<and>
     dir_ok d"

lemma closed_dir_side:
  assumes inv: "closed_dir d0 log n d" and name: "side_file name" and a: "atomic_ok a"
  shows "closed_dir (side_write a name text d0) log n (side_write a name text d)"
proof -
  have own: "fget (side_write a name text d) m = fget d m" if "m \<in> own_names k" for m k
    using that side_not_own(1,2) [OF name] by (auto simp: side_write_get [OF a])
  have c: "fget (side_write a name text d) (chunk_name i) = fget d (chunk_name i)" for i
    by (rule own [of _ "Suc i"]) (simp add: own_names_def)
  have i: "fget (side_write a name text d) ''ego.index'' = fget d ''ego.index''"
    "fget (side_write a name text d) ''ego_manifest.json'' = fget d ''ego_manifest.json''"
    by (rule own [of _ 0], simp add: own_names_def)+
  show ?thesis
    using inv c i side_not_own [OF name]
    by (auto simp: closed_dir_def side_write_get [OF a] intro: dir_ok_write_text_atomic)
qed

lemma closed_dir_passes:
  assumes "closed_dir d0 log n d" and "clean_dir d0"
    and "\<forall>f\<in>set (log_frames log). valid_frame mx f"
    and "\<forall>x\<in>set log. fst x \<le> n" and "sorted (map fst log)"
  shows "check_session_integrity (\<lambda>_. True) (Some d) mx = \<lparr>ir_result = IOk, ir_detail = ''ok''\<rparr>"
  using assms by (intro closed_ok [of d0 log mx n d]) (auto simp: closed_dir_def)

section \<open>The file is handled frame by frame\<close>

fun feed :: "(nat \<Rightarrow> svc_env) \<Rightarrow> nat \<Rightarrow> bytes list \<Rightarrow> runtime_service \<Rightarrow> runtime_service" where
  "feed env k [] s = s"
| "feed env k (f # fs) s = feed env (Suc k) fs (on_contract_frame (env k) f s)"

lemma for_each_feed:
  "\<forall>f\<in>set fs. valid_frame mx f \<Longrightarrow>
   for_each_from (pre @ concat fs) mx (\<lambda>frame (k, s). (True, (Suc k, on_contract_frame (env k) frame s)))
     (length pre) (k, s) = (True, '''', (k + length fs, feed env k fs s))"
proof (induction fs arbitrary: pre k s)
  case Nil
  then show ?case by (simp add: for_each_from_end)
next
  case (Cons f fs)
  have "for_each_from (pre @ f @ concat fs) mx
      (\<lambda>frame (k, s). (True, (Suc k, on_contract_frame (env k) frame s))) (length pre) (k, s)
    = for_each_from ((pre @ f) @ concat fs) mx
      (\<lambda>frame (k, s). (True, (Suc k, on_contract_frame (env k) frame s))) (length (pre @ f))
      (Suc k, on_contract_frame (env k) f s)"
    using Cons.prems by (subst for_each_from_valid) auto
  then show ?case using Cons.IH [of "pre @ f" "Suc k"] Cons.prems by simp
qed

lemma process_file_feed:
  assumes "\<forall>f\<in>set fs. valid_frame (rc_max_payload_bytes (rs_config s)) f"
  shows "process_file_input env (Some (concat fs)) s = feed env 0 fs s"
  using for_each_feed [OF assms, of "[]"]
  by (simp add: process_file_input_def read_contract_frames_from_file_def for_each_contract_frame_def)

text \<open>In file mode, while recording, a frame goes straight to the writer.\<close>

definition plain_frame :: "u32 \<Rightarrow> bytes \<Rightarrow> bool" where
  "plain_frame mx f \<longleftrightarrow> valid_frame mx f \<and>
     eh_frame_type (header_of_bytes f) \<noteq> type_to_u32 SESSION_ENDED"

lemma helper_fields [simp]:
  "rs_config (upd_diag h s) = rs_config s" "rs_sessions (upd_diag h s) = rs_sessions s"
  "rs_buffer (upd_diag h s) = rs_buffer s" "rs_writer (upd_diag h s) = rs_writer s"
  "rs_fs (upd_diag h s) = rs_fs s" "rs_sync_file_mode (upd_diag h s) = rs_sync_file_mode s"
  "rs_diag (upd_diag h s) = h (rs_diag s)" "rs_finalize_in_progress (upd_diag h s) = rs_finalize_in_progress s"
  "rs_error_log (upd_diag h s) = rs_error_log s"
  by (simp_all add: upd_diag_def)

lemma track_fields [simp]:
  "rs_config (track_contract_seq q s) = rs_config s" "rs_config (track_time t s) = rs_config s"
  "rs_sessions (track_contract_seq q s) = rs_sessions s" "rs_sessions (track_time t s) = rs_sessions s"
  "rs_buffer (track_contract_seq q s) = rs_buffer s" "rs_buffer (track_time t s) = rs_buffer s"
  "rs_writer (track_contract_seq q s) = rs_writer s" "rs_writer (track_time t s) = rs_writer s"
  "rs_fs (track_contract_seq q s) = rs_fs s" "rs_fs (track_time t s) = rs_fs s"
  "rs_sync_file_mode (track_contract_seq q s) = rs_sync_file_mode s"
  "rs_sync_file_mode (track_time t s) = rs_sync_file_mode s"
  "rs_finalize_in_progress (track_contract_seq q s) = rs_finalize_in_progress s"
  "rs_finalize_in_progress (track_time t s) = rs_finalize_in_progress s"
  "dg_packets_received (rs_diag (track_contract_seq q s)) = dg_packets_received (rs_diag s)"
  "dg_packets_received (rs_diag (track_time t s)) = dg_packets_received (rs_diag s)"
  "dg_packets_written (rs_diag (track_contract_seq q s)) = dg_packets_written (rs_diag s)"
  "dg_packets_written (rs_diag (track_time t s)) = dg_packets_written (rs_diag s)"
  by (simp_all add: track_contract_seq_def track_time_def Let_def diag_defs)

lemma on_frame_sync:
  assumes f: "plain_frame (rc_max_payload_bytes (rs_config s)) f"
    and s: "rs_state s = SRecording" "rs_sync_file_mode s" "rs_writer s = Some (p, w)"
    and w: "write_contract_frame (se_write e) f (w, rs_fs s p) = (ok, (w', d'))"
  defines "s' \<equiv> on_contract_frame e f s"
  shows "rs_writer s' = Some (p, w')" "rs_fs s' = (rs_fs s)(p := d')"
    "rs_config s' = rs_config s" "rs_sessions s' = rs_sessions s" "rs_buffer s' = rs_buffer s"
    "rs_sync_file_mode s'" "rs_finalize_in_progress s' = rs_finalize_in_progress s"
    "dg_packets_received (rs_diag s') = dg_packets_received (rs_diag s) + 1"
    "dg_packets_written (rs_diag s') = dg_packets_written (rs_diag s) + (if ok then 1 else 0)"
proof -
  have e: "s' = store_frame e f (track_time (eh_t0_ns (header_of_bytes f))
      (track_contract_seq (eh_seq (header_of_bytes f)) (upd_diag on_packet_received s)))"
    using f s(1) by (simp add: s'_def on_contract_frame_def plain_frame_def Let_def)
  show "rs_writer s' = Some (p, w')" "rs_fs s' = (rs_fs s)(p := d')"
    "rs_config s' = rs_config s" "rs_sessions s' = rs_sessions s" "rs_buffer s' = rs_buffer s"
    "rs_sync_file_mode s'" "rs_finalize_in_progress s' = rs_finalize_in_progress s"
    "dg_packets_received (rs_diag s') = dg_packets_received (rs_diag s) + 1"
    "dg_packets_written (rs_diag s') = dg_packets_written (rs_diag s) + (if ok then 1 else 0)"
    using s w by (simp_all add: e store_frame_def writer_write_def diag_defs)
qed

fun frame_calls :: "(nat \<Rightarrow> svc_env) \<Rightarrow> nat \<Rightarrow> bytes list \<Rightarrow> (writer_env \<times> bytes) list" where
  "frame_calls env k [] = []"
| "frame_calls env k (f # fs) = (se_write (env k), f) # frame_calls env (Suc k) fs"

lemma snd_frame_calls [simp]: "map snd (frame_calls env k fs) = fs"
  by (induction fs arbitrary: k) auto

lemma length_frame_calls [simp]: "length (frame_calls env k fs) = length fs"
  by (induction fs arbitrary: k) auto

lemma feed_sync:
  assumes "\<forall>f\<in>set fs. plain_frame (rc_max_payload_bytes (rs_config s)) f"
    and "rs_state s = SRecording" "rs_sync_file_mode s" "rs_writer s = Some (p, w)"
    and "write_all (frame_calls env k fs) (w, rs_fs s p) = (log, (w', d'))"
  shows "rs_writer (feed env k fs s) = Some (p, w') \<and> rs_fs (feed env k fs s) = (rs_fs s)(p := d') \<and>
    rs_config (feed env k fs s) = rs_config s \<and> rs_sessions (feed env k fs s) = rs_sessions s \<and>
    rs_buffer (feed env k fs s) = rs_buffer s \<and> rs_sync_file_mode (feed env k fs s) \<and>
    rs_finalize_in_progress (feed env k fs s) = rs_finalize_in_progress s \<and>
    dg_packets_received (rs_diag (feed env k fs s)) =
      dg_packets_received (rs_diag s) + of_nat (length fs) \<and>
    dg_packets_written (rs_diag (feed env k fs s)) =
      dg_packets_written (rs_diag s) + of_nat (length log)"
  using assms
proof (induction fs arbitrary: k s w log)
  case Nil
  then show ?case by auto
next
  case (Cons f fs)
  obtain ok w1 d1 where w: "write_contract_frame (se_write (env k)) f (w, rs_fs s p) = (ok, (w1, d1))"
    by (metis prod_cases3)
  note st = on_frame_sync [OF _ Cons.prems(2,3,4) w]
  have pf: "plain_frame (rc_max_payload_bytes (rs_config s)) f" using Cons.prems(1) by simp
  obtain log1 where l: "write_all (frame_calls env (Suc k) fs) (w1, d1) = (log1, (w', d'))"
    "length log = (if ok then 1 else 0) + length log1"
    using Cons.prems(5) w by (auto split: prod.splits if_splits)
  let ?s = "on_contract_frame (env k) f s"
  have "rs_writer (feed env (Suc k) fs ?s) = Some (p, w') \<and>
    rs_fs (feed env (Suc k) fs ?s) = (rs_fs ?s)(p := d') \<and>
    rs_config (feed env (Suc k) fs ?s) = rs_config ?s \<and>
    rs_sessions (feed env (Suc k) fs ?s) = rs_sessions ?s \<and>
    rs_buffer (feed env (Suc k) fs ?s) = rs_buffer ?s \<and> rs_sync_file_mode (feed env (Suc k) fs ?s) \<and>
    rs_finalize_in_progress (feed env (Suc k) fs ?s) = rs_finalize_in_progress ?s \<and>
    dg_packets_received (rs_diag (feed env (Suc k) fs ?s)) =
      dg_packets_received (rs_diag ?s) + of_nat (length fs) \<and>
    dg_packets_written (rs_diag (feed env (Suc k) fs ?s)) =
      dg_packets_written (rs_diag ?s) + of_nat (length log1)"
    by (rule Cons.IH) (use Cons.prems(1,2) l(1) st[OF pf] in simp_all)
  then show ?case using st [OF pf] l(2) by (simp add: algebra_simps)
qed

section \<open>Starting and stopping\<close>

definition session_path :: "runtime_config \<Rightarrow> string \<Rightarrow> string" where
  "session_path cfg new_id = path_join (path_join (rc_data_root cfg) ''sessions'') new_id"

lemma start_ok:
  assumes s: "rs_state s \<noteq> SRecording" "rs_writer s = None"
    and e: "good_env (se_open e)" "atomic_ok (se_scenario_write e)"
    and p: "p = session_path (sm_config (rs_sessions s)) (se_session_id e)"
    and d: "clean_dir (rs_fs s p)"
  obtains s' w d where "start_recording e scenario s = (EOk, s')"
    and "rs_writer s' = Some (p, w)" and "rs_fs s' = (rs_fs s)(p := d)"
    and "rec_inv (side_write (se_scenario_write e) ''scenario_metadata.json''
        (scenario_metadata_text scenario) (rs_fs s p)) 0 [] (w, d)"
    and "rs_state s' = SRecording" and "sm_session_dir (rs_sessions s') = p"
    and "sm_active (rs_sessions s') \<noteq> None"
    and "rs_buffer s' = Some (new_packet_buffer (rc_packet_buffer_capacity (rs_config s))
      (rc_packet_buffer_max_bytes (rs_config s)))"
    and "rs_error_log s' = Some []" and "rs_stop_threads s' = rs_stop_threads s"
    and "rs_config s' = rs_config s" and "rs_sync_file_mode s' = rs_sync_file_mode s"
    and "rs_finalize_in_progress s' = rs_finalize_in_progress s" and "rs_diag s' = rs_diag s"
proof -
  let ?m = "(rs_sessions s)\<lparr>sm_scenario := scenario, sm_active := Some
        \<lparr>si_session_id = se_session_id e, si_storage_path = p,
         si_started_at_utc = se_utc_start e, si_stopped_at_utc = '''', si_source_ip = '''',
         si_stop_reason = '''', si_state = SRecording\<rparr>\<rparr>"
  have m: "sm_start (se_session_id e) (se_utc_start e) scenario '''' (rs_sessions s) = (EOk, ?m)"
    using s(1) by (auto simp: sm_start_def sm_state_def p session_path_def split: option.splits)
  obtain w0 d0 where o: "open_writer (se_open e) (new_chunk_writer (se_now e) (rs_config s), rs_fs s p)
      = (True, (w0, d0))" "rec_inv (rs_fs s p) 0 [] (w0, d0)"
  proof (rule rec_inv_open [OF e(1), of "rs_fs s p" "se_now e" "rs_config s"])
    fix ws assume "open_writer (se_open e) (new_chunk_writer (se_now e) (rs_config s), rs_fs s p)
      = (True, ws)" "rec_inv (rs_fs s p) 0 [] ws"
    then show thesis by (cases ws) (auto intro: that)
  qed (use d in \<open>simp_all add: clean_dir_def\<close>)
  have dir: "sm_session_dir ?m = p" by (simp add: sm_session_dir_def)
  let ?d = "side_write (se_scenario_write e) ''scenario_metadata.json''
      (scenario_metadata_text scenario) d0"
  have r: "start_recording e scenario s = (EOk, s\<lparr>rs_sessions := ?m, rs_error_log := Some [],
     rs_buffer := Some (new_packet_buffer (rc_packet_buffer_capacity (rs_config s))
       (rc_packet_buffer_max_bytes (rs_config s))), rs_writer := Some (p, w0),
     rs_fs := (rs_fs s)(p := ?d), rs_seen_ts := False, rs_last_ts_ns := 0,
     rs_seq_initialized := False, rs_last_seq := 0\<rparr>)"
    unfolding start_recording_def m dir prod.case
    using s(2) o(1) by (simp add: destroy_writer_def Let_def dir write_scenario_metadata_def)
  show ?thesis
    by (rule that [OF r]) (use dir rec_inv_side [OF o(2) side_files(1) e(2)] in \<open>simp_all add: sm_state_def
      new_packet_buffer_def\<close>)
qed

lemma drain_attempts_empty:
  assumes "rs_buffer s = Some b" "pb_queue b = []" "rs_writer s = Some pw"
  shows "drain_attempts env n s = s"
proof (cases n)
  case (Suc m)
  have "drain_inner (env m) 0 False s = ((False, False), s)"
    using assms by (subst drain_inner.simps) simp
  then show ?thesis using assms by (simp add: Suc size_of_def)
qed simp

lemma drain_empty:
  "rs_buffer s = Some b \<Longrightarrow> pb_queue b = [] \<Longrightarrow> rs_writer s = Some pw \<Longrightarrow> drain_packet_buffer env s = s"
  by (simp add: drain_packet_buffer_def drain_attempts_empty)

lemma close_writer_closed:
  "\<not> os_open (cw_chunk (fst (close_writer e ws)))" "\<not> os_open (cw_index (fst (close_writer e ws)))"
  by (auto simp: close_writer_def Let_def on_chunk_def on_index_def split: prod.splits)
    (metis os_close_closed fst_conv)+

lemma destroy_closed:
  assumes "rs_writer s = Some (p, w)" "\<not> os_open (cw_chunk w)" "\<not> os_open (cw_index w)"
  shows "destroy_writer e s = s\<lparr>rs_writer := None\<rparr>"
  using assms by (simp add: destroy_writer_def)

lemma stop_sync:
  assumes s: "rs_state s = SRecording" "rs_sync_file_mode s" "\<not> rs_finalize_in_progress s"
    and w: "rs_writer s = Some (p, w)" "sm_session_dir (rs_sessions s) = p" "p \<noteq> []"
    and b: "rs_buffer s = Some b" "pb_queue b = []"
    and inv: "rec_inv d0 n log (w, rs_fs s p)" and d0: "clean_dir d0"
    and valid: "\<forall>f\<in>set (log_frames log). valid_frame (rc_max_payload_bytes (rs_config s)) f"
    and e: "good_env (se_close e)" "atomic_ok (se_metadata_write e)" "atomic_ok (se_summary_write e)"
      "atomic_ok (se_report_write e)" "se_readable e = (\<lambda>_. True)"
  obtains s' d d1 where "stop_recording e reason s = (EOk, s')" and "rs_fs s' = (rs_fs s)(p := d)"
    and "clean_dir d1" and "closed_dir d1 log (unat (cw_chunk_id w)) d"
    and "fget d ''final_runtime_summary.json'' = Some (text_bytes (final_summary_text e (rs_diag s)
        \<lparr>ir_result = IOk, ir_detail = ''ok''\<rparr> reason))"
    and "rs_state s' = SClosed" and "rs_diag s' = rs_diag s"
proof -
  obtain i where i: "sm_active (rs_sessions s) = Some i" "si_state i = SRecording"
    using s(1) by (auto simp: sm_state_def split: option.splits)
  have pi: "si_storage_path i = p" using w(2) i by (simp add: sm_session_dir_def)
  obtain w1 c where cl: "close_writer (se_close e) (w, rs_fs s p) = (w1, c)" by (rule prod.exhaust)
  have shut: "\<not> os_open (cw_chunk w1)" "\<not> os_open (cw_index w1)"
    using close_writer_closed [of "se_close e" "(w, rs_fs s p)"] by (simp_all add: cl)
  note rc = rec_inv_close [OF inv e(1) cl refl]
  have c0: "closed_dir d0 log (unat (cw_chunk_id w)) c"
    using rc(1-6) by (auto simp: closed_dir_def)
  let ?cur = "unat (cw_chunk_id w)"
  let ?i = "i\<lparr>si_stopped_at_utc := se_utc_stop e, si_stop_reason := reason, si_state := SClosed\<rparr>"
  let ?m = "(rs_sessions s)\<lparr>sm_active := Some ?i\<rparr>"
  have m: "sm_mark_stopped (se_utc_stop e) reason (snd (sm_stop reason (rs_sessions s))) = ?m"
    by (simp add: sm_mark_stopped_def sm_stop_def i)
  let ?meta = "session_metadata_text (sm_config (rs_sessions s)) ?i"
  let ?w1 = "\<lambda>d. side_write (se_metadata_write e) ''session_metadata.json'' ?meta d"
  have c1: "closed_dir (?w1 d0) log ?cur (?w1 c)" "clean_dir (?w1 d0)"
    by (simp_all add: closed_dir_side [OF c0 _ e(2)] clean_dir_side [OF d0 _ e(2)])
  let ?mx = "rc_max_payload_bytes (rs_config s)"
  have pass: "check_session_integrity (se_readable e) (Some (?w1 c)) ?mx
      = \<lparr>ir_result = IOk, ir_detail = ''ok''\<rparr>"
    unfolding e(5) by (rule closed_dir_passes [OF c1 valid]) (use inv in \<open>simp_all add: rec_inv_def Let_def\<close>)
  let ?sum = "final_summary_text e (rs_diag s) \<lparr>ir_result = IOk, ir_detail = ''ok''\<rparr> reason"
  let ?w2 = "\<lambda>d. side_write (se_summary_write e) ''final_runtime_summary.json'' ?sum d"
  have c2: "closed_dir (?w2 (?w1 d0)) log ?cur (?w2 (?w1 c))" "clean_dir (?w2 (?w1 d0))"
    by (simp_all add: closed_dir_side [OF c1(1) _ e(3)] clean_dir_side [OF c1(2) _ e(3)])
  let ?w3 = "\<lambda>d. side_write (se_report_write e) ''runtime_report.json''
      (runtime_report_text e (rs_diag s)) d"
  have c3: "closed_dir (?w3 (?w2 (?w1 d0))) log ?cur (?w3 (?w2 (?w1 c)))"
    "clean_dir (?w3 (?w2 (?w1 d0)))"
    by (simp_all add: closed_dir_side [OF c2(1) _ e(4)] clean_dir_side [OF c2(2) _ e(4)])
  let ?sb = "s\<lparr>rs_finalize_in_progress := True, rs_sessions := snd (sm_stop reason (rs_sessions s))\<rparr>"
  have sb: "stop_begin reason s = (None, ?sb)" using s by (simp add: stop_begin_def)
  have dr: "drain_packet_buffer (se_drain e) ?sb = ?sb" using b w(1) by (intro drain_empty) simp_all
  have dir: "sm_session_dir (snd (sm_stop reason (rs_sessions s))) = p" "sm_session_dir ?m = p"
    by (simp_all add: sm_session_dir_def sm_stop_def i pi)
  let ?f = "finalize_active_session e reason ?sb"
  have f: "rs_fs ?f = (rs_fs s)(p := ?w3 (?w2 (?w1 c)))" "rs_sessions ?f = ?m" "rs_diag ?f = rs_diag s"
    using w s(2) cl m dir shut pass
    by (simp_all add: finalize_active_session_def write_session_metadata_def write_in_session_def
        write_runtime_report_def destroy_closed)
  have stop: "stop_recording e reason s = (EOk, ?f\<lparr>rs_finalize_in_progress := False\<rparr>)"
    using s(2) by (simp add: stop_recording_def sb stop_end_def dr)
  have sum: "fget (?w3 (?w2 (?w1 c))) ''final_runtime_summary.json'' = Some (text_bytes ?sum)"
    by (simp add: side_write_get [OF e(3)] side_write_get [OF e(4)])
  have fin: "rs_fs (?f\<lparr>rs_finalize_in_progress := False\<rparr>) = (rs_fs s)(p := ?w3 (?w2 (?w1 c)))"
    "rs_state (?f\<lparr>rs_finalize_in_progress := False\<rparr>) = SClosed"
    "rs_diag (?f\<lparr>rs_finalize_in_progress := False\<rparr>) = rs_diag s"
    by (simp_all add: f sm_state_def)
  show ?thesis by (rule that [OF stop fin(1) c3(2,1) sum fin(2,3)])
qed

end
