(* ===== verification/RuntimeMain.thy ===== *)
theory RuntimeMain
  imports Recording
begin

text \<open>
  The program \<open>ego-runtime\<close>, \<open>runtimepc/src/main.cpp\<close>: choosing the action from the command line,
  the daemon's run, the in-process run over a file, the client's exit codes. Then the theorem
  that runs through the whole recorder: recording a file.
\<close>

section \<open>Command line\<close>

definition exit_from_error :: "runtime_error_code \<Rightarrow> nat" where
  "exit_from_error code =
     (case code of EOk \<Rightarrow> 0 | ESessionBusy \<Rightarrow> 1 | ENotRecording \<Rightarrow> 2 | EStorageCritical \<Rightarrow> 3
      | EConfigError \<Rightarrow> 4 | EInternalError \<Rightarrow> 5)"

definition takes_value :: "string \<Rightarrow> bool" where
  "takes_value arg \<longleftrightarrow> arg \<in> set [''--config'', ''--data-root'', ''--input'', ''--scenario-id'',
     ''--scenario-name'', ''--operator'', ''--notes'']"

fun find_command :: "string list \<Rightarrow> string" where
  "find_command [] = ''''"
| "find_command (arg # args) =
     (if take 2 arg = ''--''
      then (if takes_value arg then find_command (drop 1 args) else find_command args)
      else arg)"

datatype action = Show_version | Show_help | Config_missing | Run | Run_file | Ipc string | Usage_error

fun early_exit :: "string list \<Rightarrow> action option" where
  "early_exit [] = None"
| "early_exit (arg # args) =
     (if arg = ''--version'' then Some Show_version
      else if arg = ''--help'' \<or> arg = ''-h'' then Some Show_help
      else early_exit args)"

definition ipc_command :: "string \<Rightarrow> string" where
  "ipc_command command =
     (if command = ''stop'' then ''STOP cli_stop'' else if command = ''start'' then ''START''
      else if command = ''status'' then ''STATUS'' else ''DIAGNOSTICS'')"

text \<open>\<open>args\<close> is \<open>argv\<close> without the program name; \<open>cfg\<close> the configuration \<open>LoadConfig\<close> returned.\<close>

definition choose_action :: "string list \<Rightarrow> runtime_config \<Rightarrow> action" where
  "choose_action args cfg =
     (case early_exit args of Some a \<Rightarrow> a
      | None \<Rightarrow>
          if \<not> rc_config_file_loaded cfg then Config_missing
          else
            let command = find_command args in
            if command = [] \<or> command = ''run'' then Run
            else if command \<in> set [''start'', ''stop'', ''status'', ''stats'', ''diagnostics'']
            then (if rc_input_file cfg \<noteq> [] then Run_file else Ipc (ipc_command command))
            else Usage_error)"

section \<open>The runs\<close>

definition scenario_from_config :: "runtime_config \<Rightarrow> scenario_metadata" where
  "scenario_from_config config =
     \<lparr>sc_id = (if rc_scenario_id config = [] then ''default'' else rc_scenario_id config),
      sc_name = (if rc_scenario_name config = [] then ''session'' else rc_scenario_name config),
      sc_operator = (if rc_operator_name config = [] then ''operator'' else rc_operator_name config),
      sc_notes = rc_notes config\<rparr>"

text \<open>\<open>RunDaemon\<close>: \<open>connected\<close> and \<open>control\<close> are the outcomes of the client's and the control server's
  start, \<open>threads\<close> everything the recorder's threads do until the shutdown signal.\<close>

definition run_daemon ::
  "bool \<Rightarrow> bool \<Rightarrow> svc_env \<Rightarrow> (nat \<Rightarrow> svc_env) \<Rightarrow> bytes option \<Rightarrow> (runtime_service \<Rightarrow> runtime_service)
     \<Rightarrow> svc_env \<Rightarrow> string \<Rightarrow> runtime_service \<Rightarrow> bool \<times> runtime_service"
where
  "run_daemon connected control e_start env input threads e_stop shutdown_reason s =
     (case start_daemon connected s of
        (False, s1) \<Rightarrow> (False, s1)
      | (True, s1) \<Rightarrow>
          if \<not> control then (False, stop_daemon s1)
          else
            (case start_recording e_start (scenario_from_config (rs_config s1)) s1 of (rc, s2) \<Rightarrow>
              if rc \<noteq> EOk then (False, stop_daemon s2)
              else if rc_input_file (rs_config s2) \<noteq> [] then
                (True, stop_daemon (snd (stop_recording e_stop ''file_eof''
                   (process_file_input env input s2))))
              else
                (True, stop_daemon (snd (stop_recording e_stop shutdown_reason (threads s2))))))"

text \<open>The in-process run of the other commands, with its exit code.\<close>

definition run_file ::
  "bool \<Rightarrow> svc_env \<Rightarrow> (nat \<Rightarrow> svc_env) \<Rightarrow> bytes option \<Rightarrow> svc_env \<Rightarrow> runtime_service
     \<Rightarrow> nat \<times> runtime_service"
where
  "run_file connected e_start env input e_stop s =
     (case start_daemon connected s of
        (False, s1) \<Rightarrow> (exit_from_error EInternalError, s1)
      | (True, s1) \<Rightarrow>
          (case start_recording e_start (scenario_from_config (rs_config s1)) s1 of (rc, s2) \<Rightarrow>
            if rc \<noteq> EOk then (exit_from_error rc, stop_daemon s2)
            else
              (case stop_recording e_stop ''file_eof'' (process_file_input env input s2) of
                (stop_rc, s3) \<Rightarrow> (exit_from_error stop_rc, stop_daemon s3))))"

text \<open>\<open>RunIpcClient\<close>, given whether the daemon answers and the response to the command.\<close>

definition run_ipc_client :: "bool \<Rightarrow> string \<Rightarrow> nat" where
  "run_ipc_client daemon_running response =
     (if \<not> daemon_running then exit_from_error ENotRecording
      else if response = [] then exit_from_error EInternalError
      else if take 3 response = ''ERR'' then exit_from_error ENotRecording
      else 0)"

section \<open>Recording a file\<close>

definition all_ok :: "svc_env \<Rightarrow> bool" where
  "all_ok e \<longleftrightarrow> good_env (se_open e) \<and> good_env (se_write e) \<and> good_env (se_close e) \<and>
     atomic_ok (se_scenario_write e) \<and> atomic_ok (se_metadata_write e) \<and>
     atomic_ok (se_summary_write e) \<and> atomic_ok (se_report_write e) \<and> se_readable e = (\<lambda>_. True)"

lemma file_run:
  assumes input: "rc_input_file cfg \<noteq> []"
    and valid: "\<forall>f\<in>set frames. validate_contract_frame f (rc_max_payload_bytes cfg) = None \<and>
      eh_frame_type (header_of_bytes f) \<noteq> type_to_u32 SESSION_ENDED"
    and small: "length frames < 2 ^ 32" "length (concat frames) < 2 ^ 64"
    and path: "p = session_path cfg (se_session_id e_start)" "p \<noteq> []"
    and fresh: "clean_dir (fs p)"
    and ok: "all_ok e_start" "\<forall>k. all_ok (env k)" "all_ok e_stop"
    and run: "run_file connected e_start env (Some (concat frames)) e_stop
      (new_runtime_service cfg fs) = (code, s)"
  obtains log w d0 d1 d2 ws where "code = 0" and "rs_fs s = fs(p := d2)" and "rs_state s = SClosed"
    and "clean_dir d1" and "closed_dir d1 log (unat (cw_chunk_id w)) d2"
    and "dg_packets_received (rs_diag s) = of_nat (length frames) \<and>
      dg_packets_written (rs_diag s) = of_nat (length frames) \<and>
      fget d2 ''final_runtime_summary.json'' = Some (text_bytes (final_summary_text e_stop
        (rs_diag s) \<lparr>ir_result = IOk, ir_detail = ''ok''\<rparr> ''file_eof''))"
    and "rec_inv d0 (length frames) log (w, ws)" and "log_frames log = frames"
proof -
  let ?s0 = "new_runtime_service cfg fs"
  obtain s1 where s1: "start_daemon connected ?s0 = (True, s1)" "rs_sync_file_mode s1"
    "rs_config s1 = cfg" "rs_sessions s1 = new_session_manager cfg" "rs_writer s1 = None"
    "rs_fs s1 = fs" "rs_diag s1 = new_diagnostics" "\<not> rs_finalize_in_progress s1"
    using input by (simp add: start_daemon_def new_runtime_service_def Let_def)
  let ?sc = "scenario_from_config cfg"
  have st: "rs_state s1 \<noteq> SRecording" "sm_config (rs_sessions s1) = cfg"
    using s1 by (simp_all add: sm_state_def new_session_manager_def)
  have e1: "good_env (se_open e_start)" "atomic_ok (se_scenario_write e_start)"
    using ok(1) by (simp_all add: all_ok_def)
  obtain s2 w d b where s2: "start_recording e_start ?sc s1 = (EOk, s2)"
    "rs_writer s2 = Some (p, w)" "rs_fs s2 = fs(p := d)"
    "rec_inv (side_write (se_scenario_write e_start) ''scenario_metadata.json''
        (scenario_metadata_text ?sc) (fs p)) 0 [] (w, d)"
    "rs_state s2 = SRecording" "sm_session_dir (rs_sessions s2) = p"
    "rs_buffer s2 = Some b" "pb_queue b = []" "rs_config s2 = cfg" "rs_sync_file_mode s2"
    "\<not> rs_finalize_in_progress s2" "rs_diag s2 = new_diagnostics"
    by (rule start_ok [OF st(1) s1(5) e1, of p ?sc])
      (use st path fresh s1 in \<open>auto simp: new_packet_buffer_def\<close>)
  let ?d0 = "side_write (se_scenario_write e_start) ''scenario_metadata.json''
        (scenario_metadata_text ?sc) (fs p)"
  have d0: "clean_dir ?d0" by (rule clean_dir_side [OF fresh _ e1(2)]) simp
  obtain log w3 d3 where wr: "write_all (frame_calls env 0 frames) (w, d) = (log, (w3, d3))"
    by (metis prod_cases3)
  have calls: "list_all good_call (frame_calls env k frames)" for k
    using valid ok(2) valid_frameD(1,2)
    by (induction frames arbitrary: k) (auto simp: good_call_def all_ok_def)
  have inv: "rec_inv ?d0 (length frames) log (w3, d3)" and fr: "log_frames log = frames"
    using rec_inv_write_all [OF wr s2(4) calls] small by (simp_all add: log_frames_def)
  let ?s3 = "feed env 0 frames s2"
  have pf: "process_file_input env (Some (concat frames)) s2 = ?s3"
    using valid s2(9) by (intro process_file_feed) simp
  have pl: "\<forall>f\<in>set frames. plain_frame (rc_max_payload_bytes (rs_config s2)) f"
    using valid s2(9) by (simp add: plain_frame_def)
  have len: "length log = length frames" using arg_cong [OF fr, of length] by (simp add: log_frames_def)
  have s3: "rs_writer ?s3 = Some (p, w3)" "rs_fs ?s3 = fs(p := d3)" "rs_config ?s3 = cfg"
    "rs_sessions ?s3 = rs_sessions s2" "rs_buffer ?s3 = Some b" "rs_sync_file_mode ?s3"
    "\<not> rs_finalize_in_progress ?s3" "dg_packets_received (rs_diag ?s3) = of_nat (length frames)"
    "dg_packets_written (rs_diag ?s3) = of_nat (length frames)"
    using feed_sync [OF pl s2(5,10,2), of env 0 log w3 d3] wr s2 len
    by (simp_all add: new_diagnostics_def)
  have e3: "good_env (se_close e_stop)" "atomic_ok (se_metadata_write e_stop)"
    "atomic_ok (se_summary_write e_stop)" "atomic_ok (se_report_write e_stop)"
    "se_readable e_stop = (\<lambda>_. True)"
    using ok(3) by (simp_all add: all_ok_def)
  obtain s4 d4 d1 where s4: "stop_recording e_stop ''file_eof'' ?s3 = (EOk, s4)"
    "rs_fs s4 = (rs_fs ?s3)(p := d4)" "clean_dir d1"
    "closed_dir d1 log (unat (cw_chunk_id w3)) d4"
    "fget d4 ''final_runtime_summary.json'' = Some (text_bytes (final_summary_text e_stop (rs_diag ?s3)
        \<lparr>ir_result = IOk, ir_detail = ''ok''\<rparr> ''file_eof''))"
    "rs_state s4 = SClosed" "rs_diag s4 = rs_diag ?s3"
    by (rule stop_sync [OF _ s3(6,7,1) _ path(2) s3(5) s2(8) _ d0 _ e3, of "length frames" log])
      (use s2 s3 inv valid fr in auto)
  have s: "s = stop_daemon s4" "code = 0"
    using run s1(1,3) s2(1) s4(1) by (simp_all add: run_file_def pf exit_from_error_def)
  have sd: "rs_fs s = fs(p := d4)" "rs_diag s = rs_diag ?s3" "rs_state s = SClosed"
    using s s4 s3(2) by (simp_all add: stop_daemon_def)
  show thesis
    by (rule that [OF s(2) sd(1,3) s4(3) s4(4) _ inv fr]) (use sd s3(8,9) s4(5) in simp_all)
qed

text \<open>C7: Recording a file, end to end: when \<open>ego-runtime\<close> runs over an input file that is a sequence
  of valid frames without a session end, into a fresh session directory, and no system call
  fails, the run succeeds with exit code 0 and a closed session; the chunk files, in order,
  concatenate to exactly the input file; the final summary counts every frame as received and as
  written and reports integrity \<open>ok\<close>, and the check of the directory as the run leaves it agrees;
  no other session's files change.\<close>

theorem file_recording_end_to_end:
  assumes input: "rc_input_file cfg \<noteq> []"
    and valid: "\<forall>f\<in>set frames. validate_contract_frame f (rc_max_payload_bytes cfg) = None \<and>
      eh_frame_type (header_of_bytes f) \<noteq> type_to_u32 SESSION_ENDED"
    and small: "length frames < 2 ^ 32" "length (concat frames) < 2 ^ 64"
    and path: "p = session_path cfg (se_session_id e_start)" "p \<noteq> []"
    and fresh: "clean_dir (fs p)"
    and ok: "all_ok e_start" "\<forall>k. all_ok (env k)" "all_ok e_stop"
    and run: "run_file connected e_start env (Some (concat frames)) e_stop
      (new_runtime_service cfg fs) = (code, s)"
  shows "code = 0 \<and> rs_state s = SClosed \<and>
    (\<exists>n\<le>length frames.
      concat (map (\<lambda>i. contents (rs_fs s p) (chunk_name i)) [0..<Suc n]) = concat frames) \<and>
    dg_packets_received (rs_diag s) = of_nat (length frames) \<and>
    dg_packets_written (rs_diag s) = of_nat (length frames) \<and>
    contents (rs_fs s p) ''final_runtime_summary.json'' = text_bytes (final_summary_text e_stop
      (rs_diag s) \<lparr>ir_result = IOk, ir_detail = ''ok''\<rparr> ''file_eof'') \<and>
    check_session_integrity (\<lambda>_. True) (Some (rs_fs s p)) (rc_max_payload_bytes cfg)
      = \<lparr>ir_result = IOk, ir_detail = ''ok''\<rparr> \<and>
    (\<forall>q. q \<noteq> p \<longrightarrow> rs_fs s q = fs q)"
proof -
  obtain log w d0 d1 d2 ws where r: "code = 0" "rs_fs s = fs(p := d2)" "rs_state s = SClosed"
    "clean_dir d1" "closed_dir d1 log (unat (cw_chunk_id w)) d2"
    "dg_packets_received (rs_diag s) = of_nat (length frames) \<and>
      dg_packets_written (rs_diag s) = of_nat (length frames) \<and>
      fget d2 ''final_runtime_summary.json'' = Some (text_bytes (final_summary_text e_stop
        (rs_diag s) \<lparr>ir_result = IOk, ir_detail = ''ok''\<rparr> ''file_eof''))"
    "rec_inv d0 (length frames) log (w, ws)" "log_frames log = frames"
    by (rule file_run [OF assms])
  let ?n = "unat (cw_chunk_id w)"
  have ord: "\<forall>x\<in>set log. fst x \<le> ?n" "sorted (map fst log)" and n: "?n \<le> length frames"
    using r(7) by (simp_all add: rec_inv_def Let_def)
  have "map (\<lambda>i. contents d2 (chunk_name i)) [0..<Suc ?n]
      = map (\<lambda>i. concat (chunk_frames i log)) [0..<Suc ?n]"
    using r(5) by (intro map_cong) (auto simp: closed_dir_def contents_def)
  then have cat: "concat (map (\<lambda>i. contents d2 (chunk_name i)) [0..<Suc ?n]) = concat frames"
    using concat_chunks [OF ord(2,1)] r(8) by (simp only:)
  have chk: "check_session_integrity (\<lambda>_. True) (Some d2) (rc_max_payload_bytes cfg)
      = \<lparr>ir_result = IOk, ir_detail = ''ok''\<rparr>"
    by (rule closed_dir_passes [OF r(5,4) _ ord]) (use valid r(8) in auto)
  show ?thesis using r(1-3,6) cat n chk by (auto simp: contents_def)
qed

definition demo_svc_env :: svc_env where
  "demo_svc_env = \<lparr>se_session_id = ''session-1'', se_utc_start = ''t0'', se_utc_stop = ''t1'',
     se_now = 0, se_open = demo_env, se_write = demo_env, se_drain = (\<lambda>_. demo_env),
     se_close = demo_env, se_scenario_write = ok_atomic, se_metadata_write = ok_atomic,
     se_summary_write = ok_atomic, se_report_write = ok_atomic, se_readable = (\<lambda>_. True),
     se_duration_text = ''1'', se_disk_text = ''100'', se_mbps_text = ''0''\<rparr>"

lemma demo_all_ok: "all_ok demo_svc_env"
  by (simp add: all_ok_def demo_svc_env_def good_env_def demo_env_def ok_atomic_def atomic_ok_def)

theorem file_recording_end_to_end_witness:
  "\<exists>s. run_file False demo_svc_env (\<lambda>_. demo_svc_env)
      (Some (build_contract_frame 1 IMU_WINDOW [9] @ build_contract_frame 2 AUDIO_BLOCK [1, 2]))
      demo_svc_env (new_runtime_service (default_config\<lparr>rc_input_file := ''in.bin''\<rparr>) (\<lambda>_. []))
      = (0, s) \<and> rs_state s = SClosed \<and> dg_packets_written (rs_diag s) = 2"
proof -
  let ?cfg = "default_config\<lparr>rc_input_file := ''in.bin''\<rparr>"
  let ?fs = "[build_contract_frame 1 IMU_WINDOW [9], build_contract_frame 2 AUDIO_BLOCK [1, 2]]"
  obtain code s where r: "run_file False demo_svc_env (\<lambda>_. demo_svc_env) (Some (concat ?fs))
      demo_svc_env (new_runtime_service ?cfg (\<lambda>_. [])) = (code, s)" by (rule prod.exhaust)
  have v: "\<forall>f\<in>set ?fs. validate_contract_frame f (rc_max_payload_bytes ?cfg) = None \<and>
      eh_frame_type (header_of_bytes f) \<noteq> type_to_u32 SESSION_ENDED"
    by (simp add: built_frame_valid default_config_def build_contract_frame_header Let_def
        make_frame_header_def type_to_u32_def)
  have p: "session_path ?cfg ''session-1'' \<noteq> []"
    by (simp add: session_path_def path_join_def default_config_def)
  have "code = 0 \<and> rs_state s = SClosed \<and> dg_packets_written (rs_diag s) = of_nat (length ?fs)"
    using file_recording_end_to_end [OF _ v _ _ _ _ _ demo_all_ok _ demo_all_ok r, OF _ _ _ refl]
      demo_all_ok p
    by (simp add: demo_svc_env_def default_config_def clean_dir_def chunk_files_def has_tmp_files_def)
  then show ?thesis using r by auto
qed

end
