(* ===== verification/Daemon.thy ===== *)
theory Daemon
  imports RuntimeMain
begin

text \<open>
  The recorder as a daemon: frames arrive on the receiving thread and are buffered, the writer
  thread takes them out one turn at a time. A history is any interleaving of the two; the turns
  are those of \<open>RuntimeService\<close>.
\<close>

section \<open>Histories of a recording\<close>

datatype svc_op = Arrive svc_env bytes | Turn writer_env

fun run_svc :: "svc_op list \<Rightarrow> runtime_service \<Rightarrow> runtime_service" where
  "run_svc [] s = s"
| "run_svc (Arrive e f # ops) s = run_svc ops (on_contract_frame e f s)"
| "run_svc (Turn e # ops) s = run_svc ops (snd (writer_loop_turn e s))"

fun arrivals :: "svc_op list \<Rightarrow> bytes list" where
  "arrivals [] = []"
| "arrivals (Arrive e f # ops) = f # arrivals ops"
| "arrivals (Turn e # ops) = arrivals ops"

text \<open>The queue operations a history makes.\<close>

fun queue_ops :: "svc_op list \<Rightarrow> bytes queue_op list" where
  "queue_ops [] = []"
| "queue_ops (Arrive e f # ops) = Push_op f # queue_ops ops"
| "queue_ops (Turn e # ops) = Pop_op # queue_ops ops"

lemma pushed_queue_ops [simp]: "pushed (queue_ops ops) = arrivals ops"
  by (induction ops rule: queue_ops.induct) auto

definition daemon_recording :: "runtime_service \<Rightarrow> bool" where
  "daemon_recording s \<longleftrightarrow> rs_state s = SRecording \<and> \<not> rs_sync_file_mode s \<and> \<not> rs_stop_threads s \<and>
     rs_buffer s \<noteq> None \<and> rs_writer s \<noteq> None \<and> rs_error_log s \<noteq> None"

lemma more_fields [simp]:
  "rs_stop_threads (upd_diag h s) = rs_stop_threads s"
  "rs_stop_threads (track_contract_seq q s) = rs_stop_threads s"
  "rs_stop_threads (track_time t s) = rs_stop_threads s"
  "rs_error_log (track_contract_seq q s) = rs_error_log s"
  "rs_error_log (track_time t s) = rs_error_log s"
  by (simp_all add: track_contract_seq_def track_time_def upd_diag_def Let_def)

text \<open>A plain frame arriving: one push.\<close>

lemma arrive_step:
  fixes e :: svc_env
  assumes f: "plain_frame (rc_max_payload_bytes (rs_config s)) f" and s: "daemon_recording s"
    and b: "rs_buffer s = Some b"
  defines "s' \<equiv> on_contract_frame e f s"
  shows "daemon_recording s'" "rs_buffer s' = Some (push f b)" "rs_writer s' = rs_writer s"
    "rs_fs s' = rs_fs s" "rs_config s' = rs_config s"
    "dg_packets_received (rs_diag s') = dg_packets_received (rs_diag s) + 1"
    "dg_packets_written (rs_diag s') = dg_packets_written (rs_diag s)"
    "dg_buffer_dropped (rs_diag s') = dropped_of (push f b)"
proof -
  have st: "rs_state s = SRecording" "\<not> rs_sync_file_mode s" using s by (simp_all add: daemon_recording_def)
  have e: "s' = store_frame e f (track_time (eh_t0_ns (header_of_bytes f))
      (track_contract_seq (eh_seq (header_of_bytes f)) (upd_diag on_packet_received s)))"
    using f st by (simp add: s'_def on_contract_frame_def plain_frame_def Let_def)
  show "daemon_recording s'" "rs_buffer s' = Some (push f b)" "rs_writer s' = rs_writer s"
    "rs_fs s' = rs_fs s" "rs_config s' = rs_config s"
    "dg_packets_received (rs_diag s') = dg_packets_received (rs_diag s) + 1"
    "dg_packets_written (rs_diag s') = dg_packets_written (rs_diag s)"
    "dg_buffer_dropped (rs_diag s') = dropped_of (push f b)"
    using s b st by (simp_all add: e store_frame_def Let_def daemon_recording_def diag_defs)
qed

text \<open>A turn of the writer: one pop, and one write when there was something to pop. When the write
  fails the recording is over.\<close>

lemma turn_step:
  assumes s: "daemon_recording s" and b: "rs_buffer s = Some b" and w: "rs_writer s = Some (p, w)"
    and r: "rs_state (snd (writer_loop_turn e s)) = SRecording"
  defines "s' \<equiv> snd (writer_loop_turn e s)"
  shows "daemon_recording s'" "rs_config s' = rs_config s"
    "dg_packets_received (rs_diag s') = dg_packets_received (rs_diag s)"
    "dg_buffer_dropped (rs_diag s') = dg_buffer_dropped (rs_diag s)"
    "rs_buffer s' = Some (snd (pop b))"
    "case fst (pop b) of
       None \<Rightarrow> rs_writer s' = rs_writer s \<and> rs_fs s' = rs_fs s \<and>
         dg_packets_written (rs_diag s') = dg_packets_written (rs_diag s)
     | Some x \<Rightarrow> \<exists>w'. rs_writer s' = Some (p, w') \<and>
         write_contract_frame e x (w, rs_fs s p) = (True, (w', rs_fs s' p)) \<and>
         dg_packets_written (rs_diag s') = dg_packets_written (rs_diag s) + 1"
proof -
  have st: "rs_state s = SRecording" "\<not> rs_stop_threads s" "rs_error_log s \<noteq> None"
    using s by (simp_all add: daemon_recording_def)
  obtain x b' where pb: "pop b = (x, b')" by (rule prod.exhaust)
  have sess: "rs_state (upd_diag h (log_error l m t\<lparr>rs_sessions := sm_set_error r (rs_sessions t)\<rparr>))
      \<noteq> SRecording" if "rs_state t = SRecording" for h l m t r
    using that by (auto simp: sm_state_def sm_set_error_def split: option.splits)
  show "daemon_recording s'" "rs_config s' = rs_config s"
    "dg_packets_received (rs_diag s') = dg_packets_received (rs_diag s)"
    "dg_buffer_dropped (rs_diag s') = dg_buffer_dropped (rs_diag s)"
    "rs_buffer s' = Some (snd (pop b))"
    "case fst (pop b) of
       None \<Rightarrow> rs_writer s' = rs_writer s \<and> rs_fs s' = rs_fs s \<and>
         dg_packets_written (rs_diag s') = dg_packets_written (rs_diag s)
     | Some x \<Rightarrow> \<exists>w'. rs_writer s' = Some (p, w') \<and>
         write_contract_frame e x (w, rs_fs s p) = (True, (w', rs_fs s' p)) \<and>
         dg_packets_written (rs_diag s') = dg_packets_written (rs_diag s) + 1"
    using s st b w pb r sess
    by (auto simp: s'_def writer_loop_turn_def writer_write_def daemon_recording_def diag_defs
        split: option.splits prod.splits bool.splits)
qed

text \<open>Once a recording has left its state, neither operation brings it back.\<close>

lemma not_recording_stays:
  assumes "rs_state s \<noteq> SRecording" "rs_state s \<noteq> SIdle"
  shows "rs_state (on_contract_frame e f s) \<noteq> SRecording \<and> rs_state (on_contract_frame e f s) \<noteq> SIdle"
    and "rs_state (snd (writer_loop_turn w s)) \<noteq> SRecording \<and>
      rs_state (snd (writer_loop_turn w s)) \<noteq> SIdle"
proof -
  have "rs_state (log_error l m t) = rs_state t" for l m t by (simp add: log_error_def)
  then show "rs_state (on_contract_frame e f s) \<noteq> SRecording \<and> rs_state (on_contract_frame e f s) \<noteq> SIdle"
    using assms by (auto simp: on_contract_frame_def Let_def store_frame_def split: option.splits)
  show "rs_state (snd (writer_loop_turn w s)) \<noteq> SRecording \<and>
      rs_state (snd (writer_loop_turn w s)) \<noteq> SIdle"
    using assms
    by (auto simp: writer_loop_turn_def writer_write_def sm_state_def sm_set_error_def
        split: option.splits prod.splits bool.splits)
qed

lemma run_not_recording:
  "rs_state s \<noteq> SRecording \<Longrightarrow> rs_state s \<noteq> SIdle \<Longrightarrow>
     rs_state (run_svc ops s) \<noteq> SRecording \<and> rs_state (run_svc ops s) \<noteq> SIdle"
  by (induction ops s rule: run_svc.induct) (simp_all add: not_recording_stays)

section \<open>Nothing is lost silently\<close>

lemma write_all_Cons_ok:
  assumes "write_contract_frame e f ws = (True, ws1)" and "write_all xs ws1 = (log, ws2)"
  shows "\<exists>c off. write_all ((e, f) # xs) ws = ((c, off, f) # log, ws2)"
  using assms by simp

lemma run_svc_accounting:
  assumes "\<forall>f\<in>set (arrivals ops). plain_frame (rc_max_payload_bytes (rs_config s)) f"
    and "daemon_recording s" and "rs_state (run_svc ops s) = SRecording"
    and "rs_buffer s = Some b" and "rs_writer s = Some (p, w)"
  shows "\<exists>out b' w' calls log. run_queue push pop (queue_ops ops) b = (out, b') \<and>
    rs_buffer (run_svc ops s) = Some b' \<and> rs_writer (run_svc ops s) = Some (p, w') \<and>
    map snd calls = out \<and> log_frames log = out \<and>
    write_all calls (w, rs_fs s p) = (log, (w', rs_fs (run_svc ops s) p)) \<and>
    dg_packets_received (rs_diag (run_svc ops s)) =
      dg_packets_received (rs_diag s) + of_nat (length (arrivals ops)) \<and>
    dg_packets_written (rs_diag (run_svc ops s)) =
      dg_packets_written (rs_diag s) + of_nat (length out) \<and>
    (dg_buffer_dropped (rs_diag s) = dropped_of b \<longrightarrow>
      dg_buffer_dropped (rs_diag (run_svc ops s)) = dropped_of b')"
  using assms
proof (induction ops s arbitrary: b w rule: run_svc.induct)
  case (1 s)
  then show ?case by (intro exI [of _ "[]"] exI [of _ b] exI [of _ w]) (simp add: log_frames_def)
next
  case (2 e f ops s)
  have pf: "plain_frame (rc_max_payload_bytes (rs_config s)) f" using "2.prems"(1) by simp
  note st = arrive_step [OF pf "2.prems"(2,4), of e]
  obtain out b' w' calls log where
    "run_queue push pop (queue_ops ops) (push f b) = (out, b') \<and>
    rs_buffer (run_svc ops (on_contract_frame e f s)) = Some b' \<and>
    rs_writer (run_svc ops (on_contract_frame e f s)) = Some (p, w') \<and>
    map snd calls = out \<and> log_frames log = out \<and>
    write_all calls (w, rs_fs (on_contract_frame e f s) p) =
      (log, (w', rs_fs (run_svc ops (on_contract_frame e f s)) p)) \<and>
    dg_packets_received (rs_diag (run_svc ops (on_contract_frame e f s))) =
      dg_packets_received (rs_diag (on_contract_frame e f s)) + of_nat (length (arrivals ops)) \<and>
    dg_packets_written (rs_diag (run_svc ops (on_contract_frame e f s))) =
      dg_packets_written (rs_diag (on_contract_frame e f s)) + of_nat (length out) \<and>
    (dg_buffer_dropped (rs_diag (on_contract_frame e f s)) = dropped_of (push f b) \<longrightarrow>
      dg_buffer_dropped (rs_diag (run_svc ops (on_contract_frame e f s))) = dropped_of b')"
    using "2.IH" [of "push f b" w] "2.prems" st by auto
  then show ?case using st by (intro exI [of _ out] exI [of _ b'] exI [of _ w'] exI [of _ calls]
    exI [of _ log]) (simp add: algebra_simps)
next
  case (3 e ops s)
  let ?t = "snd (writer_loop_turn e s)"
  have r: "rs_state ?t = SRecording"
  proof (rule ccontr)
    assume n: "rs_state ?t \<noteq> SRecording"
    moreover have "rs_state ?t \<noteq> SIdle"
      using "3.prems"(2) by (auto simp: daemon_recording_def writer_loop_turn_def writer_write_def
        sm_state_def sm_set_error_def split: option.splits prod.splits bool.splits)
    ultimately show False using run_not_recording [of ?t ops] "3.prems"(3) by simp
  qed
  note st = turn_step [OF "3.prems"(2,4,5) r]
  obtain x b1 where pb: "pop b = (x, b1)" by (rule prod.exhaust)
  obtain w1 where w1: "rs_writer ?t = Some (p, w1)"
    using st(6) "3.prems"(5) pb by (auto split: option.splits)
  obtain out b' w' calls log where ih:
    "run_queue push pop (queue_ops ops) b1 = (out, b')" "rs_buffer (run_svc ops ?t) = Some b'"
    "rs_writer (run_svc ops ?t) = Some (p, w')" "map snd calls = out" "log_frames log = out"
    "write_all calls (w1, rs_fs ?t p) = (log, (w', rs_fs (run_svc ops ?t) p))"
    "dg_packets_received (rs_diag (run_svc ops ?t)) =
      dg_packets_received (rs_diag ?t) + of_nat (length (arrivals ops))"
    "dg_packets_written (rs_diag (run_svc ops ?t)) =
      dg_packets_written (rs_diag ?t) + of_nat (length out)"
    "dg_buffer_dropped (rs_diag ?t) = dropped_of b1 \<longrightarrow>
      dg_buffer_dropped (rs_diag (run_svc ops ?t)) = dropped_of b'"
    using "3.IH" [of b1 w1] "3.prems"(1,3) st(1,2,5) w1 pb by auto
  have dr: "dropped_of b1 = dropped_of b" using pb by (auto simp: pop_def dropped_of_def split: list.splits)
  show ?case
  proof (cases x)
    case None
    then have "w1 = w" "rs_fs ?t = rs_fs s" using st(6) w1 pb "3.prems"(5) by auto
    then show ?thesis using ih st None pb dr
      by (intro exI [of _ out] exI [of _ b'] exI [of _ w'] exI [of _ calls] exI [of _ log]) auto
  next
    case (Some y)
    then have wr: "write_contract_frame e y (w, rs_fs s p) = (True, (w1, rs_fs ?t p))"
      using st(6) w1 pb by auto
    obtain c off where "write_all ((e, y) # calls) (w, rs_fs s p)
        = ((c, off, y) # log, (w', rs_fs (run_svc ops ?t) p))"
      using write_all_Cons_ok [OF wr ih(6)] by blast
    then show ?thesis using ih(1-5,7-9) st(3-6) Some pb dr
      by (intro exI [of _ "y # out"] exI [of _ b'] exI [of _ w'] exI [of _ "(e, y) # calls"]
          exI [of _ "(c, off, y) # log"]) (auto simp: log_frames_def algebra_simps)
  qed
qed

text \<open>C9: While recording as a daemon nothing is lost silently: for any interleaving of arriving frames
  and turns of the writer thread, whatever the files and clocks do, as long as the session is
  still recording afterwards, the frames the writer acknowledged, followed by those still
  buffered, are a subsequence of the frames that arrived, in order and without duplicates, and
  the counters balance: received = written + buffered + dropped.\<close>

theorem daemon_accounting:
  assumes "\<forall>f\<in>set (arrivals ops). validate_contract_frame f (rc_max_payload_bytes (rs_config s)) = None
      \<and> eh_frame_type (header_of_bytes f) \<noteq> type_to_u32 SESSION_ENDED"
    and "daemon_recording s" and "rs_state (run_svc ops s) = SRecording"
    and "rs_buffer s = Some (new_packet_buffer cap mx)" and "rs_writer s = Some (p, w)"
  shows "\<exists>calls log w' b'. write_all calls (w, rs_fs s p) = (log, (w', rs_fs (run_svc ops s) p)) \<and>
    log_frames log = map snd calls \<and> rs_buffer (run_svc ops s) = Some b' \<and>
    subseq (log_frames log @ pb_queue b') (arrivals ops) \<and>
    dg_packets_received (rs_diag (run_svc ops s)) - dg_packets_received (rs_diag s) =
      of_nat (length (arrivals ops)) \<and>
    dg_packets_written (rs_diag (run_svc ops s)) - dg_packets_written (rs_diag s) =
      of_nat (length log) \<and>
    of_nat (length (arrivals ops)) = of_nat (length log + size_of b') + dropped_of b'"
proof -
  obtain out b' w' calls log where
    r: "run_queue push pop (queue_ops ops) (new_packet_buffer cap mx) = (out, b')"
    and st: "rs_buffer (run_svc ops s) = Some b'" "map snd calls = out" "log_frames log = out"
    "write_all calls (w, rs_fs s p) = (log, (w', rs_fs (run_svc ops s) p))"
    "dg_packets_received (rs_diag (run_svc ops s)) =
      dg_packets_received (rs_diag s) + of_nat (length (arrivals ops))"
    "dg_packets_written (rs_diag (run_svc ops s)) =
      dg_packets_written (rs_diag s) + of_nat (length out)"
    using run_svc_accounting [OF _ assms(2,3,4,5)] assms(1) by (auto simp: plain_frame_def)
  have len: "length out = length log" using st(3) by (auto simp: log_frames_def)
  have "subseq (out @ pb_queue b') (arrivals ops) \<and>
      of_nat (length (arrivals ops)) = of_nat (length out + size_of b') + dropped_of b'"
    using pb.run_accounting [OF r] by (simp add: new_packet_buffer_def size_of_def dropped_of_def)
  then show ?thesis using st len
    by (intro exI [of _ calls] exI [of _ log] exI [of _ w'] exI [of _ b']) simp
qed

definition demo_path :: string where
  "demo_path = session_path default_config ''session-1''"

definition demo_buffer :: packet_buffer where
  "demo_buffer = new_packet_buffer (rc_packet_buffer_capacity default_config)
     (rc_packet_buffer_max_bytes default_config)"

lemma demo_session:
  obtains s w d where "daemon_recording s" "rs_writer s = Some (demo_path, w)"
    "rs_fs s = (\<lambda>_. [])(demo_path := d)"
    "rec_inv (side_write (se_scenario_write demo_svc_env) ''scenario_metadata.json''
        (scenario_metadata_text (default_scenario default_config)) []) 0 [] (w, d)"
    "rs_buffer s = Some demo_buffer" "rs_config s = default_config" "\<not> rs_finalize_in_progress s"
proof -
  let ?s0 = "new_runtime_service default_config (\<lambda>_. [])"
  have e: "good_env (se_open demo_svc_env)" "atomic_ok (se_scenario_write demo_svc_env)"
    using demo_all_ok by (simp_all add: all_ok_def)
  have s0: "rs_state ?s0 \<noteq> SRecording" "rs_writer ?s0 = None" "rs_config ?s0 = default_config"
    "demo_path = session_path (sm_config (rs_sessions ?s0)) (se_session_id demo_svc_env)"
    "clean_dir (rs_fs ?s0 demo_path)" "rs_fs ?s0 = (\<lambda>_. [])" "\<not> rs_stop_threads ?s0"
    "\<not> rs_sync_file_mode ?s0" "\<not> rs_finalize_in_progress ?s0"
    by (simp_all add: new_runtime_service_def new_session_manager_def sm_state_def clean_dir_def
        chunk_files_def has_tmp_files_def demo_path_def demo_svc_env_def)
  show thesis
  proof (rule start_ok [OF s0(1,2) e s0(4,5), of "default_scenario default_config"], goal_cases)
    case (1 s' w d)
    show thesis
      by (rule that [of s' w d]) (use 1 in \<open>simp_all add: s0 daemon_recording_def demo_buffer_def\<close>)
  qed
qed

theorem daemon_accounting_witness:
  "\<exists>s f calls log w w' b'. write_all calls (w, rs_fs s demo_path) =
      (log, (w', rs_fs (run_svc [Arrive demo_svc_env f, Turn demo_env] s) demo_path)) \<and>
    log_frames log = map snd calls \<and>
    rs_buffer (run_svc [Arrive demo_svc_env f, Turn demo_env] s) = Some b' \<and>
    subseq (log_frames log @ pb_queue b') [f] \<and>
    (1 :: u64) = of_nat (length log + size_of b') + dropped_of b'"
proof -
  let ?f = "build_contract_frame 1 IMU_WINDOW [9]"
  obtain s w d where s: "daemon_recording s" "rs_writer s = Some (demo_path, w)"
    "rs_fs s = (\<lambda>_. [])(demo_path := d)"
    "rec_inv (side_write (se_scenario_write demo_svc_env) ''scenario_metadata.json''
        (scenario_metadata_text (default_scenario default_config)) []) 0 [] (w, d)"
    "rs_buffer s = Some demo_buffer" "rs_config s = default_config" "\<not> rs_finalize_in_progress s"
    by (rule demo_session)
  have v: "validate_contract_frame ?f (rc_max_payload_bytes (rs_config s)) = None \<and>
      eh_frame_type (header_of_bytes ?f) \<noteq> type_to_u32 SESSION_ENDED"
    by (simp add: s(6) built_frame_valid default_config_def build_contract_frame_header Let_def
        make_frame_header_def type_to_u32_def)
  let ?s1 = "on_contract_frame demo_svc_env ?f s"
  have pf: "plain_frame (rc_max_payload_bytes (rs_config s)) ?f" using v by (simp add: plain_frame_def)
  note st = arrive_step [OF pf s(1,5), of demo_svc_env]
  have ge: "good_env demo_env" by (simp add: good_env_def demo_env_def ok_atomic_def)
  have sz: "(0 :: nat) + 1 < 2 ^ 32" "72 \<le> length ?f"
    "length (concat (log_frames [])) + length ?f < 2 ^ 64"
    by (simp_all add: log_frames_def)
  have mg: "eh_magic (header_of_bytes ?f) = EGO_FRAME_MAGIC" using v valid_frameD(2) by blast
  obtain ws where wr: "write_contract_frame demo_env ?f (w, d) = (True, ws)"
    by (rule rec_inv_write [OF s(4) ge sz(1,2) mg sz(3)])
  have q: "pb_queue (push ?f demo_buffer) = [?f]"
    by (simp add: demo_buffer_def push_def new_packet_buffer_def Let_def evict.simps)
  have pp: "pop (push ?f demo_buffer) = (Some ?f, snd (pop (push ?f demo_buffer)))"
    using q by (simp add: pop_def)
  have "rs_state (snd (writer_loop_turn demo_env ?s1)) = SRecording"
    using st s(2,3) wr pp unfolding daemon_recording_def
    by (auto simp: writer_loop_turn_def writer_write_def upd_diag_def split: prod.splits)
  then have r: "rs_state (run_svc [Arrive demo_svc_env ?f, Turn demo_env] s) = SRecording" by simp
  have ar: "\<forall>f\<in>set (arrivals [Arrive demo_svc_env ?f, Turn demo_env]).
      validate_contract_frame f (rc_max_payload_bytes (rs_config s)) = None \<and>
      eh_frame_type (header_of_bytes f) \<noteq> type_to_u32 SESSION_ENDED" using v by simp
  note s5 = s(5)[unfolded demo_buffer_def]
  from daemon_accounting [OF ar s(1) r s5 s(2)] obtain calls log w' b' where
    "write_all calls (w, rs_fs s demo_path) =
      (log, (w', rs_fs (run_svc [Arrive demo_svc_env ?f, Turn demo_env] s) demo_path))"
    "log_frames log = map snd calls"
    "rs_buffer (run_svc [Arrive demo_svc_env ?f, Turn demo_env] s) = Some b'"
    "subseq (log_frames log @ pb_queue b') (arrivals [Arrive demo_svc_env ?f, Turn demo_env])"
    "of_nat (length (arrivals [Arrive demo_svc_env ?f, Turn demo_env])) =
      of_nat (length log + size_of b') + dropped_of b'"
    by blast
  then show ?thesis
    by (intro exI [of _ s] exI [of _ ?f] exI [of _ calls] exI [of _ log] exI [of _ w] exI [of _ w']
        exI [of _ b'] conjI) (simp_all del: run_svc.simps)
qed

section \<open>A failed write\<close>

text \<open>A session whose disk write failed is never finalised: when the writer thread's write is
  refused the session turns to \<open>ERROR\<close> with health \<open>failed\<close> and the packet is lost, and from then
  on every request to stop - the control command, the shutdown, the critical-storage alarm - is
  refused with \<open>not_recording\<close> and changes nothing: no metadata, no summary, no closed chunk, no
  offline run.\<close>

theorem failed_session_not_finalised:
  assumes "daemon_recording s" and "rs_buffer s = Some b" and "pop b = (Some x, b')"
    and "rs_writer s = Some (p, w)" and "write_contract_frame e x (w, rs_fs s p) = (False, ws)"
    and "\<not> rs_finalize_in_progress s"
  defines "s' \<equiv> snd (writer_loop_turn e s)"
  shows "rs_state s' = SError \<and> dg_health (rs_diag s') = ''failed'' \<and>
    dg_packets_written (rs_diag s') = dg_packets_written (rs_diag s) \<and>
    stop_recording e2 reason s' = (ENotRecording, s') \<and>
    handle_control_command e2 (''STOP '' @ reason) s' = (''ERR not_recording'' @ nl @ nl, s')"
proof -
  obtain l where l: "rs_error_log s = Some l" and st: "rs_state s = SRecording" "\<not> rs_stop_threads s"
    using assms(1) by (auto simp: daemon_recording_def)
  obtain i where i: "sm_active (rs_sessions s) = Some i" "si_state i = SRecording"
    using st(1) by (auto simp: sm_state_def split: option.splits)
  obtain w' d' where ws: "ws = (w', d')" by (rule prod.exhaust)
  have s': "s' = upd_diag (set_health ''failed'') ((log_error ''ERROR'' ''disk write failed''
      (s\<lparr>rs_buffer := Some b', rs_writer := Some (p, w'), rs_fs := (rs_fs s)(p := d')\<rparr>))
      \<lparr>rs_sessions := sm_set_error ''disk_write_failed'' (rs_sessions s)\<rparr>)"
    using assms(2-5) l st ws by (simp add: s'_def writer_loop_turn_def writer_write_def)
  have e: "rs_state s' = SError" using i by (simp add: s' sm_state_def sm_set_error_def)
  have stop: "stop_recording e2 r s' = (ENotRecording, s')" for r
    using e assms(6) by (simp add: stop_recording_def stop_begin_def s' log_error_def)
  show ?thesis using e stop by (simp add: s' diag_defs log_error_def handle_control_command_def)
qed

theorem failed_session_not_finalised_witness:
  "\<exists>s s'. s' = snd (writer_loop_turn demo_env s) \<and> rs_state s = SRecording \<and> rs_state s' = SError \<and>
    handle_control_command demo_svc_env ''STOP now'' s' = (''ERR not_recording'' @ nl @ nl, s')"
proof -
  obtain s w d where s: "daemon_recording s" "rs_writer s = Some (demo_path, w)"
    "rs_buffer s = Some demo_buffer" "\<not> rs_finalize_in_progress s"
    by (rule demo_session)
  let ?s = "s\<lparr>rs_buffer := Some (push [1] demo_buffer)\<rparr>"
  have q: "pop (push [1] demo_buffer) = (Some [1], snd (pop (push [1] demo_buffer)))"
    by (simp add: demo_buffer_def push_def new_packet_buffer_def Let_def evict.simps pop_def)
  have rec: "daemon_recording ?s" using s(1) by (simp add: daemon_recording_def)
  have w: "write_contract_frame demo_env [1] (w, rs_fs ?s demo_path) = (False, (w, rs_fs ?s demo_path))"
    by (simp add: write_contract_frame_def)
  have "rs_state (snd (writer_loop_turn demo_env ?s)) = SError \<and>
    handle_control_command demo_svc_env (''STOP '' @ ''now'') (snd (writer_loop_turn demo_env ?s))
      = (''ERR not_recording'' @ nl @ nl, snd (writer_loop_turn demo_env ?s))"
    using failed_session_not_finalised [OF rec _ q _ w] s(2,4) by simp
  then show ?thesis using rec
    by (intro exI [of _ ?s] exI [of _ "snd (writer_loop_turn demo_env ?s)"])
      (simp add: daemon_recording_def)
qed

end
