(* ===== verification/ControlIpc.thy ===== *)
theory ControlIpc
  imports RuntimeService
begin

text \<open>
  The control channel, \<open>runtimepc/src/control_ipc.cpp\<close>: one connection carries one request line to
  the daemon and one response back. The bytes of each \<open>recv\<close> are given; an empty piece is a
  closed or failed connection. Socket and pid-file calls themselves are outside.
\<close>

section \<open>Requests\<close>

fun strip_eol :: "string \<Rightarrow> string" where
  "strip_eol r = rev (dropWhile (\<lambda>c. c = CHR 0x0D \<or> c = CHR 0x0A) (rev r))"

text \<open>\<open>ReadRequest\<close>: a single \<open>recv\<close> of at most 511 bytes.\<close>

definition read_request :: "string \<Rightarrow> string" where
  "read_request received = strip_eol (takeWhile (\<lambda>c. c \<noteq> CHR 0x0A) (take 511 received))"

definition request_line :: "string \<Rightarrow> string" where
  "request_line command = command @ nl"

section \<open>Responses\<close>

fun has_blank :: "string \<Rightarrow> bool" where
  "has_blank (a # b # s) \<longleftrightarrow> (a = CHR 0x0A \<and> b = CHR 0x0A) \<or> has_blank (b # s)"
| "has_blank _ \<longleftrightarrow> False"

text \<open>The receiving loop of \<open>SendCommand\<close>, over the pieces the socket yields.\<close>

fun collect_response :: "string list \<Rightarrow> string \<Rightarrow> string" where
  "collect_response [] response = response"
| "collect_response (piece # pieces) response =
     (if piece = [] then response
      else if has_blank (response @ piece) then response @ piece
      else collect_response pieces (response @ piece))"

text \<open>\<open>SendCommand\<close>: empty when the daemon cannot be reached.\<close>

definition send_command :: "bool \<Rightarrow> string list \<Rightarrow> string" where
  "send_command connected pieces = (if connected then collect_response pieces '''' else '''')"

fun contains_ok :: "string \<Rightarrow> bool" where
  "contains_ok (a # b # s) \<longleftrightarrow> (a = CHR ''O'' \<and> b = CHR ''K'') \<or> contains_ok (b # s)"
| "contains_ok _ \<longleftrightarrow> False"

definition daemon_reachable :: "bool \<Rightarrow> string list \<Rightarrow> bool" where
  "daemon_reachable connected pieces = contains_ok (send_command connected pieces)"

definition is_daemon_running :: "bool \<Rightarrow> bool \<Rightarrow> string list \<Rightarrow> bool" where
  "is_daemon_running pid_file connected pieces = (pid_file \<and> daemon_reachable connected pieces)"

text \<open>One turn of \<open>ServeLoop\<close> on an accepted connection: the request that arrived, the response sent.\<close>

definition serve_connection ::
  "(string \<Rightarrow> 's \<Rightarrow> string \<times> 's) \<Rightarrow> string \<Rightarrow> 's \<Rightarrow> string \<times> 's"
where
  "serve_connection handler received s = handler (read_request received) s"

section \<open>One exchange\<close>

lemma has_blank_prefix: "has_blank s \<Longrightarrow> has_blank (s @ t)"
  by (induction s rule: has_blank.induct) auto

lemma has_blank_line:
  assumes "l \<noteq> []" and "CHR 0x0A \<notin> set l"
  shows "has_blank (l @ CHR 0x0A # s) \<longleftrightarrow> has_blank (CHR 0x0A # s)"
  using assms
proof (induction l)
  case (Cons a l)
  then show ?case by (cases l) auto
qed simp

lemma has_blank_lines:
  "\<forall>l\<in>set ls. l \<noteq> [] \<and> CHR 0x0A \<notin> set l \<Longrightarrow> \<not> has_blank (CHR 0x0A # concat (map (\<lambda>l. l @ nl) ls)) \<and>
     \<not> has_blank (concat (map (\<lambda>l. l @ nl) ls))"
proof (induction ls)
  case (Cons l ls)
  then obtain a m where l: "l = a # m" "a \<noteq> CHR 0x0A" by (cases l) auto
  have "\<not> has_blank (l @ CHR 0x0A # concat (map (\<lambda>l. l @ nl) ls))"
    using Cons has_blank_line [of l] by simp
  then show ?case using l by (simp add: nl_def)
qed simp

lemma collect_all:
  assumes "response @ concat pieces = whole @ [c]" and "\<not> has_blank whole" and "[] \<notin> set pieces"
  shows "collect_response pieces response = whole @ [c]"
  using assms
proof (induction pieces arbitrary: response)
  case (Cons p ps)
  show ?case
  proof (cases "ps = []")
    case True
    with Cons.prems show ?thesis by simp
  next
    case False
    then obtain x xs where "concat ps = xs @ [x]"
      using Cons.prems(3) by (metis append_butlast_last_id concat_eq_Nil_conv list.set_intros(1)
          list.set_intros(2) neq_Nil_conv)
    then have "whole = (response @ p) @ xs" using Cons.prems(1) by simp
    then have "\<not> has_blank (response @ p)" using Cons.prems(2) has_blank_prefix by blast
    with Cons show ?thesis by auto
  qed
qed simp

lemma read_request_line:
  assumes "CHR 0x0A \<notin> set cmd" "length cmd < 511" "cmd = [] \<or> last cmd \<noteq> CHR 0x0D"
  shows "read_request (request_line cmd) = cmd"
proof -
  have "takeWhile (\<lambda>c. c \<noteq> CHR 0x0A) (take 511 (cmd @ [CHR 0x0A])) = cmd"
    using assms by (auto simp: takeWhile_append intro!: takeWhile_eq_all_conv [THEN iffD2])
  moreover have "strip_eol cmd = cmd"
    using assms(1,3) by (cases cmd rule: rev_cases) auto
  ultimately show ?thesis by (simp add: read_request_def request_line_def nl_def)
qed

text \<open>Every response of the recorder's handler is a text ended by the first blank line it has.\<close>

definition one_line :: "string \<Rightarrow> bool" where "one_line s \<longleftrightarrow> CHR 0x0A \<notin> set s"

definition one_line_state :: "runtime_service \<Rightarrow> bool" where
  "one_line_state s \<longleftrightarrow> one_line (rc_ego_host (rs_config s)) \<and> one_line (dg_health (rs_diag s)) \<and>
     (case sm_active (rs_sessions s) of None \<Rightarrow> True | Some i \<Rightarrow> one_line (si_session_id i)) \<and>
     list_all (\<lambda>x. one_line (fst x)) (dg_reject_by_reason (rs_diag s))"

definition diag_lines :: "svc_env \<Rightarrow> runtime_service \<Rightarrow> string list" where
  "diag_lines e s =
     (let g = rs_diag s;
          sid = (case sm_active (rs_sessions s) of None \<Rightarrow> '''' | Some i \<Rightarrow> si_session_id i)
      in [''session_state='' @ session_state_to_string (rs_state s), ''session_id='' @ sid,
         ''ego_host='' @ rc_ego_host (rs_config s),
         ''data_port='' @ dec (unat (rc_data_port (rs_config s))),
         ''packets_received='' @ dec (unat (dg_packets_received g)),
         ''packets_written='' @ dec (unat (dg_packets_written g)),
         ''bad_packets='' @ dec (unat (dg_bad_packets g)),
         ''packets_lost='' @ dec (unat (dg_packets_lost g)),
         ''seq_gaps='' @ dec (unat (dg_seq_gaps g)), ''disk_free_gb='' @ se_disk_text e,
         ''health='' @ dg_health g] @
         map (\<lambda>(k, n). ''reject_'' @ k @ ''='' @ dec (unat n)) (dg_reject_by_reason g))"

lemma diag_reject_lines_map:
  "diag_reject_lines xs = concat (map (\<lambda>l. l @ nl) (map (\<lambda>(k, n). ''reject_'' @ k @ ''='' @ dec (unat n)) xs))"
  by (induction xs rule: diag_reject_lines.induct) auto

lemma build_diagnostics_lines:
  "build_diagnostics_text e s = concat (map (\<lambda>l. l @ nl) (diag_lines e s))"
  by (simp add: build_diagnostics_text_def diag_lines_def Let_def diag_reject_lines_map)

lemma newline_dec [simp]: "CHR 0x0A \<notin> set (dec n)"
  by (rule newline_not_digit)

lemma diag_lines_ok:
  assumes "one_line_state s" and "one_line (se_disk_text e)"
  shows "\<forall>l\<in>set (diag_lines e s). l \<noteq> [] \<and> CHR 0x0A \<notin> set l"
  using assms
  by (auto simp: diag_lines_def one_line_state_def one_line_def Let_def session_state_to_string_def
      list_all_iff split: option.splits session_state.splits)

lemma response_shape:
  assumes "one_line_state s" and "one_line (se_disk_text e)"
  shows "\<exists>text. fst (handle_control_command e cmd s) = text @ nl \<and> \<not> has_blank text"
proof -
  have d: "\<exists>text. build_diagnostics_text e s @ nl = text @ nl \<and> \<not> has_blank text"
    using has_blank_lines [OF diag_lines_ok [OF assms]] by (auto simp: build_diagnostics_lines)
  have c: "\<exists>text. line @ nl @ nl = text @ nl \<and> \<not> has_blank text" if "line \<noteq> []" "one_line line" for line
    using that has_blank_line [of line "[]"] by (intro exI [of _ "line @ nl"]) (simp add: nl_def one_line_def)
  show ?thesis
    using d c [of "''OK''"] c [of "''OK stopped''"] c [of "''ERR not_recording''"]
      c [of "''OK recording''"] c [of "''ERR session_busy''"] c [of "''ERR start_failed''"]
      c [of "''ERR unknown_command''"]
    by (auto simp: handle_control_command_def one_line_def split: prod.splits)
qed

text \<open>A control exchange is exact: for a command line without line ends that fits the daemon's
  buffer, the daemon handles exactly that command, and however the socket cuts the response, the
  client returns exactly the response the recorder gave - it never stops early at a line of the
  diagnostics nor waits past the end.\<close>

theorem control_exchange:
  assumes "CHR 0x0A \<notin> set cmd" and "length cmd < 511" and "cmd = [] \<or> last cmd \<noteq> CHR 0x0D"
    and "one_line_state s" and "one_line (se_disk_text e)"
    and "serve_connection (handle_control_command e) (request_line cmd) s = (response, s')"
    and "concat pieces = response" and "[] \<notin> set pieces"
  shows "(response, s') = handle_control_command e cmd s \<and> send_command True pieces = response"
proof -
  have h: "(response, s') = handle_control_command e cmd s"
    using assms(6) by (simp add: serve_connection_def read_request_line [OF assms(1-3)])
  obtain body where "response = body @ nl" "\<not> has_blank body"
    using response_shape [OF assms(4,5), of cmd] h by (metis fst_conv)
  then show ?thesis using h assms(7,8) collect_all [of "''''" pieces body "CHR 0x0A"]
    by (simp add: send_command_def nl_def)
qed

theorem control_exchange_witness:
  "send_command True [''ERR not_rec'', ''ording'' @ nl, nl] = ''ERR not_recording'' @ nl @ nl"
proof -
  let ?s = "new_runtime_service default_config (\<lambda>_. [])"
  let ?e = "undefined\<lparr>se_disk_text := ''1''\<rparr> :: svc_env"
  have h: "handle_control_command ?e ''STOP now'' ?s = (''ERR not_recording'' @ nl @ nl, ?s)"
    by (simp add: handle_control_command_def stop_recording_def stop_begin_def stop_reason_of_def
        new_runtime_service_def sm_state_def new_session_manager_def)
  have o: "one_line_state ?s"
    by (simp add: one_line_state_def one_line_def new_runtime_service_def default_config_def
        new_diagnostics_def new_session_manager_def)
  have r: "read_request (request_line ''STOP now'') = ''STOP now''"
    by (rule read_request_line) simp_all
  show ?thesis
    using control_exchange [of "''STOP now''" ?s ?e "''ERR not_recording'' @ nl @ nl" ?s
        "[''ERR not_rec'', ''ording'' @ nl, nl]"] h o
    by (simp add: one_line_def nl_def serve_connection_def r)
qed

end
