(* ===== verification/ControlServer.thy ===== *)
theory ControlServer
  imports ControlIpc
begin

text \<open>
  The control channel's server side, \<open>ControlServer\<close> and the pid file of \<open>runtimepc/src/control_ipc.cpp\<close> (POSIX
  branch). What the socket calls answer is given; the socket and the pid file are files of the data directory.
  A turn of the serving loop sees whether a stop was requested and what \<open>select\<close> and \<open>accept\<close> gave.
\<close>

section \<open>The files\<close>

definition control_endpoint_path :: "runtime_config \<Rightarrow> string" where
  "control_endpoint_path config = path_join (rc_data_root config) ''ego-runtime.sock''"

definition pid_file_path :: "runtime_config \<Rightarrow> string" where
  "pid_file_path config = path_join (rc_data_root config) ''ego-runtime.pid''"

definition write_pid_file :: "runtime_config \<Rightarrow> bool \<Rightarrow> nat \<Rightarrow> dir \<Rightarrow> dir" where
  "write_pid_file config open_ok pid d =
     (if open_ok then put (pid_file_path config) (text_bytes (dec pid)) d else d)"

definition remove_pid_file :: "runtime_config \<Rightarrow> dir \<Rightarrow> dir" where
  "remove_pid_file config d = remove_file (pid_file_path config) d"

section \<open>Start and stop\<close>

record control_server =
  cs_config :: runtime_config
  cs_running :: bool
  cs_stop :: bool
  cs_listening :: bool

record socket_results =
  sk_socket :: bool
  sk_bind :: bool
  sk_listen :: bool

definition new_control_server :: "runtime_config \<Rightarrow> control_server" where
  "new_control_server config = \<lparr>cs_config = config, cs_running = False, cs_stop = False, cs_listening = False\<rparr>"

text \<open>\<open>sun_path\<close> has 108 characters, the last of them the end. A socket whose start fails later stays open.\<close>

definition start_server :: "socket_results \<Rightarrow> control_server \<Rightarrow> dir \<Rightarrow> bool \<times> control_server \<times> dir" where
  "start_server r s d =
     (if cs_running s then (True, s, d)
      else if \<not> sk_socket r then (False, s\<lparr>cs_listening := False\<rparr>, d)
      else
        let path = control_endpoint_path (cs_config s); s = s\<lparr>cs_listening := True\<rparr>; d = remove_file path d in
        if 108 \<le> length path then (False, s, d)
        else if \<not> sk_bind r then (False, s, d)
        else
          let d = put path [] d in
          if \<not> sk_listen r then (False, s, d) else (True, s\<lparr>cs_stop := False, cs_running := True\<rparr>, d))"

text \<open>The stop is requested before the server is woken by a command of its own, so the loop sees it then; the
  thread is joined.\<close>

definition stop_server :: "control_server \<Rightarrow> dir \<Rightarrow> control_server \<times> dir" where
  "stop_server s d =
     (let s = s\<lparr>cs_stop := True\<rparr> in
      if cs_listening s
      then (s\<lparr>cs_listening := False, cs_running := False\<rparr>, remove_file (control_endpoint_path (cs_config s)) d)
      else (s\<lparr>cs_running := False\<rparr>, d))"

section \<open>The serving loop\<close>

datatype accepted = Nothing_ready | Accept_failed | Client string

definition serve_request :: "(string \<Rightarrow> 's \<Rightarrow> string \<times> 's) option \<Rightarrow> string \<Rightarrow> 's \<Rightarrow> string \<times> 's" where
  "serve_request handler received s =
     (case handler of None \<Rightarrow> (''ERR no handler'' @ nl, s) | Some h \<Rightarrow> serve_connection h received s)"

text \<open>The loop over the turns: the stop flag as it is read, and what came. The result has the responses sent.\<close>

fun serve_loop ::
  "(string \<Rightarrow> 's \<Rightarrow> string \<times> 's) option \<Rightarrow> (bool \<times> accepted) list \<Rightarrow> 's \<Rightarrow> string list \<times> 's"
where
  "serve_loop handler [] s = ([], s)"
| "serve_loop handler ((stop, a) # turns) s =
     (if stop then ([], s)
      else case a of
        Client received \<Rightarrow>
          (let (response, s') = serve_request handler received s; (rs, s'') = serve_loop handler turns s'
           in (response # rs, s''))
      | _ \<Rightarrow> serve_loop handler turns s)"

section \<open>Facts\<close>

text \<open>Every client accepted before the stop is seen gets one response, in order, and none after it.\<close>

definition served :: "(bool \<times> accepted) list \<Rightarrow> string list" where
  "served turns = concat (map (\<lambda>(_, a). case a of Client r \<Rightarrow> [r] | _ \<Rightarrow> []) (takeWhile (\<lambda>(stop, _). \<not> stop) turns))"

fun replies :: "('r \<Rightarrow> 's \<Rightarrow> string \<times> 's) \<Rightarrow> 'r list \<Rightarrow> 's \<Rightarrow> string list \<times> 's" where
  "replies h [] s = ([], s)"
| "replies h (r # rs) s = (let (x, s') = h r s; (xs, s'') = replies h rs s' in (x # xs, s''))"

lemma serve_loop_replies: "serve_loop handler turns s = replies (serve_request handler) (served turns) s"
  by (induction handler turns s rule: serve_loop.induct)
    (auto simp: served_def split: accepted.split prod.split)

lemma start_then_stop:
  assumes "start_server r s d = (True, s', d')" and "\<not> cs_running s"
  shows "stop_server s' d' = (s\<lparr>cs_stop := True, cs_listening := False, cs_running := False\<rparr>,
    remove_file (control_endpoint_path (cs_config s)) d')"
  using assms by (auto simp: start_server_def stop_server_def Let_def split: if_splits)

text \<open>The daemon's pid file is there while it runs and gone after.\<close>

lemma pid_file_life:
  "fget (write_pid_file config True pid d) (pid_file_path config) = Some (text_bytes (dec pid)) \<and>
   fget (remove_pid_file config d) (pid_file_path config) = None"
  by (simp add: write_pid_file_def remove_pid_file_def)

end
