(* ===== verification/Ieee.thy ===== *)
theory Ieee
  imports Prelude Complex_Main
begin

text \<open>
  IEEE 754 arithmetic on bit patterns, for the \<open>float\<close> and \<open>double\<close> of the code: a pattern is decoded
  to a sign and an exact rational magnitude, an operation computes exactly and rounds once to the
  nearest value, ties to the even mantissa. Every NaN produced is the quiet one.
\<close>

unbundle bit_operations_syntax

section \<open>Formats\<close>

record format =
  fm_exp :: nat
  fm_frac :: nat

definition binary32 :: format where "binary32 = \<lparr>fm_exp = 8, fm_frac = 23\<rparr>"
definition binary64 :: format where "binary64 = \<lparr>fm_exp = 11, fm_frac = 52\<rparr>"

definition fm_bias :: "format \<Rightarrow> int" where "fm_bias fm = 2 ^ (fm_exp fm - 1) - 1"

datatype fval = FNaN | FInf bool | FFin bool rat

definition pow2 :: "int \<Rightarrow> rat" where
  "pow2 e = (if 0 \<le> e then 2 ^ nat e else 1 / 2 ^ nat (- e))"

definition decode_float :: "format \<Rightarrow> nat \<Rightarrow> fval" where
  "decode_float fm n =
     (let f = fm_frac fm; frac = n mod 2 ^ f; ex = n div 2 ^ f mod 2 ^ fm_exp fm;
          neg = odd (n div 2 ^ (f + fm_exp fm))
      in if ex = 2 ^ fm_exp fm - 1 then (if frac = 0 then FInf neg else FNaN)
         else if ex = 0 then FFin neg (of_nat frac * pow2 (1 - fm_bias fm - int f))
         else FFin neg (of_nat (2 ^ f + frac) * pow2 (int ex - fm_bias fm - int f)))"

fun bit_length :: "nat \<Rightarrow> nat" where
  "bit_length n = (if n = 0 then 0 else Suc (bit_length (n div 2)))"

declare bit_length.simps [simp del]

definition floor_log2 :: "rat \<Rightarrow> int" where
  "floor_log2 r =
     (case quotient_of r of (a, b) \<Rightarrow>
        let e = int (bit_length (nat a)) - int (bit_length (nat b)) in if r < pow2 e then e - 1 else e)"

definition round_half_even :: "rat \<Rightarrow> int" where
  "round_half_even r =
     (let k = \<lfloor>r\<rfloor>; d = r - of_int k in
      if d < 1 / 2 then k else if d > 1 / 2 then k + 1 else if even k then k else k + 1)"

definition sign_bit :: "format \<Rightarrow> bool \<Rightarrow> nat" where
  "sign_bit fm neg = (if neg then 2 ^ (fm_frac fm + fm_exp fm) else 0)"

definition encode_inf :: "format \<Rightarrow> bool \<Rightarrow> nat" where
  "encode_inf fm neg = sign_bit fm neg + (2 ^ fm_exp fm - 1) * 2 ^ fm_frac fm"

definition encode_nan :: "format \<Rightarrow> nat" where
  "encode_nan fm = (2 ^ fm_exp fm - 1) * 2 ^ fm_frac fm + 2 ^ (fm_frac fm - 1)"

text \<open>Rounding a magnitude: a mantissa that rounds up to the next power of two carries into the
  exponent field by itself.\<close>

definition encode_fin :: "format \<Rightarrow> bool \<Rightarrow> rat \<Rightarrow> nat" where
  "encode_fin fm neg r =
     (if r = 0 then sign_bit fm neg
      else
        let f = fm_frac fm; e = max (floor_log2 r) (1 - fm_bias fm);
            m = round_half_even (r / pow2 (e - int f));
            code = (if m < 2 ^ f then m else (e + fm_bias fm) * 2 ^ f + (m - 2 ^ f))
        in if code \<ge> (2 ^ fm_exp fm - 1) * 2 ^ f then encode_inf fm neg
           else sign_bit fm neg + nat code)"

definition encode_float :: "format \<Rightarrow> fval \<Rightarrow> nat" where
  "encode_float fm v =
     (case v of FNaN \<Rightarrow> encode_nan fm | FInf neg \<Rightarrow> encode_inf fm neg
      | FFin neg r \<Rightarrow> encode_fin fm neg r)"

section \<open>Operations\<close>

definition signed :: "bool \<Rightarrow> rat \<Rightarrow> rat" where "signed neg r = (if neg then - r else r)"

definition fin_of :: "bool \<Rightarrow> rat \<Rightarrow> fval" where
  "fin_of zero_neg r = (if r = 0 then FFin zero_neg 0 else FFin (r < 0) \<bar>r\<bar>)"

definition fneg :: "fval \<Rightarrow> fval" where
  "fneg x = (case x of FNaN \<Rightarrow> FNaN | FInf s \<Rightarrow> FInf (\<not> s) | FFin s r \<Rightarrow> FFin (\<not> s) r)"

definition fadd :: "fval \<Rightarrow> fval \<Rightarrow> fval" where
  "fadd x y =
     (case (x, y) of
        (FNaN, _) \<Rightarrow> FNaN | (_, FNaN) \<Rightarrow> FNaN
      | (FInf s, FInf t) \<Rightarrow> (if s = t then FInf s else FNaN)
      | (FInf s, _) \<Rightarrow> FInf s | (_, FInf t) \<Rightarrow> FInf t
      | (FFin s a, FFin t b) \<Rightarrow> fin_of (s \<and> t) (signed s a + signed t b))"

definition fmul :: "fval \<Rightarrow> fval \<Rightarrow> fval" where
  "fmul x y =
     (case (x, y) of
        (FNaN, _) \<Rightarrow> FNaN | (_, FNaN) \<Rightarrow> FNaN
      | (FInf s, FInf t) \<Rightarrow> FInf (s \<noteq> t)
      | (FInf s, FFin t b) \<Rightarrow> (if b = 0 then FNaN else FInf (s \<noteq> t))
      | (FFin s a, FInf t) \<Rightarrow> (if a = 0 then FNaN else FInf (s \<noteq> t))
      | (FFin s a, FFin t b) \<Rightarrow> FFin (s \<noteq> t) (a * b))"

definition fdiv :: "fval \<Rightarrow> fval \<Rightarrow> fval" where
  "fdiv x y =
     (case (x, y) of
        (FNaN, _) \<Rightarrow> FNaN | (_, FNaN) \<Rightarrow> FNaN
      | (FInf s, FInf t) \<Rightarrow> FNaN
      | (FInf s, FFin t b) \<Rightarrow> FInf (s \<noteq> t)
      | (FFin s a, FInf t) \<Rightarrow> FFin (s \<noteq> t) 0
      | (FFin s a, FFin t b) \<Rightarrow>
          (if b = 0 then (if a = 0 then FNaN else FInf (s \<noteq> t)) else FFin (s \<noteq> t) (a / b)))"

definition fless :: "fval \<Rightarrow> fval \<Rightarrow> bool" where
  "fless x y =
     (case (x, y) of
        (FNaN, _) \<Rightarrow> False | (_, FNaN) \<Rightarrow> False
      | (FInf s, FInf t) \<Rightarrow> s \<and> \<not> t
      | (FInf s, FFin t b) \<Rightarrow> s
      | (FFin s a, FInf t) \<Rightarrow> \<not> t
      | (FFin s a, FFin t b) \<Rightarrow> signed s a < signed t b)"

definition feq :: "fval \<Rightarrow> fval \<Rightarrow> bool" where
  "feq x y =
     (case (x, y) of
        (FInf s, FInf t) \<Rightarrow> s = t
      | (FFin s a, FFin t b) \<Rightarrow> signed s a = signed t b
      | _ \<Rightarrow> False)"

section \<open>The types float and double\<close>

type_synonym f32 = u32
type_synonym f64 = u64

definition val64 :: "f64 \<Rightarrow> fval" where "val64 x = decode_float binary64 (unat x)"
definition val32 :: "f32 \<Rightarrow> fval" where "val32 x = decode_float binary32 (unat x)"
definition f64_of :: "fval \<Rightarrow> f64" where "f64_of v = of_nat (encode_float binary64 v)"
definition f32_of :: "fval \<Rightarrow> f32" where "f32_of v = of_nat (encode_float binary32 v)"

definition add64 :: "f64 \<Rightarrow> f64 \<Rightarrow> f64" where "add64 x y = f64_of (fadd (val64 x) (val64 y))"
definition sub64 :: "f64 \<Rightarrow> f64 \<Rightarrow> f64" where "sub64 x y = f64_of (fadd (val64 x) (fneg (val64 y)))"
definition mul64 :: "f64 \<Rightarrow> f64 \<Rightarrow> f64" where "mul64 x y = f64_of (fmul (val64 x) (val64 y))"
definition div64 :: "f64 \<Rightarrow> f64 \<Rightarrow> f64" where "div64 x y = f64_of (fdiv (val64 x) (val64 y))"
definition less64 :: "f64 \<Rightarrow> f64 \<Rightarrow> bool" where "less64 x y = fless (val64 x) (val64 y)"
definition eq64 :: "f64 \<Rightarrow> f64 \<Rightarrow> bool" where "eq64 x y = feq (val64 x) (val64 y)"
definition mul32 :: "f32 \<Rightarrow> f32 \<Rightarrow> f32" where "mul32 x y = f32_of (fmul (val32 x) (val32 y))"
definition div32 :: "f32 \<Rightarrow> f32 \<Rightarrow> f32" where "div32 x y = f32_of (fdiv (val32 x) (val32 y))"
definition less32 :: "f32 \<Rightarrow> f32 \<Rightarrow> bool" where "less32 x y = fless (val32 x) (val32 y)"
definition eq32 :: "f32 \<Rightarrow> f32 \<Rightarrow> bool" where "eq32 x y = feq (val32 x) (val32 y)"

text \<open>Conversions: of integers (rounding), between the formats, and of a decimal constant.\<close>

definition f64_of_int :: "int \<Rightarrow> f64" where "f64_of_int k = f64_of (fin_of False (of_int k))"
definition f64_of_rat :: "rat \<Rightarrow> f64" where "f64_of_rat r = f64_of (fin_of False r)"
definition f32_of_rat :: "rat \<Rightarrow> f32" where "f32_of_rat r = f32_of (fin_of False r)"
definition f32_to_f64 :: "f32 \<Rightarrow> f64" where "f32_to_f64 x = f64_of (val32 x)"
definition f64_to_f32 :: "f64 \<Rightarrow> f32" where "f64_to_f32 x = f32_of (val64 x)"

definition abs64 :: "f64 \<Rightarrow> f64" where "abs64 x = x AND 0x7FFFFFFFFFFFFFFF"

section \<open>The order of the doubles\<close>

lemma fless_irrefl: "\<not> fless x x"
  by (auto simp: fless_def split: fval.splits)

lemma fless_trans: "fless x y \<Longrightarrow> fless y z \<Longrightarrow> fless x z"
  by (auto simp: fless_def split: fval.splits)

lemma fless_total: "x \<noteq> FNaN \<Longrightarrow> y \<noteq> FNaN \<Longrightarrow> fless x y \<or> fless y x \<or> feq x y"
  by (auto simp: fless_def feq_def split: fval.splits)

end
