(* ===== verification/StorageMonitor.thy ===== *)
theory StorageMonitor
  imports ControlIpc Ieee
begin

text \<open>
  The storage monitor, \<open>runtimepc/src/storage_monitor.cpp\<close> (POSIX branch): classifying the free space
  and the loop that reports every change of the level. Each turn is given what \<open>statvfs\<close> returned:
  nothing, or available blocks, total blocks and fragment size.
\<close>

section \<open>The monitor\<close>

record storage_status =
  ss_free_gb :: f64
  ss_free_percent :: f64
  ss_level :: storage_level

type_synonym vfs = "(u64 \<times> u64 \<times> u64) option"

definition free_space :: "vfs \<Rightarrow> f64 \<times> f64" where
  "free_space v =
     (case v of None \<Rightarrow> (0, f64_of_int 100)
      | Some (f_bavail, f_blocks, f_frsize) \<Rightarrow>
          let free_bytes = mul64 (f64_of_int (uint f_bavail)) (f64_of_int (uint f_frsize));
              total_bytes = mul64 (f64_of_int (uint f_blocks)) (f64_of_int (uint f_frsize))
          in (div64 free_bytes (f64_of_int (1024 * 1024 * 1024)),
              if less64 0 total_bytes then div64 (mul64 (f64_of_int 100) free_bytes) total_bytes
              else f64_of_int 100))"

definition level_of :: "runtime_config \<Rightarrow> f64 \<times> f64 \<Rightarrow> storage_level" where
  "level_of cfg space = (case space of (free_gb, free_percent) \<Rightarrow>
     if less64 free_gb (rc_critical_free_gb cfg) \<or> less64 free_percent (rc_critical_free_percent cfg)
     then LCritical
     else if less64 free_gb (rc_warn_free_gb cfg) \<or> less64 free_percent (rc_warn_free_percent cfg)
     then LWarning
     else LOk)"

definition query :: "runtime_config \<Rightarrow> vfs \<Rightarrow> storage_status" where
  "query cfg v = \<lparr>ss_free_gb = fst (free_space v), ss_free_percent = snd (free_space v),
     ss_level = level_of cfg (free_space v)\<rparr>"

text \<open>\<open>MonitorLoop\<close>: the handler runs when the level differs from the last one.\<close>

fun monitor_loop ::
  "runtime_config \<Rightarrow> (storage_status \<Rightarrow> 's \<Rightarrow> 's) \<Rightarrow> storage_level \<Rightarrow> vfs list \<Rightarrow> 's \<Rightarrow> 's"
where
  "monitor_loop cfg handler last_level [] s = s"
| "monitor_loop cfg handler last_level (v # vs) s =
     (let status = query cfg v in
      if ss_level status \<noteq> last_level
      then monitor_loop cfg handler (ss_level status) vs (handler status s)
      else monitor_loop cfg handler last_level vs s)"

section \<open>What the recorder hears\<close>

lemma monitor_alerts_from:
  "monitor_loop cfg (\<lambda>st as. as @ [ss_level st]) lvl vs acc =
     acc @ tl (remdups_adj (lvl # map (\<lambda>v. level_of cfg (free_space v)) vs))"
proof (induction vs arbitrary: lvl acc)
  case (Cons v vs)
  have hd: "remdups_adj (x # xs) = x # tl (remdups_adj (x # xs))" for x :: storage_level and xs
    by (metis hd_remdups_adj list.collapse list.sel(1) remdups_adj_Nil_iff list.distinct(1))
  let ?l = "level_of cfg (free_space v)"
  show ?case
  proof (cases "?l = lvl")
    case True
    then show ?thesis using Cons by (simp add: query_def)
  next
    case False
    then show ?thesis using Cons [of ?l] hd [of ?l "map (\<lambda>v. level_of cfg (free_space v)) vs"]
      by (simp add: query_def)
  qed
qed simp

text \<open>The monitor reports every change of the storage level and nothing else: over any readings of
  the file system the alerts are the levels of the readings with repetitions removed, starting
  from \<open>ok\<close>. So a recording started while the level stays critical is never stopped by the
  monitor.\<close>

theorem monitor_reports_changes:
  "monitor_loop cfg (\<lambda>st alerts. alerts @ [ss_level st]) LOk readings [] =
     tl (remdups_adj (LOk # map (\<lambda>v. level_of cfg (free_space v)) readings))"
  by (simp add: monitor_alerts_from)

end
