(* ===== verification/DaemonControl.thy ===== *)
theory DaemonControl
  imports ControlServer StorageMonitor
begin

text \<open>
  The recorder's process around the service: \<open>StartControlServer\<close>, \<open>StopDaemon\<close> with the control server and the
  pid file, \<open>Status\<close> and \<open>ReportLoop\<close> of \<open>runtimepc/src/runtime_service.cpp\<close>, and the start and stop of the
  storage monitor. The state has the files of the data directory; the control server's handler is the service's.
\<close>

section \<open>The process\<close>

record daemon_process =
  dp_service :: runtime_service
  dp_control :: "control_server option"
  dp_data :: dir

text \<open>A control server that is replaced or destroyed is stopped first.\<close>

definition drop_control :: "daemon_process \<Rightarrow> dir" where
  "drop_control p = (case dp_control p of None \<Rightarrow> dp_data p | Some srv \<Rightarrow> snd (stop_server srv (dp_data p)))"

definition start_control_server :: "socket_results \<Rightarrow> bool \<Rightarrow> nat \<Rightarrow> daemon_process \<Rightarrow> bool \<times> daemon_process" where
  "start_control_server r open_ok pid p =
     (let config = rs_config (dp_service p);
          (ok, srv, d) = start_server r (new_control_server config) (drop_control p);
          p = p\<lparr>dp_control := Some srv\<rparr>
      in if \<not> ok then (False, p\<lparr>dp_data := d\<rparr>) else (True, p\<lparr>dp_data := write_pid_file config open_ok pid d\<rparr>))"

definition stop_daemon_process :: "daemon_process \<Rightarrow> daemon_process" where
  "stop_daemon_process p =
     \<lparr>dp_service = stop_daemon (dp_service p), dp_control = None,
      dp_data = remove_pid_file (rs_config (dp_service p)) (drop_control p)\<rparr>"

section \<open>Serving commands\<close>

text \<open>The handler of the control server; the environment of the \<open>k\<close>-th command is \<open>env k\<close>.\<close>

definition command_handler :: "(nat \<Rightarrow> svc_env) \<Rightarrow> string \<Rightarrow> nat \<times> runtime_service \<Rightarrow> string \<times> nat \<times> runtime_service" where
  "command_handler env cmd st =
     (case st of (k, s) \<Rightarrow> (case handle_control_command (env k) cmd s of (response, s') \<Rightarrow> (response, Suc k, s')))"

section \<open>Status and reports\<close>

record runtime_status =
  rt_session_state :: session_state
  rt_metrics :: runtime_metrics
  rt_session_id :: string
  rt_session_dir :: string

definition status_of :: "(u64 \<Rightarrow> f64 \<Rightarrow> f64) \<Rightarrow> f64 \<Rightarrow> runtime_service \<Rightarrow> runtime_status" where
  "status_of mbps elapsed s =
     \<lparr>rt_session_state = rs_state s,
      rt_metrics = snapshot mbps (Some (if less64 0 elapsed then elapsed else f64_of_int 1)) (rs_diag s),
      rt_session_id = (case sm_active (rs_sessions s) of None \<Rightarrow> '''' | Some i \<Rightarrow> si_session_id i),
      rt_session_dir = (case sm_active (rs_sessions s) of None \<Rightarrow> '''' | Some i \<Rightarrow> si_storage_path i)\<rparr>"

text \<open>The turns of the report thread: whether a stop was requested when the turn began, and its environment.\<close>

fun report_loop :: "(bool \<times> svc_env) list \<Rightarrow> runtime_service \<Rightarrow> runtime_service" where
  "report_loop [] s = s"
| "report_loop ((stop, e) # turns) s = (if stop then s else report_loop turns (write_runtime_report e s))"

section \<open>The storage monitor's thread\<close>

record storage_monitor =
  mn_config :: runtime_config
  mn_running :: bool
  mn_stop :: bool
  mn_latest :: storage_status

definition new_storage_monitor :: "runtime_config \<Rightarrow> storage_monitor" where
  "new_storage_monitor config = \<lparr>mn_config = config, mn_running = False, mn_stop = False,
     mn_latest = \<lparr>ss_free_gb = 0, ss_free_percent = f64_of_int 100, ss_level = LOk\<rparr>\<rparr>"

definition start_monitor :: "storage_monitor \<Rightarrow> storage_monitor" where
  "start_monitor m = (if mn_running m then m else m\<lparr>mn_stop := False, mn_running := True\<rparr>)"

definition stop_monitor :: "storage_monitor \<Rightarrow> storage_monitor" where
  "stop_monitor m = m\<lparr>mn_stop := True, mn_running := False\<rparr>"

definition observe :: "vfs \<Rightarrow> storage_monitor \<Rightarrow> storage_monitor" where
  "observe v m = m\<lparr>mn_latest := query (mn_config m) v\<rparr>"

section \<open>Facts\<close>

text \<open>The clients are served in the order in which they were accepted, each with the response to its own command
  in the state the earlier ones left, however many turns pass without a client.\<close>

definition sendable :: "string \<Rightarrow> bool" where
  "sendable cmd \<longleftrightarrow> CHR 0x0A \<notin> set cmd \<and> length cmd < 511 \<and> (cmd = [] \<or> last cmd \<noteq> CHR 0x0D)"

lemma replies_map: "list_all sendable cmds \<Longrightarrow>
    replies (serve_request (Some h)) (map request_line cmds) s = replies h cmds s"
  by (induction cmds arbitrary: s)
    (auto simp: serve_request_def serve_connection_def sendable_def read_request_line split: prod.split)

lemma clients_served_in_order:
  assumes "list_all sendable cmds" and "served turns = map request_line cmds"
  shows "serve_loop (Some (command_handler env)) turns (k, s) = replies (command_handler env) cmds (k, s)"
  by (simp add: serve_loop_replies assms(2) replies_map [OF assms(1)])

lemma paths_differ: "control_endpoint_path config \<noteq> pid_file_path config"
  by (simp add: control_endpoint_path_def pid_file_path_def path_join_def)

text \<open>While the control server runs its socket and the pid file are there; stopping the daemon takes both away
  and leaves every other file of the data directory as it was.\<close>

lemma control_files:
  assumes "start_control_server r True pid p = (True, p')"
  shows "fget (dp_data p') (control_endpoint_path (rs_config (dp_service p))) = Some []"
    "fget (dp_data p') (pid_file_path (rs_config (dp_service p))) = Some (text_bytes (dec pid))"
    "fget (dp_data (stop_daemon_process p')) (control_endpoint_path (rs_config (dp_service p))) = None"
    "fget (dp_data (stop_daemon_process p')) (pid_file_path (rs_config (dp_service p))) = None"
    "n \<noteq> control_endpoint_path (rs_config (dp_service p)) \<Longrightarrow> n \<noteq> pid_file_path (rs_config (dp_service p)) \<Longrightarrow>
      fget (dp_data (stop_daemon_process p')) n = fget (drop_control p) n"
  using assms paths_differ [of "rs_config (dp_service p)"]
  by (auto simp: start_control_server_def start_server_def new_control_server_def write_pid_file_def Let_def
      stop_daemon_process_def drop_control_def stop_server_def remove_pid_file_def split: if_splits prod.splits)

text \<open>A monitor that is running is not started twice, and its latest reading is the last one.\<close>

lemma monitor_restart: "start_monitor (start_monitor m) = start_monitor m"
  by (simp add: start_monitor_def)

lemma latest_reading: "mn_latest (fold observe (vs @ [v]) m) = query (mn_config m) v"
proof -
  have "mn_config (fold observe vs m) = mn_config m" by (induction vs arbitrary: m) (simp_all add: observe_def)
  then show ?thesis by (simp add: observe_def)
qed

end
