(* ===== verification/ErrorLog.thy ===== *)
theory ErrorLog
  imports Files
begin

text \<open>
  The rotating error log, \<open>runtimepc/src/error_log.cpp\<close>, over the directory that holds it: lines go
  to \<open>path\<close>, full files move to \<open>path.1\<close>, ..., \<open>path.10\<close>. The line (clock text, level, message) is
  an input together with the outcome of opening the file; renaming an existing file is assumed to
  succeed (the code lets the exception pass).
\<close>

section \<open>The class\<close>

datatype log_level = LogInfo | LogWarning | LogError

definition level_to_string :: "log_level \<Rightarrow> string" where
  "level_to_string level =
     (case level of LogInfo \<Rightarrow> ''INFO'' | LogWarning \<Rightarrow> ''WARN'' | LogError \<Rightarrow> ''ERROR'')"

record error_log =
  el_path :: string
  el_current_size :: u64

definition kMaxFileBytes :: nat where "kMaxFileBytes = 50 * 1024 * 1024"
definition kMaxRotations :: nat where "kMaxRotations = 10"

definition new_error_log :: "string \<Rightarrow> dir \<Rightarrow> error_log" where
  "new_error_log path d = \<lparr>el_path = path, el_current_size = of_nat (length (contents d path))\<rparr>"

definition rename_file :: "string \<Rightarrow> string \<Rightarrow> dir \<Rightarrow> dir" where
  "rename_file src dst d =
     (case fget d src of None \<Rightarrow> d | Some bs \<Rightarrow> remove_file src (put dst bs d))"

definition rotated_name :: "string \<Rightarrow> nat \<Rightarrow> string" where
  "rotated_name path i = path @ ''.'' @ dec i"

text \<open>The loop of \<open>RotateIfNeeded\<close>, from \<open>i\<close> down to 1.\<close>

fun rotate_from :: "string \<Rightarrow> nat \<Rightarrow> dir \<Rightarrow> dir" where
  "rotate_from path 0 d = d"
| "rotate_from path (Suc i) d =
     rotate_from path i (rename_file (rotated_name path (Suc i)) (rotated_name path (Suc i + 1)) d)"

definition rotate_log :: "error_log \<times> dir \<Rightarrow> error_log \<times> dir" where
  "rotate_log ld = (case ld of (l, d) \<Rightarrow>
     if el_current_size l < of_nat kMaxFileBytes then (l, d)
     else (l\<lparr>el_current_size := 0\<rparr>,
       rename_file (el_path l) (rotated_name (el_path l) 1)
         (rotate_from (el_path l) (kMaxRotations - 1) d)))"

definition log_line :: "string \<Rightarrow> log_level \<Rightarrow> string \<Rightarrow> string" where
  "log_line now level message =
     now @ '' ['' @ level_to_string level @ ''] '' @ message @ [CHR 0x0A]"

definition write_log :: "bool \<Rightarrow> string \<Rightarrow> log_level \<Rightarrow> string \<Rightarrow> error_log \<times> dir \<Rightarrow> error_log \<times> dir" where
  "write_log open_ok now level message ld =
     (case rotate_log ld of (l, d) \<Rightarrow>
        if \<not> open_ok then (l, d)
        else
          let line = text_bytes (log_line now level message) in
          (l\<lparr>el_current_size := el_current_size l + of_nat (length line)\<rparr>,
           put (el_path l) (contents d (el_path l) @ line) d))"

section \<open>Names\<close>

definition log_name :: "string \<Rightarrow> nat \<Rightarrow> string" where
  "log_name path i = (if i = 0 then path else rotated_name path i)"

lemma log_name_inj [simp]: "log_name path i = log_name path j \<longleftrightarrow> i = j"
  by (auto simp: log_name_def rotated_name_def dec_eq_iff)

lemma log_name_path [simp]: "log_name path j = path \<longleftrightarrow> j = 0" "path = log_name path j \<longleftrightarrow> j = 0"
  by (auto simp: log_name_def rotated_name_def)

lemma rename_get:
  "src \<noteq> dst \<Longrightarrow> fget (rename_file src dst d) m =
     (if fget d src = None then fget d m
      else if m = src then None else if m = dst then fget d src else fget d m)"
  by (auto simp: rename_file_def split: option.splits)

text \<open>The files from the oldest to the newest, and the shape a log directory has: the rotated files
  present are the first \<open>k\<close>.\<close>

definition log_file :: "string \<Rightarrow> dir \<Rightarrow> nat \<Rightarrow> bytes" where
  "log_file path d i = contents d (log_name path i)"

definition history :: "string \<Rightarrow> dir \<Rightarrow> bytes" where
  "history path d = concat (map (log_file path d) (rev [0..<Suc kMaxRotations]))"

definition log_shape :: "string \<Rightarrow> dir \<Rightarrow> bool" where
  "log_shape path d \<longleftrightarrow> (\<forall>i j. 0 < i \<and> i \<le> j \<and> fget d (log_name path i) = None \<longrightarrow>
     fget d (log_name path j) = None)"

lemma rotated_log_name: "0 < i \<Longrightarrow> rotated_name path i = log_name path i"
  by (simp add: log_name_def)

text \<open>The loop shifts the rotated files by one, the oldest being overwritten.\<close>

lemma rotate_from_get:
  assumes "\<forall>i. 0 < i \<and> i \<le> n \<and> fget d (log_name path i) = None \<longrightarrow>
    fget d (log_name path (Suc i)) = None"
  shows "fget (rotate_from path n d) (log_name path j) =
    (if j = 1 \<and> 0 < n then None
     else if 2 \<le> j \<and> j \<le> n + 1 then fget d (log_name path (j - 1))
     else fget d (log_name path j))"
  using assms
proof (induction n arbitrary: d)
  case 0
  then show ?case by auto
next
  case (Suc n)
  let ?d = "rename_file (log_name path (Suc n)) (log_name path (Suc (Suc n))) d"
  have g: "fget ?d (log_name path j) =
      (if j = Suc n then None else if j = Suc (Suc n) then fget d (log_name path (Suc n))
       else fget d (log_name path j))" for j
  proof (cases "fget d (log_name path (Suc n)) = None")
    case True
    then have "fget d (log_name path (Suc (Suc n))) = None" using Suc.prems by auto
    with True show ?thesis by (auto simp: rename_get)
  qed (auto simp: rename_get)
  have "fget (rotate_from path n ?d) (log_name path j) =
    (if j = 1 \<and> 0 < n then None
     else if 2 \<le> j \<and> j \<le> n + 1 then fget ?d (log_name path (j - 1))
     else fget ?d (log_name path j))"
    by (rule Suc.IH) (use Suc.prems in \<open>auto simp: g\<close>)
  then show ?case using g [of j] g [of "j - 1"] by (auto simp: rotated_log_name)
qed

lemma rotate_get:
  assumes "log_shape path d" and "fget d path \<noteq> None"
  shows "fget (rename_file path (rotated_name path 1) (rotate_from path (kMaxRotations - 1) d))
      (log_name path j) =
    (if j = 0 then None else if j \<le> kMaxRotations then fget d (log_name path (j - 1))
     else fget d (log_name path j))"
proof -
  have r: "fget (rotate_from path (kMaxRotations - 1) d) (log_name path j) =
    (if j = 1 then None else if 2 \<le> j \<and> j \<le> kMaxRotations then fget d (log_name path (j - 1))
     else fget d (log_name path j))" for j
  proof -
    have "\<forall>i. 0 < i \<and> i \<le> kMaxRotations - 1 \<and> fget d (log_name path i) = None \<longrightarrow>
      fget d (log_name path (Suc i)) = None"
      using assms(1) le_SucI unfolding log_shape_def by blast
    from rotate_from_get [OF this] show ?thesis by (auto simp: kMaxRotations_def)
  qed
  have p: "log_name path 0 = path" "rotated_name path 1 = log_name path 1"
    by (simp_all add: log_name_def)
  have a2: "fget d (log_name path 0) \<noteq> None" using assms(2) by (simp add: log_name_def)
  define R where "R = rotate_from path (kMaxRotations - 1) d"
  note r = r [folded R_def]
  have "fget (rename_file (log_name path 0) (log_name path 1) (rotate_from path (kMaxRotations - 1) d))
      (log_name path j) =
    (if j = 0 then None else if j \<le> kMaxRotations then fget d (log_name path (j - 1))
     else fget d (log_name path j))"
    unfolding R_def [symmetric] using a2 by (auto simp: rename_get r kMaxRotations_def)
  then show ?thesis by (simp only: p)
qed

section \<open>The newest lines are kept\<close>

text \<open>\<open>log_inv n all ld\<close>: after writing \<open>all\<close>, no line longer than \<open>n\<close>.\<close>

definition log_inv :: "nat \<Rightarrow> bytes \<Rightarrow> error_log \<times> dir \<Rightarrow> bool" where
  "log_inv n all ld \<longleftrightarrow> (case ld of (l, d) \<Rightarrow>
     log_shape (el_path l) d \<and> (\<forall>j > kMaxRotations. fget d (log_name (el_path l) j) = None) \<and>
     (\<exists>lost. all = lost @ history (el_path l) d) \<and>
     unat (el_current_size l) = length (contents d (el_path l)) \<and>
     (\<forall>i. length (log_file (el_path l) d i) < kMaxFileBytes + n))"

lemma history_unfold:
  "history path d = concat (map (log_file path d) (rev [1..<Suc kMaxRotations])) @ contents d path"
proof -
  have "[0..<Suc kMaxRotations] = 0 # [1..<Suc kMaxRotations]" by (simp add: upt_conv_Cons)
  then show ?thesis by (simp add: history_def log_file_def log_name_def)
qed

lemma rotate_inv:
  assumes inv: "log_inv n all (l, d)" and r: "rotate_log (l, d) = (l', d')"
  shows "log_inv n all (l', d') \<and> el_path l' = el_path l \<and> unat (el_current_size l') < kMaxFileBytes"
proof (cases "el_current_size l < of_nat kMaxFileBytes")
  case True
  then have "unat (el_current_size l) < kMaxFileBytes"
    by (simp add: word_less_nat_alt kMaxFileBytes_def)
  with True inv r show ?thesis by (simp add: rotate_log_def)
next
  case False
  let ?p = "el_path l"
  have l': "el_path l' = ?p" "el_current_size l' = 0"
    and d': "d' = rename_file ?p (rotated_name ?p 1) (rotate_from ?p (kMaxRotations - 1) d)"
    using r False by (auto simp: rotate_log_def)
  have sz: "unat (el_current_size l) = length (contents d ?p)" using inv by (simp add: log_inv_def)
  have "fget d ?p \<noteq> None"
  proof
    assume "fget d ?p = None"
    then have "unat (el_current_size l) = 0" using sz by (simp add: contents_def)
    with False show False by (simp add: word_less_nat_alt kMaxFileBytes_def)
  qed
  then have g: "fget d' (log_name ?p j) = (if j = 0 then None
      else if j \<le> kMaxRotations then fget d (log_name ?p (j - 1)) else fget d (log_name ?p j))" for j
    unfolding d' by (intro rotate_get) (use inv in \<open>simp add: log_inv_def\<close>)
  have f: "log_file ?p d' j = (if j = 0 then []
      else if j \<le> kMaxRotations then log_file ?p d (j - 1) else log_file ?p d j)" for j
    using g [of j] by (auto simp: log_file_def contents_def)
  have shape: "log_shape ?p d'"
    unfolding log_shape_def
  proof (intro allI impI)
    fix i j assume a: "0 < i \<and> i \<le> j \<and> fget d' (log_name ?p i) = None"
    show "fget d' (log_name ?p j) = None"
    proof (cases "i \<le> kMaxRotations")
      case True
      with a g have n: "fget d (log_name ?p (i - 1)) = None" by auto
      have "i \<noteq> 1" using n \<open>fget d ?p \<noteq> None\<close> by (auto simp: log_name_def)
      with a have le: "0 < i - 1" "i - 1 \<le> j - 1" "i - 1 \<le> j" by auto
      have "log_shape ?p d" using inv by (simp add: log_inv_def)
      then have "fget d (log_name ?p (j - 1)) = None" "fget d (log_name ?p j) = None"
        using le n unfolding log_shape_def by blast+
      then show ?thesis using g [of j] by simp
    next
      case False
      with a show ?thesis using inv g [of j] by (auto simp: log_inv_def)
    qed
  qed
  have h: "history ?p d' = concat (map (log_file ?p d) (rev [0..<kMaxRotations]))"
  proof -
    have "map (log_file ?p d') [1..<Suc kMaxRotations] = map (log_file ?p d) [0..<kMaxRotations]"
      by (intro nth_equalityI) (auto simp: f simp del: upt_Suc)
    moreover have "contents d' ?p = []" using f [of 0] by (simp add: log_file_def log_name_def)
    ultimately show ?thesis by (simp add: history_unfold flip: rev_map del: upt_Suc)
  qed
  have "history ?p d = log_file ?p d kMaxRotations @ history ?p d'"
    unfolding h by (simp add: history_def)
  then have "\<exists>lost. all = lost @ history ?p d'" using inv by (force simp: log_inv_def)
  moreover have "contents d' ?p = []" using f [of 0] by (simp add: log_file_def log_name_def)
  ultimately show ?thesis using inv shape l' g
    by (auto simp: log_inv_def f kMaxFileBytes_def)
qed

lemma write_inv:
  assumes inv: "log_inv n all ld" and n: "length (log_line now lvl msg) \<le> n" "n < 2 ^ 32"
  shows "log_inv n (all @ (if ok then text_bytes (log_line now lvl msg) else []))
    (write_log ok now lvl msg ld)"
proof -
  obtain l d where ld: "ld = (l, d)" by (rule prod.exhaust)
  obtain l' d' where r: "rotate_log (l, d) = (l', d')" by (rule prod.exhaust)
  let ?line = "text_bytes (log_line now lvl msg)"
  have ri: "log_inv n all (l', d') \<and> unat (el_current_size l') < kMaxFileBytes"
    using rotate_inv [OF inv [unfolded ld] r] by blast
  let ?p = "el_path l'"
  have len: "length ?line \<le> n" using n(1) by (simp add: text_bytes_def)
  have p0: "?p = log_name ?p 0" by (simp add: log_name_def)
  have g: "fget (put ?p bs d') (log_name ?p j) = (if j = 0 then Some bs else fget d' (log_name ?p j))"
    for bs j by (subst (1) p0) simp
  show ?thesis
  proof (cases ok)
    case True
    let ?d = "put ?p (contents d' ?p @ ?line) d'"
    have f: "log_file ?p ?d j = log_file ?p d' j @ (if j = 0 then ?line else [])" for j
      using g [of _ j] by (auto simp: log_file_def contents_def p0 [symmetric])
    have "history ?p ?d = history ?p d' @ ?line"
    proof -
      have "map (log_file ?p ?d) (rev [1..<Suc kMaxRotations])
          = map (log_file ?p d') (rev [1..<Suc kMaxRotations])"
        by (intro map_cong) (auto simp: f)
      then show ?thesis by (simp only: history_unfold) simp
    qed
    moreover have "unat (el_current_size l' + of_nat (length ?line))
        = length (contents d' ?p) + length ?line"
    proof -
      have "unat (el_current_size l') + length ?line < 2 ^ 64"
        using ri len n(2) by (simp add: kMaxFileBytes_def)
      then show ?thesis using ri len n(2)
        by (simp add: unat_word_ariths unat_of_nat_small log_inv_def)
    qed
    moreover have "length (log_file ?p ?d i) < kMaxFileBytes + n" for i
    proof (cases "i = 0")
      case True
      have "unat (el_current_size l') = length (contents d' ?p)" using ri by (simp only: log_inv_def prod.case)
      then have "length (contents d' ?p) < kMaxFileBytes" using ri by argo
      moreover have "log_file ?p ?d 0 = contents d' ?p @ ?line"
        by (subst f) (simp add: log_file_def log_name_def)
      ultimately show ?thesis using len True by simp
    next
      case False
      then show ?thesis using ri by (simp add: f log_inv_def)
    qed
    moreover have "log_shape ?p ?d" using ri by (auto simp: log_shape_def log_inv_def g)
    ultimately show ?thesis using True ri r
      by (auto simp: write_log_def ld log_inv_def Let_def g)
  next
    case False
    then show ?thesis using ri by (simp add: write_log_def ld r)
  qed
qed

fun write_logs :: "(bool \<times> string \<times> log_level \<times> string) list \<Rightarrow> error_log \<times> dir \<Rightarrow> error_log \<times> dir" where
  "write_logs [] ld = ld"
| "write_logs ((ok, now, level, msg) # ws) ld = write_logs ws (write_log ok now level msg ld)"

definition logged :: "(bool \<times> string \<times> log_level \<times> string) list \<Rightarrow> bytes" where
  "logged ws = concat (map (\<lambda>(ok, now, level, msg).
     if ok then text_bytes (log_line now level msg) else []) ws)"

lemma write_logs_inv:
  "log_inv n all ld \<Longrightarrow> \<forall>(ok, now, level, msg)\<in>set ws. length (log_line now level msg) \<le> n \<Longrightarrow> n < 2 ^ 32 \<Longrightarrow>
     log_inv n (all @ logged ws) (write_logs ws ld)"
proof (induction ws arbitrary: all ld)
  case Nil
  then show ?case by (simp add: logged_def)
next
  case (Cons w ws)
  obtain ok now level msg where w: "w = (ok, now, level, msg)" by (cases w) auto
  have "log_inv n (all @ (if ok then text_bytes (log_line now level msg) else []))
      (write_log ok now level msg ld)"
    by (rule write_inv) (use Cons.prems in \<open>simp_all add: w\<close>)
  from Cons.IH [OF this] Cons.prems show ?case by (simp add: w logged_def)
qed

lemma write_logs_path: "el_path (fst (write_logs ws ld)) = el_path (fst ld)"
proof (induction ws arbitrary: ld)
  case (Cons w ws)
  obtain ok now level msg where w: "w = (ok, now, level, msg)" by (cases w) auto
  have "el_path (fst (write_log ok now level msg ld)) = el_path (fst ld)"
    by (auto simp: write_log_def rotate_log_def Let_def split: prod.splits)
  then show ?case by (simp add: w Cons)
qed simp

text \<open>The rotating log keeps the newest lines: starting without log files, after any sequence of
  writes - whichever of them cannot open the file - the eleven log files, from the oldest rotation
  to the current file, hold exactly a suffix of the lines logged, in order, nothing is written to
  any twelfth file, and every file stays under 50 MiB plus one line.\<close>

theorem error_log_keeps_newest:
  assumes "\<forall>i. fget d0 (log_name path i) = None"
    and "\<forall>(ok, now, level, msg)\<in>set ws. length (log_line now level msg) \<le> n" and "n < 2 ^ 32"
    and "write_logs ws (new_error_log path d0, d0) = (l, d)"
  shows "(\<exists>lost. logged ws = lost @ history path d) \<and>
    (\<forall>j > kMaxRotations. fget d (log_name path j) = None) \<and>
    (\<forall>i. length (log_file path d i) < kMaxFileBytes + n)"
proof -
  have e: "contents d0 (log_name path i) = []" for i using assms(1) by (simp add: contents_def)
  have "contents d0 path = []" using e [of 0] by (simp add: log_name_def)
  then have "log_inv n [] (new_error_log path d0, d0)"
    using assms(1) e
    by (auto simp: log_inv_def new_error_log_def log_shape_def history_def log_file_def kMaxFileBytes_def)
  from write_logs_inv [OF this assms(2,3)] have "log_inv n (logged ws) (l, d)" by (simp add: assms(4))
  moreover have "el_path l = path"
    using write_logs_path [of ws "(new_error_log path d0, d0)"] unfolding assms(4)
    by (simp add: new_error_log_def)
  ultimately show ?thesis by (simp add: log_inv_def)
qed

theorem error_log_keeps_newest_witness:
  "\<exists>l d lost. write_logs [(True, ''t'', LogError, ''disk''), (False, ''t'', LogInfo, ''x'')]
      (new_error_log ''e.log'' [], []) = (l, d) \<and>
    text_bytes (log_line ''t'' LogError ''disk'') = lost @ history ''e.log'' d"
proof -
  let ?ws = "[(True, ''t'', LogError, ''disk''), (False, ''t'', LogInfo, ''x'')]"
  obtain l d where r: "write_logs ?ws (new_error_log ''e.log'' [], []) = (l, d)" by (rule prod.exhaust)
  have b: "\<forall>(ok, now, level, msg)\<in>set ?ws. length (log_line now level msg) \<le> 100"
    by (simp add: log_line_def level_to_string_def)
  have "\<exists>lost. logged ?ws = lost @ history ''e.log'' d"
    using error_log_keeps_newest [OF _ b _ r] by simp
  then show ?thesis using r by (simp add: logged_def)
qed

end
