(* ===== verification/OfflineTrigger.thy ===== *)
theory OfflineTrigger
  imports RuntimeConfig Files
begin

text \<open>
  Starting the offline pipeline for a finished session, \<open>runtimepc/src/offline_trigger.cpp\<close> (POSIX
  branch). Which files exist and the outcome of \<open>fork\<close> are inputs; the trigger log's text and the
  argument vector are results.
\<close>

section \<open>The trigger\<close>

record offline_trigger_result =
  ot_started :: bool
  ot_pid :: int
  ot_error :: string

definition new_trigger_result :: offline_trigger_result where
  "new_trigger_result = \<lparr>ot_started = False, ot_pid = 0, ot_error = ''''\<rparr>"

text \<open>\<open>file_exists\<close>: \<open>is_file\<close> is \<open>std::filesystem::is_regular_file\<close>.\<close>

definition file_exists :: "(string \<Rightarrow> bool) \<Rightarrow> string \<Rightarrow> bool" where
  "file_exists is_file path \<longleftrightarrow> path \<noteq> [] \<and> is_file path"

definition build_argv :: "(string \<Rightarrow> bool) \<Rightarrow> runtime_config \<Rightarrow> string \<Rightarrow> string list" where
  "build_argv is_file config session_dir =
     (let hook = rc_offline config in
      [oh_binary hook, ''process'', ''--session-dir'', session_dir] @
      (if oh_config_path hook \<noteq> [] then [''--config'', oh_config_path hook] else []) @
      (if \<not> oh_skip_s3 hook \<and> file_exists is_file (oh_s3_config_path hook)
       then [''--s3-config'', oh_s3_config_path hook]
       else if oh_skip_s3 hook then [''--skip-s3''] else []))"

text \<open>\<open>spawn_detached\<close> in the parent, for the value \<open>fork\<close> returns.\<close>

definition spawn_detached :: "int \<Rightarrow> offline_trigger_result" where
  "spawn_detached pid =
     (if pid < 0 then new_trigger_result\<lparr>ot_error := ''fork failed''\<rparr>
      else new_trigger_result\<lparr>ot_started := True, ot_pid := pid\<rparr>)"

fun joined :: "string list \<Rightarrow> string" where
  "joined [] = ''''"
| "joined [a] = a"
| "joined (a # as) = a @ '' '' @ joined as"

definition int_text :: "int \<Rightarrow> string" where
  "int_text n = (if n < 0 then ''-'' @ dec (nat (- n)) else dec (nat n))"

definition tqt :: "string \<Rightarrow> string" where "tqt s = [CHR 0x22] @ s @ [CHR 0x22]"

definition trigger_log_text :: "offline_trigger_result \<Rightarrow> string list \<Rightarrow> string" where
  "trigger_log_text result argv =
     ''{'' @ [CHR 0x0A] @
     ''  '' @ tqt ''started'' @ '': '' @ (if ot_started result then ''true'' else ''false'') @ '','' @ [CHR 0x0A] @
     ''  '' @ tqt ''pid'' @ '': '' @ int_text (ot_pid result) @ '','' @ [CHR 0x0A] @
     ''  '' @ tqt ''error'' @ '': '' @ tqt (ot_error result) @ '','' @ [CHR 0x0A] @
     ''  '' @ tqt ''command'' @ '': '' @ tqt (joined argv) @ [CHR 0x0A] @
     ''}'' @ [CHR 0x0A]"

text \<open>\<open>TriggerOfflinePipeline\<close>: the result, the argument vector logged with it.\<close>

definition trigger_offline_pipeline ::
  "(string \<Rightarrow> bool) \<Rightarrow> int \<Rightarrow> runtime_config \<Rightarrow> string \<Rightarrow> offline_trigger_result \<times> string list"
where
  "trigger_offline_pipeline is_file pid config session_dir =
     (let hook = rc_offline config; result = new_trigger_result in
      if \<not> oh_enabled hook then (result\<lparr>ot_error := ''offline hook disabled''\<rparr>, [])
      else if session_dir = [] then (result\<lparr>ot_error := ''empty session_dir''\<rparr>, [])
      else if \<not> file_exists is_file (oh_binary hook)
      then (result\<lparr>ot_error := ''ego-offline binary not found: '' @ oh_binary hook\<rparr>, [])
      else if oh_config_path hook \<noteq> [] \<and> \<not> file_exists is_file (oh_config_path hook)
      then (result\<lparr>ot_error := ''offline config not found: '' @ oh_config_path hook\<rparr>, [])
      else
        let argv = build_argv is_file config session_dir
        in (spawn_detached pid, argv))"

end
