(* ===== verification/RuntimeProcess.thy ===== *)
theory RuntimeProcess
  imports OfflineTrigger
begin

text \<open>
  The recorder's process: the shutdown flag of \<open>runtimepc/src/shutdown.cpp\<close> (POSIX branch), the version of
  \<open>runtimepc/src/version.cpp\<close>, the session ids of \<open>util.hpp\<close>, and the trigger of the offline pipeline with
  its log. The clock, the random number and the build's hash are inputs.
\<close>

section \<open>Shutdown\<close>

record shutdown_state =
  sh_requested :: bool
  sh_reason :: string

definition new_shutdown_state :: shutdown_state where
  "new_shutdown_state = \<lparr>sh_requested = False, sh_reason = ''signal''\<rparr>"

definition sigterm :: int where "sigterm = 15"
definition sigint :: int where "sigint = 2"

definition signal_handler :: "int \<Rightarrow> shutdown_state \<Rightarrow> shutdown_state" where
  "signal_handler signum s =
     s\<lparr>sh_reason := (if signum = sigterm then ''sigterm'' else ''sigint''), sh_requested := True\<rparr>"

text \<open>The waiting loop: the signals that arrive during each pause. None is a wait that has not ended yet.\<close>

fun wait_for_shutdown :: "int list list \<Rightarrow> shutdown_state \<Rightarrow> shutdown_state option" where
  "wait_for_shutdown pauses s =
     (if sh_requested s then Some s
      else case pauses of [] \<Rightarrow> None | sigs # rest \<Rightarrow> wait_for_shutdown rest (fold signal_handler sigs s))"

lemma signal_stays: "sh_requested s \<Longrightarrow> sh_requested (fold signal_handler sigs s)"
  by (induction sigs arbitrary: s) (simp_all add: signal_handler_def)

text \<open>The wait ends exactly after the first pause with a signal; the reason is that of the last signal in it.\<close>

lemma wait_ends_iff:
  "\<not> sh_requested s \<Longrightarrow> (wait_for_shutdown pauses s \<noteq> None) = (\<exists>sigs \<in> set pauses. sigs \<noteq> [])"
proof (induction pauses arbitrary: s)
  case (Cons sigs rest)
  show ?case
  proof (cases sigs)
    case Nil
    then show ?thesis using Cons by simp
  next
    case (Cons x xs)
    have "sh_requested (fold signal_handler sigs s)"
      using signal_stays [of "signal_handler x s" xs] by (simp add: Cons signal_handler_def)
    then show ?thesis using Cons.prems by (simp add: Cons)
  qed
qed simp

section \<open>Version and session ids\<close>

definition version_string :: "string option \<Rightarrow> string" where
  "version_string hash = (case hash of Some h \<Rightarrow> ''1.0.0+'' @ h | None \<Rightarrow> ''1.0.0+dev'')"

definition make_session_id :: "nat \<Rightarrow> nat \<Rightarrow> string" where
  "make_session_id now_ms r = ''session-'' @ dec now_ms @ ''-'' @ dec r"

text \<open>Ids made at different times are different, whatever the random numbers.\<close>

lemma session_ids_differ:
  assumes "make_session_id t r = make_session_id t' r'"
  shows "t = t' \<and> r = r'"
proof -
  have eq: "dec t @ CHR ''-'' # dec r = dec t' @ CHR ''-'' # dec r'" using assms by (simp add: make_session_id_def)
  have no: "CHR ''-'' \<notin> set (dec n)" for n using dec_digits [of "CHR ''-''" n] by (auto simp: is_digit_def)
  have cut: "takeWhile (\<lambda>c. c \<noteq> CHR ''-'') (dec n @ CHR ''-'' # xs) = dec n"
    "dropWhile (\<lambda>c. c \<noteq> CHR ''-'') (dec n @ CHR ''-'' # xs) = CHR ''-'' # xs" for n xs
    using no [of n] by (auto simp: takeWhile_append dropWhile_append)
  have "dec t = dec t'" using arg_cong [OF eq, of "takeWhile (\<lambda>c. c \<noteq> CHR ''-'')"] by (simp only: cut)
  moreover have "dec r = dec r'"
    using arg_cong [OF eq, of "dropWhile (\<lambda>c. c \<noteq> CHR ''-'')"] by (simp only: cut list.inject)
  ultimately show ?thesis by (simp add: dec_eq_iff)
qed

definition read_file_bytes :: "dir \<Rightarrow> string \<Rightarrow> bytes" where
  "read_file_bytes d path = (case fget d path of None \<Rightarrow> [] | Some bs \<Rightarrow> bs)"

section \<open>The trigger and its log\<close>

definition write_trigger_log :: "bool \<Rightarrow> string \<Rightarrow> offline_trigger_result \<Rightarrow> string list \<Rightarrow> dir \<Rightarrow> dir" where
  "write_trigger_log open_ok session_dir result argv d =
     (if open_ok then put (path_join session_dir ''logs/offline_trigger.json'') (text_bytes (trigger_log_text result argv)) d
      else d)"

definition trigger_and_log ::
  "(string \<Rightarrow> bool) \<Rightarrow> int \<Rightarrow> bool \<Rightarrow> runtime_config \<Rightarrow> string \<Rightarrow> dir \<Rightarrow> offline_trigger_result \<times> dir"
where
  "trigger_and_log is_file pid open_ok config session_dir d =
     (let (result, argv) = trigger_offline_pipeline is_file pid config session_dir
      in (result, write_trigger_log open_ok session_dir result argv d))"

end
