(* ===== verification/OfflineTypes.thy ===== *)
theory OfflineTypes
  imports EgoProtocol LegacyProtocol Ieee
begin

text \<open>
  The data the offline pipeline works on: the domain types of
  \<open>offline/include/ego_offline/types.hpp\<close> and the packed payload structs of
  \<open>offline/include/ego_offline/protocol.hpp\<close>, as layouts of named fields. A time \<open>ns_t\<close> is the
  64-bit word of an \<open>int64_t\<close>; floats and doubles are bit patterns.
\<close>

section \<open>Domain types\<close>

type_synonym ns_t = u64

definition kNsPerSec :: ns_t where "kNsPerSec = 1000000000"
definition kNsPerMs :: ns_t where "kNsPerMs = 1000000"
definition kNsPerUs :: ns_t where "kNsPerUs = 1000"

datatype stream_kind = Stream_ego | Stream_source | Stream_both

record time_range =
  tr_start_ns :: ns_t
  tr_end_ns :: ns_t
  tr_stream :: stream_kind
  tr_reason :: string

definition f32_zero :: f32 where "f32_zero = 0"
definition f64_zero :: f64 where "f64_zero = 0"

definition tr_duration_s :: "time_range \<Rightarrow> f64" where
  "tr_duration_s r = div64 (f64_of_int (sint (tr_end_ns r - tr_start_ns r))) (f64_of_int (10 ^ 9))"

definition tr_valid :: "time_range \<Rightarrow> bool" where
  "tr_valid r \<longleftrightarrow> sint (tr_start_ns r) < sint (tr_end_ns r)"

record gnss_point =
  gp_ts_ns :: ns_t
  gp_latitude_deg :: f64
  gp_longitude_deg :: f64
  gp_altitude_m :: f64
  gp_speed_mps :: f32
  gp_heading_deg :: f32
  gp_fix_quality :: byte
  gp_satellites :: byte
  gp_hdop :: f32

definition default_gnss_point :: gnss_point where
  "default_gnss_point = \<lparr>gp_ts_ns = 0, gp_latitude_deg = f64_zero, gp_longitude_deg = f64_zero,
     gp_altitude_m = f64_zero, gp_speed_mps = f32_zero, gp_heading_deg = f32_zero, gp_fix_quality = 0,
     gp_satellites = 0, gp_hdop = f32_of_rat (999 / 10)\<rparr>"

record imu_sample =
  is_ts_ns :: ns_t
  is_acc_x :: f32
  is_acc_y :: f32
  is_acc_z :: f32
  is_gyro_x :: f32
  is_gyro_y :: f32
  is_gyro_z :: f32

record trajectory_point =
  tp_ts_ns :: ns_t
  tp_latitude_deg :: f64
  tp_longitude_deg :: f64
  tp_altitude_m :: f64
  tp_vel_n_mps :: f32
  tp_vel_e_mps :: f32
  tp_vel_d_mps :: f32
  tp_roll_deg :: f32
  tp_pitch_deg :: f32
  tp_yaw_deg :: f32
  tp_solution_type :: byte

definition default_trajectory_point :: trajectory_point where
  "default_trajectory_point = \<lparr>tp_ts_ns = 0, tp_latitude_deg = f64_zero, tp_longitude_deg = f64_zero,
     tp_altitude_m = f64_zero, tp_vel_n_mps = f32_zero, tp_vel_e_mps = f32_zero,
     tp_vel_d_mps = f32_zero, tp_roll_deg = f32_zero, tp_pitch_deg = f32_zero,
     tp_yaw_deg = f32_zero, tp_solution_type = 0\<rparr>"

text \<open>A source event's type is kept as the number it is cast from.\<close>

datatype source_event_type =
  SE_unknown | SE_siren_on | SE_siren_off | SE_mode_change | SE_user_marker | SE_scenario_start
| SE_scenario_stop

primrec source_event_u16 :: "source_event_type \<Rightarrow> u16" where
  "source_event_u16 SE_unknown = 0"
| "source_event_u16 SE_siren_on = 1"
| "source_event_u16 SE_siren_off = 2"
| "source_event_u16 SE_mode_change = 3"
| "source_event_u16 SE_user_marker = 4"
| "source_event_u16 SE_scenario_start = 5"
| "source_event_u16 SE_scenario_stop = 6"

record source_event =
  sv_ts_ns :: ns_t
  sv_ts_ego_ns :: ns_t
  sv_event_id :: u64
  sv_event_type :: u16
  sv_flags :: u16
  sv_duration_ns :: ns_t

datatype segment_class = Approach | Pass_by | Recede | Stationary | Unknown_segment

primrec segment_to_string :: "segment_class \<Rightarrow> string" where
  "segment_to_string Approach = ''approach''"
| "segment_to_string Pass_by = ''pass_by''"
| "segment_to_string Recede = ''recede''"
| "segment_to_string Stationary = ''stationary''"
| "segment_to_string Unknown_segment = ''unknown''"

datatype exit_code =
  EC_success | EC_validation_error | EC_sync_error | EC_internal_error | EC_upload_failed
| EC_upload_blocked

primrec exit_code_int :: "exit_code \<Rightarrow> int" where
  "exit_code_int EC_success = 0"
| "exit_code_int EC_validation_error = 1"
| "exit_code_int EC_sync_error = 2"
| "exit_code_int EC_internal_error = 3"
| "exit_code_int EC_upload_failed = 4"
| "exit_code_int EC_upload_blocked = 5"

section \<open>Packet types and payload structs\<close>

datatype source_packet_type =
  kSourceEvent | kSourceGnssFix | kSourceRtkStatus | kSourceScenarioMeta | kSourceDiagnostics

primrec source_packet_u16 :: "source_packet_type \<Rightarrow> u16" where
  "source_packet_u16 kSourceEvent = 101"
| "source_packet_u16 kSourceGnssFix = 102"
| "source_packet_u16 kSourceRtkStatus = 103"
| "source_packet_u16 kSourceScenarioMeta = 104"
| "source_packet_u16 kSourceDiagnostics = 105"

text \<open>A named field of a packed struct at the start of a byte string, in the width of its type.\<close>

definition fld :: "layout \<Rightarrow> string \<Rightarrow> bytes \<Rightarrow> 'a::len word" where
  "fld l n bs = rd (the (field_offset l n)) (LENGTH('a) div 8) bs"

definition offline_packet_header :: layout where
  "offline_packet_header =
    [(''magic'', U32), (''protocol_version'', U16), (''payload_version'', U16), (''type'', U16),
     (''payload_size'', U32), (''ts_ns'', U64), (''seq'', U32), (''status_flags'', U32),
     (''checksum'', U32)]"

definition audio_block_header :: layout where
  "audio_block_header =
    [(''channels'', U8), (''bits_per_sample'', U8), (''sample_rate_hz'', U32), (''frame_count'', U32)]"

definition can_frame_payload :: layout where
  "can_frame_payload = [(''can_id'', U32), (''dlc'', U8), (''data'', U8_array 8), (''pad'', U8_array 3)]"

definition imu_payload :: layout where
  "imu_payload =
    [(''acc_x_mps2'', F32), (''acc_y_mps2'', F32), (''acc_z_mps2'', F32),
     (''gyro_x_rads'', F32), (''gyro_y_rads'', F32), (''gyro_z_rads'', F32), (''temp_c'', F32)]"

definition motion_state_payload :: layout where
  "motion_state_payload =
    [(''speed_mps'', F32), (''steering_angle_deg'', F32), (''yaw_rate_rads'', F32),
     (''acceleration_mps2'', F32), (''gear'', U8), (''brake_active'', U8), (''reserved'', U16)]"

definition gps_fix_payload :: layout where
  "gps_fix_payload =
    [(''latitude_deg'', F64), (''longitude_deg'', F64), (''altitude_m'', F64),
     (''speed_mps'', F32), (''heading_deg'', F32), (''fix_quality'', U8), (''satellites'', U8),
     (''hdop'', F32), (''reserved'', U16)]"

definition session_frame_payload :: layout where
  "session_frame_payload =
    [(''gps_lat_deg'', F64), (''gps_lon_deg'', F64), (''gps_alt_m'', F64),
     (''gps_speed_mps'', F32), (''gps_heading_deg'', F32), (''gps_fix_quality'', U8),
     (''gps_satellites'', U8), (''gps_hdop'', F32),
     (''imu_acc_x_mps2'', F32), (''imu_acc_y_mps2'', F32), (''imu_acc_z_mps2'', F32),
     (''imu_gyro_x_rads'', F32), (''imu_gyro_y_rads'', F32), (''imu_gyro_z_rads'', F32),
     (''record_active'', U8), (''sync_locked'', U8), (''status_word'', U16), (''frame_index'', U32)]"

definition diagnostics_payload :: layout where
  "diagnostics_payload =
    [(''health_state'', U8), (''cpu_load_pct'', U8), (''disk_free_pct'', U8), (''temperature_c'', U8),
     (''uptime_s'', U32), (''error_flags'', U32), (''reserved'', U8_array 4)]"

definition session_meta_header :: layout where
  "session_meta_header = [(''meta_type'', U8), (''reserved'', U8_array 3), (''payload_offset'', U32)]"

definition trajectory_payload :: layout where
  "trajectory_payload =
    [(''latitude_deg'', F64), (''longitude_deg'', F64), (''altitude_m'', F64),
     (''velocity_n_mps'', F32), (''velocity_e_mps'', F32), (''velocity_d_mps'', F32),
     (''roll_deg'', F32), (''pitch_deg'', F32), (''yaw_deg'', F32), (''solution_type'', U8),
     (''reserved'', U8_array 3)]"

definition source_event_payload :: layout where
  "source_event_payload =
    [(''event_id'', U64), (''event_type'', U16), (''flags'', U16), (''duration_ns'', U64),
     (''reserved'', U32)]"

definition source_gnss_fix_payload :: layout where
  "source_gnss_fix_payload =
    [(''latitude_deg'', F64), (''longitude_deg'', F64), (''altitude_m'', F64),
     (''speed_mps'', F32), (''heading_deg'', F32), (''fix_quality'', U8), (''satellites'', U8),
     (''hdop'', F32), (''reserved'', U16)]"

definition source_rtk_status_payload :: layout where
  "source_rtk_status_payload =
    [(''fix_type'', U8), (''correction_age_s'', U8), (''baseline_mm'', U32),
     (''solution_status'', U16), (''reserved'', U64)]"

definition source_diagnostics_header :: layout where
  "source_diagnostics_header =
    [(''health_state'', U8), (''siren_state'', U8), (''battery_pct'', U8), (''disk_free_pct'', U8),
     (''temperature_c'', U16), (''message_len'', U16)]"

lemmas offline_layout_defs =
  offline_packet_header_def audio_block_header_def can_frame_payload_def imu_payload_def
  motion_state_payload_def gps_fix_payload_def session_frame_payload_def diagnostics_payload_def
  session_meta_header_def trajectory_payload_def source_event_payload_def
  source_gnss_fix_payload_def source_rtk_status_payload_def source_diagnostics_header_def

text \<open>The sizes the \<open>static_assert\<close>s demand and the demultiplexers compare with.\<close>

lemma offline_layout_sizes [simp]:
  "layout_size offline_packet_header = 34"
  "layout_size audio_block_header = 10"
  "layout_size can_frame_payload = 16"
  "layout_size imu_payload = 28"
  "layout_size motion_state_payload = 20"
  "layout_size gps_fix_payload = 40"
  "layout_size session_frame_payload = 70"
  "layout_size diagnostics_payload = 16"
  "layout_size session_meta_header = 8"
  "layout_size trajectory_payload = 52"
  "layout_size source_event_payload = 24"
  "layout_size source_gnss_fix_payload = 40"
  "layout_size source_rtk_status_payload = 16"
  "layout_size source_diagnostics_header = 8"
  by (simp_all add: layout_size_def offline_layout_defs)

text \<open>The pipeline's packet header is the recorder's: a field of the one struct is read where the
  other has it.\<close>

lemma offline_packet_header_fields:
  "fld offline_packet_header ''magic'' bs = ph_magic (packet_header_at bs)"
  "fld offline_packet_header ''protocol_version'' bs = ph_protocol_version (packet_header_at bs)"
  "fld offline_packet_header ''payload_version'' bs = ph_payload_version (packet_header_at bs)"
  "fld offline_packet_header ''type'' bs = ph_type (packet_header_at bs)"
  "fld offline_packet_header ''payload_size'' bs = ph_payload_size (packet_header_at bs)"
  "fld offline_packet_header ''ts_ns'' bs = ph_ts_ns (packet_header_at bs)"
  "fld offline_packet_header ''seq'' bs = ph_seq (packet_header_at bs)"
  "fld offline_packet_header ''status_flags'' bs = ph_status_flags (packet_header_at bs)"
  "fld offline_packet_header ''checksum'' bs = ph_checksum (packet_header_at bs)"
  by (simp_all add: fld_def packet_header_at_def offline_packet_header_def)

end
