(* ===== verification/ContractMirror.thy ===== *)
theory ContractMirror
  imports OfflineTypes
begin

text \<open>
  The offline pipeline's own copy of the frame format, \<open>offline/include/ego_offline/ego_contract_protocol.hpp\<close>, whose
  first line says that it must match the shared one, and that it does: every member of its header lies where the
  shared header has it, and every type of frame it knows has the shared number. The pipeline's models may
  therefore work on the shared header.
\<close>

definition kFrameMagic :: u32 where "kFrameMagic = 0x314F4745"
definition kContractVersion :: u16 where "kContractVersion = 2"
definition kFrameHeaderSize :: nat where "kFrameHeaderSize = 72"

definition offline_frame_header :: layout where
  "offline_frame_header =
    [(''magic'', U32), (''protocol_ver'', U16), (''header_size'', U16), (''frame_type'', U32), (''flags'', U32),
     (''session_id_hi'', U64), (''session_id_lo'', U64), (''seq'', U64), (''t0_ns'', U64), (''t1_ns'', U64),
     (''payload_size'', U32), (''payload_crc32'', U32), (''header_crc32'', U32), (''reserved0'', U32)]"

datatype offline_frame_type = kSessionStarted | kConfigSnapshot | kContractAudioBlock | kImuWindow | kCanDecoded | kCanRaw |
  kTrajectory | kContractGpsFix | kSystemStatus | kSessionEnded

primrec offline_frame_u32 :: "offline_frame_type \<Rightarrow> u32" where
  "offline_frame_u32 kSessionStarted = 1"
| "offline_frame_u32 kConfigSnapshot = 2"
| "offline_frame_u32 kContractAudioBlock = 100"
| "offline_frame_u32 kImuWindow = 101"
| "offline_frame_u32 kCanDecoded = 102"
| "offline_frame_u32 kCanRaw = 103"
| "offline_frame_u32 kTrajectory = 104"
| "offline_frame_u32 kContractGpsFix = 105"
| "offline_frame_u32 kSystemStatus = 201"
| "offline_frame_u32 kSessionEnded = 900"

primrec shared_type :: "offline_frame_type \<Rightarrow> frame_payload_type" where
  "shared_type kSessionStarted = SESSION_STARTED"
| "shared_type kConfigSnapshot = CONFIG_SNAPSHOT"
| "shared_type kContractAudioBlock = AUDIO_BLOCK"
| "shared_type kImuWindow = IMU_WINDOW"
| "shared_type kCanDecoded = CAN_DECODED_VALUE"
| "shared_type kCanRaw = CAN_RAW_FRAME"
| "shared_type kTrajectory = TRAJECTORY_POINT"
| "shared_type kContractGpsFix = GPS_FIX"
| "shared_type kSystemStatus = SYSTEM_STATUS"
| "shared_type kSessionEnded = SESSION_ENDED"

text \<open>The header as the pipeline's copy of the struct reads it.\<close>

definition offline_header_of_bytes :: "bytes \<Rightarrow> ego_frame_header" where
  "offline_header_of_bytes bs =
     (let l = offline_frame_header in
      \<lparr> eh_magic = fld l ''magic'' bs, eh_protocol_ver = fld l ''protocol_ver'' bs, eh_header_size = fld l ''header_size'' bs,
        eh_frame_type = fld l ''frame_type'' bs, eh_flags = fld l ''flags'' bs,
        eh_session_id_hi = fld l ''session_id_hi'' bs, eh_session_id_lo = fld l ''session_id_lo'' bs,
        eh_seq = fld l ''seq'' bs, eh_t0_ns = fld l ''t0_ns'' bs, eh_t1_ns = fld l ''t1_ns'' bs,
        eh_payload_size = fld l ''payload_size'' bs, eh_payload_crc32 = fld l ''payload_crc32'' bs,
        eh_header_crc32 = fld l ''header_crc32'' bs, eh_reserved0 = fld l ''reserved0'' bs \<rparr>)"

lemma copies_agree:
  "offline_header_of_bytes bs = header_of_bytes bs" "layout_size offline_frame_header = kFrameHeaderSize"
  "kFrameMagic = EGO_FRAME_MAGIC" "kContractVersion = EGO_PROTOCOL_VERSION"
  "kFrameHeaderSize = unat EGO_FRAME_HEADER_SIZE"
  by (simp_all add: offline_header_of_bytes_def header_of_bytes_def fld_def offline_frame_header_def layout_size_def
    kFrameHeaderSize_def kFrameMagic_def EGO_FRAME_MAGIC_def kContractVersion_def EGO_PROTOCOL_VERSION_def
    EGO_FRAME_HEADER_SIZE_def)

lemma frame_types_agree: "offline_frame_u32 t = type_to_u32 (shared_type t)"
  by (cases t) simp_all

text \<open>A header built by the sender is read by the pipeline as it was meant.\<close>

lemma offline_reads_frames: "offline_header_of_bytes (header_bytes h @ payload) = h"
  by (simp add: copies_agree)

end
