(* ===== verification/JsonReader.thy ===== *)
theory JsonReader
  imports Files Ieee
begin

text \<open>
  The offline pipeline's JSON reader, \<open>offline/include/ego_offline/json_reader.hpp\<close>: the parser works
  on the rest of the text instead of a position in it. Exceptions are values. The recursion of the
  parser is bounded by fuel; that a fuel of twice the length of the text
  is enough is proved below. The
  message for an unexpected character is modelled without the position it ends with.
\<close>

section \<open>Values\<close>

datatype json =
  JNull | JBool bool | JInt u64 | JDouble f64 | JString string
  | JArray "json list" | JObject "(string \<times> json) list"

text \<open>The accessors. An integer is the two's complement word of an \<open>int64_t\<close>.\<close>

definition get_bool :: "bool \<Rightarrow> json \<Rightarrow> bool" where
  "get_bool def j = (case j of JBool b \<Rightarrow> b | _ \<Rightarrow> def)"

definition get_int :: "u64 \<Rightarrow> json \<Rightarrow> u64" where
  "get_int def j = (case j of JInt i \<Rightarrow> i | _ \<Rightarrow> def)"

definition get_double :: "f64 \<Rightarrow> json \<Rightarrow> f64" where
  "get_double def j = (case j of JInt i \<Rightarrow> f64_of_int (sint i) | JDouble d \<Rightarrow> d | _ \<Rightarrow> def)"

definition get_string :: "string \<Rightarrow> json \<Rightarrow> string" where
  "get_string def j = (case j of JString s \<Rightarrow> s | _ \<Rightarrow> def)"

definition members :: "json \<Rightarrow> (string \<times> json) list" where
  "members j = (case j of JObject obj \<Rightarrow> obj | _ \<Rightarrow> [])"

definition json_contains :: "string \<Rightarrow> json \<Rightarrow> bool" where
  "json_contains key j \<longleftrightarrow> map_of (members j) key \<noteq> None"

definition json_at :: "json \<Rightarrow> string \<Rightarrow> json" where
  "json_at j key = (case map_of (members j) key of None \<Rightarrow> JNull | Some v \<Rightarrow> v)"

definition elements :: "json \<Rightarrow> json list" where
  "elements j = (case j of JArray xs \<Rightarrow> xs | _ \<Rightarrow> [])"

definition json_nth :: "json \<Rightarrow> nat \<Rightarrow> json" where
  "json_nth j i = (if i < length (elements j) then elements j ! i else JNull)"

definition value_bool :: "json \<Rightarrow> string \<Rightarrow> bool \<Rightarrow> bool" where
  "value_bool j k def = (if json_contains k j then get_bool def (json_at j k) else def)"

definition value_int64 :: "json \<Rightarrow> string \<Rightarrow> u64 \<Rightarrow> u64" where
  "value_int64 j k def = (if json_contains k j then get_int def (json_at j k) else def)"

definition value_int :: "json \<Rightarrow> string \<Rightarrow> u32 \<Rightarrow> u32" where
  "value_int j k def = (if json_contains k j then ucast (get_int (scast def) (json_at j k)) else def)"

definition value_double :: "json \<Rightarrow> string \<Rightarrow> f64 \<Rightarrow> f64" where
  "value_double j k def = (if json_contains k j then get_double def (json_at j k) else def)"

definition value_string :: "json \<Rightarrow> string \<Rightarrow> string \<Rightarrow> string" where
  "value_string j k def = (if json_contains k j then get_string def (json_at j k) else def)"

section \<open>Scanning\<close>

datatype json_error = Out_of_fuel | Json_error string

definition skip_ws :: "string \<Rightarrow> string" where
  "skip_ws s = dropWhile (\<lambda>c. c = CHR '' '' \<or> c = CHR 0x09 \<or> c = CHR 0x0A \<or> c = CHR 0x0D) s"

definition peek :: "string \<Rightarrow> char" where
  "peek s = (case s of [] \<Rightarrow> CHR 0x00 | c # _ \<Rightarrow> c)"

definition unescape :: "char \<Rightarrow> char" where
  "unescape e =
     (if e = CHR ''n'' then CHR 0x0A else if e = CHR ''r'' then CHR 0x0D
      else if e = CHR ''t'' then CHR 0x09 else e)"

fun parse_chars :: "string \<Rightarrow> string \<Rightarrow> json_error + string \<times> string" where
  "parse_chars [] out = Inl (Json_error ''unterminated string'')"
| "parse_chars (c # cs) out =
     (if c = CHR 0x22 then Inr (out, cs)
      else if c = CHR 0x5C then
        (case cs of [] \<Rightarrow> Inl (Json_error ''unterminated string'')
         | e # cs' \<Rightarrow> parse_chars cs' (out @ [unescape e]))
      else parse_chars cs (out @ [c]))"

definition parse_string :: "string \<Rightarrow> json_error + string \<times> string" where
  "parse_string s =
     (case s of
        [] \<Rightarrow> Inl (Json_error (''expected '' @ [CHR 0x27, CHR 0x22, CHR 0x27]))
      | c # cs \<Rightarrow> if c \<noteq> CHR 0x22 then Inl (Json_error (''expected '' @ [CHR 0x27, CHR 0x22, CHR 0x27]))
                  else parse_chars cs '''')"

text \<open>The token of a number and whether it is a \<open>double\<close>.\<close>

definition skip_digits :: "string \<Rightarrow> string" where "skip_digits s = dropWhile is_digit s"

definition number_end :: "string \<Rightarrow> bool \<times> string" where
  "number_end s =
     (let s1 = skip_digits (if peek s = CHR ''-'' then tl s else s);
          point = (s1 \<noteq> [] \<and> hd s1 = CHR ''.'');
          s2 = skip_digits (if point then tl s1 else s1);
          ex = (s2 \<noteq> [] \<and> (hd s2 = CHR ''e'' \<or> hd s2 = CHR ''E''));
          s3 = tl s2;
          s4 = (if s3 \<noteq> [] \<and> (hd s3 = CHR ''+'' \<or> hd s3 = CHR ''-'') then tl s3 else s3)
      in (point \<or> ex, if ex then skip_digits s4 else s2))"

text \<open>\<open>std::stoll\<close> on a token of an optional minus sign and digits.\<close>

definition stoll_token :: "string \<Rightarrow> json_error + u64" where
  "stoll_token tok =
     (let neg = (peek tok = CHR ''-''); ds = (if neg then tl tok else tok);
          k = (if neg then - int (digits_val ds) else int (digits_val ds))
      in if ds = [] then Inl (Json_error ''invalid_argument'')
         else if k < - (2 ^ 63) \<or> k \<ge> 2 ^ 63 then Inl (Json_error ''out_of_range'')
         else Inr (of_int k))"

text \<open>\<open>std::stod\<close> on such a token with a point or an exponent: the nearest double; an exponent
  without digits is ignored. Values too large, and values so small that digits are lost, throw.\<close>

definition stod_token :: "string \<Rightarrow> json_error + f64" where
  "stod_token tok =
     (let neg = (peek tok = CHR ''-''); s = (if neg then tl tok else tok);
          ip = takeWhile is_digit s; s1 = skip_digits s;
          fp = (if s1 \<noteq> [] \<and> hd s1 = CHR ''.'' then takeWhile is_digit (tl s1) else []);
          s2 = (if s1 \<noteq> [] \<and> hd s1 = CHR ''.'' then skip_digits (tl s1) else s1);
          es = tl s2; eneg = (peek es = CHR ''-'');
          ed = takeWhile is_digit (if peek es = CHR ''-'' \<or> peek es = CHR ''+'' then tl es else es);
          e = (if eneg then - int (digits_val ed) else int (digits_val ed)) - int (length fp);
          r = of_nat (digits_val (ip @ fp)) * (if 0 \<le> e then 10 ^ nat e else 1 / 10 ^ nat (- e));
          d = f64_of (FFin neg r)
      in if ip = [] \<and> fp = [] then Inl (Json_error ''invalid_argument'')
         else if val64 d = FInf neg \<or> (r \<noteq> 0 \<and> r < pow2 (- 1022) \<and> val64 d \<noteq> FFin neg r)
         then Inl (Json_error ''out_of_range'')
         else Inr d)"

definition parse_number :: "string \<Rightarrow> json_error + json \<times> string" where
  "parse_number s =
     (case number_end s of (is_float, r) \<Rightarrow>
        let tok = take (length s - length r) s in
        if is_float then sum_bind (stod_token tok) (\<lambda>d. Inr (JDouble d, r))
        else sum_bind (stoll_token tok) (\<lambda>i. Inr (JInt i, r)))"

section \<open>The parser\<close>

fun parse_value :: "nat \<Rightarrow> string \<Rightarrow> json_error + json \<times> string"
and parse_members :: "nat \<Rightarrow> (string \<times> json) list \<Rightarrow> string \<Rightarrow> json_error + json \<times> string"
and parse_elements :: "nat \<Rightarrow> json list \<Rightarrow> string \<Rightarrow> json_error + json \<times> string"
where
  "parse_value 0 s = Inl Out_of_fuel"
| "parse_value (Suc n) s =
     (let s = skip_ws s; c = peek s in
      if c = CHR 0x22 then sum_bind (parse_string s) (\<lambda>(t, r). Inr (JString t, r))
      else if c = CHR ''{'' then
        (let s1 = skip_ws (tl s) in
         if peek s1 = CHR ''}'' then Inr (JObject [], tl s1) else parse_members n [] s1)
      else if c = CHR ''['' then
        (let s1 = skip_ws (tl s) in
         if peek s1 = CHR '']'' then Inr (JArray [], tl s1) else parse_elements n [] s1)
      else if c = CHR ''-'' \<or> is_digit c then parse_number s
      else if take 4 s = ''true'' then Inr (JBool True, drop 4 s)
      else if take 5 s = ''false'' then Inr (JBool False, drop 5 s)
      else if take 4 s = ''null'' then Inr (JNull, drop 4 s)
      else Inl (Json_error (''unexpected char '' @ [CHR 0x27, c, CHR 0x27])))"
| "parse_members 0 obj s = Inl Out_of_fuel"
| "parse_members (Suc n) obj s =
     (if s = [] then Inr (JObject obj, [])
      else sum_bind (parse_string (skip_ws s)) (\<lambda>(key, s1).
        let s2 = skip_ws s1 in
        if s2 = [] \<or> hd s2 \<noteq> CHR '':'' then Inl (Json_error (''expected '' @ [CHR 0x27] @ '':'' @ [CHR 0x27]))
        else sum_bind (parse_value n (skip_ws (tl s2))) (\<lambda>(v, s3).
          let obj' = AList.update key v obj; s4 = skip_ws s3; sep = peek s4 in
          if sep = CHR '','' then parse_members n obj' (tl s4)
          else if sep = CHR ''}'' then Inr (JObject obj', tl s4)
          else Inl (Json_error (''expected '' @ [CHR 0x27] @ '','' @ [CHR 0x27] @ '' or '' @ [CHR 0x27] @ ''}'' @ [CHR 0x27])))))"
| "parse_elements 0 arr s = Inl Out_of_fuel"
| "parse_elements (Suc n) arr s =
     (if s = [] then Inr (JArray arr, [])
      else sum_bind (parse_value n (skip_ws s)) (\<lambda>(v, s1).
        let arr' = arr @ [v]; s2 = skip_ws s1; sep = peek s2 in
        if sep = CHR '','' then parse_elements n arr' (tl s2)
        else if sep = CHR '']'' then Inr (JArray arr', tl s2)
        else Inl (Json_error (''expected '' @ [CHR 0x27] @ '','' @ [CHR 0x27] @ '' or '' @ [CHR 0x27] @ '']'' @ [CHR 0x27]))))"

declare parse_value.simps [simp del] parse_members.simps [simp del] parse_elements.simps [simp del]

definition json_parse :: "string \<Rightarrow> json_error + json" where
  "json_parse s = sum_bind (parse_value (Suc (2 * length s)) (skip_ws s)) (\<lambda>(v, r). Inr v)"

text \<open>\<open>json_load\<close> of a file that is missing or has contents.\<close>

definition json_load :: "bytes option \<Rightarrow> json_error + json" where
  "json_load file = (case file of None \<Rightarrow> Inl (Json_error ''cannot open'')
     | Some bs \<Rightarrow> json_parse (bytes_text bs))"

section \<open>Termination\<close>

lemma skip_ws_length: "length (skip_ws s) \<le> length s"
  by (simp add: skip_ws_def length_dropWhile_le)

lemma skip_digits_length: "length (skip_digits s) \<le> length s"
  by (simp add: skip_digits_def length_dropWhile_le)

lemma parse_chars_length: "parse_chars cs out = Inr (t, r) \<Longrightarrow> length r < length cs"
  by (induction cs out rule: parse_chars.induct) (auto split: if_splits list.splits)

lemma parse_string_length: "parse_string s = Inr (t, r) \<Longrightarrow> Suc (length r) < length s"
  by (auto simp: parse_string_def dest: parse_chars_length split: list.splits if_splits)

lemma peek_nonempty: "peek s = c \<Longrightarrow> c \<noteq> CHR 0x00 \<Longrightarrow> s \<noteq> []"
  by (auto simp: peek_def)

lemma number_end_length:
  assumes "peek s = CHR ''-'' \<or> is_digit (peek s)" and "number_end s = (fl, r)"
  shows "length r < length s"
proof -
  have ne: "s \<noteq> []" using assms(1) by (auto simp: peek_def is_digit_def)
  define s1 where "s1 = skip_digits (if peek s = CHR ''-'' then tl s else s)"
  have lt: "length s1 < length s"
  proof (cases "peek s = CHR ''-''")
    case True
    have "length s1 \<le> length (tl s)" using skip_digits_length [of "tl s"] True by (simp add: s1_def)
    then show ?thesis using ne by (cases s) auto
  next
    case False
    then obtain c cs where "s = c # cs" "is_digit c"
      using assms(1) ne by (cases s) (auto simp: peek_def)
    then show ?thesis using False by (simp add: s1_def skip_digits_def le_imp_less_Suc length_dropWhile_le)
  qed
  have l: "length (skip_digits (tl x)) \<le> length x" for x
    using skip_digits_length [of "tl x"] by (metis diff_le_self le_trans length_tl)
  have "length r \<le> length s1"
  proof -
    define s2 where "s2 = skip_digits (if s1 \<noteq> [] \<and> hd s1 = CHR ''.'' then tl s1 else s1)"
    have s2: "length s2 \<le> length s1"
      using l [of s1] skip_digits_length [of s1] by (simp add: s2_def)
    define s4 where "s4 = (if tl s2 \<noteq> [] \<and> (hd (tl s2) = CHR ''+'' \<or> hd (tl s2) = CHR ''-'')
        then tl (tl s2) else tl s2)"
    have "length s4 \<le> length s2" by (auto simp: s4_def)
    then have "length (skip_digits s4) \<le> length s2"
      using skip_digits_length [of s4] by linarith
    moreover have "r = skip_digits s4 \<or> r = s2"
      using assms(2) unfolding number_end_def Let_def s1_def [symmetric] s2_def [symmetric]
        s4_def [symmetric] by auto
    ultimately show ?thesis using s2 by auto
  qed
  with lt show ?thesis by simp
qed

lemma parse_number_length:
  "peek s = CHR ''-'' \<or> is_digit (peek s) \<Longrightarrow> parse_number s = Inr (v, r) \<Longrightarrow> length r < length s"
  using number_end_length [of s]
  by (auto simp: parse_number_def Let_def sum_bind_Inr_iff split: prod.splits if_splits)

lemma take_eq_length: "take k s = t \<Longrightarrow> length t = k \<Longrightarrow> 0 < k \<Longrightarrow> length (drop k s) < length s"
  by auto

lemma parse_length:
  "parse_value n s = Inr (v, r) \<Longrightarrow> length r < length s"
  "parse_members n obj s = Inr (v, r) \<Longrightarrow> length r \<le> length s"
  "parse_elements n arr s = Inr (v, r) \<Longrightarrow> length r \<le> length s"
proof (induction n s and n obj s and n arr s arbitrary: v r and v r and v r
    rule: parse_value_parse_members_parse_elements.induct)
  case (1 s)
  then show ?case by (simp add: parse_value.simps)
next
  case (2 n s)
  define t where "t = skip_ws s"
  have le: "length t \<le> length s" by (simp add: t_def skip_ws_length)
  have w: "length (skip_ws (tl t)) \<le> length t - 1" using skip_ws_length [of "tl t"] by simp
  have tl: "length (tl (skip_ws (tl t))) \<le> length t - 1" using w by (metis diff_le_self le_trans length_tl)
  have lt: "length r < length t" if "peek t = c" "c \<noteq> CHR 0x00" "length r \<le> length (skip_ws (tl t))" for c
    using that le_trans [OF that(3) w] peek_nonempty [of t c] by (cases t) auto
  have lt': "length (tl (skip_ws (tl t))) < length t" if "peek t = c" "c \<noteq> CHR 0x00" for c
    using that tl peek_nonempty [of t c] by (cases t) auto
  have ih: "length r \<le> length (skip_ws (tl t))"
    if "peek t = CHR ''{''" "peek (skip_ws (tl t)) \<noteq> CHR ''}''" "parse_members n [] (skip_ws (tl t)) = Inr (v, r)"
    using "2.IH"(1) that by (simp add: t_def Let_def)
  have ih': "length r \<le> length (skip_ws (tl t))"
    if "peek t = CHR ''[''" "peek (skip_ws (tl t)) \<noteq> CHR '']''" "parse_elements n [] (skip_ws (tl t)) = Inr (v, r)"
    using "2.IH"(2) that by (simp add: t_def Let_def)
  have "length r < length t"
    using "2.prems" parse_number_length [of t v r] parse_string_length [of t _ r]
      take_eq_length [of 4 t "''true''"] take_eq_length [of 5 t "''false''"] take_eq_length [of 4 t "''null''"]
      lt [OF _ _ ih] lt [OF _ _ ih'] lt'
    unfolding parse_value.simps(2) Let_def t_def [symmetric]
    by (auto simp: sum_bind_Inr_iff split: if_splits)
  then show ?case using le by simp
next
  case (3 obj s)
  then show ?case by (simp add: parse_members.simps)
next
  case (4 n obj s)
  show ?case
  proof (cases "s = []")
    case True
    then show ?thesis using "4.prems" by (simp add: parse_members.simps)
  next
    case False
    with "4.prems" obtain key s1 w s3 where
      k: "parse_string (skip_ws s) = Inr (key, s1)" "skip_ws s1 \<noteq> []" "hd (skip_ws s1) = CHR '':''" and
      p: "parse_value n (skip_ws (tl (skip_ws s1))) = Inr (w, s3)" and
      e: "(parse_members n (AList.update key w obj) (tl (skip_ws s3)) = Inr (v, r) \<and> peek (skip_ws s3) = CHR '','')
        \<or> r = tl (skip_ws s3)"
      by (auto simp: parse_members.simps(2) Let_def sum_bind_Inr_iff split: if_splits)
    have "length s1 < length s" using parse_string_length [OF k(1)] skip_ws_length [of s] by linarith
    moreover have "length s3 < length (skip_ws (tl (skip_ws s1)))"
      using "4.IH"(1) False k p by auto
    moreover have "length r \<le> length (tl (skip_ws s3))"
      using e "4.IH"(2) False k p by auto
    ultimately show ?thesis
      using skip_ws_length [of "tl (skip_ws s1)"] skip_ws_length [of s1] skip_ws_length [of s3] by simp
  qed
next
  case (5 arr s)
  then show ?case by (simp add: parse_elements.simps)
next
  case (6 n arr s)
  show ?case
  proof (cases "s = []")
    case True
    then show ?thesis using "6.prems" by (simp add: parse_elements.simps)
  next
    case False
    with "6.prems" obtain w s1 where
      p: "parse_value n (skip_ws s) = Inr (w, s1)" and
      e: "(parse_elements n (arr @ [w]) (tl (skip_ws s1)) = Inr (v, r) \<and> peek (skip_ws s1) = CHR '','')
        \<or> r = tl (skip_ws s1)"
      by (auto simp: parse_elements.simps(2) Let_def sum_bind_Inr_iff split: if_splits)
    have "length s1 < length (skip_ws s)" using "6.IH"(1) False p by auto
    moreover have "length r \<le> length (tl (skip_ws s1))"
      using e "6.IH"(2) False p by auto
    ultimately show ?thesis using skip_ws_length [of s] skip_ws_length [of s1] by simp
  qed
qed

lemma parse_chars_fuel [simp]: "parse_chars cs out \<noteq> Inl Out_of_fuel"
  by (induction cs out rule: parse_chars.induct) (auto split: list.splits)

lemma parse_string_fuel [simp]: "parse_string s \<noteq> Inl Out_of_fuel"
  by (auto simp: parse_string_def split: list.splits)

lemma stoll_token_fuel [simp]: "stoll_token tok \<noteq> Inl Out_of_fuel"
  by (simp add: stoll_token_def Let_def)

lemma guarded_result:
  "(if a then Inl (Json_error x) else if b then Inl (Json_error y) else Inr d) \<noteq> Inl Out_of_fuel"
  by simp

lemma stod_token_fuel [simp]: "stod_token tok \<noteq> Inl Out_of_fuel"
  unfolding stod_token_def Let_def by (rule guarded_result)

lemma sum_bind_Inl_iff:
  "sum_bind x f = Inl e \<longleftrightarrow> x = Inl e \<or> (\<exists>a. x = Inr a \<and> f a = Inl e)"
  by (cases x) auto

lemma parse_number_fuel [simp]: "parse_number s \<noteq> Inl Out_of_fuel"
  by (simp add: parse_number_def Let_def sum_bind_Inl_iff split: prod.splits)

lemma parse_fuel:
  "2 * length s < n \<Longrightarrow> parse_value n s \<noteq> Inl Out_of_fuel"
  "2 * length s + 1 < n \<Longrightarrow> parse_members n obj s \<noteq> Inl Out_of_fuel"
  "2 * length s + 1 < n \<Longrightarrow> parse_elements n arr s \<noteq> Inl Out_of_fuel"
proof (induction n s and n obj s and n arr s rule: parse_value_parse_members_parse_elements.induct)
  case (2 n s)
  define t where "t = skip_ws s"
  have tn: "2 * length (skip_ws (tl t)) + 1 < n" if "peek t = c" "c \<noteq> CHR 0x00" for c
  proof -
    have "2 * length (tl t) + 1 < n"
      using "2.prems" skip_ws_length [of s] peek_nonempty [OF that] unfolding t_def [symmetric]
      by (cases t) auto
    then show ?thesis using skip_ws_length [of "tl t"] by linarith
  qed
  have "parse_members n [] (skip_ws (tl t)) \<noteq> Inl Out_of_fuel"
    if "peek t = CHR ''{''" "peek (skip_ws (tl t)) \<noteq> CHR ''}''"
    using "2.IH"(1) that tn [OF that(1)] by (simp add: t_def Let_def)
  moreover have "parse_elements n [] (skip_ws (tl t)) \<noteq> Inl Out_of_fuel"
    if "peek t = CHR ''[''" "peek (skip_ws (tl t)) \<noteq> CHR '']''"
    using "2.IH"(2) that tn [OF that(1)] by (simp add: t_def Let_def)
  ultimately show ?case
    unfolding parse_value.simps(2) Let_def t_def [symmetric]
    using parse_string_fuel [of t]
    by (auto simp: sum_bind_def split: sum.splits if_splits)
next
  case (4 n obj s)
  have "parse_value n (skip_ws (tl (skip_ws s1))) \<noteq> Inl Out_of_fuel"
    if "parse_string (skip_ws s) = Inr (key, s1)" "s \<noteq> []" "skip_ws s1 \<noteq> []" "hd (skip_ws s1) = CHR '':''" for key s1
    using "4.IH"(1) that "4.prems" parse_string_length [OF that(1)] skip_ws_length [of s]
      skip_ws_length [of s1] skip_ws_length [of "tl (skip_ws s1)"] by simp
  moreover have "parse_members n (AList.update key v obj) (tl (skip_ws s3)) \<noteq> Inl Out_of_fuel"
    if "parse_string (skip_ws s) = Inr (key, s1)" "s \<noteq> []" "skip_ws s1 \<noteq> []" "hd (skip_ws s1) = CHR '':''"
      "parse_value n (skip_ws (tl (skip_ws s1))) = Inr (v, s3)" "peek (skip_ws s3) = CHR '',''" for key s1 v s3
    using "4.IH"(2) that "4.prems" parse_string_length [OF that(1)] skip_ws_length [of s]
      skip_ws_length [of s1] skip_ws_length [of "tl (skip_ws s1)"] skip_ws_length [of s3]
      parse_length(1) [OF that(5)] by simp
  ultimately show ?case
    unfolding parse_members.simps(2) Let_def
    by (fastforce simp: sum_bind_Inl_iff split: if_splits)
next
  case (6 n arr s)
  have "parse_value n (skip_ws s) \<noteq> Inl Out_of_fuel" if "s \<noteq> []"
    using "6.IH"(1) that "6.prems" skip_ws_length [of s] by simp
  moreover have "parse_elements n (arr @ [v]) (tl (skip_ws s1)) \<noteq> Inl Out_of_fuel"
    if "s \<noteq> []" "parse_value n (skip_ws s) = Inr (v, s1)" "peek (skip_ws s1) = CHR '',''" for v s1
    using "6.IH"(2) that "6.prems" parse_length(1) [OF that(2)] skip_ws_length [of s]
      skip_ws_length [of s1] by simp
  ultimately show ?case
    unfolding parse_elements.simps(2) Let_def
    by (fastforce simp: sum_bind_Inl_iff split: if_splits)
qed (simp_all)

text \<open>C36: reading a JSON text ends for every text, well formed or not: a fuel of one more than
  twice the length of the text is never used up.\<close>

theorem json_parse_terminates: "json_parse s \<noteq> Inl Out_of_fuel"
  using parse_fuel(1) [of "skip_ws s" "Suc (2 * length s)"] skip_ws_length [of s]
  by (auto simp: json_parse_def sum_bind_def split: sum.splits prod.splits)

end
