(* ===== verification/JsonTexts.thy ===== *)
theory JsonTexts
  imports JsonReader
begin

text \<open>
  Reading JSON texts without fuel: what the parser of \<open>offline/include/ego_offline/json_reader.hpp\<close>
  makes of a string, a number, an object and an array, whatever follows them, and that the recorder's
  escaped strings and printed numbers are read back as they were.
\<close>

section \<open>More fuel does not change a result\<close>

text \<open>Stated on results other than running out of fuel, errors included.\<close>

lemma parse_mono:
  "parse_value n s \<noteq> Inl Out_of_fuel \<Longrightarrow> n \<le> m \<Longrightarrow> parse_value m s = parse_value n s"
  "parse_members n obj s \<noteq> Inl Out_of_fuel \<Longrightarrow> n \<le> m \<Longrightarrow> parse_members m obj s = parse_members n obj s"
  "parse_elements n arr s \<noteq> Inl Out_of_fuel \<Longrightarrow> n \<le> m \<Longrightarrow> parse_elements m arr s = parse_elements n arr s"
proof (induction n s and n obj s and n arr s arbitrary: m and m and m
    rule: parse_value_parse_members_parse_elements.induct)
  case (2 n s)
  then obtain k where m: "m = Suc k" "n \<le> k" by (cases m) auto
  define t where "t = skip_ws s"
  have a: "parse_members n [] (skip_ws (tl t)) \<noteq> Inl Out_of_fuel \<Longrightarrow>
      parse_members k [] (skip_ws (tl t)) = parse_members n [] (skip_ws (tl t))"
    if "peek t = CHR ''{''" "peek (skip_ws (tl t)) \<noteq> CHR ''}''"
    using "2.IH"(1) [where m = k] that m by (simp add: t_def Let_def)
  have b: "parse_elements n [] (skip_ws (tl t)) \<noteq> Inl Out_of_fuel \<Longrightarrow>
      parse_elements k [] (skip_ws (tl t)) = parse_elements n [] (skip_ws (tl t))"
    if "peek t = CHR ''[''" "peek (skip_ws (tl t)) \<noteq> CHR '']''"
    using "2.IH"(2) [where m = k] that m by (simp add: t_def Let_def)
  consider (members) "peek t = CHR ''{''" "peek (skip_ws (tl t)) \<noteq> CHR ''}''"
    | (elements) "peek t = CHR ''[''" "peek (skip_ws (tl t)) \<noteq> CHR '']''"
    | (leaf) "\<not> (peek t = CHR ''{'' \<and> peek (skip_ws (tl t)) \<noteq> CHR ''}'')"
        "\<not> (peek t = CHR ''['' \<and> peek (skip_ws (tl t)) \<noteq> CHR '']'')"
    by blast
  then show ?case
  proof cases
    case members
    with "2.prems"(1) a show ?thesis by (simp add: m parse_value.simps(2) Let_def t_def [symmetric])
  next
    case elements
    with "2.prems"(1) b show ?thesis by (simp add: m parse_value.simps(2) Let_def t_def [symmetric])
  next
    case leaf
    then show ?thesis
      unfolding m parse_value.simps(2) Let_def t_def [symmetric] by (intro if_cong refl) simp_all
  qed
next
  case (4 n obj s)
  then obtain k where m: "m = Suc k" "n \<le> k" by (cases m) auto
  show ?case
  proof (cases "\<exists>key s1. s \<noteq> [] \<and> parse_string (skip_ws s) = Inr (key, s1) \<and> skip_ws s1 \<noteq> [] \<and> hd (skip_ws s1) = CHR '':''")
    case False
    show ?thesis
    proof (cases "s = [] \<or> (\<exists>e. parse_string (skip_ws s) = Inl e)")
      case True
      then show ?thesis by (auto simp: m parse_members.simps(2))
    next
      case no_error: False
      then obtain key s1 where "parse_string (skip_ws s) = Inr (key, s1)"
        by (cases "parse_string (skip_ws s)") auto
      moreover have "skip_ws s1 = [] \<or> hd (skip_ws s1) \<noteq> CHR '':''"
        using False no_error calculation by blast
      ultimately show ?thesis using no_error by (simp add: m parse_members.simps(2) Let_def)
    qed
  next
    case True
    then obtain key s1 where p: "s \<noteq> []" "parse_string (skip_ws s) = Inr (key, s1)" "skip_ws s1 \<noteq> []"
      "hd (skip_ws s1) = CHR '':''" by blast
    with "4.prems" have "parse_value n (skip_ws (tl (skip_ws s1))) \<noteq> Inl Out_of_fuel"
      by (auto simp: parse_members.simps(2))
    then have v: "parse_value k (skip_ws (tl (skip_ws s1))) = parse_value n (skip_ws (tl (skip_ws s1)))"
      using "4.IH"(1) [where m = k] p m by auto
    show ?thesis
    proof (cases "parse_value n (skip_ws (tl (skip_ws s1)))")
      case (Inl e)
      then show ?thesis using p v by (simp add: m parse_members.simps(2))
    next
      case (Inr y)
      then obtain w s3 where y: "parse_value n (skip_ws (tl (skip_ws s1))) = Inr (w, s3)" by (cases y) auto
      have "parse_members k (AList.update key w obj) (tl (skip_ws s3)) = parse_members n (AList.update key w obj) (tl (skip_ws s3))"
        if "parse_members n (AList.update key w obj) (tl (skip_ws s3)) \<noteq> Inl Out_of_fuel" "peek (skip_ws s3) = CHR '',''"
        using "4.IH"(2) [where m = k] that p m y by auto
      with "4.prems"(1) show ?thesis
        using p v y by (auto simp: m parse_members.simps(2) Let_def split: if_splits)
    qed
  qed
next
  case (6 n arr s)
  then obtain k where m: "m = Suc k" "n \<le> k" by (cases m) auto
  show ?case
  proof (cases "s = []")
    case True
    then show ?thesis by (simp add: m parse_elements.simps)
  next
    case False
    with "6.prems" have "parse_value n (skip_ws s) \<noteq> Inl Out_of_fuel"
      by (auto simp: parse_elements.simps(2))
    then have v: "parse_value k (skip_ws s) = parse_value n (skip_ws s)" using "6.IH"(1) [where m = k] False m by auto
    show ?thesis
    proof (cases "parse_value n (skip_ws s)")
      case (Inl e)
      then show ?thesis using False v by (simp add: m parse_elements.simps(2))
    next
      case (Inr y)
      then obtain w s1 where y: "parse_value n (skip_ws s) = Inr (w, s1)" by (cases y) auto
      have "parse_elements k (arr @ [w]) (tl (skip_ws s1)) = parse_elements n (arr @ [w]) (tl (skip_ws s1))"
        if "parse_elements n (arr @ [w]) (tl (skip_ws s1)) \<noteq> Inl Out_of_fuel" "peek (skip_ws s1) = CHR '',''"
        using "6.IH"(2) [where m = k] that False m y by auto
      with "6.prems"(1) show ?thesis
        using False v y by (auto simp: m parse_elements.simps(2) Let_def split: if_splits)
    qed
  qed
qed (simp_all add: parse_value.simps parse_members.simps parse_elements.simps)

section \<open>Reading without fuel\<close>

definition reads :: "string \<Rightarrow> json \<Rightarrow> string \<Rightarrow> bool" where
  "reads s v r \<longleftrightarrow> (\<exists>n. parse_value n s = Inr (v, r))"

definition reads_members :: "(string \<times> json) list \<Rightarrow> string \<Rightarrow> json \<Rightarrow> string \<Rightarrow> bool" where
  "reads_members obj s v r \<longleftrightarrow> (\<exists>n. parse_members n obj s = Inr (v, r))"

definition reads_elements :: "json list \<Rightarrow> string \<Rightarrow> json \<Rightarrow> string \<Rightarrow> bool" where
  "reads_elements arr s v r \<longleftrightarrow> (\<exists>n. parse_elements n arr s = Inr (v, r))"

lemma parse_value_skip_ws: "parse_value n (skip_ws s) = parse_value n s"
  by (cases n) (simp_all add: parse_value.simps skip_ws_def)

text \<open>The parser's own fuel finds what any fuel finds.\<close>

lemma json_parse_reads:
  assumes "reads s v r"
  shows "json_parse s = Inr v"
proof -
  obtain n where n: "parse_value n s = Inr (v, r)" using assms by (auto simp: reads_def)
  let ?m = "Suc (2 * length s)"
  have "parse_value ?m s \<noteq> Inl Out_of_fuel" by (rule parse_fuel) simp
  then have "parse_value (max n ?m) s = parse_value ?m s" by (rule parse_mono) simp
  moreover have "parse_value (max n ?m) s = parse_value n s" by (rule parse_mono) (simp_all add: n)
  ultimately have "parse_value ?m s = Inr (v, r)" using n by (simp only:)
  then show ?thesis by (simp add: json_parse_def parse_value_skip_ws)
qed

section \<open>Rules\<close>

lemma skip_ws_skip [simp]: "skip_ws (skip_ws s) = skip_ws s"
  by (simp add: skip_ws_def)

lemma reads_skip_ws: "reads (skip_ws s) v r \<longleftrightarrow> reads s v r"
  by (simp add: reads_def parse_value_skip_ws)

lemma reads_string:
  assumes "skip_ws s = CHR 0x22 # t" and "parse_chars t [] = Inr (x, r)"
  shows "reads s (JString x) r"
  unfolding reads_def by (rule exI [of _ "Suc 0"]) (simp add: assms parse_value.simps parse_string_def peek_def)

lemma reads_number:
  assumes "skip_ws s = t" and "peek t = CHR ''-'' \<or> is_digit (peek t)" and "parse_number t = Inr (x, r)"
  shows "reads s x r"
proof -
  have "peek t \<noteq> CHR 0x22" "peek t \<noteq> CHR ''{''" "peek t \<noteq> CHR ''[''"
    using assms(2) by (auto simp: is_digit_def)
  then show ?thesis
    unfolding reads_def using assms by (intro exI [of _ "Suc 0"]) (simp add: parse_value.simps)
qed

lemma reads_object:
  assumes "skip_ws s = CHR ''{'' # t" and "peek (skip_ws t) \<noteq> CHR ''}''"
    and "reads_members [] (skip_ws t) v r"
  shows "reads s v r"
proof -
  obtain n where "parse_members n [] (skip_ws t) = Inr (v, r)" using assms(3) by (auto simp: reads_members_def)
  then have "parse_value (Suc n) s = Inr (v, r)" using assms(1,2) by (simp add: parse_value.simps peek_def)
  then show ?thesis by (auto simp: reads_def)
qed

lemma reads_array:
  assumes "skip_ws s = CHR ''['' # t" and "peek (skip_ws t) \<noteq> CHR '']''"
    and "reads_elements [] (skip_ws t) v r"
  shows "reads s v r"
proof -
  obtain n where "parse_elements n [] (skip_ws t) = Inr (v, r)" using assms(3) by (auto simp: reads_elements_def)
  then have "parse_value (Suc n) s = Inr (v, r)" using assms(1,2) by (simp add: parse_value.simps peek_def)
  then show ?thesis by (auto simp: reads_def)
qed

lemma reads_member_last:
  assumes "skip_ws s = CHR 0x22 # t" and "parse_chars t [] = Inr (key, s1)"
    and "skip_ws s1 = CHR '':'' # s2" and "reads s2 w s3" and "skip_ws s3 = CHR ''}'' # r"
  shows "reads_members obj s (JObject (AList.update key w obj)) r"
proof -
  obtain n where "parse_value n s2 = Inr (w, s3)" using assms(4) by (auto simp: reads_def)
  moreover have "s \<noteq> []" using assms(1) by (auto simp: skip_ws_def)
  ultimately have "parse_members (Suc n) obj s = Inr (JObject (AList.update key w obj), r)"
    using assms by (simp add: parse_members.simps parse_string_def parse_value_skip_ws peek_def)
  then show ?thesis by (auto simp: reads_members_def)
qed

lemma reads_member_next:
  assumes "skip_ws s = CHR 0x22 # t" and "parse_chars t [] = Inr (key, s1)"
    and "skip_ws s1 = CHR '':'' # s2" and "reads s2 w s3" and "skip_ws s3 = CHR '','' # s4"
    and "reads_members (AList.update key w obj) s4 v r"
  shows "reads_members obj s v r"
proof -
  obtain n where "parse_value n s2 = Inr (w, s3)" using assms(4) by (auto simp: reads_def)
  moreover obtain k where "parse_members k (AList.update key w obj) s4 = Inr (v, r)"
    using assms(6) by (auto simp: reads_members_def)
  ultimately have "parse_value (max n k) s2 = Inr (w, s3)"
    "parse_members (max n k) (AList.update key w obj) s4 = Inr (v, r)"
    using parse_mono(1) [of n s2 "max n k"] parse_mono(2) [of k _ s4 "max n k"] by simp_all
  moreover have "s \<noteq> []" using assms(1) by (auto simp: skip_ws_def)
  ultimately have "parse_members (Suc (max n k)) obj s = Inr (v, r)"
    using assms by (simp add: parse_members.simps parse_string_def parse_value_skip_ws peek_def)
  then show ?thesis by (auto simp: reads_members_def)
qed

lemma reads_element_last:
  assumes "s \<noteq> []" and "reads s w s1" and "skip_ws s1 = CHR '']'' # r"
  shows "reads_elements arr s (JArray (arr @ [w])) r"
proof -
  obtain n where "parse_value n s = Inr (w, s1)" using assms(2) by (auto simp: reads_def)
  then have "parse_elements (Suc n) arr s = Inr (JArray (arr @ [w]), r)"
    using assms by (simp add: parse_elements.simps parse_value_skip_ws peek_def)
  then show ?thesis by (auto simp: reads_elements_def)
qed

lemma reads_element_next:
  assumes "s \<noteq> []" and "reads s w s1" and "skip_ws s1 = CHR '','' # s2"
    and "reads_elements (arr @ [w]) s2 v r"
  shows "reads_elements arr s v r"
proof -
  obtain n where "parse_value n s = Inr (w, s1)" using assms(2) by (auto simp: reads_def)
  moreover obtain k where "parse_elements k (arr @ [w]) s2 = Inr (v, r)"
    using assms(4) by (auto simp: reads_elements_def)
  ultimately have "parse_value (max n k) s = Inr (w, s1)"
    "parse_elements (max n k) (arr @ [w]) s2 = Inr (v, r)"
    using parse_mono(1) [of n s "max n k"] parse_mono(3) [of k _ s2 "max n k"] by simp_all
  then have "parse_elements (Suc (max n k)) arr s = Inr (v, r)"
    using assms by (simp add: parse_elements.simps parse_value_skip_ws peek_def)
  then show ?thesis by (auto simp: reads_elements_def)
qed

section \<open>The recorder's strings and numbers\<close>

lemma parse_chars_escape:
  "parse_chars (json_escape s @ CHR 0x22 # r) out = Inr (out @ s, r)"
  by (induction s arbitrary: out) (auto simp: unescape_def)

lemma parse_chars_plain:
  "list_all json_plain s \<Longrightarrow> parse_chars (s @ CHR 0x22 # r) out = Inr (out @ s, r)"
  using parse_chars_escape [of s r out] by (simp add: json_escape_plain)

definition after_number :: "string \<Rightarrow> bool" where
  "after_number r \<longleftrightarrow> r = [] \<or> (\<not> is_digit (hd r) \<and> hd r \<notin> {CHR ''.'', CHR ''e'', CHR ''E''})"

lemma skip_digits_dec: "after_number r \<Longrightarrow> skip_digits (dec n @ r) = r"
proof -
  assume r: "after_number r"
  have "dropWhile is_digit (dec n @ r) = dropWhile is_digit r"
    using dec_digits [of _ n] by (simp add: dropWhile_append3)
  with r show ?thesis by (cases r) (auto simp: after_number_def skip_digits_def)
qed

lemma peek_dec: "is_digit (peek (dec n @ r))"
  using hd_dec_digit [of n] by (cases "dec n") (auto simp: peek_def)

lemma peek_dec_not_minus: "peek (dec n @ r) \<noteq> CHR ''-''" "peek (dec n) \<noteq> CHR ''-''"
  using peek_dec [of n r] peek_dec [of n "[]"] by (auto simp: is_digit_def)

lemma number_end_dec: "after_number r \<Longrightarrow> number_end (dec n @ r) = (False, r)"
proof -
  assume r: "after_number r"
  then have "(r \<noteq> [] \<and> hd r = CHR ''.'') = False"
    "(r \<noteq> [] \<and> (hd r = CHR ''e'' \<or> hd r = CHR ''E'')) = False"
    by (auto simp: after_number_def)
  moreover have "skip_digits r = r"
    using r by (cases r) (auto simp: after_number_def skip_digits_def)
  ultimately show ?thesis
    by (simp only: number_end_def Let_def peek_dec_not_minus skip_digits_dec [OF r] if_False simp_thms)
qed

lemma stoll_dec: "n < 2 ^ 63 \<Longrightarrow> stoll_token (dec n) = Inr (of_nat n)"
  by (simp add: stoll_token_def Let_def peek_dec_not_minus)

lemma parse_number_dec:
  "n < 2 ^ 63 \<Longrightarrow> after_number r \<Longrightarrow> parse_number (dec n @ r) = Inr (JInt (of_nat n), r)"
  by (simp add: parse_number_def number_end_dec stoll_dec)

lemma skip_ws_dec: "skip_ws (dec n @ r) = dec n @ r"
proof -
  obtain c cs where c: "dec n = c # cs" "is_digit c"
    using hd_dec_digit [of n] by (cases "dec n") auto
  then have "c \<noteq> CHR '' ''" "c \<noteq> CHR 0x09" "c \<noteq> CHR 0x0A" "c \<noteq> CHR 0x0D" by (auto simp: is_digit_def)
  with c show ?thesis by (simp add: skip_ws_def)
qed

lemma reads_dec: "n < 2 ^ 63 \<Longrightarrow> after_number r \<Longrightarrow> reads (dec n @ r) (JInt (of_nat n)) r"
  by (rule reads_number [OF skip_ws_dec]) (simp_all add: peek_dec parse_number_dec)

lemma reads_quoted: "reads (CHR 0x22 # json_escape s @ CHR 0x22 # r) (JString s) r"
  by (rule reads_string [of _ "json_escape s @ CHR 0x22 # r"])
    (simp_all add: skip_ws_def parse_chars_escape)

lemma skip_ws_char [simp]:
  "skip_ws (CHR '' '' # s) = skip_ws s" "skip_ws (CHR 0x0A # s) = skip_ws s"
  by (simp_all add: skip_ws_def)

lemma skip_ws_stop: "c \<notin> {CHR '' '', CHR 0x09, CHR 0x0A, CHR 0x0D} \<Longrightarrow> skip_ws (c # s) = c # s"
  by (simp add: skip_ws_def)

section \<open>Texts of values\<close>

lemma after_number_simps [simp]: "after_number (CHR '','' # r)" "after_number (CHR 0x0A # r)"
  by (simp_all add: after_number_def is_digit_def)

text \<open>A text that is read as a value wherever the recorder's files put it.\<close>

definition value_text :: "string \<Rightarrow> json \<Rightarrow> bool" where
  "value_text val w \<longleftrightarrow> (\<forall>r. after_number r \<longrightarrow> reads (CHR '' '' # val @ r) w r)"

lemma value_text_dec: "n < 2 ^ 63 \<Longrightarrow> value_text (dec n) (JInt (of_nat n))"
  using reads_dec reads_skip_ws [of "CHR '' '' # s" for s] reads_skip_ws
  by (simp add: value_text_def)

lemma value_text_word: "unat (x :: 'a::len word) < 2 ^ 63 \<Longrightarrow> value_text (dec (unat x)) (JInt (ucast x))"
  using value_text_dec [of "unat x"] by simp

lemma value_text_string: "value_text (CHR 0x22 # json_escape s @ [CHR 0x22]) (JString s)"
proof -
  have "reads (CHR '' '' # CHR 0x22 # json_escape s @ CHR 0x22 # r) (JString s) r" for r
    using reads_quoted [of s r] reads_skip_ws [of "CHR '' '' # CHR 0x22 # json_escape s @ CHR 0x22 # r"]
      reads_skip_ws [of "CHR 0x22 # json_escape s @ CHR 0x22 # r"] by simp
  then show ?thesis by (simp add: value_text_def)
qed

end
