(* ===== verification/BinaryParser.thy ===== *)
theory BinaryParser
  imports OfflineTypes
begin

text \<open>
  The offline pipeline's packet parser, \<open>offline/src/parse/binary_parser.cpp\<close>, on the packet records
  of \<open>offline/include/ego_offline/load/ego_log_reader.hpp\<close>, and how it compares with the recorder's
  own validator.
\<close>

section \<open>Types\<close>

text \<open>\<open>RawPacket\<close>; the two headers are value-initialised until one of them is read.\<close>

record raw_packet =
  rp_header :: packet_header
  rp_contract_header :: ego_frame_header
  rp_is_contract :: bool
  rp_payload :: bytes
  rp_chunk_id :: u32
  rp_file_offset :: u64

definition zero_packet_header :: packet_header where
  "zero_packet_header = packet_header_at (replicate 34 0)"

definition zero_frame_header :: ego_frame_header where
  "zero_frame_header = header_of_bytes (replicate 72 0)"

definition default_raw_packet :: raw_packet where
  "default_raw_packet = \<lparr>rp_header = zero_packet_header, rp_contract_header = zero_frame_header,
     rp_is_contract = False, rp_payload = [], rp_chunk_id = 0, rp_file_offset = 0\<rparr>"

datatype parse_status = Ps_ok | Ps_bad_magic | Ps_bad_version | Ps_truncated | Ps_crc_fail | Ps_size_exceeded

record parse_result =
  pr_status :: parse_status
  pr_header :: packet_header
  pr_payload :: bytes
  pr_error :: string

definition kMaxPayloadSize :: u32 where "kMaxPayloadSize = 8192"
definition kMagic :: u32 where "kMagic = 0x45574F48"
definition kOfflineVersion :: u16 where "kOfflineVersion = 1"

definition new_parse_result :: parse_result where
  "new_parse_result = \<lparr>pr_status = Ps_ok, pr_header = zero_packet_header, pr_payload = [], pr_error = []\<rparr>"

section \<open>Operations\<close>

text \<open>\<open>BinaryParser::validate\<close>: a packet already read from a file.\<close>

definition validate_raw :: "raw_packet \<Rightarrow> parse_result" where
  "validate_raw raw =
     (let h = rp_header raw;
          res = new_parse_result\<lparr>pr_header := h, pr_payload := rp_payload raw\<rparr>
      in if ph_magic h \<noteq> kMagic then res\<lparr>pr_status := Ps_bad_magic, pr_error := ''bad magic''\<rparr>
         else if ph_protocol_version h \<noteq> kOfflineVersion
         then res\<lparr>pr_status := Ps_bad_version, pr_error := ''protocol_version != 1''\<rparr>
         else if ph_payload_size h > kMaxPayloadSize
         then res\<lparr>pr_status := Ps_size_exceeded, pr_error := ''payload_size exceeds limit''\<rparr>
         else if length (rp_payload raw) < unat (ph_payload_size h)
         then res\<lparr>pr_status := Ps_truncated, pr_error := ''truncated payload''\<rparr>
         else if ph_payload_size h > 0 \<and>
             offline_crc32 (take (unat (ph_payload_size h)) (rp_payload raw)) \<noteq> ph_checksum h
         then res\<lparr>pr_status := Ps_crc_fail, pr_error := ''CRC32 mismatch''\<rparr>
         else res)"

text \<open>\<open>BinaryParser::parse_from_buffer\<close>: the number of bytes consumed, 0 on failure, and the result.\<close>

definition parse_from_buffer :: "bytes \<Rightarrow> nat \<times> parse_result" where
  "parse_from_buffer data =
     (let out = new_parse_result in
      if length data < 34
      then (0, out\<lparr>pr_status := Ps_truncated, pr_error := ''buffer too small for header''\<rparr>)
      else
        let h = packet_header_at data; out = out\<lparr>pr_header := h\<rparr> in
        if ph_magic h \<noteq> kMagic then (0, out\<lparr>pr_status := Ps_bad_magic, pr_error := ''bad magic''\<rparr>)
        else if ph_protocol_version h \<noteq> kOfflineVersion
        then (0, out\<lparr>pr_status := Ps_bad_version, pr_error := ''bad protocol_version''\<rparr>)
        else if ph_payload_size h > kMaxPayloadSize
        then (0, out\<lparr>pr_status := Ps_size_exceeded, pr_error := ''payload_size exceeds limit''\<rparr>)
        else
          let total = 34 + unat (ph_payload_size h) in
          if length data < total
          then (0, out\<lparr>pr_status := Ps_truncated, pr_error := ''buffer too small for payload''\<rparr>)
          else
            let out = out\<lparr>pr_payload := slice 34 (unat (ph_payload_size h)) data\<rparr> in
            if ph_payload_size h > 0 \<and> offline_crc32 (pr_payload out) \<noteq> ph_checksum h
            then (0, out\<lparr>pr_status := Ps_crc_fail, pr_error := ''CRC32 mismatch''\<rparr>)
            else (total, out\<lparr>pr_status := Ps_ok\<rparr>))"

section \<open>The two parsers and the recorder's validator\<close>

lemma offline_crc32_protocol: "offline_crc32 = protocol_crc32"
  by (simp add: fun_eq_iff crc_froms)

lemma parse_consumed_iff: "fst (parse_from_buffer data) \<noteq> 0 \<longleftrightarrow> pr_status (snd (parse_from_buffer data)) = Ps_ok"
  by (simp add: parse_from_buffer_def Let_def)

lemma parse_consumed_length: "fst (parse_from_buffer data) \<le> length data"
  by (simp add: parse_from_buffer_def Let_def)

lemma packet_header_at_append: "34 \<le> length xs \<Longrightarrow> packet_header_at (xs @ ys) = packet_header_at xs"
  by (simp add: packet_header_at_def rd_append)

text \<open>The consequences of a successful parse, in one place.\<close>

lemma parse_ok_iff:
  "parse_from_buffer data = (n, out) \<and> pr_status out = Ps_ok \<longleftrightarrow>
     (let h = packet_header_at data; m = unat (ph_payload_size h) in
      34 + m \<le> length data \<and> ph_magic h = kMagic \<and> ph_protocol_version h = kOfflineVersion \<and> m \<le> 8192 \<and>
      (0 < m \<longrightarrow> offline_crc32 (slice 34 m data) = ph_checksum h) \<and> n = 34 + m \<and>
      out = \<lparr>pr_status = Ps_ok, pr_header = h, pr_payload = slice 34 m data, pr_error = []\<rparr>)"
  by (auto simp: parse_from_buffer_def Let_def new_parse_result_def kMaxPayloadSize_def word_le_nat_alt
      word_less_nat_alt not_less)

lemma validate_packet_iff:
  "validate_packet h p mx \<longleftrightarrow>
     ph_magic h = kPacketMagic \<and> ph_protocol_version h = kProtocolVersion \<and>
     ph_payload_version h = kPayloadVersion \<and> is_known_packet_type (ph_type h) \<and>
     ph_payload_size h \<le> mx \<and> unat (ph_payload_size h) = length p \<and> ph_checksum h = protocol_crc32 p"
  by (auto simp: validate_packet_def validate_packet_verbose_def not_less)

text \<open>The offline parser and the recorder's validator, on the front of a buffer that is one whole
  packet of the recorder: the parser takes exactly this packet, with its header and payload,
  wherever the validator accepts it. The validator asks for three things more, which the parser
  does not look at: the payload version, a known type, and the checksum of an empty payload.\<close>

theorem offline_parser_vs_validator:
  assumes "deserialize_packet bs = Inr (h, p)"
  shows "validate_packet h p kMaxPayloadSize \<longleftrightarrow>
    parse_from_buffer (bs @ rest) =
      (length bs, \<lparr>pr_status = Ps_ok, pr_header = h, pr_payload = p, pr_error = []\<rparr>) \<and>
    ph_payload_version h = kPayloadVersion \<and> is_known_packet_type (ph_type h) \<and>
    (p = [] \<longrightarrow> ph_checksum h = 0)"
proof -
  have len: "34 \<le> length bs" and h: "h = packet_header_at bs"
    and m: "34 + unat (ph_payload_size h) = length bs" and p: "p = drop 34 bs"
    using assms by (auto simp: deserialize_packet_at split: if_splits)
  have lp: "unat (ph_payload_size h) = length p" using m p by simp
  have "slice 34 (length p) (bs @ rest) = p"
    using len m p lp by (simp add: slice_def)
  then have "parse_from_buffer (bs @ rest) =
      (length bs, \<lparr>pr_status = Ps_ok, pr_header = h, pr_payload = p, pr_error = []\<rparr>) \<longleftrightarrow>
    ph_magic h = kMagic \<and> ph_protocol_version h = kOfflineVersion \<and> length p \<le> 8192 \<and>
    (p \<noteq> [] \<longrightarrow> offline_crc32 p = ph_checksum h)"
    using parse_ok_iff [of "bs @ rest" "length bs"
        "\<lparr>pr_status = Ps_ok, pr_header = h, pr_payload = p, pr_error = []\<rparr>"]
      packet_header_at_append [OF len, of rest] m lp
    by (simp add: Let_def h [symmetric] lp)
  then show ?thesis
    by (cases "p = []") (auto simp: validate_packet_iff kMaxPayloadSize_def word_le_nat_alt lp kMagic_def kOfflineVersion_def
        kPacketMagic_def kProtocolVersion_def offline_crc32_protocol)
qed

theorem offline_parser_vs_validator_witness:
  "validate_packet default_packet_header [] kMaxPayloadSize \<longleftrightarrow>
    parse_from_buffer (serialize_header default_packet_header @ [1, 2]) =
      (length (serialize_header default_packet_header),
       \<lparr>pr_status = Ps_ok, pr_header = default_packet_header, pr_payload = [], pr_error = []\<rparr>) \<and>
    ph_payload_version default_packet_header = kPayloadVersion \<and>
    is_known_packet_type (ph_type default_packet_header) \<and>
    ([] = ([] :: bytes) \<longrightarrow> ph_checksum default_packet_header = 0)"
  by (rule offline_parser_vs_validator)
    (simp add: deserialize_packet_at default_packet_header_def)

text \<open>The two entries of the parser agree: what \<open>parse_from_buffer\<close> accepts, \<open>validate\<close> accepts as a
  packet read from a file, and it accepts nothing else.\<close>

theorem validate_raw_parse:
  assumes "34 + unat (ph_payload_size (packet_header_at data)) \<le> length data"
    and "rp_header raw = packet_header_at data"
    and "rp_payload raw = slice 34 (unat (ph_payload_size (packet_header_at data))) data"
  shows "pr_status (validate_raw raw) = pr_status (snd (parse_from_buffer data))"
  using assms by (auto simp: validate_raw_def parse_from_buffer_def Let_def new_parse_result_def)

theorem validate_raw_parse_witness:
  "pr_status (validate_raw (default_raw_packet\<lparr>rp_header := default_packet_header\<rparr>))
    = pr_status (snd (parse_from_buffer (serialize_header default_packet_header)))"
  by (rule validate_raw_parse) (simp_all add: default_packet_header_def default_raw_packet_def slice_def)

end
