(* ===== verification/LogReaders.thy ===== *)
theory LogReaders
  imports JsonTexts BinaryParser Files
begin

text \<open>
  The offline pipeline's readers of a session directory: \<open>offline/src/load/ego_log_reader.cpp\<close>,
  \<open>source_log_reader.cpp\<close> and \<open>metadata_loader.cpp\<close>. A path is a file name in the session directory.
  A callback has a state and returns whether to go on. Allocation never fails.
\<close>

section \<open>Manifests\<close>

record chunk_ref =
  cr_path :: string
  cr_first_ts_ns :: ns_t
  cr_last_ts_ns :: ns_t
  cr_packet_count :: u64
  cr_chunk_id :: u32

definition default_chunk_ref :: chunk_ref where
  "default_chunk_ref = \<lparr>cr_path = [], cr_first_ts_ns = 0, cr_last_ts_ns = 0, cr_packet_count = 0,
     cr_chunk_id = 0\<rparr>"

record log_manifest =
  lm_session_id :: string
  lm_first_ts_ns :: ns_t
  lm_last_ts_ns :: ns_t
  lm_packet_count :: u64
  lm_chunks :: "chunk_ref list"

definition ego_bin_name :: "nat \<Rightarrow> string" where
  "ego_bin_name i = ''ego_'' @ dec i @ ''.bin''"

text \<open>One element of the manifest's array; \<open>fallback\<close> is the name if neither key gives one.\<close>

definition chunk_of_json :: "string \<Rightarrow> json \<Rightarrow> chunk_ref" where
  "chunk_of_json fallback cj =
     (let fname = value_string cj ''file'' [];
          fname = (if fname = [] then value_string cj ''filename'' fallback else fname)
      in \<lparr>cr_path = fname, cr_first_ts_ns = value_int64 cj ''first_ts_ns'' 0,
          cr_last_ts_ns = value_int64 cj ''last_ts_ns'' 0,
          cr_packet_count = value_int64 cj ''packet_count'' 0, cr_chunk_id = value_int cj ''chunk_id'' 0\<rparr>)"

text \<open>The chunks of a manifest without an array: the numbered files, up to the first missing one. A
  directory of \<open>n\<close> files misses one of the first \<open>n + 1\<close> names.\<close>

definition probe_chunks :: "dir \<Rightarrow> chunk_ref list" where
  "probe_chunks d =
     (case takeWhile (\<lambda>i. fget d (ego_bin_name i) \<noteq> None) [0..<Suc (length d)] of
        [] \<Rightarrow> (if fget d ''ego.bin'' \<noteq> None then [default_chunk_ref\<lparr>cr_path := ''ego.bin''\<rparr>] else [])
      | is \<Rightarrow> map (\<lambda>i. default_chunk_ref\<lparr>cr_path := ego_bin_name i, cr_chunk_id := of_nat i\<rparr>) is)"

definition manifest_of_json :: "chunk_ref list \<Rightarrow> string \<Rightarrow> json \<Rightarrow> log_manifest" where
  "manifest_of_json probed fallback j =
     \<lparr>lm_session_id = value_string j ''session_id'' [], lm_first_ts_ns = value_int64 j ''first_ts_ns'' 0,
      lm_last_ts_ns = value_int64 j ''last_ts_ns'' 0, lm_packet_count = value_int64 j ''packet_count'' 0,
      lm_chunks =
        (if json_contains ''chunks'' j then map (chunk_of_json fallback) (elements (json_at j ''chunks''))
         else probed)\<rparr>"

definition ego_manifest_from_json :: "dir \<Rightarrow> string \<Rightarrow> json_error + log_manifest" where
  "ego_manifest_from_json d path =
     sum_bind (json_load (fget d path)) (\<lambda>j. Inr (manifest_of_json (probe_chunks d) [] j))"

definition source_manifest_from_json :: "dir \<Rightarrow> string \<Rightarrow> json_error + log_manifest" where
  "source_manifest_from_json d path =
     sum_bind (json_load (fget d path)) (\<lambda>j.
       Inr (manifest_of_json [default_chunk_ref\<lparr>cr_path := ''source.bin''\<rparr>] ''source.bin'' j))"

definition single_file_manifest :: "string \<Rightarrow> log_manifest" where
  "single_file_manifest bin_path = \<lparr>lm_session_id = [], lm_first_ts_ns = 0, lm_last_ts_ns = 0,
     lm_packet_count = 0, lm_chunks = [default_chunk_ref\<lparr>cr_path := bin_path\<rparr>]\<rparr>"

section \<open>Scanning a chunk\<close>

datatype bin_format = Fmt_unknown | Fmt_legacy | Fmt_contract

definition kContractMagic :: u32 where "kContractMagic = 0x314F4745"

definition detect_format :: "bytes option \<Rightarrow> bin_format" where
  "detect_format file =
     (case file of None \<Rightarrow> Fmt_unknown
      | Some bs \<Rightarrow> (let magic = rd 0 4 bs :: u32 in
          if magic = kContractMagic then Fmt_contract
          else if magic = kMagic then Fmt_legacy else Fmt_unknown))"

text \<open>The loops over a stream: the argument is what has not been read, \<open>off\<close> is \<open>file_offset\<close>.\<close>

definition legacy_packet :: "u32 \<Rightarrow> u64 \<Rightarrow> bytes \<Rightarrow> raw_packet" where
  "legacy_packet chunk_id off bs =
     (let h = packet_header_at bs in
      default_raw_packet\<lparr>rp_header := h, rp_chunk_id := chunk_id, rp_file_offset := off,
        rp_payload := slice 34 (unat (ph_payload_size h)) bs\<rparr>)"

function scan_legacy_from ::
  "(raw_packet \<Rightarrow> 's \<Rightarrow> bool \<times> 's) \<Rightarrow> u32 \<Rightarrow> u64 \<Rightarrow> bytes \<Rightarrow> 's \<Rightarrow> 's"
where
  "scan_legacy_from cb chunk_id off bs s =
     (if length bs < 34 then s
      else
        let h = packet_header_at bs; m = unat (ph_payload_size h) in
        if ph_magic h \<noteq> kMagic then s
        else if 0 < m \<and> length bs < 34 + m then s
        else case cb (legacy_packet chunk_id off bs) s of
            (False, s') \<Rightarrow> s'
          | (True, s') \<Rightarrow> scan_legacy_from cb chunk_id (off + 34 + of_nat m) (drop (34 + m) bs) s')"
  by pat_completeness auto
termination by (relation "measure (\<lambda>(_, _, _, bs, _). length bs)") auto

declare scan_legacy_from.simps [simp del]

definition contract_packet :: "u32 \<Rightarrow> u64 \<Rightarrow> bytes \<Rightarrow> raw_packet" where
  "contract_packet chunk_id off bs =
     (let h = header_of_bytes bs in
      default_raw_packet\<lparr>rp_contract_header := h, rp_is_contract := True, rp_chunk_id := chunk_id,
        rp_file_offset := off,
        rp_header := zero_packet_header\<lparr>ph_ts_ns := eh_t0_ns h, ph_seq := ucast (eh_seq h),
          ph_type := ucast (eh_frame_type h), ph_payload_size := eh_payload_size h\<rparr>,
        rp_payload := slice 72 (unat (eh_payload_size h)) bs\<rparr>)"

function scan_contract_from ::
  "(raw_packet \<Rightarrow> 's \<Rightarrow> bool \<times> 's) \<Rightarrow> u32 \<Rightarrow> u64 \<Rightarrow> bytes \<Rightarrow> 's \<Rightarrow> 's"
where
  "scan_contract_from cb chunk_id off bs s =
     (if length bs < 72 then s
      else
        let h = header_of_bytes bs; m = unat (eh_payload_size h) in
        if eh_magic h \<noteq> kContractMagic then s
        else if 0 < m \<and> length bs < 72 + m then s
        else case cb (contract_packet chunk_id off bs) s of
            (False, s') \<Rightarrow> s'
          | (True, s') \<Rightarrow> scan_contract_from cb chunk_id (off + 72 + of_nat m) (drop (72 + m) bs) s')"
  by pat_completeness auto
termination by (relation "measure (\<lambda>(_, _, _, bs, _). length bs)") auto

declare scan_contract_from.simps [simp del]

section \<open>The ego log reader\<close>

record index_entry =
  ix_offset :: u64
  ix_ts_ns :: ns_t
  ix_type :: u16
  ix_seq :: u32
  ix_chunk_id :: u32

record log_reader =
  lr_format :: bin_format
  lr_manifest :: log_manifest
  lr_index :: "index_entry list"
  lr_index_built :: bool

definition new_ego_reader :: "dir \<Rightarrow> log_manifest \<Rightarrow> log_reader" where
  "new_ego_reader d m = \<lparr>lr_format = (case lm_chunks m of [] \<Rightarrow> Fmt_unknown
       | c # _ \<Rightarrow> detect_format (fget d (cr_path c))),
     lr_manifest = m, lr_index = [], lr_index_built = False\<rparr>"

definition scan_chunk ::
  "bin_format \<Rightarrow> dir \<Rightarrow> (raw_packet \<Rightarrow> 's \<Rightarrow> bool \<times> 's) \<Rightarrow> chunk_ref \<Rightarrow> 's \<Rightarrow> 's"
where
  "scan_chunk format d cb c s =
     (case fget d (cr_path c) of
        None \<Rightarrow> s
      | Some bs \<Rightarrow>
          let fmt = (if format = Fmt_unknown then detect_format (Some bs) else format) in
          if fmt = Fmt_contract then scan_contract_from cb (cr_chunk_id c) 0 bs s
          else scan_legacy_from cb (cr_chunk_id c) 0 bs s)"

definition ego_scan :: "dir \<Rightarrow> (raw_packet \<Rightarrow> 's \<Rightarrow> bool \<times> 's) \<Rightarrow> log_reader \<Rightarrow> 's \<Rightarrow> 's" where
  "ego_scan d cb r s = foldl (\<lambda>s c. scan_chunk (lr_format r) d cb c s) s (lm_chunks (lr_manifest r))"

text \<open>\<open>std::getline\<close> with a comma, \<open>std::stoll\<close> and \<open>std::stoi\<close>.\<close>

function tokens :: "string \<Rightarrow> string list" where
  "tokens s = (if s = [] then []
     else before_char (CHR '','') s #
       (case after_char (CHR '','') s of None \<Rightarrow> [] | Some r \<Rightarrow> tokens r))"
  by pat_completeness auto
termination by (relation "measure length") (auto dest: after_char_length)

declare tokens.simps [simp del]

definition signed_number :: "int \<Rightarrow> string \<Rightarrow> string + int" where
  "signed_number bound v =
     (let s = dropWhile is_space v;
          neg = (s \<noteq> [] \<and> hd s = CHR ''-'');
          ds = takeWhile is_digit (if s \<noteq> [] \<and> (hd s = CHR ''-'' \<or> hd s = CHR ''+'') then tl s else s);
          k = (if neg then - int (digits_val ds) else int (digits_val ds))
      in if ds = [] then Inl ''invalid_argument''
         else if k < - bound \<or> k \<ge> bound then Inl ''out_of_range'' else Inr k)"

definition stoll :: "string \<Rightarrow> string + u64" where
  "stoll v = sum_bind (signed_number (2 ^ 63) v) (\<lambda>k. Inr (of_int k))"

definition stoi :: "string \<Rightarrow> string + u32" where
  "stoi v = sum_bind (signed_number (2 ^ 31) v) (\<lambda>k. Inr (of_int k))"

definition set_column :: "nat \<Rightarrow> string \<Rightarrow> index_entry \<Rightarrow> string + index_entry" where
  "set_column col tok e =
     (if col = 0 then sum_bind (stoul tok) (\<lambda>v. Inr (e\<lparr>ix_offset := v\<rparr>))
      else if col = 1 then sum_bind (stoll tok) (\<lambda>v. Inr (e\<lparr>ix_ts_ns := v\<rparr>))
      else if col = 2 then sum_bind (stoul tok) (\<lambda>v. Inr (e\<lparr>ix_type := ucast v\<rparr>))
      else if col = 3 then sum_bind (stoul tok) (\<lambda>v. Inr (e\<lparr>ix_seq := ucast v\<rparr>))
      else if col = 4 then sum_bind (stoi tok) (\<lambda>v. Inr (e\<lparr>ix_chunk_id := v\<rparr>))
      else Inr e)"

fun set_columns :: "nat \<Rightarrow> string list \<Rightarrow> index_entry \<Rightarrow> string + index_entry" where
  "set_columns col [] e = Inr e"
| "set_columns col (tok # toks) e = sum_bind (set_column col tok e) (set_columns (Suc col) toks)"

definition zero_entry :: index_entry where
  "zero_entry = \<lparr>ix_offset = 0, ix_ts_ns = 0, ix_type = 0, ix_seq = 0, ix_chunk_id = 0\<rparr>"

fun index_of_lines :: "string list \<Rightarrow> string + index_entry list" where
  "index_of_lines [] = Inr []"
| "index_of_lines (l # ls) =
     (if l = [] then index_of_lines ls
      else sum_bind (set_columns 0 (tokens l) zero_entry) (\<lambda>e.
        sum_bind (index_of_lines ls) (\<lambda>es. Inr (e # es))))"

text \<open>The index file's first line is skipped.\<close>

definition load_index :: "bytes \<Rightarrow> string + index_entry list" where
  "load_index bs = index_of_lines (drop 1 (getlines (bytes_text bs)))"

definition entry_of :: "raw_packet \<Rightarrow> index_entry" where
  "entry_of p = \<lparr>ix_offset = rp_file_offset p, ix_ts_ns = ph_ts_ns (rp_header p),
     ix_type = ph_type (rp_header p), ix_seq = ph_seq (rp_header p), ix_chunk_id = rp_chunk_id p\<rparr>"

text \<open>The index collected by a scan is sorted by the signed time. Where times are equal \<open>std::sort\<close> may
  choose any order; the model keeps them in the order of the scan.\<close>

definition sorted_index :: "index_entry list \<Rightarrow> index_entry list" where
  "sorted_index es = sort_key (\<lambda>e. sint (ix_ts_ns e)) es"

definition ego_build_index :: "dir \<Rightarrow> string \<Rightarrow> log_reader \<Rightarrow> string + log_reader" where
  "ego_build_index d index_path r =
     (case (if index_path = [] then None else fget d index_path) of
        Some bs \<Rightarrow> sum_bind (load_index bs) (\<lambda>es. Inr (r\<lparr>lr_index := es, lr_index_built := (es \<noteq> [])\<rparr>))
      | None \<Rightarrow> Inr (r\<lparr>lr_index := sorted_index (ego_scan d (\<lambda>p es. (True, es @ [entry_of p])) r []),
          lr_index_built := True\<rparr>))"

text \<open>Reading the packet an entry points to, in the first chunk with its number.\<close>

definition read_entry :: "dir \<Rightarrow> chunk_ref list \<Rightarrow> index_entry \<Rightarrow> raw_packet option" where
  "read_entry d cs e =
     (case filter (\<lambda>c. cr_chunk_id c = ix_chunk_id e) cs of
        [] \<Rightarrow> None
      | c # _ \<Rightarrow>
          (case fget d (cr_path c) of None \<Rightarrow> None
           | Some file \<Rightarrow>
               let bs = drop (unat (ix_offset e)) file; h = packet_header_at bs;
                   m = unat (ph_payload_size h)
               in if length bs < 34 then None
                  else if 0 < m \<and> length bs < 34 + m then None
                  else Some (legacy_packet (ix_chunk_id e) (ix_offset e) bs)))"

text \<open>\<open>std::lower_bound\<close> and \<open>std::upper_bound\<close> on the index, which is sorted by time. If the upper
  bound comes before the lower one the loop leaves the index; that is the value None.\<close>

definition ego_read_range :: "dir \<Rightarrow> log_reader \<Rightarrow> ns_t \<Rightarrow> ns_t \<Rightarrow> raw_packet list option" where
  "ego_read_range d r t_start t_end =
     (if \<not> lr_index_built r then
        Some (ego_scan d (\<lambda>p ps. (True,
          if sint t_start \<le> sint (ph_ts_ns (rp_header p)) \<and> sint (ph_ts_ns (rp_header p)) \<le> sint t_end
          then ps @ [p] else ps)) r [])
      else
        let lo = length (takeWhile (\<lambda>e. sint (ix_ts_ns e) < sint t_start) (lr_index r));
            hi = length (takeWhile (\<lambda>e. \<not> sint t_end < sint (ix_ts_ns e)) (lr_index r))
        in if hi < lo then None
           else Some (List.map_filter (read_entry d (lm_chunks (lr_manifest r)))
             (take (hi - lo) (drop lo (lr_index r)))))"

definition ego_verify_packet_count :: "dir \<Rightarrow> log_reader \<Rightarrow> bool \<times> u64" where
  "ego_verify_packet_count d r =
     (let n = ego_scan d (\<lambda>_ n. (True, n + 1)) r (0 :: u64); expected = lm_packet_count (lr_manifest r)
      in (expected = 0 \<or> n = expected, n))"

section \<open>The source log reader\<close>

text \<open>Packets of other types are skipped without looking whether they are complete.\<close>

function scan_source_from ::
  "(raw_packet \<Rightarrow> 's \<Rightarrow> bool \<times> 's) \<Rightarrow> u32 \<Rightarrow> u64 \<Rightarrow> bytes \<Rightarrow> 's \<Rightarrow> bool \<times> 's"
where
  "scan_source_from cb chunk_id off bs s =
     (if length bs < 34 then (True, s)
      else
        let h = packet_header_at bs; m = unat (ph_payload_size h) in
        if ph_magic h \<noteq> kMagic then (True, s)
        else if ph_type h < 101 \<or> ph_type h > 199
        then scan_source_from cb chunk_id (off + 34 + of_nat m) (drop (34 + m) bs) s
        else if 0 < m \<and> length bs < 34 + m then (True, s)
        else case cb (legacy_packet chunk_id off bs) s of
            (False, s') \<Rightarrow> (False, s')
          | (True, s') \<Rightarrow> scan_source_from cb chunk_id (off + 34 + of_nat m) (drop (34 + m) bs) s')"
  by pat_completeness auto
termination by (relation "measure (\<lambda>(_, _, _, bs, _). length bs)") auto

declare scan_source_from.simps [simp del]

text \<open>The source's scan stops at the first refusal of the callback, also across chunks.\<close>

fun scan_source_chunks ::
  "dir \<Rightarrow> (raw_packet \<Rightarrow> 's \<Rightarrow> bool \<times> 's) \<Rightarrow> chunk_ref list \<Rightarrow> 's \<Rightarrow> 's"
where
  "scan_source_chunks d cb [] s = s"
| "scan_source_chunks d cb (c # cs) s =
     (case fget d (cr_path c) of
        None \<Rightarrow> scan_source_chunks d cb cs s
      | Some bs \<Rightarrow>
          (case scan_source_from cb (cr_chunk_id c) 0 bs s of
             (False, s') \<Rightarrow> s'
           | (True, s') \<Rightarrow> scan_source_chunks d cb cs s'))"

definition source_scan :: "dir \<Rightarrow> (raw_packet \<Rightarrow> 's \<Rightarrow> bool \<times> 's) \<Rightarrow> log_manifest \<Rightarrow> 's \<Rightarrow> 's" where
  "source_scan d cb m s = scan_source_chunks d cb (lm_chunks m) s"

definition source_build_index :: "dir \<Rightarrow> string \<Rightarrow> log_manifest \<Rightarrow> string + index_entry list \<times> bool" where
  "source_build_index d index_path m =
     (case (if index_path = [] then None else fget d index_path) of
        Some bs \<Rightarrow> sum_bind (load_index bs) (\<lambda>es. Inr (es, es \<noteq> []))
      | None \<Rightarrow> Inr (sorted_index (source_scan d (\<lambda>p es. (True, es @ [entry_of p])) m []), True))"

definition source_verify_packet_count :: "dir \<Rightarrow> log_manifest \<Rightarrow> bool \<times> u64" where
  "source_verify_packet_count d m =
     (let n = source_scan d (\<lambda>_ n. (True, n + 1)) m (0 :: u64)
      in (lm_packet_count m = 0 \<or> n = lm_packet_count m, n))"

section \<open>Metadata\<close>

record session_meta =
  mt_session_id :: string
  mt_vehicle_id :: string
  mt_started_at_utc :: string
  mt_stopped_at_utc :: string
  mt_runtime_version :: string
  mt_protocol_version :: string
  mt_duration_s :: f64

record scenario_info =
  mc_scenario_id :: string
  mc_operator_id :: string
  mc_notes :: string

record source_meta =
  mu_source_id :: string
  mu_config_version :: string
  mu_software_version :: string

record session_bundle =
  sb_session :: session_meta
  sb_scenario :: "scenario_info option"
  sb_source :: "source_meta option"

definition session_meta_from_json :: "bytes option \<Rightarrow> json_error + session_meta" where
  "session_meta_from_json file = sum_bind (json_load file) (\<lambda>j.
     Inr \<lparr>mt_session_id = value_string j ''session_id'' [], mt_vehicle_id = value_string j ''vehicle_id'' [],
       mt_started_at_utc = value_string j ''started_at_utc'' [],
       mt_stopped_at_utc = value_string j ''stopped_at_utc'' [],
       mt_runtime_version = value_string j ''runtime_version'' [],
       mt_protocol_version = value_string j ''protocol_version'' [],
       mt_duration_s = value_double j ''duration_s'' f64_zero\<rparr>)"

definition scenario_info_from_json :: "bytes option \<Rightarrow> json_error + scenario_info" where
  "scenario_info_from_json file = sum_bind (json_load file) (\<lambda>j.
     let oper = value_string j ''operator_id'' [] in
     Inr \<lparr>mc_scenario_id = value_string j ''scenario_id'' [],
       mc_operator_id = (if oper = [] then value_string j ''operator'' [] else oper),
       mc_notes = value_string j ''notes'' []\<rparr>)"

definition source_meta_from_json :: "bytes option \<Rightarrow> json_error + source_meta" where
  "source_meta_from_json file = sum_bind (json_load file) (\<lambda>j.
     Inr \<lparr>mu_source_id = value_string j ''source_id'' [], mu_config_version = value_string j ''config_version'' [],
       mu_software_version = value_string j ''software_version'' []\<rparr>)"

text \<open>A missing or unreadable optional file leaves the field empty.\<close>

definition result_option :: "'e + 'a \<Rightarrow> 'a option" where
  "result_option x = (case x of Inl _ \<Rightarrow> None | Inr a \<Rightarrow> Some a)"

definition session_bundle_load :: "dir \<Rightarrow> json_error + session_bundle" where
  "session_bundle_load d =
     sum_bind (session_meta_from_json (fget d ''session_metadata.json'')) (\<lambda>m.
       Inr \<lparr>sb_session = m,
         sb_scenario = (case fget d ''scenario_metadata.json'' of None \<Rightarrow> None
           | Some bs \<Rightarrow> result_option (scenario_info_from_json (Some bs))),
         sb_source = (case fget d ''source_metadata.json'' of None \<Rightarrow> None
           | Some bs \<Rightarrow> result_option (source_meta_from_json (Some bs)))\<rparr>)"

section \<open>A scan is a pass over the packets it visits\<close>

fun feed_packets :: "(raw_packet \<Rightarrow> 's \<Rightarrow> bool \<times> 's) \<Rightarrow> raw_packet list \<Rightarrow> 's \<Rightarrow> 's" where
  "feed_packets cb [] s = s"
| "feed_packets cb (p # ps) s = (case cb p s of (False, s') \<Rightarrow> s' | (True, s') \<Rightarrow> feed_packets cb ps s')"

function legacy_packets :: "u32 \<Rightarrow> u64 \<Rightarrow> bytes \<Rightarrow> raw_packet list" where
  "legacy_packets c off bs =
     (let h = packet_header_at bs; m = unat (ph_payload_size h) in
      if length bs < 34 \<or> ph_magic h \<noteq> kMagic \<or> (0 < m \<and> length bs < 34 + m) then []
      else legacy_packet c off bs # legacy_packets c (off + 34 + of_nat m) (drop (34 + m) bs))"
  by pat_completeness auto
termination by (relation "measure (\<lambda>(_, _, bs). length bs)") auto

function contract_packets :: "u32 \<Rightarrow> u64 \<Rightarrow> bytes \<Rightarrow> raw_packet list" where
  "contract_packets c off bs =
     (let h = header_of_bytes bs; m = unat (eh_payload_size h) in
      if length bs < 72 \<or> eh_magic h \<noteq> kContractMagic \<or> (0 < m \<and> length bs < 72 + m) then []
      else contract_packet c off bs # contract_packets c (off + 72 + of_nat m) (drop (72 + m) bs))"
  by pat_completeness auto
termination by (relation "measure (\<lambda>(_, _, bs). length bs)") auto

declare legacy_packets.simps [simp del] contract_packets.simps [simp del]

lemma scan_legacy_feed: "scan_legacy_from cb c off bs s = feed_packets cb (legacy_packets c off bs) s"
  by (induction cb c off bs s rule: scan_legacy_from.induct)
    (subst scan_legacy_from.simps, subst legacy_packets.simps, auto simp: Let_def unat_eq_zero split: prod.split bool.split)

lemma scan_contract_feed: "scan_contract_from cb c off bs s = feed_packets cb (contract_packets c off bs) s"
  by (induction cb c off bs s rule: scan_contract_from.induct)
    (subst scan_contract_from.simps, subst contract_packets.simps, auto simp: Let_def unat_eq_zero split: prod.split bool.split)

text \<open>The packets of a chunk and of a session, and a callback that never stops.\<close>

definition chunk_packets :: "bin_format \<Rightarrow> dir \<Rightarrow> chunk_ref \<Rightarrow> raw_packet list" where
  "chunk_packets format d c =
     (case fget d (cr_path c) of None \<Rightarrow> []
      | Some bs \<Rightarrow>
          if (if format = Fmt_unknown then detect_format (Some bs) else format) = Fmt_contract
          then contract_packets (cr_chunk_id c) 0 bs else legacy_packets (cr_chunk_id c) 0 bs)"

definition session_packets :: "dir \<Rightarrow> log_reader \<Rightarrow> raw_packet list" where
  "session_packets d r = concat (map (chunk_packets (lr_format r) d) (lm_chunks (lr_manifest r)))"

lemma scan_chunk_feed: "scan_chunk format d cb c s = feed_packets cb (chunk_packets format d c) s"
  by (auto simp: scan_chunk_def chunk_packets_def scan_legacy_feed scan_contract_feed Let_def split: option.split)

lemma feed_never_stops:
  "feed_packets (\<lambda>p s. (True, f p s)) ps s = fold f ps s"
  by (induction ps arbitrary: s) auto

lemma ego_scan_all: "ego_scan d (\<lambda>p s. (True, f p s)) r s = fold f (session_packets d r) s"
proof -
  have "foldl (\<lambda>s c. scan_chunk (lr_format r) d (\<lambda>p s. (True, f p s)) c s) s cs
      = fold f (concat (map (chunk_packets (lr_format r) d) cs)) s" for cs
    by (induction cs arbitrary: s) (simp_all add: scan_chunk_feed feed_never_stops)
  then show ?thesis by (simp add: ego_scan_def session_packets_def)
qed

lemma fold_collect: "fold (\<lambda>p es. es @ [g p]) ps es = es @ map g ps"
  by (induction ps arbitrary: es) auto

lemma fold_collect_if: "fold (\<lambda>p es. if P p then es @ [p] else es) ps es = es @ filter P ps"
  by (induction ps arbitrary: es) auto

lemma fold_count: "fold (\<lambda>_ n. n + 1) ps (n :: u64) = n + of_nat (length ps)"
  by (induction ps arbitrary: n) (auto simp: algebra_simps)

section \<open>Random access\<close>

lemma map_insort_key: "map g (insort_key (\<lambda>x. f (g x)) x xs) = insort_key f (g x) (map g xs)"
  by (induction xs) auto

lemma sort_key_map: "sort_key f (map g xs) = map g (sort_key (\<lambda>x. f (g x)) xs)"
  by (induction xs) (auto simp: map_insort_key)

text \<open>The part of a list sorted by \<open>f\<close> between the lower bound of \<open>a\<close> and the upper bound of \<open>b\<close>.\<close>

lemma sorted_window:
  fixes f :: "'a \<Rightarrow> 'b::linorder"
  assumes "sorted (map f xs)" and "a \<le> b"
  defines "lo \<equiv> length (takeWhile (\<lambda>x. f x < a) xs)" and "hi \<equiv> length (takeWhile (\<lambda>x. \<not> b < f x) xs)"
  shows "lo \<le> hi" and "take (hi - lo) (drop lo xs) = filter (\<lambda>x. a \<le> f x \<and> f x \<le> b) xs"
proof -
  have "length (takeWhile (\<lambda>x. f x < a) xs) \<le> length (takeWhile (\<lambda>x. \<not> b < f x) xs) \<and>
      take (length (takeWhile (\<lambda>x. \<not> b < f x) xs) - length (takeWhile (\<lambda>x. f x < a) xs))
        (drop (length (takeWhile (\<lambda>x. f x < a) xs)) xs) = filter (\<lambda>x. a \<le> f x \<and> f x \<le> b) xs"
    using assms(1)
  proof (induction xs)
    case Nil
    then show ?case by simp
  next
    case (Cons x xs)
    consider "f x < a" | "a \<le> f x" "f x \<le> b" | "b < f x" by fastforce
    then show ?case
    proof cases
      case 1
      with Cons assms(2) show ?thesis by auto
    next
      case 2
      have none: "takeWhile (\<lambda>x. f x < a) xs = []"
        using Cons.prems 2 by (cases xs) auto
      with 2 Cons show ?thesis by auto
    next
      case 3
      then have "\<forall>y\<in>set xs. b < f y" using Cons.prems by auto
      then have "filter (\<lambda>x. a \<le> f x \<and> f x \<le> b) (x # xs) = []" using 3 by (auto simp: filter_empty_conv)
      moreover have "\<not> f x < a" using 3 assms(2) by auto
      ultimately show ?thesis using 3 by simp
    qed
  qed
  then show "lo \<le> hi" "take (hi - lo) (drop lo xs) = filter (\<lambda>x. a \<le> f x \<and> f x \<le> b) xs"
    by (simp_all add: lo_def hi_def)
qed

text \<open>A packet of a chunk lies where its offset says, and whole.\<close>

lemma legacy_packets_at:
  assumes "p \<in> set (legacy_packets c off bs)"
  shows "\<exists>k. p = legacy_packet c (off + of_nat k) (drop k bs) \<and>
    k + 34 + unat (ph_payload_size (packet_header_at (drop k bs))) \<le> length bs"
  using assms
proof (induction c off bs rule: legacy_packets.induct)
  case (1 c off bs)
  let ?h = "packet_header_at bs" and ?m = "unat (ph_payload_size (packet_header_at bs))"
  have ok: "34 \<le> length bs" "ph_magic ?h = kMagic" "34 + ?m \<le> length bs"
    using "1.prems" by (subst (asm) legacy_packets.simps, auto simp: Let_def split: if_splits)+
  consider "p = legacy_packet c off bs"
    | "p \<in> set (legacy_packets c (off + 34 + of_nat ?m) (drop (34 + ?m) bs))"
    using "1.prems" by (subst (asm) legacy_packets.simps) (auto simp: Let_def split: if_splits)
  then show ?case
  proof cases
    case 1
    with ok show ?thesis by (intro exI [of _ 0]) simp
  next
    case 2
    then obtain k where k: "p = legacy_packet c (off + 34 + of_nat ?m + of_nat k) (drop k (drop (34 + ?m) bs))"
      "k + 34 + unat (ph_payload_size (packet_header_at (drop k (drop (34 + ?m) bs)))) \<le> length (drop (34 + ?m) bs)"
      using "1.IH" ok by auto
    then show ?thesis
      using ok by (intro exI [of _ "34 + ?m + k"]) (simp add: add.commute add.left_commute)
  qed
qed

definition small_files :: "dir \<Rightarrow> bool" where
  "small_files d \<longleftrightarrow> (\<forall>nb\<in>set d. length (snd nb) < 2 ^ 63)"

lemma small_files_get: "small_files d \<Longrightarrow> fget d n = Some bs \<Longrightarrow> length bs < 2 ^ 63"
  by (auto simp: small_files_def dest!: map_of_SomeD)

definition legacy_session :: "dir \<Rightarrow> log_manifest \<Rightarrow> bool" where
  "legacy_session d m \<longleftrightarrow>
     (\<forall>c\<in>set (lm_chunks m). detect_format (fget d (cr_path c)) \<noteq> Fmt_contract)"

lemma legacy_session_packets:
  assumes "legacy_session d m"
  shows "session_packets d (new_ego_reader d m) = concat (map (\<lambda>c.
    case fget d (cr_path c) of None \<Rightarrow> [] | Some bs \<Rightarrow> legacy_packets (cr_chunk_id c) 0 bs) (lm_chunks m))"
proof -
  have "lr_format (new_ego_reader d m) \<noteq> Fmt_contract"
    using assms by (auto simp: new_ego_reader_def legacy_session_def split: list.split)
  moreover have "detect_format (Some bs) \<noteq> Fmt_contract"
    if "c \<in> set (lm_chunks m)" "fget d (cr_path c) = Some bs" for c bs
    using assms that unfolding legacy_session_def by metis
  ultimately have "chunk_packets (lr_format (new_ego_reader d m)) d c =
      (case fget d (cr_path c) of None \<Rightarrow> [] | Some bs \<Rightarrow> legacy_packets (cr_chunk_id c) 0 bs)"
    if "c \<in> set (lm_chunks m)" for c
    using that by (auto simp: chunk_packets_def split: option.split)
  moreover have "lr_manifest (new_ego_reader d m) = m" by (simp add: new_ego_reader_def)
  ultimately show ?thesis by (auto simp: session_packets_def intro!: arg_cong [where f = concat])
qed

lemma read_entry_of:
  assumes leg: "legacy_session d m" and dist: "distinct (map cr_chunk_id (lm_chunks m))"
    and small: "small_files d" and p: "p \<in> set (session_packets d (new_ego_reader d m))"
  shows "read_entry d (lm_chunks m) (entry_of p) = Some p"
proof -
  obtain c bs where c: "c \<in> set (lm_chunks m)" "fget d (cr_path c) = Some bs"
    "p \<in> set (legacy_packets (cr_chunk_id c) 0 bs)"
    using p unfolding legacy_session_packets [OF leg] by (auto split: option.splits) (metis)
  obtain k where k: "p = legacy_packet (cr_chunk_id c) (of_nat k) (drop k bs)"
    "k + 34 + unat (ph_payload_size (packet_header_at (drop k bs))) \<le> length bs"
    using legacy_packets_at [OF c(3)] by auto
  have "filter (\<lambda>x. cr_chunk_id x = cr_chunk_id c) cs = [c]"
    if "distinct (map cr_chunk_id cs)" "c \<in> set cs" for cs
    using that
  proof (induction cs)
    case (Cons x cs)
    then show ?case by (auto simp: filter_empty_conv) (metis imageI)
  qed simp
  then have f: "filter (\<lambda>x. cr_chunk_id x = cr_chunk_id c) (lm_chunks m) = [c]" using dist c(1) by blast
  have "unat (of_nat k :: u64) = k"
    using k(2) small_files_get [OF small c(2)] by (intro unat_of_nat_small) simp
  moreover have "ix_chunk_id (entry_of p) = cr_chunk_id c" "ix_offset (entry_of p) = of_nat k"
    by (simp_all add: entry_of_def k(1) legacy_packet_def Let_def default_raw_packet_def)
  ultimately show ?thesis
    using k f c(2) by (auto simp: read_entry_def Let_def)
qed

definition packet_time :: "raw_packet \<Rightarrow> int" where
  "packet_time p = sint (ph_ts_ns (rp_header p))"

text \<open>reading a range of times through an index that the reader has built itself gives the same
  packets as scanning the whole session and keeping those of the range, sorted by time: on a session
  in the old format, with different chunk numbers and no index file, for every range that is not
  upside down.\<close>

theorem indexed_range_is_filtered_scan:
  assumes "legacy_session d m" and "distinct (map cr_chunk_id (lm_chunks m))" and "small_files d"
    and "fget d index_path = None" and "sint t0 \<le> sint t1"
    and "ego_build_index d index_path (new_ego_reader d m) = Inr r"
  shows "ego_read_range d r t0 t1 = Some (sort_key packet_time
      (filter (\<lambda>p. sint t0 \<le> packet_time p \<and> packet_time p \<le> sint t1)
        (session_packets d (new_ego_reader d m)))) \<and>
    ego_read_range d (new_ego_reader d m) t0 t1 =
      Some (filter (\<lambda>p. sint t0 \<le> packet_time p \<and> packet_time p \<le> sint t1)
        (session_packets d (new_ego_reader d m)))"
proof
  let ?ps = "session_packets d (new_ego_reader d m)"
  let ?in = "\<lambda>p. sint t0 \<le> packet_time p \<and> packet_time p \<le> sint t1"
  have r: "lr_index r = sort_key (\<lambda>e. sint (ix_ts_ns e)) (map entry_of ?ps)" "lr_index_built r"
    "lr_manifest r = m"
    using assms(4,6)
    by (auto simp: ego_build_index_def sorted_index_def ego_scan_all fold_collect new_ego_reader_def
        split: if_splits)
  have idx: "lr_index r = map entry_of (sort_key packet_time ?ps)"
    by (simp add: r(1) sort_key_map entry_of_def packet_time_def [abs_def])
  have sorted: "sorted (map (\<lambda>e. sint (ix_ts_ns e)) (lr_index r))" by (simp add: r(1))
  have win: "filter (\<lambda>e. sint t0 \<le> sint (ix_ts_ns e) \<and> sint (ix_ts_ns e) \<le> sint t1) (lr_index r)
      = map entry_of (sort_key packet_time (filter ?in ?ps))"
    by (simp add: idx filter_map comp_def entry_of_def packet_time_def [abs_def] filter_sort)
  have "List.map_filter (read_entry d (lm_chunks m)) (map entry_of ps) = ps"
    if "set ps \<subseteq> set ?ps" for ps
    using that read_entry_of [OF assms(1-3)] by (induction ps) (auto simp: List.map_filter_simps)
  then have "List.map_filter (read_entry d (lm_chunks m)) (map entry_of (sort_key packet_time (filter ?in ?ps)))
      = sort_key packet_time (filter ?in ?ps)" by auto
  then show "ego_read_range d r t0 t1 = Some (sort_key packet_time (filter ?in ?ps))"
    using sorted_window [OF sorted assms(5)]
    by (simp add: ego_read_range_def r(2,3) Let_def win not_less)
  show "ego_read_range d (new_ego_reader d m) t0 t1 = Some (filter ?in ?ps)"
    by (simp add: ego_read_range_def new_ego_reader_def [of d m] ego_scan_all [of d _ "new_ego_reader d m", unfolded new_ego_reader_def] fold_collect_if packet_time_def)
qed

definition demo_log :: bytes where
  "demo_log = serialize_packet (default_packet_header\<lparr>ph_ts_ns := 9, ph_seq := 1\<rparr>) [5, 6] @
     serialize_packet (default_packet_header\<lparr>ph_ts_ns := 4, ph_seq := 2\<rparr>) [7]"

definition demo_manifest :: log_manifest where
  "demo_manifest = single_file_manifest ''ego_0.bin''"

lemma demo_log_legacy: "legacy_session [(''ego_0.bin'', demo_log)] demo_manifest"
  by (simp add: legacy_session_def demo_manifest_def single_file_manifest_def default_chunk_ref_def
      detect_format_def demo_log_def serialize_packet_def serialize_header_def default_packet_header_def
      rd_def le_simps take_bit_word_eq_self kPacketMagic_def kContractMagic_def kMagic_def)

theorem indexed_range_is_filtered_scan_witness:
  "\<exists>r. ego_build_index [(''ego_0.bin'', demo_log)] [] (new_ego_reader [(''ego_0.bin'', demo_log)] demo_manifest) = Inr r \<and>
    ego_read_range [(''ego_0.bin'', demo_log)] r 0 20 = Some (sort_key packet_time
      (filter (\<lambda>p. 0 \<le> packet_time p \<and> packet_time p \<le> 20)
        (session_packets [(''ego_0.bin'', demo_log)] (new_ego_reader [(''ego_0.bin'', demo_log)] demo_manifest))))"
proof -
  let ?d = "[(''ego_0.bin'', demo_log)]"
  obtain r where r: "ego_build_index ?d [] (new_ego_reader ?d demo_manifest) = Inr r"
    by (simp add: ego_build_index_def)
  have "length demo_log = 71" by (simp add: demo_log_def serialize_packet_def)
  then have small: "small_files ?d" by (simp add: small_files_def)
  have dist: "distinct (map cr_chunk_id (lm_chunks demo_manifest))"
    by (simp add: demo_manifest_def single_file_manifest_def)
  show ?thesis
    using indexed_range_is_filtered_scan [OF demo_log_legacy dist small _ _ r, of 0 20] r by simp
qed

text \<open>A callback that refuses to go on ends the scan of its own chunk only: it is called again for
  the first packet of every later chunk.\<close>

theorem scan_stop_is_per_chunk:
  "ego_scan d (\<lambda>p ps. (False, ps @ [p])) r [] =
     concat (map (\<lambda>c. take 1 (chunk_packets (lr_format r) d c)) (lm_chunks (lr_manifest r)))"
proof -
  have one: "feed_packets (\<lambda>p ps. (False, ps @ [p])) ps s = s @ take 1 ps" for ps s
    by (cases ps) auto
  have "foldl (\<lambda>s c. scan_chunk (lr_format r) d (\<lambda>p ps. (False, ps @ [p])) c s) s cs
      = s @ concat (map (\<lambda>c. take 1 (chunk_packets (lr_format r) d c)) cs)" for s cs
    by (induction cs arbitrary: s) (simp_all add: scan_chunk_feed one)
  then show ?thesis by (simp add: ego_scan_def)
qed

lemma verify_counts_packets:
  "snd (ego_verify_packet_count d r) = of_nat (length (session_packets d r))"
  by (simp add: ego_verify_packet_count_def Let_def ego_scan_all fold_count)

end
