(* ===== verification/OfflineConfig.thy ===== *)
theory OfflineConfig
  imports LogReaders
begin

text \<open>
  The offline pipeline's configuration, \<open>offline/include/ego_offline/config.hpp\<close> and
  \<open>offline/src/config.cpp\<close>: the record with its defaults, the file format and the credentials from the
  environment. \<open>std::stod\<close> is a parameter; the environment is a map from names to values.
\<close>

section \<open>The record\<close>

record offline_config =
  oc_pipeline_version :: string
  oc_grid_dt_ms :: u32
  oc_join_tolerance_ms :: u32
  oc_telemetry_gap_ms :: u32
  oc_audio_gap_factor :: f64
  oc_max_timestamp_jump_ms :: u32
  oc_min_valid_duration_s :: f64
  oc_fail_on_no_valid_ranges :: bool
  oc_min_confidence :: f64
  oc_max_offset_search_s :: f64
  oc_master_clock :: string
  oc_fail_on_sync_error :: bool
  oc_source_contract :: string
  oc_include_audio :: bool
  oc_audio_preview_rms :: bool
  oc_output_filename :: string
  oc_segment_min_duration_ms :: u32
  oc_classify_unknown_when_degraded :: bool
  oc_keep_intermediate :: bool
  oc_intermediate_dir :: string
  oc_s3_enabled :: bool
  oc_s3_endpoint :: string
  oc_s3_region :: string
  oc_s3_bucket :: string
  oc_s3_prefix :: string
  oc_s3_path_style :: bool
  oc_s3_access_key_env :: string
  oc_s3_secret_key_env :: string
  oc_s3_access_key :: string
  oc_s3_secret_key :: string
  oc_s3_require_pipeline_success :: bool
  oc_s3_require_real_mdf4 :: bool
  oc_s3_max_retries :: u32
  oc_s3_retry_backoff_ms :: u32
  oc_s3_include_session_files :: bool
  oc_s3_include_files :: "string list"
  oc_s3_session_include_files :: "string list"

definition offline_defaults :: offline_config where
  "offline_defaults = \<lparr>oc_pipeline_version = ''1.0'', oc_grid_dt_ms = 10, oc_join_tolerance_ms = 5,
     oc_telemetry_gap_ms = 50, oc_audio_gap_factor = f64_of_rat (3 / 2), oc_max_timestamp_jump_ms = 1000,
     oc_min_valid_duration_s = f64_of_rat 10, oc_fail_on_no_valid_ranges = True,
     oc_min_confidence = f64_of_rat (7 / 10), oc_max_offset_search_s = f64_of_rat 30,
     oc_master_clock = ''ego'', oc_fail_on_sync_error = False, oc_source_contract = ''v1'',
     oc_include_audio = True, oc_audio_preview_rms = False, oc_output_filename = ''session.mf4'',
     oc_segment_min_duration_ms = 500, oc_classify_unknown_when_degraded = True,
     oc_keep_intermediate = False, oc_intermediate_dir = ''stages'',
     oc_s3_enabled = True, oc_s3_endpoint = ''https://s3.twcstorage.ru'', oc_s3_region = ''ru-1'',
     oc_s3_bucket = [], oc_s3_prefix = ''ego-sessions'', oc_s3_path_style = True,
     oc_s3_access_key_env = ''EGO_S3_ACCESS_KEY'', oc_s3_secret_key_env = ''EGO_S3_SECRET_KEY'',
     oc_s3_access_key = [], oc_s3_secret_key = [], oc_s3_require_pipeline_success = False,
     oc_s3_require_real_mdf4 = True, oc_s3_max_retries = 5, oc_s3_retry_backoff_ms = 1000,
     oc_s3_include_session_files = False, oc_s3_include_files = [], oc_s3_session_include_files = []\<rparr>"

section \<open>Lines\<close>

definition yaml_space :: "char \<Rightarrow> bool" where
  "yaml_space c \<longleftrightarrow> c = CHR '' '' \<or> c = CHR 0x09 \<or> c = CHR 0x0D \<or> c = CHR 0x0A"

definition yaml_trim :: "string \<Rightarrow> string" where
  "yaml_trim s = rev (dropWhile yaml_space (rev (dropWhile yaml_space s)))"

text \<open>A number sign outside quotes starts a comment; the blanks before it go too.\<close>

fun comment_start :: "bool \<Rightarrow> string \<Rightarrow> nat option" where
  "comment_start in_str [] = None"
| "comment_start in_str (c # cs) =
     (let in_str' = (if c = CHR 0x22 then \<not> in_str else in_str) in
      if \<not> in_str' \<and> c = CHR ''#'' then Some 0 else map_option Suc (comment_start in_str' cs))"

definition strip_comment :: "string \<Rightarrow> string" where
  "strip_comment s =
     (case comment_start False s of None \<Rightarrow> s
      | Some i \<Rightarrow> rev (dropWhile (\<lambda>c. c = CHR '' '' \<or> c = CHR 0x09) (rev (take i s))))"

definition leading_spaces :: "string \<Rightarrow> nat" where
  "leading_spaces s = length (takeWhile (\<lambda>c. c = CHR '' '') s)"

definition unquote :: "string \<Rightarrow> string" where
  "unquote v = (if 2 \<le> length v \<and> hd v = CHR 0x22 \<and> last v = CHR 0x22 then butlast (tl v) else v)"

definition parse_bool :: "string \<Rightarrow> bool" where
  "parse_bool v \<longleftrightarrow> v = ''true'' \<or> v = ''yes'' \<or> v = ''1''"

text \<open>A value that does not convert leaves the configuration as it was: the exception is swallowed.\<close>

definition with_int :: "(u32 \<Rightarrow> offline_config) \<Rightarrow> offline_config \<Rightarrow> string \<Rightarrow> offline_config" where
  "with_int upd cfg v = (case stoi v of Inl _ \<Rightarrow> cfg | Inr i \<Rightarrow> upd i)"

definition with_double ::
  "(string \<Rightarrow> string + f64) \<Rightarrow> (f64 \<Rightarrow> offline_config) \<Rightarrow> offline_config \<Rightarrow> string \<Rightarrow> offline_config"
where
  "with_double stod upd cfg v = (case stod v of Inl _ \<Rightarrow> cfg | Inr d \<Rightarrow> upd d)"

definition apply_yaml_line ::
  "(string \<Rightarrow> string + f64) \<Rightarrow> offline_config \<Rightarrow> string \<Rightarrow> string \<Rightarrow> offline_config"
where
  "apply_yaml_line stod cfg key v =
     (if key = ''offline_pipeline_version'' then cfg\<lparr>oc_pipeline_version := v\<rparr>
      else if key = ''grid_dt_ms'' then with_int (\<lambda>i. cfg\<lparr>oc_grid_dt_ms := i\<rparr>) cfg v
      else if key = ''join_tolerance_ms'' then with_int (\<lambda>i. cfg\<lparr>oc_join_tolerance_ms := i\<rparr>) cfg v
      else if key = ''telemetry_gap_ms'' then with_int (\<lambda>i. cfg\<lparr>oc_telemetry_gap_ms := i\<rparr>) cfg v
      else if key = ''audio_gap_factor'' then with_double stod (\<lambda>d. cfg\<lparr>oc_audio_gap_factor := d\<rparr>) cfg v
      else if key = ''max_timestamp_jump_ms'' then with_int (\<lambda>i. cfg\<lparr>oc_max_timestamp_jump_ms := i\<rparr>) cfg v
      else if key = ''source_contract'' then cfg\<lparr>oc_source_contract := v\<rparr>
      else if key = ''validation.min_valid_duration_s''
      then with_double stod (\<lambda>d. cfg\<lparr>oc_min_valid_duration_s := d\<rparr>) cfg v
      else if key = ''validation.fail_on_no_valid_ranges''
      then cfg\<lparr>oc_fail_on_no_valid_ranges := parse_bool v\<rparr>
      else if key = ''sync.min_confidence'' then with_double stod (\<lambda>d. cfg\<lparr>oc_min_confidence := d\<rparr>) cfg v
      else if key = ''sync.max_offset_search_s''
      then with_double stod (\<lambda>d. cfg\<lparr>oc_max_offset_search_s := d\<rparr>) cfg v
      else if key = ''sync.master_clock'' then cfg\<lparr>oc_master_clock := v\<rparr>
      else if key = ''sync.fail_on_sync_error'' then cfg\<lparr>oc_fail_on_sync_error := parse_bool v\<rparr>
      else if key = ''mdf4.include_audio'' then cfg\<lparr>oc_include_audio := parse_bool v\<rparr>
      else if key = ''mdf4.audio_preview_rms'' then cfg\<lparr>oc_audio_preview_rms := parse_bool v\<rparr>
      else if key = ''mdf4.output_filename'' then cfg\<lparr>oc_output_filename := v\<rparr>
      else if key = ''scene.segment_min_duration_ms''
      then with_int (\<lambda>i. cfg\<lparr>oc_segment_min_duration_ms := i\<rparr>) cfg v
      else if key = ''scene.classify_unknown_when_degraded''
      then cfg\<lparr>oc_classify_unknown_when_degraded := parse_bool v\<rparr>
      else if key = ''debug.keep_intermediate'' then cfg\<lparr>oc_keep_intermediate := parse_bool v\<rparr>
      else if key = ''debug.intermediate_dir'' then cfg\<lparr>oc_intermediate_dir := v\<rparr>
      else if key = ''s3.enabled'' then cfg\<lparr>oc_s3_enabled := parse_bool v\<rparr>
      else if key = ''s3.endpoint'' then cfg\<lparr>oc_s3_endpoint := v\<rparr>
      else if key = ''s3.region'' then cfg\<lparr>oc_s3_region := v\<rparr>
      else if key = ''s3.bucket'' then cfg\<lparr>oc_s3_bucket := v\<rparr>
      else if key = ''s3.prefix'' then cfg\<lparr>oc_s3_prefix := v\<rparr>
      else if key = ''s3.path_style'' then cfg\<lparr>oc_s3_path_style := parse_bool v\<rparr>
      else if key = ''s3.access_key_env'' then cfg\<lparr>oc_s3_access_key_env := v\<rparr>
      else if key = ''s3.secret_key_env'' then cfg\<lparr>oc_s3_secret_key_env := v\<rparr>
      else if key = ''s3.access_key'' then cfg\<lparr>oc_s3_access_key := v\<rparr>
      else if key = ''s3.secret_key'' then cfg\<lparr>oc_s3_secret_key := v\<rparr>
      else if key = ''s3.require_pipeline_success''
      then cfg\<lparr>oc_s3_require_pipeline_success := parse_bool v\<rparr>
      else if key = ''s3.require_real_mdf4'' then cfg\<lparr>oc_s3_require_real_mdf4 := parse_bool v\<rparr>
      else if key = ''s3.max_retries'' then with_int (\<lambda>i. cfg\<lparr>oc_s3_max_retries := i\<rparr>) cfg v
      else if key = ''s3.retry_backoff_ms'' then with_int (\<lambda>i. cfg\<lparr>oc_s3_retry_backoff_ms := i\<rparr>) cfg v
      else if key = ''s3.include_session_files'' then cfg\<lparr>oc_s3_include_session_files := parse_bool v\<rparr>
      else cfg)"

section \<open>Files\<close>

text \<open>One line: the configuration and the section that is open after it.\<close>

definition yaml_line ::
  "(string \<Rightarrow> string + f64) \<Rightarrow> string \<Rightarrow> offline_config \<times> string \<Rightarrow> offline_config \<times> string"
where
  "yaml_line stod raw st =
     (case st of (cfg, section) \<Rightarrow>
        let line0 = (if raw \<noteq> [] \<and> last raw = CHR 0x0D then butlast raw else raw);
            t0 = yaml_trim line0
        in if line0 = [] \<or> (t0 \<noteq> [] \<and> hd t0 = CHR ''#'') then st
           else
             let indent = leading_spaces line0;
                 section = (if indent = 0 then [] else section);
                 t = yaml_trim (strip_comment line0)
             in case after_char (CHR '':'') t of
                  None \<Rightarrow> (cfg, section)
                | Some rest \<Rightarrow>
                    let key = yaml_trim (before_char (CHR '':'') t); v = yaml_trim rest in
                    if v = [] \<and> indent = 0 then (cfg, key)
                    else if v = [] then (cfg, section)
                    else (apply_yaml_line stod cfg (if section = [] then key else section @ ''.'' @ key) (unquote v),
                          section))"

definition parse_yaml ::
  "(string \<Rightarrow> string + f64) \<Rightarrow> bytes option \<Rightarrow> offline_config \<Rightarrow> offline_config"
where
  "parse_yaml stod file cfg =
     (case file of None \<Rightarrow> cfg
      | Some bs \<Rightarrow> fst (fold (yaml_line stod) (getlines (bytes_text bs)) (cfg, [])))"

section \<open>Credentials\<close>

definition env_or_empty :: "(string \<Rightarrow> string option) \<Rightarrow> string \<Rightarrow> string" where
  "env_or_empty env name = (if name = [] then [] else case env name of None \<Rightarrow> [] | Some v \<Rightarrow> v)"

definition default_include_files :: "string list" where
  "default_include_files =
     [''session.mf4'', ''session.mf4.sha256'', ''session_report.json'', ''validation_report.json'',
      ''sync_report.json'', ''scene_events.json'', ''scene_segments.json'', ''data_quality_report.json'',
      ''events_report.json'', ''upload_manifest.json'']"

definition default_session_files :: "string list" where
  "default_session_files =
     [''ego_manifest.json'', ''session_metadata.json'', ''scenario_metadata.json'', ''source_metadata.json'',
      ''final_runtime_summary.json'', ''source.bin'', ''ego.index'']"

text \<open>The first of the given texts that is not empty.\<close>

definition first_nonempty :: "string list \<Rightarrow> string" where
  "first_nonempty xs = (case filter (\<lambda>x. x \<noteq> []) xs of [] \<Rightarrow> [] | x # _ \<Rightarrow> x)"

definition resolve_s3_credentials :: "(string \<Rightarrow> string option) \<Rightarrow> offline_config \<Rightarrow> offline_config" where
  "resolve_s3_credentials env cfg =
     (let c1 = (if oc_s3_include_files cfg = [] then cfg\<lparr>oc_s3_include_files := default_include_files\<rparr> else cfg);
          c2 = (if oc_s3_session_include_files c1 = []
                then c1\<lparr>oc_s3_session_include_files := default_session_files\<rparr> else c1)
      in c2\<lparr>oc_s3_access_key := first_nonempty [oc_s3_access_key c2, env_or_empty env (oc_s3_access_key_env c2),
              env_or_empty env ''EGO_S3_ACCESS_KEY''],
            oc_s3_secret_key := first_nonempty [oc_s3_secret_key c2, env_or_empty env (oc_s3_secret_key_env c2),
              env_or_empty env ''EGO_S3_SECRET_KEY'']\<rparr>)"

definition merge_yaml ::
  "(string \<Rightarrow> string + f64) \<Rightarrow> (string \<Rightarrow> string option) \<Rightarrow> offline_config \<Rightarrow> bytes option \<Rightarrow> offline_config"
where
  "merge_yaml stod env base file = resolve_s3_credentials env (parse_yaml stod file base)"

definition from_yaml ::
  "(string \<Rightarrow> string + f64) \<Rightarrow> (string \<Rightarrow> string option) \<Rightarrow> bytes option \<Rightarrow> offline_config"
where
  "from_yaml stod env file = merge_yaml stod env offline_defaults file"

section \<open>Facts\<close>

lemma first_nonempty_simps [simp]:
  "first_nonempty [] = []" "first_nonempty (x # xs) = (if x = [] then first_nonempty xs else x)"
  by (simp_all add: first_nonempty_def)

lemma include_files_nonempty [simp]: "default_include_files \<noteq> []" "default_session_files \<noteq> []"
  by (simp_all add: default_include_files_def default_session_files_def)

lemma missing_file_resolves: "merge_yaml stod env cfg None = resolve_s3_credentials env cfg"
  by (simp add: merge_yaml_def parse_yaml_def)

text \<open>A key given in the configuration wins; then the variable the configuration names; then the
  standard variable.\<close>

lemma access_key_precedence:
  "oc_s3_access_key (resolve_s3_credentials env cfg) =
     (if oc_s3_access_key cfg \<noteq> [] then oc_s3_access_key cfg
      else if env_or_empty env (oc_s3_access_key_env cfg) \<noteq> [] then env_or_empty env (oc_s3_access_key_env cfg)
      else env_or_empty env ''EGO_S3_ACCESS_KEY'')"
  by (simp add: resolve_s3_credentials_def Let_def)

end
