(* ===== verification/JsonWriter.thy ===== *)
theory JsonWriter
  imports JsonTexts
begin

text \<open>
  The offline pipeline's JSON writer, \<open>offline/include/ego_offline/json_writer.hpp\<close>: the formatters of
  strings and numbers and the builder of objects, and what the pipeline's own reader makes of its
  texts.
\<close>

section \<open>Formatters\<close>

definition json_str :: "string \<Rightarrow> string" where
  "json_str s = [CHR 0x22] @ json_escape s @ [CHR 0x22]"

definition num_int :: "u64 \<Rightarrow> string" where "num_int x = dec_int (sint x)"

text \<open>\<open>defaultfloat\<close> with a precision, as \<open>printf\<close> does for \<open>%g\<close>: the value is rounded to so many
  significant digits, ties to even, printed without exponent if that is at least -4 and less than
  the precision, and zeros at the end of the fraction are left out.\<close>

definition pow10 :: "int \<Rightarrow> rat" where
  "pow10 e = (if 0 \<le> e then 10 ^ nat e else 1 / 10 ^ nat (- e))"

definition floor_log10 :: "rat \<Rightarrow> int" where
  "floor_log10 r =
     (case quotient_of r of (a, b) \<Rightarrow>
        let e = int (length (dec (nat a))) - int (length (dec (nat b))) in
        if r < pow10 e then e - 1 else e)"

definition strip_zeros :: "string \<Rightarrow> string" where
  "strip_zeros s = rev (dropWhile (\<lambda>c. c = CHR ''0'') (rev s))"

definition with_point :: "string \<Rightarrow> string \<Rightarrow> string" where
  "with_point ip fp = (let f = strip_zeros fp in if f = [] then ip else ip @ ''.'' @ f)"

definition format_g :: "nat \<Rightarrow> rat \<Rightarrow> string" where
  "format_g p r =
     (if r = 0 then ''0''
      else
        let e0 = floor_log10 r; m0 = nat (round_half_even (r / pow10 (e0 - int p + 1)));
            (e, m) = (if m0 = 10 ^ p then (e0 + 1, 10 ^ (p - 1)) else (e0, m0));
            ds = dec m
        in if - 4 \<le> e \<and> e < int p then
             (if 0 \<le> e then with_point (take (nat e + 1) ds) (drop (nat e + 1) ds)
              else with_point ''0'' (replicate (nat (- e) - 1) (CHR ''0'') @ ds))
           else
             with_point (take 1 ds) (drop 1 ds) @ ''e'' @ (if e < 0 then ''-'' else ''+'') @
               (let x = dec (nat \<bar>e\<bar>) in if length x < 2 then ''0'' @ x else x))"

definition num_double :: "nat \<Rightarrow> f64 \<Rightarrow> string" where
  "num_double prec v =
     (case val64 v of
        FNaN \<Rightarrow> ''null'' | FInf _ \<Rightarrow> ''null''
      | FFin neg r \<Rightarrow>
          let s = (if neg then ''-'' else []) @ format_g prec r in
          if CHR ''.'' \<notin> set s \<and> CHR ''e'' \<notin> set s then s @ ''.0'' else s)"

definition json_bool :: "bool \<Rightarrow> string" where
  "json_bool b = (if b then ''true'' else ''false'')"

section \<open>The builder\<close>

record object_builder =
  ob_indent :: nat
  ob_depth :: nat
  ob_buf :: string
  ob_empty :: bool

definition new_builder :: "nat \<Rightarrow> nat \<Rightarrow> object_builder" where
  "new_builder indent depth = \<lparr>ob_indent = indent, ob_depth = depth, ob_buf = [], ob_empty = True\<rparr>"

abbreviation spaces :: "nat \<Rightarrow> string" where "spaces n \<equiv> replicate n (CHR '' '')"

definition append_key :: "string \<Rightarrow> object_builder \<Rightarrow> object_builder" where
  "append_key key b = b\<lparr>ob_empty := False,
     ob_buf := ob_buf b @ spaces ((ob_depth b + 1) * ob_indent b) @ json_str key @ '': ''\<rparr>"

definition add_text :: "string \<Rightarrow> object_builder \<Rightarrow> object_builder" where
  "add_text t b = b\<lparr>ob_buf := ob_buf b @ t\<rparr>"

definition field :: "string \<Rightarrow> string \<Rightarrow> object_builder \<Rightarrow> object_builder" where
  "field key val b = add_text val (append_key key b)"

text \<open>\<open>build\<close> looks at the last but one character: a comma there is replaced, and the last one is
  dropped.\<close>

definition build :: "object_builder \<Rightarrow> string" where
  "build b =
     (if ob_empty b then ''{}''
      else
        let result = ''{'' @ [CHR 0x0A] @ ob_buf b; n = length result;
            result = (if result ! (n - 2) = CHR '','' then take (n - 2) result @ [CHR 0x0A] else result)
        in result @ spaces (ob_depth b * ob_indent b) @ ''}'')"

definition object_field ::
  "string \<Rightarrow> (object_builder \<Rightarrow> object_builder) \<Rightarrow> object_builder \<Rightarrow> object_builder"
where
  "object_field key fn b = add_text (build (fn (new_builder (ob_indent b) (ob_depth b + 1)))) (append_key key b)"

text \<open>The items of an array, each on a line of its own, separated by commas.\<close>

fun array_items :: "string \<Rightarrow> string list \<Rightarrow> string" where
  "array_items pad [] = []"
| "array_items pad [x] = pad @ x @ [CHR 0x0A]"
| "array_items pad (x # xs) = pad @ x @ '','' @ [CHR 0x0A] @ array_items pad xs"

definition array_field :: "string \<Rightarrow> string list \<Rightarrow> object_builder \<Rightarrow> object_builder" where
  "array_field key items b0 =
     (let b = append_key key b0 in
      if items = [] then add_text ''[]'' b
      else add_text (''['' @ [CHR 0x0A] @ array_items (spaces ((ob_depth b + 2) * ob_indent b)) items @
             spaces ((ob_depth b + 1) * ob_indent b) @ '']'') b)"

fun join_lines :: "string \<Rightarrow> string list \<Rightarrow> string" where
  "join_lines pad [] = []"
| "join_lines pad [l] = pad @ l"
| "join_lines pad (l # ls) = pad @ l @ [CHR 0x0A] @ join_lines pad ls"

definition raw_array_field :: "string \<Rightarrow> string list \<Rightarrow> object_builder \<Rightarrow> object_builder" where
  "raw_array_field key objs b0 =
     (let b = append_key key b0 in
      if objs = [] then add_text ''[]'' b
      else add_text (''['' @ [CHR 0x0A] @
             array_items [] (map (\<lambda>obj. join_lines (spaces ((ob_depth b + 2) * ob_indent b)) (getlines obj)) objs) @
             spaces ((ob_depth b + 1) * ob_indent b) @ '']'') b)"

section \<open>Reading the built texts\<close>

text \<open>A text on which the reader throws.\<close>

definition fails :: "string \<Rightarrow> string \<Rightarrow> bool" where
  "fails s e \<longleftrightarrow> (\<exists>n. parse_value n s = Inl (Json_error e))"

lemma json_parse_fails:
  assumes "fails s e"
  shows "json_parse s = Inl (Json_error e)"
proof -
  obtain n where n: "parse_value n s = Inl (Json_error e)" using assms by (auto simp: fails_def)
  let ?m = "Suc (2 * length s)"
  have "parse_value ?m s \<noteq> Inl Out_of_fuel" by (rule parse_fuel) simp
  then have "parse_value (max n ?m) s = parse_value ?m s" by (rule parse_mono) simp
  moreover have "parse_value (max n ?m) s = parse_value n s" by (rule parse_mono) (simp_all add: n)
  ultimately have "parse_value ?m s = Inl (Json_error e)" using n by (simp only:)
  then show ?thesis by (simp add: json_parse_def parse_value_skip_ws)
qed

definition separator_error :: string where
  "separator_error = ''expected '' @ [CHR 0x27] @ '','' @ [CHR 0x27] @ '' or '' @ [CHR 0x27] @ ''}'' @ [CHR 0x27]"

lemma object_fails:
  assumes "skip_ws s = CHR ''{'' # t" and "skip_ws t = CHR 0x22 # u" and "parse_chars u [] = Inr (key, s1)"
    and "skip_ws s1 = CHR '':'' # s2" and "reads s2 w s3" and "peek (skip_ws s3) \<noteq> CHR '',''"
    and "peek (skip_ws s3) \<noteq> CHR ''}''"
  shows "fails s separator_error"
proof -
  obtain n where "parse_value n s2 = Inr (w, s3)" using assms(5) by (auto simp: reads_def)
  then have "parse_members (Suc n) [] (skip_ws t) = Inl (Json_error separator_error)"
    using assms(2-4,6,7)
    by (simp add: parse_members.simps parse_string_def parse_value_skip_ws separator_error_def Let_def skip_ws_skip
        skip_ws_stop)
  then have "parse_value (Suc (Suc n)) s = Inl (Json_error separator_error)"
    using assms(1,2) by (simp add: parse_value.simps peek_def)
  then show ?thesis by (auto simp: fails_def)
qed

lemma skip_ws_spaces [simp]: "skip_ws (spaces n @ s) = skip_ws s"
  by (induction n) simp_all

lemma after_number_front: "\<not> is_digit c \<Longrightarrow> c \<notin> {CHR ''.'', CHR ''e'', CHR ''E''} \<Longrightarrow> after_number (c # r)"
  by (simp add: after_number_def)

lemma build_fails:
  assumes buf: "ob_buf b = spaces p1 @ json_str k1 @ '': '' @ v1 @ spaces p2 @ CHR 0x22 # rest"
    and "\<not> ob_empty b" and "value_text v1 w" and "2 \<le> length rest"
  shows "json_parse (build b) = Inl (Json_error separator_error)"
proof -
  let ?pre = "CHR ''{'' # CHR 0x0A # spaces p1 @ json_str k1 @ '': '' @ v1 @ spaces p2 @ [CHR 0x22]"
  obtain rest' where r: "build b = ?pre @ rest'"
  proof (cases "(''{'' @ [CHR 0x0A] @ ob_buf b) ! (length (''{'' @ [CHR 0x0A] @ ob_buf b) - 2) = CHR '',''")
    case False
    then have "build b = ?pre @ rest @ spaces (ob_depth b * ob_indent b) @ ''}''"
      using assms(2) by (simp add: build_def Let_def buf)
    then show thesis by (rule that)
  next
    case True
    let ?x = "''{'' @ [CHR 0x0A] @ ob_buf b"
    have x: "?x = ?pre @ rest" by (simp add: buf)
    have "build b = take (length ?x - 2) ?x @ [CHR 0x0A] @ spaces (ob_depth b * ob_indent b) @ ''}''"
      using True assms(2) by (simp add: build_def Let_def)
    also have "take (length ?x - 2) ?x = ?pre @ take (length rest - 2) rest"
    proof -
      have cut: "2 \<le> length ys \<Longrightarrow> take (length (xs @ ys) - 2) (xs @ ys) = xs @ take (length ys - 2) ys"
        for xs ys :: string by simp
      show ?thesis unfolding x by (rule cut [OF assms(4)])
    qed
    finally show thesis by (intro that) simp
  qed
  let ?s3 = "spaces p2 @ CHR 0x22 # rest'"
  have "reads (CHR '' '' # v1 @ ?s3) w ?s3"
  proof -
    have "after_number ?s3"
      by (cases p2) (simp_all add: after_number_front is_digit_def)
    then show ?thesis using assms(3) by (simp add: value_text_def)
  qed
  moreover have "skip_ws (spaces p2 @ CHR 0x22 # rest') = CHR 0x22 # rest'" by (simp add: skip_ws_stop)
  ultimately have "fails (build b) separator_error"
    by (intro object_fails [where t = "CHR 0x0A # spaces p1 @ json_str k1 @ '': '' @ v1 @ ?s3"
          and u = "json_escape k1 @ CHR 0x22 # '': '' @ v1 @ ?s3" and key = k1
          and ?s1.0 = "CHR '':'' # CHR '' '' # v1 @ ?s3" and ?s2.0 = "CHR '' '' # v1 @ ?s3" and ?s3.0 = ?s3 and w = w])
      (simp_all add: r json_str_def skip_ws_stop parse_chars_escape peek_def)
  then show ?thesis by (rule json_parse_fails)
qed

text \<open>C40: the builder puts nothing between two members of an object, so the pipeline's own reader refuses
  every object it builds with more than one, whatever the keys, the first value and the rest of the
  object are, as long as the first value is one the reader takes by itself.\<close>

theorem built_objects_unreadable:
  assumes "value_text v1 w"
  shows "json_parse (build (add_text t (field k2 v2 (field k1 v1 (new_builder indent depth))))) =
    Inl (Json_error separator_error)"
  by (rule build_fails [where ?p1.0 = "(depth + 1) * indent" and ?p2.0 = "(depth + 1) * indent"
        and ?k1.0 = k1 and ?v1.0 = v1 and rest = "json_escape k2 @ [CHR 0x22] @ '': '' @ v2 @ t" and w = w])
    (simp_all add: field_def add_text_def append_key_def new_builder_def json_str_def assms)

theorem built_objects_unreadable_witness:
  "json_parse (build (add_text [] (field ''b'' ''2'' (field ''a'' (dec 1) (new_builder 2 0))))) =
    Inl (Json_error separator_error)"
  by (rule built_objects_unreadable [OF value_text_dec]) simp

end
