(* ===== verification/LogValidator.thy ===== *)
theory LogValidator
  imports OfflineConfig JsonWriter
begin

text \<open>
  Validation of a session, \<open>offline/src/validate/log_validator.cpp\<close>: the statistics of a stream, the
  valid ranges, the verdict and the report. A division by a sample rate of zero ends the process; the
  passes that divide have the result None then. The clock's text is an argument.
\<close>

section \<open>Statistics\<close>

datatype gap_type = Gap_seq | Gap_timestamp | Gap_audio_block | Gap_telemetry | Gap_file_truncated

datatype gap_severity = Sev_info | Sev_warning | Sev_error

record gap_event =
  ge_t_ns :: ns_t
  ge_stream_id :: string
  ge_gap_type :: gap_type
  ge_expected_seq :: u32
  ge_actual_seq :: u32
  ge_gap_duration_ns :: ns_t
  ge_severity :: gap_severity

text \<open>An event with the fields the checks set; the sequence numbers are only set for \<open>Gap_seq\<close>.\<close>

definition gap_at :: "ns_t \<Rightarrow> string \<Rightarrow> gap_type \<Rightarrow> gap_severity \<Rightarrow> ns_t \<Rightarrow> gap_event" where
  "gap_at t stream ty sev dur = \<lparr>ge_t_ns = t, ge_stream_id = stream, ge_gap_type = ty,
     ge_expected_seq = 0, ge_actual_seq = 0, ge_gap_duration_ns = dur, ge_severity = sev\<rparr>"

record stream_validation =
  sv_file_ok :: bool
  sv_packets_total :: u64
  sv_packets_valid :: u64
  sv_packets_lost :: u64
  sv_packets_crc_failed :: u64
  sv_timestamp_violations :: u64
  sv_monotonic_violations :: u64
  sv_audio_gap_count :: u64
  sv_telemetry_gap_count :: u64
  sv_t_first_ns :: ns_t
  sv_t_last_ns :: ns_t
  sv_file_errors :: "string list"
  sv_gap_events :: "gap_event list"

definition new_stream_validation :: stream_validation where
  "new_stream_validation = \<lparr>sv_file_ok = True, sv_packets_total = 0, sv_packets_valid = 0,
     sv_packets_lost = 0, sv_packets_crc_failed = 0, sv_timestamp_violations = 0,
     sv_monotonic_violations = 0, sv_audio_gap_count = 0, sv_telemetry_gap_count = 0,
     sv_t_first_ns = 0, sv_t_last_ns = 0, sv_file_errors = [], sv_gap_events = []\<rparr>"

definition add_gap :: "gap_event \<Rightarrow> stream_validation \<Rightarrow> stream_validation" where
  "add_gap g sv = sv\<lparr>sv_gap_events := sv_gap_events sv @ [g]\<rparr>"

datatype integrity = Integrity_ok | Integrity_warning | Integrity_failed

record validation_report =
  vr_pipeline_version :: string
  vr_session_id :: string
  vr_generated_at_utc :: string
  vr_integrity :: integrity
  vr_ego :: stream_validation
  vr_source :: stream_validation
  vr_valid_ranges :: "time_range list"
  vr_total_valid_duration_s :: f64
  vr_valid_fraction :: f64

section \<open>Arithmetic of the checks\<close>

text \<open>\<open>static_cast<int64_t>\<close> of a double: towards zero. Where the value does not fit C++ leaves the
  result open; the model has the one of the x86-64 conversion.\<close>

definition f64_to_int64 :: "f64 \<Rightarrow> u64" where
  "f64_to_int64 x =
     (case val64 x of
        FFin neg r \<Rightarrow>
          let k = (if neg then - \<lfloor>r\<rfloor> else \<lfloor>r\<rfloor>) in
          if - (2 ^ 63) \<le> k \<and> k < 2 ^ 63 then of_int k else 0x8000000000000000
      | _ \<Rightarrow> 0x8000000000000000)"

definition ge64 :: "f64 \<Rightarrow> f64 \<Rightarrow> bool" where "ge64 x y \<longleftrightarrow> less64 y x \<or> eq64 x y"

text \<open>A limit of the configuration in milliseconds, an \<open>int\<close>, in nanoseconds.\<close>

definition ms_limit :: "u32 \<Rightarrow> ns_t" where "ms_limit ms = scast ms * kNsPerMs"

text \<open>The duration of an audio block, whose header the checks read again; None for the division by zero.\<close>

definition audio_period :: "bytes \<Rightarrow> ns_t option" where
  "audio_period payload =
     (let frames = fld audio_block_header ''frame_count'' payload :: u32;
          rate = fld audio_block_header ''sample_rate_hz'' payload :: u32
      in if rate = 0 then None else Some ((ucast frames * kNsPerSec) div ucast rate))"

definition audio_threshold :: "offline_config \<Rightarrow> u32 \<Rightarrow> ns_t" where
  "audio_threshold cfg nominal =
     f64_to_int64 (mul64 (oc_audio_gap_factor cfg) (f64_of_int (int (unat nominal))))"

section \<open>Sequence numbers\<close>

text \<open>Two packets in a row, and whether the numbers leave something out between them.\<close>

definition seq_gap_check ::
  "string \<Rightarrow> u32 \<Rightarrow> ns_t \<Rightarrow> u32 \<Rightarrow> ns_t \<Rightarrow> stream_validation \<Rightarrow> stream_validation"
where
  "seq_gap_check stream s0 t0 s1 t1 sv =
     (let expected = s0 + 1; actual = s1; lost = actual - expected in
      if actual \<noteq> expected \<and> actual > expected
      then add_gap ((gap_at t1 stream Gap_seq (if lost > 10 then Sev_error else Sev_warning) (t1 - t0))
             \<lparr>ge_expected_seq := expected, ge_actual_seq := actual\<rparr>)
           (sv\<lparr>sv_packets_lost := sv_packets_lost sv + ucast lost\<rparr>)
      else sv)"

fun check_seq_gaps :: "(u32 \<times> ns_t) list \<Rightarrow> string \<Rightarrow> stream_validation \<Rightarrow> stream_validation" where
  "check_seq_gaps ((s0, t0) # (s1, t1) # rest) stream sv =
     check_seq_gaps ((s1, t1) # rest) stream (seq_gap_check stream s0 t0 s1 t1 sv)"
| "check_seq_gaps _ stream sv = sv"

definition check_timestamps :: "ns_t list \<Rightarrow> stream_validation \<Rightarrow> stream_validation" where
  "check_timestamps ts sv = sv\<lparr>sv_monotonic_violations := sv_monotonic_violations sv +
     of_nat (length (filter (\<lambda>(a, b). sint b < sint a) (zip ts (tl ts))))\<rparr>"

section \<open>The validator's own passes\<close>

text \<open>What \<open>validate_ego\<close> carries from packet to packet.\<close>

record validate_state =
  vs_sv :: stream_validation
  vs_first :: bool
  vs_prev_ts :: ns_t
  vs_prev_audio_ts :: ns_t
  vs_nominal :: u32
  vs_prev_imu_ts :: ns_t
  vs_seq_ts :: "(u32 \<times> ns_t) list"

definition new_validate_state :: validate_state where
  "new_validate_state = \<lparr>vs_sv = new_stream_validation, vs_first = True, vs_prev_ts = 0,
     vs_prev_audio_ts = 0, vs_nominal = 0, vs_prev_imu_ts = 0, vs_seq_ts = []\<rparr>"

definition reject_packet :: "raw_packet \<Rightarrow> parse_status \<Rightarrow> stream_validation \<Rightarrow> stream_validation" where
  "reject_packet raw status sv =
     (let sv = (if status = Ps_crc_fail then sv\<lparr>sv_packets_crc_failed := sv_packets_crc_failed sv + 1\<rparr> else sv)
      in add_gap (gap_at (ph_ts_ns (rp_header raw)) ''ego'' Gap_file_truncated Sev_error 0)
           (sv\<lparr>sv_packets_lost := sv_packets_lost sv + 1\<rparr>))"

definition zero_time_check :: "ns_t \<Rightarrow> stream_validation \<Rightarrow> stream_validation" where
  "zero_time_check ts sv =
     (if ts = 0 then add_gap (gap_at ts ''ego'' Gap_timestamp Sev_error 0)
        (sv\<lparr>sv_timestamp_violations := sv_timestamp_violations sv + 1\<rparr>) else sv)"

definition monotonic_check :: "bool \<Rightarrow> ns_t \<Rightarrow> ns_t \<Rightarrow> stream_validation \<Rightarrow> stream_validation" where
  "monotonic_check first prev_ts ts sv =
     (if \<not> first \<and> sint ts < sint prev_ts
      then add_gap (gap_at ts ''ego'' Gap_timestamp Sev_warning (prev_ts - ts))
        (sv\<lparr>sv_monotonic_violations := sv_monotonic_violations sv + 1\<rparr>) else sv)"

definition jump_check :: "offline_config option \<Rightarrow> bool \<Rightarrow> ns_t \<Rightarrow> ns_t \<Rightarrow> stream_validation \<Rightarrow> stream_validation" where
  "jump_check cfg first prev_ts ts sv =
     (case cfg of None \<Rightarrow> sv
      | Some c \<Rightarrow>
          let jump = ts - prev_ts in
          if \<not> first \<and> sint jump > sint (ms_limit (oc_max_timestamp_jump_ms c))
          then add_gap (gap_at ts ''ego'' Gap_timestamp Sev_warning jump)
            (sv\<lparr>sv_timestamp_violations := sv_timestamp_violations sv + 1\<rparr>) else sv)"

definition span_update :: "bool \<Rightarrow> ns_t \<Rightarrow> stream_validation \<Rightarrow> stream_validation" where
  "span_update first ts sv =
     (let sv = (if first \<or> sint ts < sint (sv_t_first_ns sv) then sv\<lparr>sv_t_first_ns := ts\<rparr> else sv)
      in if sint ts > sint (sv_t_last_ns sv) then sv\<lparr>sv_t_last_ns := ts\<rparr> else sv)"

text \<open>The audio check, on the statistics, the time of the last block and the nominal duration; None where
  it divides by zero. Without a configuration there is nothing to compare with.\<close>

definition audio_check ::
  "offline_config option \<Rightarrow> raw_packet \<Rightarrow> stream_validation \<times> ns_t \<times> u32 \<Rightarrow>
     (stream_validation \<times> ns_t \<times> u32) option"
where
  "audio_check cfg raw st =
     (if ph_type (rp_header raw) = packet_type_u16 kAudioBlock \<and>
         length (rp_payload raw) \<ge> layout_size audio_block_header
      then
        case st of (sv, prev_audio_ts, nominal0) \<Rightarrow>
          map_option (\<lambda>period.
            let ts = ph_ts_ns (rp_header raw); gap = ts - prev_audio_ts;
                nominal = (if nominal0 = 0 then ucast period else nominal0);
                late = (case cfg of None \<Rightarrow> False
                        | Some c \<Rightarrow> prev_audio_ts \<noteq> 0 \<and> nominal > 0 \<and> sint gap > sint (audio_threshold c nominal))
            in (if late
                then add_gap (gap_at ts ''ego.audio'' Gap_audio_block Sev_warning gap)
                       (sv\<lparr>sv_audio_gap_count := sv_audio_gap_count sv + 1\<rparr>)
                else sv, ts, nominal))
          (audio_period (rp_payload raw))
      else Some st)"

definition imu_check ::
  "offline_config option \<Rightarrow> raw_packet \<Rightarrow> stream_validation \<times> ns_t \<Rightarrow> stream_validation \<times> ns_t"
where
  "imu_check cfg raw st =
     (case (cfg, st) of
        (Some c, (sv, prev_imu_ts)) \<Rightarrow>
          if ph_type (rp_header raw) = packet_type_u16 kImuSample
          then
            let ts = ph_ts_ns (rp_header raw); gap = ts - prev_imu_ts in
            (if prev_imu_ts \<noteq> 0 \<and> sint gap > sint (ms_limit (oc_telemetry_gap_ms c))
             then add_gap (gap_at ts ''ego.imu'' Gap_telemetry Sev_warning gap)
                    (sv\<lparr>sv_telemetry_gap_count := sv_telemetry_gap_count sv + 1\<rparr>)
             else sv, ts)
          else st
      | _ \<Rightarrow> st)"

definition validate_packet_step :: "offline_config \<Rightarrow> raw_packet \<Rightarrow> validate_state \<Rightarrow> validate_state option" where
  "validate_packet_step cfg raw st =
     (let sv0 = (vs_sv st)\<lparr>sv_packets_total := sv_packets_total (vs_sv st) + 1\<rparr>;
          status = pr_status (validate_raw raw)
      in if status \<noteq> Ps_ok then Some (st\<lparr>vs_sv := reject_packet raw status sv0\<rparr>)
         else
           let ts = ph_ts_ns (rp_header raw); first = vs_first st; prev = vs_prev_ts st;
               sv1 = sv0\<lparr>sv_packets_valid := sv_packets_valid sv0 + 1\<rparr>;
               sv2 = zero_time_check ts sv1;
               sv3 = monotonic_check first prev ts sv2;
               sv4 = jump_check (Some cfg) first prev ts sv3;
               sv5 = span_update first ts sv4
           in map_option (\<lambda>(sv6, audio_ts, nominal).
                case imu_check (Some cfg) raw (sv6, vs_prev_imu_ts st) of
                  (sv7, imu_ts) \<Rightarrow>
                    \<lparr>vs_sv = sv7, vs_first = False, vs_prev_ts = ts, vs_prev_audio_ts = audio_ts,
                     vs_nominal = nominal, vs_prev_imu_ts = imu_ts,
                     vs_seq_ts = vs_seq_ts st @ [(ph_seq (rp_header raw), ts)]\<rparr>)
                (audio_check (Some cfg) raw (sv5, vs_prev_audio_ts st, vs_nominal st)))"

definition missing_chunks :: "dir \<Rightarrow> string \<Rightarrow> chunk_ref list \<Rightarrow> string list" where
  "missing_chunks d what cs = map (\<lambda>c. what @ cr_path c) (filter (\<lambda>c. fget d (cr_path c) = None) cs)"

definition validate_ego :: "offline_config \<Rightarrow> dir \<Rightarrow> log_reader \<Rightarrow> stream_validation option" where
  "validate_ego cfg d r =
     (let missing = missing_chunks d ''Missing chunk: '' (lm_chunks (lr_manifest r)) in
      if missing \<noteq> []
      then Some (new_stream_validation\<lparr>sv_file_ok := False, sv_file_errors := missing\<rparr>)
      else
        map_option (\<lambda>st.
          let sv = check_seq_gaps (vs_seq_ts st) ''ego'' (vs_sv st); n = lm_packet_count (lr_manifest r) in
          if n > 0 \<and> sv_packets_valid sv < n
          then sv\<lparr>sv_packets_lost := sv_packets_lost sv + (n - sv_packets_valid sv)\<rparr> else sv)
        (ego_scan d (\<lambda>raw s. (True, Option.bind s (validate_packet_step cfg raw))) r (Some new_validate_state)))"

definition validate_source_step ::
  "raw_packet \<Rightarrow> stream_validation \<times> bool \<times> ns_t \<times> (u32 \<times> ns_t) list \<Rightarrow>
     stream_validation \<times> bool \<times> ns_t \<times> (u32 \<times> ns_t) list"
where
  "validate_source_step raw st =
     (case st of (sv0, first, prev_ts, seq_ts) \<Rightarrow>
        let sv = sv0\<lparr>sv_packets_total := sv_packets_total sv0 + 1\<rparr>; status = pr_status (validate_raw raw) in
        if status \<noteq> Ps_ok
        then let sv = (if status = Ps_crc_fail
                       then sv\<lparr>sv_packets_crc_failed := sv_packets_crc_failed sv + 1\<rparr> else sv)
             in (sv\<lparr>sv_packets_lost := sv_packets_lost sv + 1\<rparr>, first, prev_ts, seq_ts)
        else
          let sv = sv\<lparr>sv_packets_valid := sv_packets_valid sv + 1\<rparr>; ts = ph_ts_ns (rp_header raw);
              sv = (if ts = 0 then sv\<lparr>sv_timestamp_violations := sv_timestamp_violations sv + 1\<rparr> else sv);
              sv = (if \<not> first \<and> sint ts < sint prev_ts
                    then sv\<lparr>sv_monotonic_violations := sv_monotonic_violations sv + 1\<rparr> else sv)
          in (span_update first ts sv, False, ts, seq_ts @ [(ph_seq (rp_header raw), ts)]))"

definition validate_source :: "dir \<Rightarrow> log_manifest \<Rightarrow> stream_validation" where
  "validate_source d m =
     (let missing = missing_chunks d ''Missing source file: '' (lm_chunks m) in
      if missing \<noteq> []
      then new_stream_validation\<lparr>sv_file_ok := False, sv_file_errors := missing\<rparr>
      else case source_scan d (\<lambda>raw st. (True, validate_source_step raw st)) m
                  (new_stream_validation, True, 0, []) of
        (sv, _, _, seq_ts) \<Rightarrow> check_seq_gaps seq_ts ''source'' sv)"

end
