(* ===== verification/ValidationReport.thy ===== *)
theory ValidationReport
  imports LogValidator
begin

text \<open>
  What validation makes of the statistics (\<open>offline/src/validate/log_validator.cpp\<close>): the valid time
  ranges, the verdict and the report with its text.
\<close>

section \<open>Valid ranges\<close>

definition range_of :: "stream_kind \<Rightarrow> ns_t \<Rightarrow> ns_t \<Rightarrow> time_range" where
  "range_of s a b = \<lparr>tr_start_ns = a, tr_end_ns = b, tr_stream = s, tr_reason = []\<rparr>"

definition long_enough :: "offline_config \<Rightarrow> time_range \<Rightarrow> bool" where
  "long_enough cfg r \<longleftrightarrow> ge64 (tr_duration_s r) (oc_min_valid_duration_s cfg)"

definition push_range ::
  "offline_config \<Rightarrow> stream_kind \<Rightarrow> ns_t \<Rightarrow> ns_t \<Rightarrow> time_range list \<Rightarrow> time_range list"
where
  "push_range cfg s a b rs = (let r = range_of s a b in if long_enough cfg r then rs @ [r] else rs)"

text \<open>The loop over the sorted breakpoints; the result has where the last range begins.\<close>

fun split_ranges ::
  "offline_config \<Rightarrow> stream_kind \<Rightarrow> ns_t list \<Rightarrow> ns_t \<Rightarrow> time_range list \<Rightarrow> ns_t \<times> time_range list"
where
  "split_ranges cfg s [] cur rs = (cur, rs)"
| "split_ranges cfg s (bp # bps) cur rs =
     (if sint bp \<le> sint cur then split_ranges cfg s bps cur rs
      else split_ranges cfg s bps bp (push_range cfg s cur bp rs))"

definition error_times :: "stream_validation \<Rightarrow> ns_t list" where
  "error_times sv = map ge_t_ns (filter (\<lambda>g. ge_severity g = Sev_error) (sv_gap_events sv))"

definition build_ranges :: "offline_config \<Rightarrow> stream_validation \<Rightarrow> stream_kind \<Rightarrow> time_range list" where
  "build_ranges cfg sv s =
     (if \<not> sv_file_ok sv \<or> sint (sv_t_last_ns sv) \<le> sint (sv_t_first_ns sv) then []
      else case split_ranges cfg s (sort_key sint (error_times sv)) (sv_t_first_ns sv) [] of
        (cur, rs) \<Rightarrow> push_range cfg s cur (sv_t_last_ns sv) rs)"

definition max_ns :: "ns_t \<Rightarrow> ns_t \<Rightarrow> ns_t" where "max_ns a b = (if sint a < sint b then b else a)"
definition min_ns :: "ns_t \<Rightarrow> ns_t \<Rightarrow> ns_t" where "min_ns a b = (if sint b < sint a then b else a)"

text \<open>The loop body of the intersection.\<close>

definition intersect_into ::
  "offline_config \<Rightarrow> time_range \<Rightarrow> time_range list \<Rightarrow> time_range \<Rightarrow> time_range list"
where
  "intersect_into cfg er rs sr =
     (let t0 = max_ns (tr_start_ns er) (tr_start_ns sr); t1 = min_ns (tr_end_ns er) (tr_end_ns sr) in
      if sint t1 > sint t0 then push_range cfg Stream_both t0 t1 rs else rs)"

definition intersect_ranges ::
  "offline_config \<Rightarrow> time_range list \<Rightarrow> time_range list \<Rightarrow> time_range list"
where
  "intersect_ranges cfg ers srs = foldl (\<lambda>rs er. foldl (intersect_into cfg er) rs srs) [] ers"

definition extract_valid_ranges ::
  "offline_config \<Rightarrow> stream_validation \<Rightarrow> stream_validation \<Rightarrow> time_range list"
where
  "extract_valid_ranges cfg ego_val src_val =
     (let ego_ranges = build_ranges cfg ego_val Stream_ego;
          src_ranges = build_ranges cfg src_val Stream_source;
          combined = intersect_ranges cfg ego_ranges src_ranges
      in if combined = [] \<and> ego_ranges \<noteq> [] then ego_ranges else combined)"

section \<open>The verdict\<close>

definition total_duration :: "time_range list \<Rightarrow> f64" where
  "total_duration rs = foldl (\<lambda>t r. add64 t (tr_duration_s r)) (f64_of_int 0) rs"

definition compute_integrity ::
  "offline_config \<Rightarrow> stream_validation \<Rightarrow> stream_validation \<Rightarrow> time_range list \<Rightarrow> integrity"
where
  "compute_integrity cfg ego_val src_val ranges =
     (if \<not> sv_file_ok ego_val then Integrity_failed
      else if less64 (total_duration ranges) (oc_min_valid_duration_s cfg) then Integrity_failed
      else
        let has_errors = (\<exists>g \<in> set (sv_gap_events ego_val). ge_severity g = Sev_error) \<or>
              (\<exists>g \<in> set (sv_gap_events src_val). ge_severity g = Sev_error)
        in if sv_packets_crc_failed ego_val > 0 \<or> sv_monotonic_violations ego_val > 5
           then Integrity_warning
           else if has_errors then Integrity_warning else Integrity_ok)"

definition build_report ::
  "offline_config \<Rightarrow> string \<Rightarrow> string \<Rightarrow> stream_validation \<Rightarrow> stream_validation \<Rightarrow> validation_report"
where
  "build_report cfg now session_id ego_val src_val =
     (let ranges = extract_valid_ranges cfg ego_val src_val;
          total = div64 (f64_of_int (sint (sv_t_last_ns ego_val - sv_t_first_ns ego_val))) (f64_of_int (10 ^ 9));
          valid = total_duration ranges
      in \<lparr>vr_pipeline_version = oc_pipeline_version cfg, vr_session_id = session_id,
          vr_generated_at_utc = now, vr_integrity = compute_integrity cfg ego_val src_val ranges,
          vr_ego = ego_val, vr_source = src_val, vr_valid_ranges = ranges,
          vr_total_valid_duration_s = valid,
          vr_valid_fraction = (if less64 (f64_of_int 0) total then div64 valid total else f64_of_int 0)\<rparr>)"

section \<open>The report's text\<close>

primrec gap_type_str :: "gap_type \<Rightarrow> string" where
  "gap_type_str Gap_seq = ''seq''"
| "gap_type_str Gap_timestamp = ''timestamp''"
| "gap_type_str Gap_audio_block = ''audio_block''"
| "gap_type_str Gap_telemetry = ''telemetry''"
| "gap_type_str Gap_file_truncated = ''file_truncated''"

primrec gap_sev_str :: "gap_severity \<Rightarrow> string" where
  "gap_sev_str Sev_info = ''info''"
| "gap_sev_str Sev_warning = ''warning''"
| "gap_sev_str Sev_error = ''error''"

primrec integrity_str :: "integrity \<Rightarrow> string" where
  "integrity_str Integrity_ok = ''ok''"
| "integrity_str Integrity_warning = ''warning''"
| "integrity_str Integrity_failed = ''failed''"

primrec stream_str :: "stream_kind \<Rightarrow> string" where
  "stream_str Stream_ego = ''ego''"
| "stream_str Stream_source = ''source''"
| "stream_str Stream_both = ''both''"

definition gap_event_json :: "nat \<Rightarrow> gap_event \<Rightarrow> string" where
  "gap_event_json depth g = build
     (field ''severity'' (json_str (gap_sev_str (ge_severity g)))
     (field ''gap_duration_ns'' (num_int (ge_gap_duration_ns g))
     (field ''actual_seq'' (num_int (ucast (ge_actual_seq g)))
     (field ''expected_seq'' (num_int (ucast (ge_expected_seq g)))
     (field ''gap_type'' (json_str (gap_type_str (ge_gap_type g)))
     (field ''stream_id'' (json_str (ge_stream_id g))
     (field ''t_ns'' (num_int (ge_t_ns g)) (new_builder 2 depth))))))))"

definition stream_validation_json :: "nat \<Rightarrow> stream_validation \<Rightarrow> string" where
  "stream_validation_json depth sv = build
     (raw_array_field ''gap_events'' (map (gap_event_json (depth + 2)) (take 100 (sv_gap_events sv)))
     (array_field ''file_errors'' (map json_str (sv_file_errors sv))
     (field ''t_last_ns'' (num_int (sv_t_last_ns sv))
     (field ''t_first_ns'' (num_int (sv_t_first_ns sv))
     (field ''telemetry_gap_count'' (num_int (sv_telemetry_gap_count sv))
     (field ''audio_gap_count'' (num_int (sv_audio_gap_count sv))
     (field ''monotonic_violations'' (num_int (sv_monotonic_violations sv))
     (field ''timestamp_violations'' (num_int (sv_timestamp_violations sv))
     (field ''packets_crc_failed'' (num_int (sv_packets_crc_failed sv))
     (field ''packets_lost'' (num_int (sv_packets_lost sv))
     (field ''packets_valid'' (num_int (sv_packets_valid sv))
     (field ''packets_total'' (num_int (sv_packets_total sv))
     (field ''file_ok'' (json_bool (sv_file_ok sv)) (new_builder 2 depth))))))))))))))"

definition range_json :: "time_range \<Rightarrow> string" where
  "range_json r = build
     (field ''reason'' (json_str (tr_reason r))
     (field ''stream'' (json_str (stream_str (tr_stream r)))
     (field ''t_end_ns'' (num_int (tr_end_ns r))
     (field ''t_start_ns'' (num_int (tr_start_ns r)) (new_builder 2 2)))))"

definition report_json :: "validation_report \<Rightarrow> string" where
  "report_json rpt = build
     (object_field ''summary'' (\<lambda>sb.
        field ''valid_fraction'' (num_double 4 (vr_valid_fraction rpt))
        (field ''total_valid_duration_s'' (num_double 3 (vr_total_valid_duration_s rpt)) sb))
     (raw_array_field ''valid_ranges'' (map range_json (vr_valid_ranges rpt))
     (field ''source'' (stream_validation_json 1 (vr_source rpt))
     (field ''ego'' (stream_validation_json 1 (vr_ego rpt))
     (field ''integrity'' (json_str (integrity_str (vr_integrity rpt)))
     (field ''generated_at_utc'' (json_str (vr_generated_at_utc rpt))
     (field ''session_id'' (json_str (vr_session_id rpt))
     (field ''offline_pipeline_version'' (json_str (vr_pipeline_version rpt)) (new_builder 2 0)))))))))"

text \<open>\<open>write\<close> throws if the file cannot be opened.\<close>

definition write_report :: "bool \<Rightarrow> string \<Rightarrow> validation_report \<Rightarrow> dir \<Rightarrow> string + dir" where
  "write_report open_ok path rpt d =
     (if \<not> open_ok then Inl (''Cannot write: '' @ path)
      else Inr (put path (text_bytes (report_json rpt @ [CHR 0x0A])) d))"

section \<open>The ranges of one stream\<close>

text \<open>The places where a stream's span is cut: its error times after the first packet, in order.\<close>

definition cuts :: "ns_t \<Rightarrow> ns_t list \<Rightarrow> ns_t list" where
  "cuts t0 ts = remdups (filter (\<lambda>t. sint t0 < sint t) (sort_key sint ts))"

definition segments :: "stream_kind \<Rightarrow> ns_t \<Rightarrow> ns_t list \<Rightarrow> ns_t \<Rightarrow> time_range list" where
  "segments s t0 bs t1 = map (\<lambda>(a, b). range_of s a b) (zip (t0 # bs) (bs @ [t1]))"

lemma push_range_filter: "push_range cfg s a b rs = rs @ filter (long_enough cfg) [range_of s a b]"
  by (simp add: push_range_def Let_def)

lemma segments_simps [simp]:
  "segments s t0 [] t1 = [range_of s t0 t1]"
  "segments s t0 (b # bs) t1 = range_of s t0 b # segments s b bs t1"
  by (simp_all add: segments_def)

abbreviation kept_after :: "ns_t \<Rightarrow> ns_t list \<Rightarrow> ns_t list" where
  "kept_after t0 bs \<equiv> remdups (filter (\<lambda>t. sint t0 < sint t) bs)"

lemma sint_eqD: "sint a = sint b \<Longrightarrow> a = b"
  by (rule signed_word_eqI)

lemma kept_after_cut:
  assumes "sorted (map sint (b # bs))" "sint t0 < sint b"
  shows "kept_after t0 (b # bs) = b # kept_after b bs"
  using assms
proof (induction bs)
  case Nil
  then show ?case by simp
next
  case (Cons c cs)
  show ?case
  proof (cases "c = b")
    case True
    then show ?thesis using Cons by auto
  next
    case False
    then have "sint b < sint c" using Cons.prems(1) by (auto simp: order.order_iff_strict dest: sint_eqD)
    then show ?thesis using Cons.prems by (auto simp: order.order_iff_strict intro!: arg_cong [where f = remdups] filter_cong)
  qed
qed

lemma split_ranges_segments:
  assumes "sorted (map sint bps)" and "split_ranges cfg s bps cur rs = (cur', rs')"
  shows "push_range cfg s cur' t1 rs' =
    rs @ filter (long_enough cfg) (segments s cur (kept_after cur bps) t1)"
  using assms
proof (induction bps arbitrary: cur rs)
  case Nil
  then show ?case by (simp add: push_range_filter)
next
  case (Cons b bs)
  show ?case
  proof (cases "sint b \<le> sint cur")
    case True
    then show ?thesis using Cons by simp
  next
    case False
    then have "kept_after cur (b # bs) = b # kept_after b bs"
      using Cons.prems(1) by (intro kept_after_cut) simp_all
    then show ?thesis using Cons False by (simp add: push_range_filter)
  qed
qed

text \<open>A stream's ranges are the pieces its span is cut into, without those that are too short.\<close>

lemma build_ranges_segments:
  "build_ranges cfg sv s =
     (if sv_file_ok sv \<and> sint (sv_t_first_ns sv) < sint (sv_t_last_ns sv)
      then filter (long_enough cfg)
        (segments s (sv_t_first_ns sv) (cuts (sv_t_first_ns sv) (error_times sv)) (sv_t_last_ns sv))
      else [])"
proof (cases "split_ranges cfg s (sort_key sint (error_times sv)) (sv_t_first_ns sv) []")
  case (Pair cur rs)
  have "sorted (map sint (sort_key sint (error_times sv)))" by simp
  from split_ranges_segments [OF this Pair, of "sv_t_last_ns sv"] Pair
  show ?thesis by (auto simp: build_ranges_def cuts_def)
qed

section \<open>Ranges hold no errors\<close>

definition ordered_ranges :: "time_range list \<Rightarrow> bool" where
  "ordered_ranges rs = sorted_wrt (\<lambda>r r'. sint (tr_end_ns r) \<le> sint (tr_start_ns r')) rs"

definition inside :: "stream_validation \<Rightarrow> time_range \<Rightarrow> bool" where
  "inside sv r \<longleftrightarrow> sint (sv_t_first_ns sv) \<le> sint (tr_start_ns r) \<and> sint (tr_end_ns r) \<le> sint (sv_t_last_ns sv) \<and>
     (\<forall>t \<in> set (error_times sv). \<not> (sint (tr_start_ns r) < sint t \<and> sint t < sint (tr_end_ns r)))"

lemma range_of_sel [simp]:
  "tr_start_ns (range_of s a b) = a" "tr_end_ns (range_of s a b) = b" "tr_stream (range_of s a b) = s"
  by (simp_all add: range_of_def)

lemma segments_bounds:
  assumes "sorted_wrt (<) (map sint (t0 # bs))" "\<forall>b \<in> set bs. sint b \<le> sint t1" "sint t0 \<le> sint t1"
    and "r \<in> set (segments s t0 bs t1)"
  shows "sint t0 \<le> sint (tr_start_ns r) \<and> sint (tr_end_ns r) \<le> sint t1 \<and>
    sint (tr_start_ns r) \<le> sint (tr_end_ns r) \<and> tr_stream r = s \<and>
    (\<forall>b \<in> set bs. \<not> (sint (tr_start_ns r) < sint b \<and> sint b < sint (tr_end_ns r)))"
  using assms
proof (induction bs arbitrary: t0)
  case Nil
  then show ?case by simp
next
  case (Cons b bs)
  show ?case
  proof (cases "r = range_of s t0 b")
    case True
    then show ?thesis using Cons.prems(1-3) by (simp add: order.strict_implies_order) (meson leD less_imp_le)
  next
    case False
    then have "r \<in> set (segments s b bs t1)" using Cons.prems(4) by simp
    then have "sint b \<le> sint (tr_start_ns r) \<and> sint (tr_end_ns r) \<le> sint t1 \<and>
        sint (tr_start_ns r) \<le> sint (tr_end_ns r) \<and> tr_stream r = s \<and>
        (\<forall>b \<in> set bs. \<not> (sint (tr_start_ns r) < sint b \<and> sint b < sint (tr_end_ns r)))"
      using Cons.prems(1-3) by (intro Cons.IH) simp_all
    then show ?thesis using Cons.prems(1) by auto
  qed
qed

lemma segments_ordered:
  assumes "sorted_wrt (<) (map sint (t0 # bs))" "\<forall>b \<in> set bs. sint b \<le> sint t1" "sint t0 \<le> sint t1"
  shows "ordered_ranges (segments s t0 bs t1)"
  using assms
proof (induction bs arbitrary: t0)
  case Nil
  then show ?case by (simp add: ordered_ranges_def)
next
  case (Cons b bs)
  then have "ordered_ranges (segments s b bs t1)" by simp
  moreover have "\<forall>r \<in> set (segments s b bs t1). sint b \<le> sint (tr_start_ns r)"
    using segments_bounds [of b bs t1 _ s] Cons.prems by auto
  ultimately show ?case by (simp add: ordered_ranges_def)
qed

lemma sorted_remdups_strict: "sorted (map sint xs) \<Longrightarrow> sorted_wrt (<) (map sint (remdups xs :: ns_t list))"
  by (induction xs) (auto simp: order.order_iff_strict dest: sint_eqD)

lemma cuts_sorted: "sorted_wrt (<) (map sint (t0 # cuts t0 ts))"
proof -
  have "sorted (map sint (filter (\<lambda>t. sint t0 < sint t) (sort_key sint ts)))"
    by (rule sorted_filter) simp
  then show ?thesis by (auto simp: cuts_def dest: sorted_remdups_strict)
qed

lemma set_cuts [simp]: "set (cuts t0 ts) = {t \<in> set ts. sint t0 < sint t}"
  by (simp add: cuts_def)

lemma build_ranges_sound:
  assumes "r \<in> set (build_ranges cfg sv s)" and "\<forall>t \<in> set (error_times sv). sint t \<le> sint (sv_t_last_ns sv)"
  shows "inside sv r" "long_enough cfg r" "tr_stream r = s" "sint (tr_start_ns r) \<le> sint (tr_end_ns r)"
proof -
  let ?t0 = "sv_t_first_ns sv" and ?t1 = "sv_t_last_ns sv" and ?bs = "cuts (sv_t_first_ns sv) (error_times sv)"
  have r: "r \<in> set (segments s ?t0 ?bs ?t1)" "sint ?t0 \<le> sint ?t1" "long_enough cfg r"
    using assms(1) by (auto simp: build_ranges_segments split: if_splits)
  have b: "\<forall>b \<in> set ?bs. sint b \<le> sint ?t1" using assms(2) by simp
  note sb = segments_bounds [OF cuts_sorted b r(2) r(1)]
  have "\<not> (sint (tr_start_ns r) < sint t \<and> sint t < sint (tr_end_ns r))" if "t \<in> set (error_times sv)" for t
  proof (cases "sint ?t0 < sint t")
    case True
    then have "t \<in> set ?bs" using that by simp
    then show ?thesis using sb by blast
  qed (use sb in linarith)
  then show "inside sv r" using sb by (simp add: inside_def)
  show "long_enough cfg r" "tr_stream r = s" "sint (tr_start_ns r) \<le> sint (tr_end_ns r)"
    using r sb by simp_all
qed

lemma build_ranges_ordered:
  assumes "\<forall>t \<in> set (error_times sv). sint t \<le> sint (sv_t_last_ns sv)"
  shows "ordered_ranges (build_ranges cfg sv s)"
proof -
  have "sint (sv_t_first_ns sv) \<le> sint (sv_t_last_ns sv) \<Longrightarrow>
      ordered_ranges (segments s (sv_t_first_ns sv) (cuts (sv_t_first_ns sv) (error_times sv)) (sv_t_last_ns sv))"
    by (rule segments_ordered [OF cuts_sorted]) (use assms in simp_all)
  then show ?thesis by (auto simp: build_ranges_segments ordered_ranges_def sorted_wrt_filter)
qed

section \<open>Common ranges\<close>

definition meet :: "offline_config \<Rightarrow> time_range \<Rightarrow> time_range \<Rightarrow> time_range list" where
  "meet cfg er sr = intersect_into cfg er [] sr"

lemma intersect_into_meet: "intersect_into cfg er rs sr = rs @ meet cfg er sr"
  by (simp add: meet_def intersect_into_def Let_def push_range_filter)

lemma foldl_append_concat: "foldl (\<lambda>rs x. rs @ f x) rs xs = rs @ concat (map f xs)"
  by (induction xs arbitrary: rs) simp_all

lemma intersect_ranges_meets:
  "intersect_ranges cfg ers srs = concat (map (\<lambda>er. concat (map (meet cfg er) srs)) ers)"
proof -
  have "intersect_into cfg er = (\<lambda>rs sr. rs @ meet cfg er sr)" for er
    by (intro ext) (rule intersect_into_meet)
  then show ?thesis by (simp add: intersect_ranges_def foldl_append_concat)
qed

lemma meet_sound:
  assumes "r \<in> set (meet cfg er sr)"
  shows "long_enough cfg r \<and> tr_stream r = Stream_both \<and> sint (tr_start_ns r) < sint (tr_end_ns r) \<and>
    sint (tr_start_ns er) \<le> sint (tr_start_ns r) \<and> sint (tr_end_ns r) \<le> sint (tr_end_ns er) \<and>
    sint (tr_start_ns sr) \<le> sint (tr_start_ns r) \<and> sint (tr_end_ns r) \<le> sint (tr_end_ns sr)"
  using assms
  by (auto simp: meet_def intersect_into_def Let_def push_range_filter max_ns_def min_ns_def split: if_splits)

lemma inside_sub:
  assumes "inside sv r" "sint (tr_start_ns r) \<le> sint (tr_start_ns r')" "sint (tr_end_ns r') \<le> sint (tr_end_ns r)"
  shows "inside sv r'"
  using assms by (fastforce simp: inside_def)

lemma ordered_ranges_concat:
  assumes "ordered_ranges xs" "\<And>x. x \<in> set xs \<Longrightarrow> ordered_ranges (f x)"
    and "\<And>x r. x \<in> set xs \<Longrightarrow> r \<in> set (f x) \<Longrightarrow>
      sint (tr_start_ns x) \<le> sint (tr_start_ns r) \<and> sint (tr_end_ns r) \<le> sint (tr_end_ns x)"
  shows "ordered_ranges (concat (map f xs))"
  using assms unfolding ordered_ranges_def
proof (induction xs)
  case (Cons x xs)
  have "sint (tr_end_ns r) \<le> sint (tr_start_ns r')"
    if "r \<in> set (f x)" "y \<in> set xs" "r' \<in> set (f y)" for r r' y
    using Cons.prems(1) Cons.prems(3) [of x r] Cons.prems(3) [of y r'] that by fastforce
  then show ?case using Cons by (auto simp: sorted_wrt_append)
qed simp

lemma fless_not_feq: "fless x y \<Longrightarrow> \<not> feq x y"
  by (cases x; cases y) (simp_all add: fless_def feq_def)

lemma less_not_ge64: "less64 x y \<Longrightarrow> \<not> ge64 x y"
  unfolding ge64_def less64_def eq64_def
  using fless_irrefl fless_trans fless_not_feq by blast

lemmas float_eval = encode_fin_def floor_log2_def bit_length.simps pow2_def binary64_def fm_bias_def
  round_half_even_def sign_bit_def decode_float_def

lemma billion_code: "encode_fin binary64 False 1000000000 = 0x41CDCD6500000000"
  by (simp add: float_eval)

lemma f64_billion: "f64_of_int (10 ^ 9) = 0x41CDCD6500000000"
  using billion_code by (simp add: f64_of_int_def fin_of_def f64_of_def encode_float_def)

lemma val64_billion: "val64 0x41CDCD6500000000 = FFin False 1000000000"
  by (simp add: val64_def float_eval)

lemma f64_zero_value: "f64_of_int 0 = 0" "val64 0 = FFin False 0"
  by (simp_all add: f64_of_int_def fin_of_def f64_of_def encode_float_def val64_def float_eval)

lemma zero_seconds: "div64 (f64_of_int 0) (f64_of_int (10 ^ 9)) = f64_of_int 0"
  unfolding f64_billion f64_zero_value
  by (simp add: f64_zero_value val64_billion div64_def fdiv_def f64_of_def encode_float_def fin_of_def float_eval)

lemma duration_zero: "\<not> long_enough cfg (range_of s a a)" if "less64 (f64_of_int 0) (oc_min_valid_duration_s cfg)"
proof -
  have z: "tr_duration_s (range_of s a a) = f64_of_int 0"
    unfolding tr_duration_s_def range_of_sel diff_self signed_0 by (rule zero_seconds)
  show ?thesis unfolding long_enough_def z by (rule less_not_ge64 [OF that])
qed

text \<open>Every valid range of the report is a proper interval within the ego stream's recorded span, at
  least the configured minimum long, with no error of the ego stream strictly inside it; a range of both
  streams has the same of the source stream, and ranges of the ego stream alone appear only if there is
  no common one. The ranges come in the order of time and do not overlap.\<close>

lemma extract_ranges_sound:
  assumes "\<forall>t \<in> set (error_times ego). sint t \<le> sint (sv_t_last_ns ego)"
    and "\<forall>t \<in> set (error_times src). sint t \<le> sint (sv_t_last_ns src)"
    and "less64 (f64_of_int 0) (oc_min_valid_duration_s cfg)"
  shows "(\<forall>r \<in> set (extract_valid_ranges cfg ego src).
      sint (tr_start_ns r) < sint (tr_end_ns r) \<and> long_enough cfg r \<and> inside ego r \<and>
      (tr_stream r = Stream_both \<and> inside src r \<or>
       tr_stream r = Stream_ego \<and>
         intersect_ranges cfg (build_ranges cfg ego Stream_ego) (build_ranges cfg src Stream_source) = [])) \<and>
    ordered_ranges (extract_valid_ranges cfg ego src)"
proof -
  let ?E = "build_ranges cfg ego Stream_ego" and ?S = "build_ranges cfg src Stream_source"
  note eg = build_ranges_sound [OF _ assms(1)] and sr = build_ranges_sound [OF _ assms(2)]
  have ego: "sint (tr_start_ns r) < sint (tr_end_ns r) \<and> long_enough cfg r \<and> inside ego r \<and> tr_stream r = Stream_ego"
    if "r \<in> set ?E" for r
  proof -
    have "sint (tr_start_ns r) \<noteq> sint (tr_end_ns r)"
      using duration_zero [OF assms(3)] eg(2) [OF that] by (cases r) (auto simp: range_of_def long_enough_def tr_duration_s_def dest: sint_eqD)
    then show ?thesis using eg [OF that] by simp
  qed
  have both: "sint (tr_start_ns r) < sint (tr_end_ns r) \<and> long_enough cfg r \<and> inside ego r \<and>
      inside src r \<and> tr_stream r = Stream_both" if r: "r \<in> set (intersect_ranges cfg ?E ?S)" for r
  proof -
    from r obtain er s where es: "er \<in> set ?E" "s \<in> set ?S" "r \<in> set (meet cfg er s)"
      by (auto simp: intersect_ranges_meets)
    then show ?thesis
      using meet_sound [OF es(3)] inside_sub [OF eg(1) [OF es(1)]] inside_sub [OF sr(1) [OF es(2)]] by blast
  qed
  have "ordered_ranges (concat (map (meet cfg er) ?S))" for er
    by (rule ordered_ranges_concat [OF build_ranges_ordered [OF assms(2)]])
      (auto dest: meet_sound, simp add: meet_def intersect_into_def Let_def push_range_filter ordered_ranges_def)
  then have "ordered_ranges (intersect_ranges cfg ?E ?S)"
    unfolding intersect_ranges_meets
    by (intro ordered_ranges_concat [OF build_ranges_ordered [OF assms(1)]]) (auto dest: meet_sound)
  then show ?thesis
    using ego both build_ranges_ordered [OF assms(1), of cfg Stream_ego]
    by (auto simp: extract_valid_ranges_def Let_def)
qed

lemma default_minimum: "less64 (f64_of_int 0) (oc_min_valid_duration_s offline_defaults)"
proof -
  have "encode_fin binary64 False 10 = 0x4024000000000000" by (simp add: float_eval)
  then have "oc_min_valid_duration_s offline_defaults = 0x4024000000000000"
    by (simp add: offline_defaults_def f64_of_rat_def fin_of_def f64_of_def encode_float_def)
  moreover have "val64 0x4024000000000000 = FFin False 10" by (simp add: val64_def float_eval)
  ultimately show ?thesis by (simp add: less64_def f64_zero_value fless_def Ieee.signed_def)
qed

end
