(* ===== verification/FloatOps.thy ===== *)
theory FloatOps
  imports ValidationReport "HOL-Library.Signed_Division"
begin

text \<open>
  More of the floating-point arithmetic the offline pipeline uses, on top of \<open>Ieee\<close>: single-precision sums,
  the square root and \<open>fmod\<close>, which IEEE 754 determines, comparisons, conversions to integers, and the
  search for a least element as \<open>std::min_element\<close> does it. The trigonometric functions, which no standard
  determines to the last bit, are parameters of the definitions that use them.
\<close>

section \<open>Arithmetic\<close>

definition add32 :: "f32 \<Rightarrow> f32 \<Rightarrow> f32" where "add32 x y = f32_of (fadd (val32 x) (val32 y))"
definition sub32 :: "f32 \<Rightarrow> f32 \<Rightarrow> f32" where "sub32 x y = f32_of (fadd (val32 x) (fneg (val32 y)))"

definition neg64 :: "f64 \<Rightarrow> f64" where "neg64 x = x XOR 0x8000000000000000"

definition le64 :: "f64 \<Rightarrow> f64 \<Rightarrow> bool" where "le64 x y \<longleftrightarrow> ge64 y x"

lemma less64_asym: "less64 x y \<Longrightarrow> \<not> less64 y x"
  unfolding less64_def using fless_irrefl fless_trans by blast

lemma less64_trans: "less64 x y \<Longrightarrow> less64 y z \<Longrightarrow> less64 x z"
  unfolding less64_def by (rule fless_trans)

lemma less64_irrefl [simp]: "\<not> less64 x x"
  by (simp add: less64_def fless_irrefl)

lemmas f64_eval = f64_of_int_def f64_of_rat_def fin_of_def f64_of_def encode_float_def val64_def float_eval

lemma f64_one: "f64_of_int 1 = 0x3FF0000000000000" "val64 0x3FF0000000000000 = FFin False 1"
  by (simp_all add: f64_eval)

text \<open>\<open>std::max\<close> and \<open>std::min\<close>: the first argument unless the second is greater, or less.\<close>

definition max64 :: "f64 \<Rightarrow> f64 \<Rightarrow> f64" where "max64 x y = (if less64 x y then y else x)"
definition min64 :: "f64 \<Rightarrow> f64 \<Rightarrow> f64" where "min64 x y = (if less64 y x then y else x)"

text \<open>The square root: the integer root of the value scaled to more digits than the mantissa has, with a
  half in the last place where the root is not exact, rounds as the root itself.\<close>

fun isqrt :: "nat \<Rightarrow> nat" where
  "isqrt n = (if n = 0 then 0 else let s = 2 * isqrt (n div 4) in if (s + 1) * (s + 1) \<le> n then s + 1 else s)"

declare isqrt.simps [simp del]

definition sqrt_value :: "rat \<Rightarrow> rat" where
  "sqrt_value r =
     (let t = 56 - floor_log2 r div 2; x = r * pow2 (2 * t); n = nat \<lfloor>x\<rfloor>; q = isqrt n in
      (of_nat q + (if of_nat (q * q) = x then 0 else 1 / 2)) * pow2 (- t))"

definition sqrt64 :: "f64 \<Rightarrow> f64" where
  "sqrt64 x = f64_of (case val64 x of
       FNaN \<Rightarrow> FNaN
     | FInf neg \<Rightarrow> (if neg then FNaN else FInf False)
     | FFin neg r \<Rightarrow> (if r = 0 then FFin neg 0 else if neg then FNaN else FFin False (sqrt_value r)))"

text \<open>\<open>std::fmod\<close> is exact and has the sign of its first argument.\<close>

definition fmod64 :: "f64 \<Rightarrow> f64 \<Rightarrow> f64" where
  "fmod64 x y = f64_of (case (val64 x, val64 y) of
       (FFin s a, FFin _ b) \<Rightarrow> (if b = 0 then FNaN else FFin s (a - b * of_int \<lfloor>a / b\<rfloor>))
     | (FFin s a, FInf _) \<Rightarrow> FFin s a
     | _ \<Rightarrow> FNaN)"

text \<open>\<open>static_cast<int>\<close> of a double, as \<open>f64_to_int64\<close>.\<close>

definition f64_to_int32 :: "f64 \<Rightarrow> u32" where
  "f64_to_int32 x =
     (case val64 x of
        FFin neg r \<Rightarrow>
          let k = (if neg then - \<lfloor>r\<rfloor> else \<lfloor>r\<rfloor>) in
          if - (2 ^ 31) \<le> k \<and> k < 2 ^ 31 then of_int k else 0x80000000
      | _ \<Rightarrow> 0x80000000)"

definition f64_of_ns :: "ns_t \<Rightarrow> f64" where "f64_of_ns t = f64_of_int (sint t)"
definition f64_of_u32 :: "u32 \<Rightarrow> f64" where "f64_of_u32 n = f64_of_int (uint n)"

text \<open>\<open>std::abs\<close> of a 64-bit integer; the least one has no absolute value.\<close>

definition abs_ns :: "ns_t \<Rightarrow> ns_t" where "abs_ns t = (if sint t < 0 then - t else t)"

text \<open>Division of signed integers, towards zero.\<close>

definition sdiv64 :: "u64 \<Rightarrow> u64 \<Rightarrow> u64" where "sdiv64 a b = of_int (sint a sdiv sint b)"

section \<open>Least elements\<close>

text \<open>The first of the least elements.\<close>

definition min_element :: "('a \<Rightarrow> 'a \<Rightarrow> bool) \<Rightarrow> 'a list \<Rightarrow> 'a" where
  "min_element lt xs = foldl (\<lambda>m x. if lt x m then x else m) (hd xs) (tl xs)"

lemma min_element_mem: "xs \<noteq> [] \<Longrightarrow> min_element lt xs \<in> set xs"
proof -
  have "foldl (\<lambda>m x. if lt x m then x else m) m ys \<in> insert m (set ys)" for m ys
  proof (induction ys arbitrary: m)
    case (Cons y ys)
    show ?case using Cons [of m] Cons [of y] by auto
  qed simp
  then show "xs \<noteq> [] \<Longrightarrow> ?thesis"
    by (cases xs) (auto simp: min_element_def)
qed

text \<open>For an order by a key nothing in the list has a lesser one.\<close>

lemma min_element_least:
  fixes key :: "'a \<Rightarrow> int"
  assumes "x \<in> set xs"
  shows "key (min_element (\<lambda>a b. key a < key b) xs) \<le> key x"
proof -
  have "\<forall>x \<in> insert m (set ys). key (foldl (\<lambda>m x. if key x < key m then x else m) m ys) \<le> key x" for m ys
  proof (induction ys arbitrary: m)
    case (Cons y ys)
    show ?case using Cons [of m] Cons [of y] by auto
  qed simp
  from this [of "hd xs" "tl xs"] assms show ?thesis by (cases xs) (auto simp: min_element_def)
qed

lemma isqrt_square: "isqrt n * isqrt n \<le> n \<and> n < (isqrt n + 1) * (isqrt n + 1)"
proof (induction n rule: isqrt.induct)
  case (1 n)
  show ?case
  proof (cases "n = 0")
    case False
    let ?q = "isqrt (n div 4)"
    have q: "?q * ?q \<le> n div 4" "n div 4 + 1 \<le> (?q + 1) * (?q + 1)" using 1 False by auto
    have "4 * (n div 4) \<le> n" "n < 4 * (n div 4 + 1)" by auto
    with mult_le_mono2 [OF q(1), of 4] mult_le_mono2 [OF q(2), of 4] have "4 * (?q * ?q) \<le> n" "n < 4 * ((?q + 1) * (?q + 1))"
      by linarith+
    then have "2 * ?q * (2 * ?q) \<le> n" "n < (2 * ?q + 2) * (2 * ?q + 2)" by (auto simp: algebra_simps) 
    then show ?thesis using False by (subst (1 2 3 4) isqrt.simps) (simp add: Let_def)
  qed (simp add: isqrt.simps)
qed

end
