(* ===== verification/ScanStatistics.thy ===== *)
theory ScanStatistics
  imports ValidationReport "HOL-Library.Multiset"
begin

text \<open>
  The statistics the pipeline collects while it parses, \<open>ScanAccumulator\<close> of
  \<open>offline/src/pipeline/pipeline.cpp\<close>: what the counters are for any sequence of packets, and that the
  one pass finds what the validator's own pass finds.
\<close>

section \<open>The accumulator\<close>

record scan_accumulator =
  sa_sv :: stream_validation
  sa_first :: bool
  sa_prev_ts :: ns_t
  sa_prev_audio_ts :: ns_t
  sa_prev_imu_ts :: ns_t
  sa_nominal :: u32
  sa_prev_seq :: u32
  sa_cfg :: "offline_config option"

definition new_accumulator :: "offline_config option \<Rightarrow> bool \<Rightarrow> scan_accumulator" where
  "new_accumulator cfg file_ok = \<lparr>sa_sv = new_stream_validation\<lparr>sv_file_ok := file_ok\<rparr>, sa_first = True,
     sa_prev_ts = 0, sa_prev_audio_ts = 0, sa_prev_imu_ts = 0, sa_nominal = 0, sa_prev_seq = 0,
     sa_cfg = cfg\<rparr>"

text \<open>A packet that passed its check: the sequence, time and span checks, on the statistics that count it.\<close>

definition accumulate_checks :: "raw_packet \<Rightarrow> scan_accumulator \<Rightarrow> stream_validation \<Rightarrow> stream_validation" where
  "accumulate_checks raw acc sv1 =
     (let ts = ph_ts_ns (rp_header raw); seq = ph_seq (rp_header raw);
          first = sa_first acc; prev = sa_prev_ts acc;
          sv2 = (if first then sv1 else seq_gap_check ''ego'' (sa_prev_seq acc) prev seq ts sv1);
          sv3 = (if ts = 0 then sv2\<lparr>sv_timestamp_violations := sv_timestamp_violations sv2 + 1\<rparr> else sv2);
          sv4 = monotonic_check first prev ts sv3;
          sv5 = jump_check (sa_cfg acc) first prev ts sv4
      in span_update first ts sv5)"

definition accumulate :: "raw_packet \<Rightarrow> bool \<Rightarrow> scan_accumulator \<Rightarrow> scan_accumulator option" where
  "accumulate raw crc_ok acc =
     (let sv0 = (sa_sv acc)\<lparr>sv_packets_total := sv_packets_total (sa_sv acc) + 1\<rparr> in
      if \<not> crc_ok
      then Some (acc\<lparr>sa_sv := sv0\<lparr>sv_packets_crc_failed := sv_packets_crc_failed sv0 + 1,
                                   sv_packets_lost := sv_packets_lost sv0 + 1\<rparr>\<rparr>)
      else
        let sv1 = sv0\<lparr>sv_packets_valid := sv_packets_valid sv0 + 1\<rparr>;
            sv6 = accumulate_checks raw acc sv1
        in map_option (\<lambda>(sv7, audio_ts, nominal).
             case imu_check (sa_cfg acc) raw (sv7, sa_prev_imu_ts acc) of
               (sv8, imu_ts) \<Rightarrow>
                 \<lparr>sa_sv = sv8, sa_first = False, sa_prev_ts = ph_ts_ns (rp_header raw),
                  sa_prev_audio_ts = audio_ts, sa_prev_imu_ts = imu_ts, sa_nominal = nominal,
                  sa_prev_seq = ph_seq (rp_header raw), sa_cfg = sa_cfg acc\<rparr>)
             (audio_check (sa_cfg acc) raw (sv6, sa_prev_audio_ts acc, sa_nominal acc)))"

text \<open>A whole sequence of packets, each with the outcome of its check.\<close>

fun accumulate_all :: "(raw_packet \<times> bool) list \<Rightarrow> scan_accumulator \<Rightarrow> scan_accumulator option" where
  "accumulate_all [] acc = Some acc"
| "accumulate_all ((raw, ok) # xs) acc = Option.bind (accumulate raw ok acc) (accumulate_all xs)"

section \<open>What the checks touch\<close>

lemma error_times_add_gap [simp]:
  "error_times (add_gap g sv) = error_times sv @ (if ge_severity g = Sev_error then [ge_t_ns g] else [])"
  by (simp add: error_times_def add_gap_def)

lemma error_times_update [simp]:
  "error_times (sv\<lparr>sv_packets_total := a\<rparr>) = error_times sv"
  "error_times (sv\<lparr>sv_packets_valid := a\<rparr>) = error_times sv"
  "error_times (sv\<lparr>sv_packets_lost := a\<rparr>) = error_times sv"
  "error_times (sv\<lparr>sv_packets_crc_failed := a\<rparr>) = error_times sv"
  "error_times (sv\<lparr>sv_timestamp_violations := a\<rparr>) = error_times sv"
  "error_times (sv\<lparr>sv_monotonic_violations := a\<rparr>) = error_times sv"
  "error_times (sv\<lparr>sv_audio_gap_count := a\<rparr>) = error_times sv"
  "error_times (sv\<lparr>sv_telemetry_gap_count := a\<rparr>) = error_times sv"
  "error_times (sv\<lparr>sv_t_first_ns := t\<rparr>) = error_times sv"
  "error_times (sv\<lparr>sv_t_last_ns := t\<rparr>) = error_times sv"
  by (simp_all add: error_times_def)

text \<open>The counters the theorems speak of, as one value: a check that leaves them alone is one equation.\<close>

definition tally :: "stream_validation \<Rightarrow> u64 \<times> u64 \<times> u64 \<times> u64 \<times> u64" where
  "tally sv = (sv_packets_total sv, sv_packets_valid sv, sv_packets_crc_failed sv, sv_packets_lost sv,
     sv_monotonic_violations sv)"

definition time_span :: "stream_validation \<Rightarrow> ns_t \<times> ns_t" where
  "time_span sv = (sv_t_first_ns sv, sv_t_last_ns sv)"

definition lost_between :: "u32 \<Rightarrow> u32 \<Rightarrow> u64" where
  "lost_between s0 s1 = (if s1 > s0 + 1 then ucast (s1 - (s0 + 1)) else 0)"

lemma seq_gap_check_effect:
  "tally (seq_gap_check stream s0 t0 s1 t1 sv) =
     (case tally sv of (n, v, c, l, m) \<Rightarrow> (n, v, c, l + lost_between s0 s1, m))"
  "time_span (seq_gap_check stream s0 t0 s1 t1 sv) = time_span sv"
  "sv_file_ok (seq_gap_check stream s0 t0 s1 t1 sv) = sv_file_ok sv"
  "set (error_times (seq_gap_check stream s0 t0 s1 t1 sv)) \<subseteq> insert t1 (set (error_times sv))"
  by (auto simp: seq_gap_check_def Let_def tally_def time_span_def lost_between_def add_gap_def error_times_def gap_at_def)

lemma monotonic_check_effect:
  "tally (monotonic_check first prev ts sv) =
     (case tally sv of (n, v, c, l, m) \<Rightarrow>
        (n, v, c, l, m + (if \<not> first \<and> sint ts < sint prev then 1 else 0)))"
  "time_span (monotonic_check first prev ts sv) = time_span sv"
  "sv_file_ok (monotonic_check first prev ts sv) = sv_file_ok sv"
  "error_times (monotonic_check first prev ts sv) = error_times sv"
  by (auto simp: monotonic_check_def tally_def time_span_def add_gap_def error_times_def gap_at_def)

lemma jump_check_effect:
  "tally (jump_check cfg first prev ts sv) = tally sv"
  "time_span (jump_check cfg first prev ts sv) = time_span sv"
  "sv_file_ok (jump_check cfg first prev ts sv) = sv_file_ok sv"
  "error_times (jump_check cfg first prev ts sv) = error_times sv"
  by (auto simp: jump_check_def Let_def tally_def time_span_def add_gap_def error_times_def gap_at_def split: option.splits)

lemma span_update_effect:
  "tally (span_update first ts sv) = tally sv"
  "time_span (span_update first ts sv) =
     (case time_span sv of (a, b) \<Rightarrow> (if first \<or> sint ts < sint a then ts else a, if sint ts > sint b then ts else b))"
  "sv_file_ok (span_update first ts sv) = sv_file_ok sv"
  "error_times (span_update first ts sv) = error_times sv"
  by (simp_all add: span_update_def Let_def tally_def time_span_def)

lemma audio_check_effect:
  assumes "audio_check cfg raw (sv, a, n) = Some (sv', a', n')"
  shows "tally sv' = tally sv" "time_span sv' = time_span sv" "sv_file_ok sv' = sv_file_ok sv" "error_times sv' = error_times sv"
  using assms
  by (auto simp: audio_check_def Let_def tally_def time_span_def add_gap_def error_times_def gap_at_def split: if_splits option.splits)

lemma imu_check_effect:
  assumes "imu_check cfg raw (sv, i) = (sv', i')"
  shows "tally sv' = tally sv" "time_span sv' = time_span sv" "sv_file_ok sv' = sv_file_ok sv" "error_times sv' = error_times sv"
  using assms
  by (auto simp: imu_check_def Let_def tally_def time_span_def add_gap_def error_times_def gap_at_def split: if_splits option.splits)

lemma accumulate_failed:
  assumes "accumulate raw False acc = Some acc'"
  shows "tally (sa_sv acc') = (case tally (sa_sv acc) of (n, v, c, l, m) \<Rightarrow> (n + 1, v, c + 1, l + 1, m))"
    "time_span (sa_sv acc') = time_span (sa_sv acc)" "sv_file_ok (sa_sv acc') = sv_file_ok (sa_sv acc)"
    "error_times (sa_sv acc') = error_times (sa_sv acc)"
    "sa_first acc' = sa_first acc" "sa_prev_ts acc' = sa_prev_ts acc" "sa_prev_seq acc' = sa_prev_seq acc"
  using assms by (auto simp: accumulate_def Let_def tally_def time_span_def)

lemma accumulate_checks_effect:
  fixes raw
  defines "ts \<equiv> ph_ts_ns (rp_header raw)" and "seq \<equiv> ph_seq (rp_header raw)"
  shows "tally (accumulate_checks raw acc sv) = (case tally sv of (n, v, c, l, m) \<Rightarrow>
        (n, v, c, l + (if sa_first acc then 0 else lost_between (sa_prev_seq acc) seq),
         m + (if \<not> sa_first acc \<and> sint ts < sint (sa_prev_ts acc) then 1 else 0)))"
    "time_span (accumulate_checks raw acc sv) = (case time_span sv of (a, b) \<Rightarrow>
        (if sa_first acc \<or> sint ts < sint a then ts else a, if sint ts > sint b then ts else b))"
    "sv_file_ok (accumulate_checks raw acc sv) = sv_file_ok sv"
    "set (error_times (accumulate_checks raw acc sv)) \<subseteq> insert ts (set (error_times sv))"
proof -
  have tv: "tally (sv\<lparr>sv_timestamp_violations := x\<rparr>) = tally sv"
    "time_span (sv\<lparr>sv_timestamp_violations := x\<rparr>) = time_span sv" for sv x
    by (simp_all add: tally_def time_span_def)
  note effects = span_update_effect jump_check_effect monotonic_check_effect
  note seq = seq_gap_check_effect [of "''ego''" "sa_prev_seq acc" "sa_prev_ts acc" seq ts sv]
  show "tally (accumulate_checks raw acc sv) = (case tally sv of (n, v, c, l, m) \<Rightarrow>
        (n, v, c, l + (if sa_first acc then 0 else lost_between (sa_prev_seq acc) seq),
         m + (if \<not> sa_first acc \<and> sint ts < sint (sa_prev_ts acc) then 1 else 0)))"
    by (simp add: accumulate_checks_def Let_def effects tv seq_gap_check_effect(1) flip: ts_def seq_def split: prod.splits)
  show "time_span (accumulate_checks raw acc sv) = (case time_span sv of (a, b) \<Rightarrow>
        (if sa_first acc \<or> sint ts < sint a then ts else a, if sint ts > sint b then ts else b))"
    by (simp add: accumulate_checks_def Let_def effects tv seq_gap_check_effect(2) flip: ts_def seq_def)
  show "sv_file_ok (accumulate_checks raw acc sv) = sv_file_ok sv"
    by (simp add: accumulate_checks_def Let_def effects seq_gap_check_effect(3) flip: ts_def seq_def)
  show "set (error_times (accumulate_checks raw acc sv)) \<subseteq> insert ts (set (error_times sv))"
    using seq(4) by (auto simp: accumulate_checks_def Let_def effects simp flip: ts_def seq_def)
qed

lemma accumulate_good:
  assumes "accumulate raw True acc = Some acc'"
  defines "ts \<equiv> ph_ts_ns (rp_header raw)" and "seq \<equiv> ph_seq (rp_header raw)"
  shows "tally (sa_sv acc') = (case tally (sa_sv acc) of (n, v, c, l, m) \<Rightarrow>
        (n + 1, v + 1, c, l + (if sa_first acc then 0 else lost_between (sa_prev_seq acc) seq),
         m + (if \<not> sa_first acc \<and> sint ts < sint (sa_prev_ts acc) then 1 else 0)))"
    "time_span (sa_sv acc') = (case time_span (sa_sv acc) of (a, b) \<Rightarrow>
        (if sa_first acc \<or> sint ts < sint a then ts else a, if sint ts > sint b then ts else b))"
    "sv_file_ok (sa_sv acc') = sv_file_ok (sa_sv acc)"
    "set (error_times (sa_sv acc')) \<subseteq> insert ts (set (error_times (sa_sv acc)))"
    "\<not> sa_first acc'" "sa_prev_ts acc' = ts" "sa_prev_seq acc' = seq"
proof -
  define sv1 where "sv1 = (sa_sv acc)\<lparr>sv_packets_total := sv_packets_total (sa_sv acc) + 1,
    sv_packets_valid := sv_packets_valid (sa_sv acc) + 1\<rparr>"
  have 1: "tally sv1 = (case tally (sa_sv acc) of (n, v, c, l, m) \<Rightarrow> (n + 1, v + 1, c, l, m))"
    "time_span sv1 = time_span (sa_sv acc)" "error_times sv1 = error_times (sa_sv acc)" "sv_file_ok sv1 = sv_file_ok (sa_sv acc)"
    by (simp_all add: sv1_def tally_def time_span_def)
  obtain sv7 a n sv8 i where
    au: "audio_check (sa_cfg acc) raw (accumulate_checks raw acc sv1, sa_prev_audio_ts acc, sa_nominal acc) = Some (sv7, a, n)" and
    im: "imu_check (sa_cfg acc) raw (sv7, sa_prev_imu_ts acc) = (sv8, i)" and
    acc': "sa_sv acc' = sv8" "\<not> sa_first acc'" "sa_prev_ts acc' = ts" "sa_prev_seq acc' = seq"
  proof (cases "audio_check (sa_cfg acc) raw (accumulate_checks raw acc sv1, sa_prev_audio_ts acc, sa_nominal acc)")
    case None
    then show ?thesis using assms(1) by (simp add: accumulate_def Let_def sv1_def)
  next
    case (Some r)
    obtain sv7 a n where r: "r = (sv7, a, n)" by (cases r)
    obtain sv8 i where "imu_check (sa_cfg acc) raw (sv7, sa_prev_imu_ts acc) = (sv8, i)" by fastforce
    then show ?thesis using that assms(1) Some by (auto simp: r accumulate_def Let_def sv1_def ts_def seq_def)
  qed
  note effects = imu_check_effect [OF im] audio_check_effect [OF au] accumulate_checks_effect 1
  show "tally (sa_sv acc') = (case tally (sa_sv acc) of (n, v, c, l, m) \<Rightarrow>
        (n + 1, v + 1, c, l + (if sa_first acc then 0 else lost_between (sa_prev_seq acc) seq),
         m + (if \<not> sa_first acc \<and> sint ts < sint (sa_prev_ts acc) then 1 else 0)))"
    by (simp add: acc' effects ts_def seq_def split: prod.splits)
  show "time_span (sa_sv acc') = (case time_span (sa_sv acc) of (a, b) \<Rightarrow>
        (if sa_first acc \<or> sint ts < sint a then ts else a, if sint ts > sint b then ts else b))"
    unfolding ts_def by (simp add: acc' effects)
  show "sv_file_ok (sa_sv acc') = sv_file_ok (sa_sv acc)"
    by (simp add: acc' effects)
  show "set (error_times (sa_sv acc')) \<subseteq> insert ts (set (error_times (sa_sv acc)))"
    using accumulate_checks_effect(4) [of raw acc sv1] by (simp add: acc' effects ts_def)
  show "\<not> sa_first acc'" "sa_prev_ts acc' = ts" "sa_prev_seq acc' = seq" by (rule acc')+
qed

section \<open>The counters\<close>

text \<open>The packets that passed their check, and what the specification counts in them.\<close>

definition good_packets :: "(raw_packet \<times> bool) list \<Rightarrow> raw_packet list" where
  "good_packets xs = map fst (filter snd xs)"

definition neighbours :: "'a list \<Rightarrow> ('a \<times> 'a) list" where
  "neighbours xs = zip xs (tl xs)"

definition packet_times :: "raw_packet list \<Rightarrow> ns_t list" where
  "packet_times ps = map (\<lambda>p. ph_ts_ns (rp_header p)) ps"

definition packet_seqs :: "raw_packet list \<Rightarrow> u32 list" where
  "packet_seqs ps = map (\<lambda>p. ph_seq (rp_header p)) ps"

definition descents :: "ns_t list \<Rightarrow> nat" where
  "descents ts = length (filter (\<lambda>(a, b). sint b < sint a) (neighbours ts))"

definition numbers_left_out :: "u32 list \<Rightarrow> u64" where
  "numbers_left_out ss = sum_list (map (\<lambda>(a, b). lost_between a b) (neighbours ss))"

lemma neighbours_simps [simp]: "neighbours [] = []" "neighbours [x] = []"
  by (simp_all add: neighbours_def)

lemma neighbours_snoc: "neighbours (xs @ [x]) = (if xs = [] then [] else neighbours xs @ [(last xs, x)])"
  by (induction xs) (auto simp: neighbours_def neq_Nil_conv)

lemma descents_snoc:
  "descents (ts @ [t]) = descents ts + (if ts \<noteq> [] \<and> sint t < sint (last ts) then 1 else 0)"
  by (simp add: descents_def neighbours_snoc)

lemma left_out_snoc:
  "numbers_left_out (ss @ [s]) = numbers_left_out ss + (if ss = [] then 0 else lost_between (last ss) s)"
  by (simp add: numbers_left_out_def neighbours_snoc)

lemma good_packets_snoc: "good_packets (xs @ [(p, ok)]) = good_packets xs @ (if ok then [p] else [])"
  by (simp add: good_packets_def)

lemma times_snoc [simp]: "packet_times (ps @ [p]) = packet_times ps @ [ph_ts_ns (rp_header p)]" "packet_times [] = []"
  "packet_times ps = [] \<longleftrightarrow> ps = []" "packet_times [p] = [ph_ts_ns (rp_header p)]"
  by (simp_all add: packet_times_def)

lemma seqs_snoc [simp]: "packet_seqs (ps @ [p]) = packet_seqs ps @ [ph_seq (rp_header p)]" "packet_seqs [] = []"
  "packet_seqs ps = [] \<longleftrightarrow> ps = []" "packet_seqs [p] = [ph_seq (rp_header p)]"
  by (simp_all add: packet_seqs_def)

lemma accumulate_all_snoc: "accumulate_all (xs @ [(p, ok)]) acc = Option.bind (accumulate_all xs acc) (accumulate p ok)"
proof (induction xs arbitrary: acc)
  case Nil
  then show ?case by (cases "accumulate p ok acc") simp_all
next
  case (Cons x xs)
  then show ?case by (cases x; cases "accumulate (fst x) (snd x) acc") simp_all
qed

text \<open>What holds of the accumulator after the packets \<open>xs\<close>.\<close>

definition scanned :: "bool \<Rightarrow> (raw_packet \<times> bool) list \<Rightarrow> scan_accumulator \<Rightarrow> bool" where
  "scanned file_ok xs acc \<longleftrightarrow>
     (let ps = good_packets xs; bad = length xs - length ps; sv = sa_sv acc in
      tally sv = (of_nat (length xs), of_nat (length ps), of_nat bad,
        of_nat bad + numbers_left_out (packet_seqs ps), of_nat (descents (packet_times ps))) \<and>
      sv_file_ok sv = file_ok \<and> set (error_times sv) \<subseteq> set (packet_times ps) \<and>
      sa_first acc = (ps = []) \<and>
      (if ps = [] then time_span sv = (0, 0)
       else sa_prev_ts acc = last (packet_times ps) \<and> sa_prev_seq acc = last (packet_seqs ps) \<and>
         sint (sv_t_first_ns sv) = Min (sint ` set (packet_times ps)) \<and>
         sint (sv_t_last_ns sv) = Max (insert 0 (sint ` set (packet_times ps)))))"

lemma good_packets_length: "length (good_packets xs) \<le> length xs"
  by (simp add: good_packets_def)

lemma scanned_start: "scanned file_ok [] (new_accumulator cfg file_ok)"
  by (simp add: scanned_def new_accumulator_def new_stream_validation_def good_packets_def tally_def time_span_def
    numbers_left_out_def descents_def neighbours_def error_times_def)

lemma scanned_failed:
  assumes "scanned file_ok xs acc" "accumulate p False acc = Some acc'"
  shows "scanned file_ok (xs @ [(p, False)]) acc'"
  using assms(1) accumulate_failed [OF assms(2)] good_packets_length [of xs]
  by (auto simp: scanned_def Let_def good_packets_snoc Suc_diff_le time_span_def)

lemma scanned_good:
  assumes "scanned file_ok xs acc" "accumulate p True acc = Some acc'"
  shows "scanned file_ok (xs @ [(p, True)]) acc'"
proof (cases "good_packets xs = []")
  case True
  then show ?thesis using assms(1) accumulate_good [OF assms(2)]
    by (auto simp: scanned_def Let_def good_packets_snoc time_span_def numbers_left_out_def descents_def)
next
  case False
  let ?ps = "good_packets xs" and ?t = "ph_ts_ns (rp_header p)"
  have ne: "sint ` set (packet_times ?ps) \<noteq> {}" using False by simp
  have mm: "Min (sint ` set (packet_times (?ps @ [p]))) = min (sint ?t) (Min (sint ` set (packet_times ?ps)))"
    "Max (insert 0 (sint ` set (packet_times (?ps @ [p])))) = max (sint ?t) (Max (insert 0 (sint ` set (packet_times ?ps))))"
    using ne by (simp_all add: max.left_commute)
  note F = accumulate_good [OF assms(2)]
  from assms(1) False have S: "tally (sa_sv acc) = (of_nat (length xs), of_nat (length ?ps), of_nat (length xs - length ?ps),
      of_nat (length xs - length ?ps) + numbers_left_out (packet_seqs ?ps), of_nat (descents (packet_times ?ps)))"
    "sv_file_ok (sa_sv acc) = file_ok" "set (error_times (sa_sv acc)) \<subseteq> set (packet_times ?ps)" "\<not> sa_first acc"
    "sa_prev_ts acc = last (packet_times ?ps)" "sa_prev_seq acc = last (packet_seqs ?ps)"
    "sint (sv_t_first_ns (sa_sv acc)) = Min (sint ` set (packet_times ?ps))"
    "sint (sv_t_last_ns (sa_sv acc)) = Max (insert 0 (sint ` set (packet_times ?ps)))"
    by (simp_all add: scanned_def Let_def)
  have sp: "sint (sv_t_first_ns (sa_sv acc')) = min (sint ?t) (sint (sv_t_first_ns (sa_sv acc)))"
    "sint (sv_t_last_ns (sa_sv acc')) = max (sint ?t) (sint (sv_t_last_ns (sa_sv acc)))"
    using F(2) S(4) by (simp_all add: time_span_def)
  have er: "set (error_times (sa_sv acc')) \<subseteq> set (packet_times (?ps @ [p]))" using F(4) S(3) by auto
  have ta: "tally (sa_sv acc') = (of_nat (Suc (length xs)), of_nat (Suc (length ?ps)), of_nat (length xs - length ?ps),
      of_nat (length xs - length ?ps) + numbers_left_out (packet_seqs (?ps @ [p])),
      of_nat (descents (packet_times (?ps @ [p]))))"
    using F(1) S False by (simp add: left_out_snoc descents_snoc)
  show ?thesis using F(3,5,6,7) S(2) sp er ta mm unfolding S(7,8)
    by (simp add: scanned_def Let_def good_packets_snoc)
qed

lemma scanned_all:
  assumes "accumulate_all xs (new_accumulator cfg file_ok) = Some acc"
  shows "scanned file_ok xs acc"
  using assms
proof (induction xs arbitrary: acc rule: rev_induct)
  case Nil
  then show ?case using scanned_start [of file_ok cfg] by simp
next
  case (snoc x xs)
  obtain p ok where x: "x = (p, ok)" by (cases x)
  from snoc.prems obtain acc0 where
    "accumulate_all xs (new_accumulator cfg file_ok) = Some acc0" "accumulate p ok acc0 = Some acc"
    by (auto simp: x accumulate_all_snoc split: bind_splits)
  then show ?case using snoc.IH scanned_failed scanned_good by (cases ok) (simp_all add: x)
qed

text \<open>The blocks that end the process: the header gives a sample rate of zero.\<close>

definition zero_rate_block :: "raw_packet \<Rightarrow> bool" where
  "zero_rate_block p \<longleftrightarrow> ph_type (rp_header p) = packet_type_u16 kAudioBlock \<and>
     layout_size audio_block_header \<le> length (rp_payload p) \<and> audio_period (rp_payload p) = None"

lemma accumulate_None_iff: "accumulate p ok acc = None \<longleftrightarrow> ok \<and> zero_rate_block p"
  by (auto simp: accumulate_def Let_def audio_check_def zero_rate_block_def split: prod.splits)

lemma accumulate_all_None_iff: "accumulate_all xs acc = None \<longleftrightarrow> (\<exists>p. (p, True) \<in> set xs \<and> zero_rate_block p)"
proof (induction xs arbitrary: acc)
  case (Cons x xs)
  obtain p ok where x: "x = (p, ok)" by (cases x)
  show ?case
  proof (cases "accumulate p ok acc")
    case None
    then show ?thesis using accumulate_None_iff [of p ok acc] by (auto simp: x)
  next
    case (Some a)
    then have "\<not> (ok \<and> zero_rate_block p)" using accumulate_None_iff [of p ok acc] by simp
    then show ?thesis using Cons [of a] Some by (auto simp: x)
  qed
qed simp

text \<open>C18: for every sequence of packets the statistics are the ones their names promise: all packets, those that
  passed, those that did not; lost are the ones that did not pass and the numbers left out between
  neighbours; monotonic violations are the descents of the time; the span is from the least time to the
  greatest, or zero; errors are at times of packets. The pass has no result exactly if a packet that passed
  is an audio block with a sample rate of zero.\<close>

theorem scan_statistics:
  "case accumulate_all xs (new_accumulator cfg file_ok) of
     None \<Rightarrow> \<exists>p. (p, True) \<in> set xs \<and> zero_rate_block p
   | Some acc \<Rightarrow>
       let ps = good_packets xs; bad = length xs - length ps; sv = sa_sv acc in
       \<not> (\<exists>p. (p, True) \<in> set xs \<and> zero_rate_block p) \<and>
       sv_packets_total sv = of_nat (length xs) \<and> sv_packets_valid sv = of_nat (length ps) \<and>
       sv_packets_crc_failed sv = of_nat bad \<and>
       sv_packets_lost sv = of_nat bad + numbers_left_out (packet_seqs ps) \<and>
       sv_monotonic_violations sv = of_nat (descents (packet_times ps)) \<and>
       (if ps = [] then sv_t_first_ns sv = 0 \<and> sv_t_last_ns sv = 0
        else sint (sv_t_first_ns sv) = Min (sint ` set (packet_times ps)) \<and>
          sint (sv_t_last_ns sv) = Max (insert 0 (sint ` set (packet_times ps)))) \<and>
       set (error_times sv) \<subseteq> set (packet_times ps)"
proof (cases "accumulate_all xs (new_accumulator cfg file_ok)")
  case None
  then show ?thesis using accumulate_all_None_iff [of xs "new_accumulator cfg file_ok"] by simp
next
  case (Some acc)
  then have "\<not> (\<exists>p. (p, True) \<in> set xs \<and> zero_rate_block p)"
    using accumulate_all_None_iff [of xs "new_accumulator cfg file_ok"] by simp
  then show ?thesis using Some scanned_all [OF Some]
    by (auto simp: scanned_def tally_def time_span_def Let_def)
qed

text \<open>So the errors lie within the span, as the ranges need it.\<close>

lemma scanned_errors_inside:
  assumes "accumulate_all xs (new_accumulator cfg file_ok) = Some acc" "t \<in> set (error_times (sa_sv acc))"
  shows "sint (sv_t_first_ns (sa_sv acc)) \<le> sint t \<and> sint t \<le> sint (sv_t_last_ns (sa_sv acc))"
proof -
  let ?ps = "good_packets xs"
  from scanned_all [OF assms(1)] assms(2) have t: "t \<in> set (packet_times ?ps)"
    by (auto simp: scanned_def Let_def)
  then have "?ps \<noteq> []" by auto
  with scanned_all [OF assms(1)] t show ?thesis
    by (auto simp: scanned_def Let_def le_max_iff_disj intro: Max_ge)
qed

section \<open>One pass instead of two\<close>

text \<open>Events both passes report: the validator adds one for a packet that did not pass and one for a time of
  zero.\<close>

definition common_event :: "gap_event \<Rightarrow> bool" where
  "common_event g \<longleftrightarrow> \<not> (ge_gap_type g = Gap_file_truncated \<or>
     (ge_gap_type g = Gap_timestamp \<and> ge_severity g = Sev_error))"

text \<open>The accumulator's statistics and the validator's, where the validator has not yet looked for gaps in
  the numbers: those make the difference of \<open>l\<close> packets and the events \<open>M\<close>.\<close>

definition agree :: "u64 \<Rightarrow> gap_event multiset \<Rightarrow> stream_validation \<Rightarrow> stream_validation \<Rightarrow> bool" where
  "agree l M a v \<longleftrightarrow>
     sv_packets_total a = sv_packets_total v \<and> sv_packets_valid a = sv_packets_valid v \<and>
     sv_packets_lost a = sv_packets_lost v + l \<and>
     sv_timestamp_violations a = sv_timestamp_violations v \<and>
     sv_monotonic_violations a = sv_monotonic_violations v \<and>
     sv_audio_gap_count a = sv_audio_gap_count v \<and> sv_telemetry_gap_count a = sv_telemetry_gap_count v \<and>
     sv_t_first_ns a = sv_t_first_ns v \<and> sv_t_last_ns a = sv_t_last_ns v \<and>
     mset (filter common_event (sv_gap_events a)) = mset (filter common_event (sv_gap_events v)) + M \<and>
     filter (\<lambda>g. \<not> common_event g) (sv_gap_events a) = []"

definition seq_events :: "u32 \<Rightarrow> ns_t \<Rightarrow> u32 \<Rightarrow> ns_t \<Rightarrow> gap_event multiset" where
  "seq_events s0 t0 s1 t1 = mset (sv_gap_events (seq_gap_check ''ego'' s0 t0 s1 t1 new_stream_validation))"

lemma agree_seq_left:
  "agree l M a v \<Longrightarrow>
     agree (l + lost_between s0 s1) (M + seq_events s0 t0 s1 t1) (seq_gap_check ''ego'' s0 t0 s1 t1 a) v"
  by (auto simp: agree_def seq_gap_check_def seq_events_def Let_def add_gap_def lost_between_def
    common_event_def gap_at_def new_stream_validation_def)

lemma agree_seq_right:
  "agree (l + lost_between s0 s1) (M + seq_events s0 t0 s1 t1) a v \<Longrightarrow>
     agree l M a (seq_gap_check ''ego'' s0 t0 s1 t1 v)"
  by (auto simp: agree_def seq_gap_check_def seq_events_def Let_def add_gap_def lost_between_def
    common_event_def gap_at_def new_stream_validation_def)

lemma agree_checks:
  assumes "agree l M a v"
  shows "agree l M (monotonic_check first prev ts a) (monotonic_check first prev ts v)"
    "agree l M (jump_check cfg first prev ts a) (jump_check cfg first prev ts v)"
    "agree l M (span_update first ts a) (span_update first ts v)"
  using assms
  by (auto simp: agree_def monotonic_check_def jump_check_def span_update_def Let_def add_gap_def common_event_def
    gap_at_def split: option.splits)

lemma agree_audio:
  assumes "agree l M a v"
  shows "rel_option (\<lambda>(a', r) (v', r'). agree l M a' v' \<and> r = r')
    (audio_check cfg raw (a, p, n)) (audio_check cfg raw (v, p, n))"
  using assms
  by (cases "audio_period (rp_payload raw)")
    (auto simp: agree_def audio_check_def Let_def add_gap_def common_event_def gap_at_def split: option.splits)

lemma agree_imu:
  assumes "agree l M a v"
  shows "rel_prod (agree l M) (=) (imu_check cfg raw (a, p)) (imu_check cfg raw (v, p))"
  using assms
  by (auto simp: agree_def imu_check_def Let_def add_gap_def common_event_def gap_at_def split: option.splits)

text \<open>What the packets seen so far leave to the search for gaps.\<close>

definition gap_sum :: "(u32 \<times> ns_t) list \<Rightarrow> u64" where
  "gap_sum xs = sum_list (map (\<lambda>((s0, _), (s1, _)). lost_between s0 s1) (neighbours xs))"

definition gap_events_of :: "(u32 \<times> ns_t) list \<Rightarrow> gap_event multiset" where
  "gap_events_of xs = sum_list (map (\<lambda>((s0, t0), (s1, t1)). seq_events s0 t0 s1 t1) (neighbours xs))"

lemma neighbours_Cons: "neighbours (x # y # xs) = (x, y) # neighbours (y # xs)"
  by (simp add: neighbours_def)

lemma agree_check_seq_gaps:
  "agree (gap_sum xs) (gap_events_of xs) a v \<Longrightarrow> agree 0 {#} a (check_seq_gaps xs ''ego'' v)"
proof (induction xs "''ego''" v rule: check_seq_gaps.induct)
  case (1 s0 t0 s1 t1 rest v)
  have "agree (gap_sum ((s1, t1) # rest) + lost_between s0 s1)
      (gap_events_of ((s1, t1) # rest) + seq_events s0 t0 s1 t1) a v"
    using 1(2) by (simp add: gap_sum_def gap_events_of_def neighbours_Cons add.commute)
  then show ?case using 1(1) agree_seq_right by simp
qed (simp_all add: gap_sum_def gap_events_of_def)

text \<open>The two states after the same packets.\<close>

definition passes_agree :: "offline_config \<Rightarrow> scan_accumulator \<Rightarrow> validate_state \<Rightarrow> bool" where
  "passes_agree cfg acc st \<longleftrightarrow>
     agree (gap_sum (vs_seq_ts st)) (gap_events_of (vs_seq_ts st)) (sa_sv acc) (vs_sv st) \<and>
     sa_cfg acc = Some cfg \<and>
     sa_first acc = vs_first st \<and> vs_first st = (vs_seq_ts st = []) \<and>
     sa_prev_ts acc = vs_prev_ts st \<and> sa_prev_audio_ts acc = vs_prev_audio_ts st \<and>
     sa_prev_imu_ts acc = vs_prev_imu_ts st \<and> sa_nominal acc = vs_nominal st \<and>
     (vs_seq_ts st \<noteq> [] \<longrightarrow> last (vs_seq_ts st) = (sa_prev_seq acc, sa_prev_ts acc))"

abbreviation passes :: "raw_packet \<Rightarrow> bool" where
  "passes raw \<equiv> pr_status (validate_raw raw) = Ps_ok"

lemma gap_snoc:
  "gap_sum (xs @ [(s, t)]) = gap_sum xs + (if xs = [] then 0 else lost_between (fst (last xs)) s)"
  "gap_events_of (xs @ [(s, t)]) =
     gap_events_of xs + (if xs = [] then {#} else seq_events (fst (last xs)) (snd (last xs)) s t)"
  by (cases "last xs"; simp add: gap_sum_def gap_events_of_def neighbours_snoc)+

lemma agree_counters:
  assumes "agree l M a v"
  shows "agree l M (a\<lparr>sv_packets_total := sv_packets_total a + 1\<rparr>) (v\<lparr>sv_packets_total := sv_packets_total v + 1\<rparr>)"
    "agree l M (a\<lparr>sv_packets_valid := sv_packets_valid a + 1\<rparr>) (v\<lparr>sv_packets_valid := sv_packets_valid v + 1\<rparr>)"
    "agree l M (a\<lparr>sv_packets_crc_failed := sv_packets_crc_failed a + 1, sv_packets_lost := sv_packets_lost a + 1\<rparr>)
       (reject_packet raw status v)"
    "agree l M (if ts = 0 then a\<lparr>sv_timestamp_violations := sv_timestamp_violations a + 1\<rparr> else a)
       (zero_time_check ts v)"
  using assms by (auto simp: agree_def reject_packet_def zero_time_check_def Let_def add_gap_def common_event_def gap_at_def)

lemma passes_agree_start: "passes_agree cfg (new_accumulator (Some cfg) True) new_validate_state"
  by (simp add: passes_agree_def agree_def new_accumulator_def new_validate_state_def new_stream_validation_def
    gap_sum_def gap_events_of_def)

lemma agree_accumulate_checks:
  fixes raw
  assumes "passes_agree cfg acc st" and "agree (gap_sum (vs_seq_ts st)) (gap_events_of (vs_seq_ts st)) a v"
  defines "ts \<equiv> ph_ts_ns (rp_header raw)" and "xs \<equiv> vs_seq_ts st @ [(ph_seq (rp_header raw), ph_ts_ns (rp_header raw))]"
  shows "agree (gap_sum xs) (gap_events_of xs) (accumulate_checks raw acc a)
    (span_update (vs_first st) ts (jump_check (Some cfg) (vs_first st) (vs_prev_ts st) ts
      (monotonic_check (vs_first st) (vs_prev_ts st) ts (zero_time_check ts v))))"
proof -
  let ?a = "if sa_first acc then a
    else seq_gap_check ''ego'' (sa_prev_seq acc) (sa_prev_ts acc) (ph_seq (rp_header raw)) ts a"
  have "agree (gap_sum xs) (gap_events_of xs) ?a v"
    using assms(1,2) agree_seq_left by (auto simp: passes_agree_def xs_def gap_snoc ts_def)
  note C = agree_checks(3) [OF agree_checks(2) [OF agree_checks(1) [OF agree_counters(4) [OF this]]]]
  have eqs: "sa_first acc = vs_first st" "sa_cfg acc = Some cfg" "sa_prev_ts acc = vs_prev_ts st"
    using assms(1) by (simp_all add: passes_agree_def)
  show ?thesis unfolding accumulate_checks_def Let_def eqs ts_def by (rule C [unfolded eqs ts_def])
qed

lemma passes_agree_step:
  assumes "passes_agree cfg acc st"
  shows "rel_option (passes_agree cfg) (accumulate raw (passes raw) acc) (validate_packet_step cfg raw st)"
proof -
  from assms have ag: "agree (gap_sum (vs_seq_ts st)) (gap_events_of (vs_seq_ts st)) (sa_sv acc) (vs_sv st)"
    by (simp add: passes_agree_def)
  show ?thesis
  proof (cases "passes raw")
    case False
    then show ?thesis using assms agree_counters(3) [OF agree_counters(1) [OF ag]]
      by (auto simp: accumulate_def validate_packet_step_def Let_def passes_agree_def)
  next
    case True
    let ?ts = "ph_ts_ns (rp_header raw)" and ?xs = "vs_seq_ts st @ [(ph_seq (rp_header raw), ph_ts_ns (rp_header raw))]"
    define a where "a = (sa_sv acc)\<lparr>sv_packets_total := sv_packets_total (sa_sv acc) + 1,
      sv_packets_valid := sv_packets_valid (sa_sv acc) + 1\<rparr>"
    define v where "v = (vs_sv st)\<lparr>sv_packets_total := sv_packets_total (vs_sv st) + 1,
      sv_packets_valid := sv_packets_valid (vs_sv st) + 1\<rparr>"
    let ?v = "span_update (vs_first st) ?ts (jump_check (Some cfg) (vs_first st) (vs_prev_ts st) ?ts
      (monotonic_check (vs_first st) (vs_prev_ts st) ?ts (zero_time_check ?ts v)))"
    have "agree (gap_sum ?xs) (gap_events_of ?xs) (accumulate_checks raw acc a) ?v"
      using agree_counters(2) [OF agree_counters(1) [OF ag]] by (intro agree_accumulate_checks assms) (simp add: a_def v_def)
    note au = agree_audio [OF this, of "Some cfg" raw "vs_prev_audio_ts st" "vs_nominal st"]
    have F: "accumulate raw True acc = map_option (\<lambda>(sv7, audio_ts, nominal).
        case imu_check (sa_cfg acc) raw (sv7, sa_prev_imu_ts acc) of (sv8, imu_ts) \<Rightarrow>
          \<lparr>sa_sv = sv8, sa_first = False, sa_prev_ts = ?ts, sa_prev_audio_ts = audio_ts, sa_prev_imu_ts = imu_ts,
           sa_nominal = nominal, sa_prev_seq = ph_seq (rp_header raw), sa_cfg = sa_cfg acc\<rparr>)
        (audio_check (sa_cfg acc) raw (accumulate_checks raw acc a, sa_prev_audio_ts acc, sa_nominal acc))"
      by (simp add: accumulate_def Let_def a_def)
    have V: "validate_packet_step cfg raw st = map_option (\<lambda>(sv6, audio_ts, nominal).
        case imu_check (Some cfg) raw (sv6, vs_prev_imu_ts st) of (sv7, imu_ts) \<Rightarrow>
          \<lparr>vs_sv = sv7, vs_first = False, vs_prev_ts = ?ts, vs_prev_audio_ts = audio_ts, vs_nominal = nominal,
           vs_prev_imu_ts = imu_ts, vs_seq_ts = ?xs\<rparr>)
        (audio_check (Some cfg) raw (?v, vs_prev_audio_ts st, vs_nominal st))"
      using True by (simp add: validate_packet_step_def Let_def v_def)
    have eqs: "sa_cfg acc = Some cfg" "sa_prev_audio_ts acc = vs_prev_audio_ts st"
      "sa_prev_imu_ts acc = vs_prev_imu_ts st" "sa_nominal acc = vs_nominal st"
      using assms by (simp_all add: passes_agree_def)
    have "passes_agree cfg (case imu_check (Some cfg) raw (a', vs_prev_imu_ts st) of (sv8, imu_ts) \<Rightarrow>
          \<lparr>sa_sv = sv8, sa_first = False, sa_prev_ts = ?ts, sa_prev_audio_ts = t, sa_prev_imu_ts = imu_ts,
           sa_nominal = n, sa_prev_seq = ph_seq (rp_header raw), sa_cfg = Some cfg\<rparr>)
        (case imu_check (Some cfg) raw (v', vs_prev_imu_ts st) of (sv7, imu_ts) \<Rightarrow>
          \<lparr>vs_sv = sv7, vs_first = False, vs_prev_ts = ?ts, vs_prev_audio_ts = t, vs_nominal = n,
           vs_prev_imu_ts = imu_ts, vs_seq_ts = ?xs\<rparr>)"
      if "agree (gap_sum ?xs) (gap_events_of ?xs) a' v'" for a' v' t n
      using agree_imu [OF that, of "Some cfg" raw "vs_prev_imu_ts st"]
      by (auto simp: passes_agree_def split: prod.splits)
    then show ?thesis
      by (simp add: True F V eqs option.rel_map) (rule option.rel_mono_strong [OF au], auto)
  qed
qed

text \<open>A whole pass of each.\<close>

lemma passes_agree_fold:
  assumes "rel_option (passes_agree cfg) x y"
  shows "rel_option (passes_agree cfg)
    (fold (\<lambda>raw s. Option.bind s (accumulate raw (passes raw))) ps x)
    (fold (\<lambda>raw s. Option.bind s (validate_packet_step cfg raw)) ps y)"
  using assms
proof (induction ps arbitrary: x y)
  case (Cons p ps)
  have "rel_option (passes_agree cfg) (Option.bind x (accumulate p (passes p))) (Option.bind y (validate_packet_step cfg p))"
    using Cons.prems passes_agree_step by (cases x; cases y) auto
  from Cons.IH [OF this] show ?case by simp
qed simp



end
