(* ===== verification/Handover.thy ===== *)
theory Handover
  imports LogReaders Recording
begin

text \<open>
  The hand-over of a session from the recorder to the offline pipeline: the pipeline's readers on the
  directory the recorder leaves. The manifest and the metadata are read back as they were meant, and
  a scan delivers the recorded frames.
\<close>

section \<open>The manifest's values\<close>

definition chunk_json :: "nat \<Rightarrow> chunk_info \<Rightarrow> json" where
  "chunk_json i c = JObject
     [(''chunk_id'', JInt (of_nat i)), (''file'', JString (ci_filename c)), (''bytes'', JInt (ci_bytes c)),
      (''first_ts_ns'', JInt (ci_first_ts_ns c)), (''last_ts_ns'', JInt (ci_last_ts_ns c)),
      (''packet_count'', JInt (ucast (ci_packet_count c)))]"

text \<open>Numbers that \<open>std::stoll\<close> accepts.\<close>

definition readable_chunk :: "nat \<Rightarrow> chunk_info \<Rightarrow> bool" where
  "readable_chunk i c \<longleftrightarrow> i < 2 ^ 63 \<and> unat (ci_bytes c) < 2 ^ 63 \<and> unat (ci_first_ts_ns c) < 2 ^ 63 \<and>
     unat (ci_last_ts_ns c) < 2 ^ 63 \<and> unat (ci_packet_count c) < 2 ^ 63"

section \<open>Lines of the recorder's JSON files\<close>

lemma value_text_quoted: "value_text (qt (json_escape s)) (JString s)"
  using value_text_string [of s] by (simp add: qt_def)

lemma value_text_plain: "list_all json_plain s \<Longrightarrow> value_text (qt s) (JString s)"
  using value_text_quoted [of s] by (simp add: json_escape_plain)

lemma reads_members_ws:
  assumes "reads_members obj s v r" and "s \<noteq> []" and "t \<noteq> []" and "skip_ws t = skip_ws s"
  shows "reads_members obj t v r"
proof -
  obtain n where n: "parse_members n obj s = Inr (v, r)" using assms(1) by (auto simp: reads_members_def)
  then obtain m where "n = Suc m" by (cases n) (auto simp: parse_members.simps)
  with n assms(2-4) have "parse_members n obj t = Inr (v, r)" by (simp add: parse_members.simps)
  then show ?thesis by (auto simp: reads_members_def)
qed

lemma reads_elements_ws:
  assumes "reads_elements arr s v r" and "s \<noteq> []" and "t \<noteq> []" and "skip_ws t = skip_ws s"
  shows "reads_elements arr t v r"
proof -
  obtain n where n: "parse_elements n arr s = Inr (v, r)" using assms(1) by (auto simp: reads_elements_def)
  then obtain m where "n = Suc m" by (cases n) (auto simp: parse_elements.simps)
  with n assms(2-4) have "parse_elements n arr t = Inr (v, r)" by (simp add: parse_elements.simps)
  then show ?thesis by (auto simp: reads_elements_def)
qed

lemma line_next:
  assumes "s \<noteq> []" and "list_all json_plain key" and "value_text val w" and "reads_members (AList.update key w obj) s v r"
  shows "reads_members obj (json_line key val True @ s) v r"
  unfolding json_line_def qt_def
proof (rule reads_member_next)
  show "skip_ws ((''  '' @ ([CHR 0x22] @ key @ [CHR 0x22]) @ '': '' @ val @ (if True then '','' else []) @ [CHR 0x0A]) @ s)
      = CHR 0x22 # key @ CHR 0x22 # CHR '':'' # CHR '' '' # val @ CHR '','' # CHR 0x0A # s"
    by (simp add: skip_ws_stop)
  show "parse_chars (key @ CHR 0x22 # CHR '':'' # CHR '' '' # val @ CHR '','' # CHR 0x0A # s) []
      = Inr (key, CHR '':'' # CHR '' '' # val @ CHR '','' # CHR 0x0A # s)"
    using parse_chars_plain [OF assms(2), where out = "[]"] by simp
  show "reads (CHR '' '' # val @ CHR '','' # CHR 0x0A # s) w (CHR '','' # CHR 0x0A # s)"
    using assms(3) by (simp add: value_text_def)
  show "reads_members (AList.update key w obj) (CHR 0x0A # s) v r"
    using assms(4,1) by (rule reads_members_ws) simp_all
qed (simp_all add: skip_ws_stop)

lemma line_last:
  assumes "list_all json_plain key" and "value_text val w" and "skip_ws s = CHR ''}'' # r"
  shows "reads_members obj (json_line key val False @ s) (JObject (AList.update key w obj)) r"
  unfolding json_line_def qt_def
proof (rule reads_member_last)
  show "skip_ws ((''  '' @ ([CHR 0x22] @ key @ [CHR 0x22]) @ '': '' @ val @ (if False then '','' else []) @ [CHR 0x0A]) @ s)
      = CHR 0x22 # key @ CHR 0x22 # CHR '':'' # CHR '' '' # val @ CHR 0x0A # s"
    by (simp add: skip_ws_stop)
  show "parse_chars (key @ CHR 0x22 # CHR '':'' # CHR '' '' # val @ CHR 0x0A # s) []
      = Inr (key, CHR '':'' # CHR '' '' # val @ CHR 0x0A # s)"
    using parse_chars_plain [OF assms(1), where out = "[]"] by simp
  show "reads (CHR '' '' # val @ CHR 0x0A # s) w (CHR 0x0A # s)"
    using assms(2) by (simp add: value_text_def)
qed (simp_all add: skip_ws_stop assms(3))


text \<open>The lines of an object, with some indentation.\<close>

fun object_lines :: "string \<Rightarrow> (string \<times> string) list \<Rightarrow> string" where
  "object_lines ind [] = []"
| "object_lines ind [(k, v)] = ind @ json_line k v False"
| "object_lines ind ((k, v) # kvs) = ind @ json_line k v True @ object_lines ind kvs"

definition lines_values :: "(string \<times> string) list \<Rightarrow> (string \<times> json) list \<Rightarrow> bool" where
  "lines_values kvs ws \<longleftrightarrow> list_all2 (\<lambda>(k, val) (l, w). k = l \<and> list_all json_plain k \<and> value_text val w) kvs ws"

lemma lines_values_simps [simp]:
  "lines_values [] []"
  "lines_values ((k, val) # kvs) ((l, w) # ws) \<longleftrightarrow>
     k = l \<and> list_all json_plain k \<and> value_text val w \<and> lines_values kvs ws"
  by (auto simp: lines_values_def)

lemma json_line_nonempty [simp]: "json_line k v c \<noteq> []"
  by (simp add: json_line_def)

lemma object_lines_nonempty [simp]: "object_lines ind kvs = [] \<longleftrightarrow> kvs = []"
  by (cases "(ind, kvs)" rule: object_lines.cases) auto

lemma skip_ws_blanks: "set ind \<subseteq> {CHR '' ''} \<Longrightarrow> skip_ws (ind @ s) = skip_ws s"
  by (induction ind) auto

lemma reads_lines:
  assumes "lines_values kvs ws" and "kvs \<noteq> []" and "set ind \<subseteq> {CHR '' ''}" and "skip_ws s = CHR ''}'' # r"
  shows "reads_members obj (object_lines ind kvs @ s) (JObject (fold (\<lambda>(k, w). AList.update k w) ws obj)) r"
proof -
  have indent: "reads_members obj (ind @ t) v r" if "reads_members obj t v r" "t \<noteq> []" for obj t v
    using that by (intro reads_members_ws [OF that(1)]) (simp_all add: skip_ws_blanks [OF assms(3)])
  show ?thesis
    using assms(1,2)
  proof (induction kvs arbitrary: ws obj)
    case Nil
    then show ?case by simp
  next
    case (Cons kv kvs)
    obtain k v where kv: "kv = (k, v)" by force
    with Cons.prems obtain w ws' where ws: "ws = (k, w) # ws'" "list_all json_plain k" "value_text v w"
      "lines_values kvs ws'" by (auto simp: lines_values_def list_all2_Cons1)
    show ?case
    proof (cases kvs)
      case Nil
      have "ws' = []" using ws(4) Nil by (simp add: lines_values_def)
      then show ?thesis
        using indent [OF line_last [OF ws(2,3) assms(4), of obj]] by (simp add: kv Nil ws(1))
    next
      case c: (Cons kv' kvs')
      obtain k' v' where kv': "kv' = (k', v')" by force
      have "reads_members (AList.update k w obj) (object_lines ind kvs @ s)
          (JObject (fold (\<lambda>(k, w). AList.update k w) ws' (AList.update k w obj))) r"
        using Cons.IH ws(4) c by simp
      from indent [OF line_next [OF _ ws(2,3) this]] show ?thesis
        using c by (simp add: kv kv' ws(1))
    qed
  qed
qed

lemma object_lines_front:
  assumes "kvs \<noteq> []" and "set ind \<subseteq> {CHR '' ''}"
  shows "\<exists>t. skip_ws (object_lines ind kvs @ s) = CHR 0x22 # t"
proof -
  have "\<exists>t. skip_ws (ind @ json_line k v c @ s) = CHR 0x22 # t" for k v c s
    using assms(2) by (simp add: skip_ws_blanks json_line_def qt_def skip_ws_stop)
  then show ?thesis
    using assms(1) by (cases "(ind, kvs)" rule: object_lines.cases) simp_all
qed

lemma reads_object_lines:
  assumes "skip_ws s = CHR ''{'' # CHR 0x0A # object_lines ind kvs @ t" and "lines_values kvs ws"
    and "kvs \<noteq> []" and "set ind \<subseteq> {CHR '' ''}" and "skip_ws t = CHR ''}'' # r"
  shows "reads s (JObject (fold (\<lambda>(k, w). AList.update k w) ws [])) r"
proof (rule reads_object [OF assms(1)])
  obtain u where u: "skip_ws (object_lines ind kvs @ t) = CHR 0x22 # u"
    using object_lines_front [OF assms(3,4)] by blast
  then show "peek (skip_ws (CHR 0x0A # object_lines ind kvs @ t)) \<noteq> CHR ''}''" by (simp add: peek_def)
  show "reads_members [] (skip_ws (CHR 0x0A # object_lines ind kvs @ t))
      (JObject (fold (\<lambda>(k, w). AList.update k w) ws [])) r"
    by (rule reads_members_ws [OF reads_lines [OF assms(2-5)]]) (simp_all add: u assms(3), simp add: u [symmetric])
qed

section \<open>Reading the manifest\<close>

definition manifest_lines :: "nat \<Rightarrow> chunk_info \<Rightarrow> (string \<times> string) list" where
  "manifest_lines i c =
     [(''chunk_id'', dec i), (''file'', qt (json_escape (ci_filename c))), (''bytes'', dec (unat (ci_bytes c))),
      (''first_ts_ns'', dec (unat (ci_first_ts_ns c))), (''last_ts_ns'', dec (unat (ci_last_ts_ns c))),
      (''packet_count'', dec (unat (ci_packet_count c)))]"

lemma manifest_chunk_lines:
  "manifest_chunk i c comma = ''    {'' @ [CHR 0x0A] @ object_lines ''    '' (manifest_lines i c) @
     ''    }'' @ (if comma then '','' else []) @ [CHR 0x0A]"
  by (simp add: manifest_lines_def manifest_chunk_def json_line_def qt_def quoted_def nl_def)

lemma reads_manifest_chunk:
  assumes "readable_chunk i c"
  shows "reads (manifest_chunk i c comma @ r) (chunk_json i c) ((if comma then '','' else []) @ [CHR 0x0A] @ r)"
proof -
  let ?ws = "[(''chunk_id'', JInt (of_nat i)), (''file'', JString (ci_filename c)), (''bytes'', JInt (ci_bytes c)),
       (''first_ts_ns'', JInt (ci_first_ts_ns c)), (''last_ts_ns'', JInt (ci_last_ts_ns c)),
       (''packet_count'', JInt (ucast (ci_packet_count c)))]"
  have "lines_values (manifest_lines i c) ?ws"
    using assms value_text_dec [of i] value_text_word [of "ci_bytes c"]
      value_text_word [of "ci_first_ts_ns c"] value_text_word [of "ci_last_ts_ns c"]
      value_text_word [of "ci_packet_count c"]
    by (simp add: manifest_lines_def readable_chunk_def json_plain_def value_text_quoted)
  from reads_object_lines [OF _ this, of "manifest_chunk i c comma @ r" "''    ''"
      "''    }'' @ (if comma then '','' else []) @ [CHR 0x0A] @ r"]
  show ?thesis
    by (simp add: manifest_chunk_lines chunk_json_def manifest_lines_def skip_ws_stop)
qed

fun chunks_json :: "nat \<Rightarrow> chunk_info list \<Rightarrow> json list" where
  "chunks_json i [] = []"
| "chunks_json i (c # cs) = chunk_json i c # chunks_json (Suc i) cs"

fun readable_chunks :: "nat \<Rightarrow> chunk_info list \<Rightarrow> bool" where
  "readable_chunks i [] \<longleftrightarrow> True"
| "readable_chunks i (c # cs) \<longleftrightarrow> readable_chunk i c \<and> readable_chunks (Suc i) cs"

lemma manifest_chunks_nonempty [simp]: "manifest_chunks i cs = [] \<longleftrightarrow> cs = []"
  by (cases cs) (simp_all add: manifest_chunk_def)

lemma manifest_chunks_front: "cs \<noteq> [] \<Longrightarrow> \<exists>t. manifest_chunks i cs = ''    {'' @ t"
  by (cases cs) (simp_all add: manifest_chunk_def)

lemma manifest_chunk_nonempty [simp]: "manifest_chunk i c b \<noteq> []"
  by (simp add: manifest_chunk_def)

lemma reads_manifest_chunks:
  assumes "readable_chunks i cs" and "cs \<noteq> []" and "skip_ws s = CHR '']'' # r"
  shows "reads_elements arr (manifest_chunks i cs @ s) (JArray (arr @ chunks_json i cs)) r"
  using assms(1,2)
proof (induction i cs arbitrary: arr rule: readable_chunks.induct)
  case (2 i c cs)
  show ?case
  proof (cases cs)
    case Nil
    have "reads_elements arr (manifest_chunk i c False @ s) (JArray (arr @ [chunk_json i c])) r"
      using reads_manifest_chunk [of i c False s] 2 assms(3)
      by (intro reads_element_last [where ?s1.0 = "[CHR 0x0A] @ s"]) simp_all
    then show ?thesis by (simp add: Nil)
  next
    case (Cons c' cs')
    have e: "reads_elements (arr @ [chunk_json i c]) (manifest_chunks (Suc i) cs @ s)
        (JArray ((arr @ [chunk_json i c]) @ chunks_json (Suc i) cs)) r"
      using "2.IH" "2.prems" Cons by (simp del: append_assoc)
    have "reads_elements arr (manifest_chunk i c True @ manifest_chunks (Suc i) cs @ s)
        (JArray (arr @ chunks_json i (c # cs))) r"
    proof (rule reads_element_next)
      show "reads (manifest_chunk i c True @ manifest_chunks (Suc i) cs @ s) (chunk_json i c)
          ('','' @ [CHR 0x0A] @ manifest_chunks (Suc i) cs @ s)"
        using reads_manifest_chunk [of i c True "manifest_chunks (Suc i) cs @ s"] 2 by simp
      show "reads_elements (arr @ [chunk_json i c]) (CHR 0x0A # manifest_chunks (Suc i) cs @ s)
          (JArray (arr @ chunks_json i (c # cs))) r"
      proof (rule reads_elements_ws)
        show "reads_elements (arr @ [chunk_json i c]) (manifest_chunks (Suc i) cs @ s)
            (JArray (arr @ chunks_json i (c # cs))) r" using e by (simp only: chunks_json.simps append.simps append_assoc)
      qed (simp_all add: Cons)
    qed (simp_all add: skip_ws_stop)
    then show ?thesis using Cons by simp
  qed
qed simp

lemma reads_manifest:
  assumes "readable_chunks 0 cs" and "cs \<noteq> []"
  shows "reads (manifest_text cs) (JObject [(''chunks'', JArray (chunks_json 0 cs))]) [CHR 0x0A]"
proof -
  let ?s = "''  ]'' @ [CHR 0x0A] @ ''}'' @ [CHR 0x0A]"
  have el: "reads_elements [] (manifest_chunks 0 cs @ ?s) (JArray (chunks_json 0 cs)) (CHR 0x0A # ''}'' @ [CHR 0x0A])"
    using reads_manifest_chunks [OF assms, of ?s "CHR 0x0A # ''}'' @ [CHR 0x0A]" "[]"] by (simp add: skip_ws_stop)
  obtain t where t: "manifest_chunks 0 cs = ''    {'' @ t"
    using manifest_chunks_front [OF assms(2)] by blast
  have "reads (CHR '' '' # CHR ''['' # CHR 0x0A # manifest_chunks 0 cs @ ?s) (JArray (chunks_json 0 cs))
      (CHR 0x0A # ''}'' @ [CHR 0x0A])"
  proof (rule reads_array)
    show "reads_elements [] (skip_ws (CHR 0x0A # manifest_chunks 0 cs @ ?s)) (JArray (chunks_json 0 cs))
        (CHR 0x0A # ''}'' @ [CHR 0x0A])"
      using el by (rule reads_elements_ws) (simp_all add: t skip_ws_stop)
  qed (simp_all add: skip_ws_stop t peek_def)
  note chunks_read = this
  have "reads_members [] (CHR 0x22 # ''chunks'' @ CHR 0x22 # CHR '':'' # CHR '' '' # CHR ''['' #
      CHR 0x0A # manifest_chunks 0 cs @ ?s) (JObject (AList.update ''chunks'' (JArray (chunks_json 0 cs)) [])) [CHR 0x0A]"
  proof (rule reads_member_last [OF _ _ _ chunks_read])
    show "parse_chars (''chunks'' @ CHR 0x22 # CHR '':'' # CHR '' '' # CHR ''['' # CHR 0x0A # manifest_chunks 0 cs @ ?s) []
        = Inr (''chunks'', CHR '':'' # CHR '' '' # CHR ''['' # CHR 0x0A # manifest_chunks 0 cs @ ?s)"
      by (subst parse_chars_plain) (simp_all add: json_plain_def)
  qed (simp_all add: skip_ws_stop)
  then show ?thesis
    unfolding manifest_text_def nl_def quoted_def
    by - (rule reads_object, simp add: skip_ws_stop, simp_all add: skip_ws_stop peek_def)
qed

section \<open>Loading the manifest\<close>

lemma value_simps:
  "value_string (JObject obj) k def = (case map_of obj k of None \<Rightarrow> def | Some v \<Rightarrow> get_string def v)"
  "value_int64 (JObject obj) k n = (case map_of obj k of None \<Rightarrow> n | Some v \<Rightarrow> get_int n v)"
  "value_int (JObject obj) k i = (case map_of obj k of None \<Rightarrow> i | Some v \<Rightarrow> ucast (get_int (scast i) v))"
  "value_double (JObject obj) k x = (case map_of obj k of None \<Rightarrow> x | Some v \<Rightarrow> get_double x v)"
  by (simp_all add: value_string_def value_int64_def value_int_def value_double_def json_contains_def
      json_at_def members_def split: option.split)

definition handed_chunk :: "nat \<Rightarrow> chunk_info \<Rightarrow> chunk_ref" where
  "handed_chunk i c = \<lparr>cr_path = ci_filename c, cr_first_ts_ns = ci_first_ts_ns c,
     cr_last_ts_ns = ci_last_ts_ns c, cr_packet_count = ucast (ci_packet_count c), cr_chunk_id = of_nat i\<rparr>"

fun handed_chunks :: "nat \<Rightarrow> chunk_info list \<Rightarrow> chunk_ref list" where
  "handed_chunks i [] = []"
| "handed_chunks i (c # cs) = handed_chunk i c # handed_chunks (Suc i) cs"

lemma chunk_of_chunk_json:
  "ci_filename c \<noteq> [] \<Longrightarrow> i < 2 ^ 32 \<Longrightarrow> chunk_of_json fb (chunk_json i c) = handed_chunk i c"
proof -
  assume "ci_filename c \<noteq> []" "i < 2 ^ 32"
  moreover have "(ucast (of_nat i :: u64) :: u32) = of_nat i"
    using \<open>i < 2 ^ 32\<close> by (simp add: unsigned_of_nat take_bit_nat_eq_self)
  ultimately show ?thesis
    by (simp add: chunk_of_json_def chunk_json_def handed_chunk_def value_simps get_string_def get_int_def)
qed

lemma handed_chunks_upt:
  "handed_chunks k (map f [k..<n]) = map (\<lambda>i. handed_chunk i (f i)) [k..<n]"
  by (induction "n - k" arbitrary: k) (simp_all add: upt_rec)

lemma readable_chunks_upt:
  "(\<And>i. i < n \<Longrightarrow> readable_chunk i (f i)) \<Longrightarrow> readable_chunks k (map f [k..<n])"
  by (induction "n - k" arbitrary: k) (simp_all add: upt_rec)

lemma chunks_of_json:
  "(\<And>c. c \<in> set cs \<Longrightarrow> ci_filename c \<noteq> []) \<Longrightarrow> k + length cs \<le> 2 ^ 32 \<Longrightarrow>
     map (chunk_of_json fb) (chunks_json k cs) = handed_chunks k cs"
  by (induction k cs rule: chunks_json.induct) (simp_all add: chunk_of_chunk_json)

lemma manifest_loads:
  assumes "fget d ''ego_manifest.json'' = Some (text_bytes (manifest_text (map f [0..<Suc n])))"
    and "\<And>i. i \<le> n \<Longrightarrow> readable_chunk i (f i)" and "\<And>i. i \<le> n \<Longrightarrow> ci_filename (f i) \<noteq> []" and "n < 2 ^ 32"
  shows "ego_manifest_from_json d ''ego_manifest.json'' =
    Inr \<lparr>lm_session_id = [], lm_first_ts_ns = 0, lm_last_ts_ns = 0, lm_packet_count = 0,
      lm_chunks = map (\<lambda>i. handed_chunk i (f i)) [0..<Suc n]\<rparr>"
proof -
  let ?cs = "map f [0..<Suc n]"
  have "readable_chunks 0 ?cs" using assms(2) by (intro readable_chunks_upt) simp
  then have "json_parse (manifest_text ?cs) = Inr (JObject [(''chunks'', JArray (chunks_json 0 ?cs))])"
    by (intro json_parse_reads [OF reads_manifest]) simp_all
  moreover have "map (chunk_of_json []) (chunks_json 0 ?cs) = map (\<lambda>i. handed_chunk i (f i)) [0..<Suc n]"
    using assms(3,4) by (subst chunks_of_json) (auto simp: handed_chunks_upt simp del: upt_Suc)
  ultimately show ?thesis
    using assms(1)
    by (simp add: ego_manifest_from_json_def json_load_def manifest_of_json_def value_simps
        json_contains_def json_at_def members_def elements_def del: upt_Suc)
qed

section \<open>Scanning the recorded chunks\<close>

definition sized_frame :: "bytes \<Rightarrow> bool" where
  "sized_frame f \<longleftrightarrow> eh_magic (header_of_bytes f) = kContractMagic \<and>
     length f = 72 + unat (eh_payload_size (header_of_bytes f))"

definition packet_frame :: "raw_packet \<Rightarrow> bytes" where
  "packet_frame p = header_bytes (rp_contract_header p) @ rp_payload p"

lemma valid_frame_sized: "valid_frame mx f \<Longrightarrow> sized_frame f"
  using valid_frameD [of f mx] by (simp add: sized_frame_def kContractMagic_def EGO_FRAME_MAGIC_def)

lemma contract_packets_frames:
  "\<forall>f\<in>set fs. sized_frame f \<Longrightarrow>
     map packet_frame (contract_packets c off (concat fs)) = fs \<and>
     (\<forall>p\<in>set (contract_packets c off (concat fs)). rp_is_contract p)"
proof (induction fs arbitrary: off)
  case Nil
  then show ?case by (simp add: contract_packets.simps Let_def)
next
  case (Cons f fs)
  let ?bs = "f @ concat fs" and ?h = "header_of_bytes f"
  have f: "72 \<le> length f" "eh_magic ?h = kContractMagic" "length f = 72 + unat (eh_payload_size ?h)"
    using Cons.prems by (simp_all add: sized_frame_def)
  have h: "header_of_bytes ?bs = ?h" using f(1) by (simp add: header_of_bytes_append)
  have step: "contract_packets c off ?bs = contract_packet c off ?bs #
      contract_packets c (off + 72 + of_nat (unat (eh_payload_size ?h))) (concat fs)"
    using f by (subst contract_packets.simps) (simp add: h Let_def)
  have "packet_frame (contract_packet c off ?bs) = f"
  proof -
    have "slice 72 (unat (eh_payload_size ?h)) ?bs = drop 72 f" using f by (simp add: slice_def)
    then show ?thesis
      using f(1) by (simp add: packet_frame_def contract_packet_def h Let_def header_bytes_of_bytes)
  qed
  moreover have "rp_is_contract (contract_packet c off ?bs)" by (simp add: contract_packet_def Let_def)
  ultimately show ?case using Cons step by simp
qed

lemma detect_frames:
  assumes "\<forall>f\<in>set fs. sized_frame f"
  shows "detect_format (Some (concat fs)) = (if fs = [] then Fmt_unknown else Fmt_contract)"
proof (cases fs)
  case Nil
  then show ?thesis
    by (simp add: detect_format_def rd_def slice_def kContractMagic_def kMagic_def)
next
  case (Cons f fs')
  then have f: "72 \<le> length f" "eh_magic (header_of_bytes f) = kContractMagic"
    using assms by (simp_all add: sized_frame_def)
  have "rd 0 4 (concat fs) = eh_magic (header_of_bytes f)"
    using f(1) Cons by (simp add: header_of_bytes_def rd_append)
  then show ?thesis using f(2) Cons by (simp add: detect_format_def)
qed

lemma legacy_packets_empty [simp]: "legacy_packets c off [] = []"
  by (simp add: legacy_packets.simps Let_def)

lemma chunk_packets_frames:
  assumes "fget d (cr_path c) = Some (concat fs)" and "\<forall>f\<in>set fs. sized_frame f"
    and "fmt = Fmt_unknown \<or> fmt = Fmt_contract"
  shows "map packet_frame (chunk_packets fmt d c) = fs \<and> (\<forall>p\<in>set (chunk_packets fmt d c). rp_is_contract p)"
  using contract_packets_frames [OF assms(2)] assms(3)
  by (auto simp: chunk_packets_def assms(1) detect_frames [OF assms(2)])

lemma recorded_session_packets:
  assumes fair: "fair_recording e0 xs ec d0" and rec: "record_session e0 now cfg xs ec d0 = (lg, (w, d))"
    and frames: "\<forall>x\<in>set xs. sized_frame (snd x) \<and> unat (eh_t0_ns (header_of_bytes (snd x))) < 2 ^ 63 \<and>
      unat (eh_t1_ns (header_of_bytes (snd x))) < 2 ^ 63"
    and small: "length (concat (map snd xs)) < 2 ^ 63"
  shows "\<exists>m. ego_manifest_from_json d ''ego_manifest.json'' = Inr m \<and>
    map packet_frame (session_packets d (new_ego_reader d m)) = map snd xs \<and>
    (\<forall>p\<in>set (session_packets d (new_ego_reader d m)). rp_is_contract p)"
proof (rule recorded [OF fair rec])
  fix n
  assume r: "log_frames lg = map snd xs"
    "\<forall>i\<le>n. fget d (chunk_name i) = Some (concat (chunk_frames i lg))"
    "\<forall>x\<in>set lg. fst x \<le> n" "sorted (map fst lg)"
    "fget d ''ego_manifest.json'' = Some (text_bytes (manifest_text (map (\<lambda>i. summary i lg) [0..<Suc n])))"
    "n \<le> length xs"
  have len: "length xs < 2 ^ 32" using fair by (simp add: fair_recording_def)
  have len_log: "length lg = length xs"
    using arg_cong [OF r(1), of length] by (simp add: log_frames_def)
  have mem: "f \<in> snd ` set xs" if "f \<in> set (chunk_frames i lg)" for f i
  proof -
    have "f \<in> set (log_frames lg)" using that by (auto simp: chunk_frames_def log_frames_def)
    then show ?thesis by (simp add: r(1))
  qed
  have sized: "\<forall>f\<in>set (chunk_frames i lg). sized_frame f" for i using mem frames by fastforce
  have times: "unat (eh_t0_ns (header_of_bytes f)) < 2 ^ 63" "unat (eh_t1_ns (header_of_bytes f)) < 2 ^ 63"
    if "f \<in> set (chunk_frames i lg)" for f i using mem [OF that] frames by fastforce+
  have readable: "readable_chunk i (summary i lg)" if "i \<le> n" for i
  proof -
    let ?fs = "chunk_frames i lg"
    have b: "length (concat ?fs) < 2 ^ 63" "length ?fs < 2 ^ 32"
      using length_chunk_bytes [of i lg] length_chunk_frames [of i lg] small len len_log
      by (simp_all add: r(1))
    then have "unat (of_nat (length (concat ?fs)) :: u64) < 2 ^ 63" "unat (of_nat (length ?fs) :: u32) < 2 ^ 63"
      by (simp_all add: unat_of_nat_small)
    moreover have "?fs \<noteq> [] \<Longrightarrow> unat (eh_t0_ns (header_of_bytes (hd ?fs))) < 2 ^ 63"
      "?fs \<noteq> [] \<Longrightarrow> unat (eh_t1_ns (header_of_bytes (last ?fs))) < 2 ^ 63"
      by (rule times [of _ i], simp)+
    ultimately show ?thesis
      using that r(6) len by (simp add: readable_chunk_def summary_def Let_def)
  qed
  define m where "m = \<lparr>lm_session_id = [], lm_first_ts_ns = 0, lm_last_ts_ns = 0, lm_packet_count = 0,
      lm_chunks = map (\<lambda>i. handed_chunk i (summary i lg)) [0..<Suc n]\<rparr>"
  have load: "ego_manifest_from_json d ''ego_manifest.json'' = Inr m"
    unfolding m_def using r(5,6) len readable
    by (intro manifest_loads) (auto simp: summary_def Let_def chunk_name_def)
  have path: "cr_path (handed_chunk i (summary i lg)) = chunk_name i" for i
    by (simp add: handed_chunk_def summary_def Let_def)
  let ?fmt = "lr_format (new_ego_reader d m)"
  have fmt: "?fmt = Fmt_unknown \<or> ?fmt = Fmt_contract"
    using r(2) detect_frames [OF sized [of 0]]
    by (auto simp: new_ego_reader_def m_def path upt_conv_Cons simp del: upt_Suc)
  have chunk: "map packet_frame (chunk_packets ?fmt d (handed_chunk i (summary i lg))) = chunk_frames i lg \<and>
      (\<forall>p\<in>set (chunk_packets ?fmt d (handed_chunk i (summary i lg))). rp_is_contract p)" if "i \<le> n" for i
    using r(2) that sized fmt by (intro chunk_packets_frames) (simp_all add: path)
  have man: "lr_manifest (new_ego_reader d m) = m" by (simp add: new_ego_reader_def)
  have chunks: "lm_chunks m = map (\<lambda>i. handed_chunk i (summary i lg)) [0..<Suc n]" by (simp add: m_def)
  have "map packet_frame (session_packets d (new_ego_reader d m)) =
      concat (map (\<lambda>i. map packet_frame (chunk_packets ?fmt d (handed_chunk i (summary i lg)))) [0..<Suc n])"
    by (simp only: session_packets_def man chunks map_concat map_map comp_def)
  also have "\<dots> = concat (map (\<lambda>i. chunk_frames i lg) [0..<Suc n])"
    using chunk by (intro arg_cong [where f = concat] map_cong) auto
  also have "\<dots> = log_frames (filter (\<lambda>x. fst x < Suc n) lg)" by (rule chunks_in_order [OF r(4)])
  also have "filter (\<lambda>x. fst x < Suc n) lg = lg" using r(3) by (auto simp: filter_id_conv)
  finally have "map packet_frame (session_packets d (new_ego_reader d m)) = map snd xs" by (simp add: r(1))
  moreover have "\<forall>p\<in>set (session_packets d (new_ego_reader d m)). rp_is_contract p"
    using chunk unfolding session_packets_def man chunks
    by (auto simp: less_Suc_eq_le simp del: upt_Suc)
  ultimately show ?thesis using load by blast
qed

text \<open>C3: what the recorder records, the offline pipeline reads: after a recording without failures of
  complete frames whose times the manifest can carry (below 2 to the 63), the manifest loads, and a
  scan of the session it names delivers exactly the recorded frames, header and payload, in the
  order they came in, each as a frame of the contract.\<close>

theorem session_handed_over:
  assumes fair: "fair_recording e0 xs ec d0" and rec: "record_session e0 now cfg xs ec d0 = (lg, (w, d))"
    and frames: "\<forall>x\<in>set xs. sized_frame (snd x) \<and> unat (eh_t0_ns (header_of_bytes (snd x))) < 2 ^ 63 \<and>
      unat (eh_t1_ns (header_of_bytes (snd x))) < 2 ^ 63"
    and small: "length (concat (map snd xs)) < 2 ^ 63"
  shows "\<exists>m. ego_manifest_from_json d ''ego_manifest.json'' = Inr m \<and>
    map packet_frame (session_packets d (new_ego_reader d m)) = map snd xs \<and>
    (\<forall>p\<in>set (session_packets d (new_ego_reader d m)). rp_is_contract p)"
  by (rule recorded_session_packets [OF assms])

theorem session_handed_over_witness:
  "\<exists>d m. (\<exists>lg w. record_session demo_env 0 (default_config\<lparr>rc_chunk_max_bytes := 70\<rparr>) demo_calls demo_env []
      = (lg, (w, d))) \<and> ego_manifest_from_json d ''ego_manifest.json'' = Inr m \<and>
    map packet_frame (session_packets d (new_ego_reader d m)) = map snd demo_calls"
proof -
  obtain lg w d where r: "record_session demo_env 0 (default_config\<lparr>rc_chunk_max_bytes := 70\<rparr>)
      demo_calls demo_env [] = (lg, (w, d))" by (metis prod_cases3)
  have "\<forall>x\<in>set demo_calls. sized_frame (snd x) \<and> unat (eh_t0_ns (header_of_bytes (snd x))) < 2 ^ 63 \<and>
      unat (eh_t1_ns (header_of_bytes (snd x))) < 2 ^ 63"
    by (simp add: demo_calls_def sized_frame_def build_contract_frame_header Let_def make_frame_header_def
        kContractMagic_def EGO_FRAME_MAGIC_def)
  moreover have "length (concat (map snd demo_calls)) < 2 ^ 63" by (simp add: demo_calls_def)
  ultimately obtain m where "ego_manifest_from_json d ''ego_manifest.json'' = Inr m"
    "map packet_frame (session_packets d (new_ego_reader d m)) = map snd demo_calls"
    using session_handed_over [OF demo_fair r] by blast
  with r show ?thesis by blast
qed

section \<open>The metadata\<close>

lemma plain_keys [simp]:
  "json_plain CHR ''_''" "json_plain CHR ''a''" "json_plain CHR ''b''" "json_plain CHR ''c''"
  "json_plain CHR ''d''" "json_plain CHR ''e''" "json_plain CHR ''f''" "json_plain CHR ''g''"
  "json_plain CHR ''h''" "json_plain CHR ''i''" "json_plain CHR ''k''" "json_plain CHR ''l''"
  "json_plain CHR ''m''" "json_plain CHR ''n''" "json_plain CHR ''o''" "json_plain CHR ''p''"
  "json_plain CHR ''r''" "json_plain CHR ''s''" "json_plain CHR ''t''" "json_plain CHR ''u''"
  "json_plain CHR ''v''" "json_plain CHR ''w''" "json_plain CHR ''1''"
  by (simp_all add: json_plain_def)

definition scenario_lines :: "scenario_metadata \<Rightarrow> (string \<times> string) list" where
  "scenario_lines s =
     [(''scenario_id'', qt (json_escape (sc_id s))), (''scenario_name'', qt (json_escape (sc_name s))),
      (''operator'', qt (json_escape (sc_operator s))), (''notes'', qt (json_escape (sc_notes s)))]"

definition session_lines :: "runtime_config \<Rightarrow> session_info \<Rightarrow> (string \<times> string) list" where
  "session_lines cfg i =
     [(''session_id'', qt (json_escape (si_session_id i))),
      (''started_at_utc'', qt (json_escape (si_started_at_utc i))),
      (''stopped_at_utc'', qt (json_escape (si_stopped_at_utc i))),
      (''vehicle_id'', qt (json_escape (rc_vehicle_id cfg))),
      (''test_stand_config'', qt (json_escape
        (if rc_test_stand_config cfg = [] then ''default'' else rc_test_stand_config cfg))),
      (''software_version'', qt (json_escape (rc_software_version cfg))),
      (''runtime_version'', qt (json_escape (rc_software_version cfg))),
      (''protocol_version'', qt ''1''), (''prod_protocol_version'', dec 1),
      (''source_ip'', qt (json_escape (si_source_ip i))),
      (''storage_path'', qt (json_escape (si_storage_path i))),
      (''stop_reason'', qt (json_escape (si_stop_reason i)))]"

lemma metadata_text_lines:
  "scenario_metadata_text s = ''{'' @ [CHR 0x0A] @ object_lines [] (scenario_lines s) @ ''}'' @ [CHR 0x0A]"
  "session_metadata_text cfg i = ''{'' @ [CHR 0x0A] @ object_lines [] (session_lines cfg i) @ ''}'' @ [CHR 0x0A]"
proof -
  have "dec 1 = ''1''" by (simp add: dec.simps digit_char_def) code_simp
  then show "scenario_metadata_text s = ''{'' @ [CHR 0x0A] @ object_lines [] (scenario_lines s) @ ''}'' @ [CHR 0x0A]"
    "session_metadata_text cfg i = ''{'' @ [CHR 0x0A] @ object_lines [] (session_lines cfg i) @ ''}'' @ [CHR 0x0A]"
    by (simp_all add: scenario_metadata_text_def scenario_lines_def session_metadata_text_def session_lines_def)
qed

lemma json_parse_lines:
  assumes "lines_values kvs ws" and "kvs \<noteq> []"
  shows "json_parse (''{'' @ [CHR 0x0A] @ object_lines [] kvs @ ''}'' @ [CHR 0x0A])
    = Inr (JObject (fold (\<lambda>(k, w). AList.update k w) ws []))"
  by (rule json_parse_reads [OF reads_object_lines [OF _ assms, where ind = "[]"
        and t = "''}'' @ [CHR 0x0A]" and r = "[CHR 0x0A]"]]) (simp_all add: skip_ws_stop)

text \<open>C34: the metadata files of the recorder are read back as they were meant, whatever characters the
  names, notes and paths hold: the session's identifier, vehicle, times and versions (the protocol
  version is the text 1, and the duration, which the recorder does not write, is 0), and the
  scenario's identifier, operator and notes.\<close>

theorem metadata_handed_over:
  "session_meta_from_json (Some (text_bytes (session_metadata_text cfg i))) =
     Inr \<lparr>mt_session_id = si_session_id i, mt_vehicle_id = rc_vehicle_id cfg,
       mt_started_at_utc = si_started_at_utc i, mt_stopped_at_utc = si_stopped_at_utc i,
       mt_runtime_version = rc_software_version cfg, mt_protocol_version = ''1'', mt_duration_s = f64_zero\<rparr> \<and>
   scenario_info_from_json (Some (text_bytes (scenario_metadata_text s))) =
     Inr \<lparr>mc_scenario_id = sc_id s, mc_operator_id = sc_operator s, mc_notes = sc_notes s\<rparr>"
proof -
  define config where
    "config = (if rc_test_stand_config cfg = [] then ''default'' else rc_test_stand_config cfg)"
  let ?ss = "[(''session_id'', JString (si_session_id i)), (''started_at_utc'', JString (si_started_at_utc i)),
      (''stopped_at_utc'', JString (si_stopped_at_utc i)), (''vehicle_id'', JString (rc_vehicle_id cfg)),
      (''test_stand_config'', JString config), (''software_version'', JString (rc_software_version cfg)),
      (''runtime_version'', JString (rc_software_version cfg)), (''protocol_version'', JString ''1''),
      (''prod_protocol_version'', JInt 1), (''source_ip'', JString (si_source_ip i)),
      (''storage_path'', JString (si_storage_path i)), (''stop_reason'', JString (si_stop_reason i))]"
  have ves: "lines_values (session_lines cfg i) ?ss"
    using value_text_dec [of 1]
    by (simp add: session_lines_def config_def [symmetric] value_text_quoted value_text_plain)
  have fes: "fold (\<lambda>(k, w). AList.update k w) ?ss [] = ?ss" by simp
  have nes: "session_lines cfg i \<noteq> []" by (simp add: session_lines_def)
  have session: "json_parse (session_metadata_text cfg i) = Inr (JObject ?ss)"
    unfolding metadata_text_lines by (rule json_parse_lines [OF ves nes, unfolded fes])
  let ?sc = "[(''scenario_id'', JString (sc_id s)), (''scenario_name'', JString (sc_name s)),
      (''operator'', JString (sc_operator s)), (''notes'', JString (sc_notes s))]"
  have vce: "lines_values (scenario_lines s) ?sc" by (simp add: scenario_lines_def value_text_quoted)
  have fce: "fold (\<lambda>(k, w). AList.update k w) ?sc [] = ?sc" by simp
  have nce: "scenario_lines s \<noteq> []" by (simp add: scenario_lines_def)
  have scenario: "json_parse (scenario_metadata_text s) = Inr (JObject ?sc)"
    unfolding metadata_text_lines by (rule json_parse_lines [OF vce nce, unfolded fce])
  show ?thesis
    by (simp add: session_meta_from_json_def scenario_info_from_json_def json_load_def session scenario
        value_simps get_string_def)
qed

section \<open>The index file\<close>

lemma comma_not_digit: "CHR '','' \<notin> set (dec n)"
  using dec_digits [of "CHR '','' " n] by (auto simp: is_digit_def)

lemma char_split:
  "c \<notin> set xs \<Longrightarrow> before_char c (xs @ c # s) = xs" "c \<notin> set xs \<Longrightarrow> after_char c (xs @ c # s) = Some s"
  "c \<notin> set xs \<Longrightarrow> before_char c xs = xs" "c \<notin> set xs \<Longrightarrow> after_char c xs = None"
  by (induction xs) (auto simp: before_char_def after_char_def)

lemma tokens_dec: "tokens (dec n @ CHR '','' # s) = dec n # tokens s" "tokens (dec n) = [dec n]"
  using comma_not_digit [of n]
  by (subst tokens.simps, simp add: char_split)+

lemma takeWhile_digits: "takeWhile is_digit (dec n) = dec n"
  using dec_digits [of _ n] by (simp add: takeWhile_eq_all_conv)

lemma dec_front: "hd (dec n) \<noteq> CHR ''-''" "hd (dec n) \<noteq> CHR ''+''" "dropWhile is_space (dec n) = dec n"
proof -
  obtain c cs where c: "dec n = c # cs" "is_digit c" using hd_dec_digit [of n] by (cases "dec n") auto
  then show "hd (dec n) \<noteq> CHR ''-''" "hd (dec n) \<noteq> CHR ''+''" "dropWhile is_space (dec n) = dec n"
    by (auto simp: is_digit_def is_space_def)
qed

lemma stoul_dec: "n < 2 ^ 64 \<Longrightarrow> stoul (dec n) = Inr (of_nat n)"
  by (simp add: stoul_def Let_def dec_front takeWhile_digits)

lemma signed_number_dec: "0 \<le> bound \<Longrightarrow> int n < bound \<Longrightarrow> signed_number bound (dec n) = Inr (int n)"
  by (simp add: signed_number_def Let_def dec_front takeWhile_digits)

lemma stoll_text_dec: "n < 2 ^ 63 \<Longrightarrow> stoll (dec n) = Inr (of_nat n)"
  using signed_number_dec [of "2 ^ 63" n] by (simp add: stoll_def)

lemma stoi_text_dec: "n < 2 ^ 31 \<Longrightarrow> stoi (dec n) = Inr (of_nat n)"
  using signed_number_dec [of "2 ^ 31" n] by (simp add: stoi_def)

definition index_of_entry :: "entry \<Rightarrow> index_entry" where
  "index_of_entry x = (case x of (c, off, f) \<Rightarrow>
     (let h = header_of_bytes f in
      \<lparr>ix_offset = of_nat off, ix_ts_ns = eh_t0_ns h, ix_type = ucast (eh_frame_type h),
       ix_seq = ucast (eh_seq h), ix_chunk_id = of_nat c\<rparr>))"

definition readable_entry :: "entry \<Rightarrow> bool" where
  "readable_entry x \<longleftrightarrow> (case x of (c, off, f) \<Rightarrow>
     c < 2 ^ 31 \<and> unat (eh_t0_ns (header_of_bytes f)) < 2 ^ 63)"

lemma set_columns_entry_line:
  assumes "readable_entry x"
  shows "set_columns 0 (tokens (entry_line x)) zero_entry = Inr (index_of_entry x)"
proof -
  obtain c off f where x: "x = (c, off, f)" by (cases x)
  let ?h = "header_of_bytes f"
  have t0: "stoll (dec (unat (eh_t0_ns ?h))) = Inr (eh_t0_ns ?h)" and c: "stoi (dec c) = Inr (of_nat c)"
    using assms stoll_text_dec [of "unat (eh_t0_ns ?h)"] stoi_text_dec [of c]
    by (simp_all add: readable_entry_def x)
  have u: "stoul (dec (unat (w :: 'a::len word))) = Inr (ucast w)" if "LENGTH('a) \<le> 64" for w
  proof -
    have "unat w < 2 ^ LENGTH('a)" by (rule unsigned_less)
    also have "(2::nat) ^ LENGTH('a) \<le> 2 ^ 64" using that by (rule power_increasing) simp
    finally show ?thesis by (simp add: stoul_dec)
  qed
  have cw: "unat (of_nat c :: u32) = c" using assms by (simp add: readable_entry_def x unat_of_nat_small)
  show ?thesis
    by (simp add: entry_line_def index_line_def Let_def x tokens_dec set_column_def t0 u cw c
        index_of_entry_def zero_entry_def unsigned_ucast_eq take_bit_word_eq_self)
qed

lemma entry_line_nonempty [simp]: "entry_line x \<noteq> []"
  by (simp add: entry_line_def index_line_def Let_def split: prod.split)

lemma index_of_entry_lines:
  "\<forall>x\<in>set xs. readable_entry x \<Longrightarrow> index_of_lines (map entry_line xs) = Inr (map index_of_entry xs)"
  by (induction xs) (simp_all add: set_columns_entry_line)

text \<open>The reader takes the recorder's index file for one with a heading: of the lines the recorder
  writes, one per frame with chunk, offset, time, type and number, all are read as they were meant
  except the first, which is dropped, so the first frame of the session is missing from the index.\<close>

theorem index_loses_first_frame:
  assumes "\<forall>x\<in>set lg. readable_entry x"
  shows "load_index (text_bytes (index_text lg)) = Inr (map index_of_entry (tl lg))"
proof -
  have "drop 1 (map entry_line lg) = map entry_line (tl lg)" by (cases lg) simp_all
  then show ?thesis
    using assms index_of_entry_lines [of "tl lg"]
    by (cases lg) (simp_all add: load_index_def index_lines)
qed

theorem index_loses_first_frame_witness:
  "load_index (text_bytes (index_text
      [(0, 0, build_contract_frame 1 IMU_WINDOW [9]), (0, 73, build_contract_frame 2 AUDIO_BLOCK [1, 2])])) =
    Inr [index_of_entry (0, 73, build_contract_frame 2 AUDIO_BLOCK [1, 2])]"
  by (subst index_loses_first_frame)
    (simp_all add: readable_entry_def build_contract_frame_header Let_def make_frame_header_def)

end
