(* ===== verification/Demux.thy ===== *)
theory Demux
  imports BinaryParser
begin

text \<open>
  The demultiplexers of the offline pipeline, \<open>offline/src/parse/packet_demuxer.cpp\<close>,
  \<open>source_demuxer.cpp\<close> and \<open>contract_demuxer.cpp\<close>: from the payload of a packet to a sample, a point
  or an event. A payload is passed as a pointer and a size; the model keeps the bytes that really
  are in memory apart from the size, and a read outside them is the value None.
\<close>

section \<open>Memory\<close>

definition load_bytes :: "bytes \<Rightarrow> nat \<Rightarrow> nat \<Rightarrow> bytes option" where
  "load_bytes p off n = (if n = 0 \<or> off + n \<le> length p then Some (slice off n p) else None)"

lemma load_bytes_within [simp]: "off + n \<le> length p \<Longrightarrow> load_bytes p off n = Some (slice off n p)"
  by (simp add: load_bytes_def)

lemma load_bytes_None_iff: "load_bytes p off n = None \<longleftrightarrow> n \<noteq> 0 \<and> length p < off + n"
  by (auto simp: load_bytes_def)

text \<open>The 16-bit samples of a byte string, and a vector of \<open>n\<close> samples whose front is copied.\<close>

definition samples_of :: "bytes \<Rightarrow> u16 list" where
  "samples_of bs = map (\<lambda>i. rd (2 * i) 2 bs) [0..<length bs div 2]"

definition sample_vector :: "nat \<Rightarrow> bytes \<Rightarrow> u16 list" where
  "sample_vector n bs = samples_of bs @ replicate (n - length (samples_of bs)) 0"

section \<open>Decoded streams\<close>

record audio_block =
  ab_ts_ns :: ns_t
  ab_channels :: byte
  ab_sample_rate_hz :: u32
  ab_frame_count :: u32
  ab_samples :: "u16 list"

record rtk_sample =
  rk_ts_ns :: ns_t
  rk_fix_type :: byte
  rk_correction_age_s :: byte
  rk_baseline_mm :: u32
  rk_solution_status :: u16

record motion_sample =
  mo_ts_ns :: ns_t
  mo_speed_mps :: f32
  mo_steering_angle_deg :: f32
  mo_yaw_rate_rads :: f32
  mo_acceleration_mps2 :: f32

record decoded_ego_streams =
  de_gps :: "gnss_point list"
  de_imu :: "imu_sample list"
  de_trajectory :: "trajectory_point list"
  de_audio :: "audio_block list"
  de_rtk :: "rtk_sample list"
  de_motion :: "motion_sample list"
  de_session_frame_count :: u64

definition new_ego_streams :: decoded_ego_streams where
  "new_ego_streams = \<lparr>de_gps = [], de_imu = [], de_trajectory = [], de_audio = [], de_rtk = [],
     de_motion = [], de_session_frame_count = 0\<rparr>"

record scenario_meta =
  sm_ts_ns :: ns_t
  sm_scenario_id :: bytes
  sm_source_id :: bytes
  sm_config_version :: bytes

record source_diagnostics =
  sd_ts_ns :: ns_t
  sd_health_state :: byte
  sd_siren_state :: byte
  sd_battery_pct :: byte
  sd_disk_free_pct :: byte
  sd_temperature_c :: f32
  sd_message :: bytes

record decoded_source_streams =
  ds_events :: "source_event list"
  ds_gnss :: "gnss_point list"
  ds_rtk :: "rtk_sample list"
  ds_scenario_metas :: "scenario_meta list"
  ds_diagnostics :: "source_diagnostics list"
  ds_warnings :: "string list"

definition new_source_streams :: decoded_source_streams where
  "new_source_streams = \<lparr>ds_events = [], ds_gnss = [], ds_rtk = [], ds_scenario_metas = [],
     ds_diagnostics = [], ds_warnings = []\<rparr>"

section \<open>Packets of the recorder's old format\<close>

definition demux_audio :: "ns_t \<Rightarrow> bytes \<Rightarrow> u32 \<Rightarrow> decoded_ego_streams \<Rightarrow> decoded_ego_streams option" where
  "demux_audio ts p sz out =
     (if unat sz < layout_size audio_block_header then Some out
      else Option.bind (load_bytes p 0 (layout_size audio_block_header)) (\<lambda>hdr.
        let ch = fld audio_block_header ''channels'' hdr :: byte;
            frames = fld audio_block_header ''frame_count'' hdr :: u32;
            n = ucast ch * frames
        in if unat sz < layout_size audio_block_header + unat (n * 2) then Some out
           else Option.bind (load_bytes p (layout_size audio_block_header) (unat (n * 2))) (\<lambda>pcm.
             Some (out\<lparr>de_audio := de_audio out @
               [\<lparr>ab_ts_ns = ts, ab_channels = ch,
                 ab_sample_rate_hz = fld audio_block_header ''sample_rate_hz'' hdr,
                 ab_frame_count = frames, ab_samples = sample_vector (unat n) pcm\<rparr>]\<rparr>))))"

definition demux_imu :: "ns_t \<Rightarrow> bytes \<Rightarrow> u32 \<Rightarrow> decoded_ego_streams \<Rightarrow> decoded_ego_streams option" where
  "demux_imu ts p sz out =
     (if unat sz < layout_size imu_payload then Some out
      else Option.bind (load_bytes p 0 (layout_size imu_payload)) (\<lambda>raw.
        Some (out\<lparr>de_imu := de_imu out @
          [\<lparr>is_ts_ns = ts,
            is_acc_x = fld imu_payload ''acc_x_mps2'' raw, is_acc_y = fld imu_payload ''acc_y_mps2'' raw,
            is_acc_z = fld imu_payload ''acc_z_mps2'' raw, is_gyro_x = fld imu_payload ''gyro_x_rads'' raw,
            is_gyro_y = fld imu_payload ''gyro_y_rads'' raw, is_gyro_z = fld imu_payload ''gyro_z_rads'' raw\<rparr>]\<rparr>)))"

definition demux_motion :: "ns_t \<Rightarrow> bytes \<Rightarrow> u32 \<Rightarrow> decoded_ego_streams \<Rightarrow> decoded_ego_streams option" where
  "demux_motion ts p sz out =
     (if unat sz < layout_size motion_state_payload then Some out
      else Option.bind (load_bytes p 0 (layout_size motion_state_payload)) (\<lambda>raw.
        Some (out\<lparr>de_motion := de_motion out @
          [\<lparr>mo_ts_ns = ts, mo_speed_mps = fld motion_state_payload ''speed_mps'' raw,
            mo_steering_angle_deg = fld motion_state_payload ''steering_angle_deg'' raw,
            mo_yaw_rate_rads = fld motion_state_payload ''yaw_rate_rads'' raw,
            mo_acceleration_mps2 = fld motion_state_payload ''acceleration_mps2'' raw\<rparr>]\<rparr>)))"

definition demux_gps :: "ns_t \<Rightarrow> bytes \<Rightarrow> u32 \<Rightarrow> decoded_ego_streams \<Rightarrow> decoded_ego_streams option" where
  "demux_gps ts p sz out =
     (if unat sz < layout_size gps_fix_payload then Some out
      else Option.bind (load_bytes p 0 (layout_size gps_fix_payload)) (\<lambda>raw.
        Some (out\<lparr>de_gps := de_gps out @
          [\<lparr>gp_ts_ns = ts, gp_latitude_deg = fld gps_fix_payload ''latitude_deg'' raw,
            gp_longitude_deg = fld gps_fix_payload ''longitude_deg'' raw,
            gp_altitude_m = fld gps_fix_payload ''altitude_m'' raw,
            gp_speed_mps = fld gps_fix_payload ''speed_mps'' raw,
            gp_heading_deg = fld gps_fix_payload ''heading_deg'' raw,
            gp_fix_quality = fld gps_fix_payload ''fix_quality'' raw,
            gp_satellites = fld gps_fix_payload ''satellites'' raw,
            gp_hdop = fld gps_fix_payload ''hdop'' raw\<rparr>]\<rparr>)))"

text \<open>A session frame holds a position, if it has a fix, and an inertial sample, if it is not zero.\<close>

definition demux_session_frame :: "ns_t \<Rightarrow> bytes \<Rightarrow> u32 \<Rightarrow> decoded_ego_streams \<Rightarrow> decoded_ego_streams option" where
  "demux_session_frame ts p sz out0 =
     (let out = out0\<lparr>de_session_frame_count := de_session_frame_count out0 + 1\<rparr>; l = session_frame_payload in
      if unat sz < layout_size l then Some out
      else Option.bind (load_bytes p 0 (layout_size l)) (\<lambda>raw.
        let fix_quality = fld l ''gps_fix_quality'' raw :: byte;
            lat = fld l ''gps_lat_deg'' raw :: f64; lon = fld l ''gps_lon_deg'' raw :: f64;
            out1 = (if fix_quality > 0 \<and> (\<not> eq64 lat f64_zero \<or> \<not> eq64 lon f64_zero)
              then out\<lparr>de_gps := de_gps out @
                [\<lparr>gp_ts_ns = ts, gp_latitude_deg = lat, gp_longitude_deg = lon,
                  gp_altitude_m = fld l ''gps_alt_m'' raw, gp_speed_mps = fld l ''gps_speed_mps'' raw,
                  gp_heading_deg = fld l ''gps_heading_deg'' raw, gp_fix_quality = fix_quality,
                  gp_satellites = fld l ''gps_satellites'' raw, gp_hdop = fld l ''gps_hdop'' raw\<rparr>]\<rparr>
              else out);
            ax = fld l ''imu_acc_x_mps2'' raw :: f32; ay = fld l ''imu_acc_y_mps2'' raw :: f32;
            az = fld l ''imu_acc_z_mps2'' raw :: f32
        in Some (if \<not> eq32 ax f32_zero \<or> \<not> eq32 ay f32_zero \<or> \<not> eq32 az f32_zero
             then out1\<lparr>de_imu := de_imu out1 @
               [\<lparr>is_ts_ns = ts, is_acc_x = ax, is_acc_y = ay, is_acc_z = az,
                 is_gyro_x = fld l ''imu_gyro_x_rads'' raw, is_gyro_y = fld l ''imu_gyro_y_rads'' raw,
                 is_gyro_z = fld l ''imu_gyro_z_rads'' raw\<rparr>]\<rparr>
             else out1)))"

text \<open>\<open>PacketDemuxer::demux\<close>: whether the type is known, and the streams after the packet.\<close>

definition packet_demux ::
  "u16 \<Rightarrow> ns_t \<Rightarrow> bytes \<Rightarrow> u32 \<Rightarrow> decoded_ego_streams \<Rightarrow> (bool \<times> decoded_ego_streams) option"
where
  "packet_demux ty ts p sz out =
     (if ty = packet_type_u16 kAudioBlock then map_option (Pair True) (demux_audio ts p sz out)
      else if ty = packet_type_u16 kCanFrame then Some (True, out)
      else if ty = packet_type_u16 kImuSample then map_option (Pair True) (demux_imu ts p sz out)
      else if ty = packet_type_u16 kMotionState then map_option (Pair True) (demux_motion ts p sz out)
      else if ty = packet_type_u16 kGpsFix then map_option (Pair True) (demux_gps ts p sz out)
      else if ty = packet_type_u16 kSessionFrame
      then map_option (Pair True) (demux_session_frame ts p sz out)
      else if ty = packet_type_u16 kDiagnostics then Some (True, out)
      else if ty = packet_type_u16 kSessionMeta then Some (True, out)
      else Some (False, out))"

fun packet_demux_from ::
  "decoded_ego_streams \<Rightarrow> (packet_header \<times> bytes) list \<Rightarrow> decoded_ego_streams option"
where
  "packet_demux_from out [] = Some out"
| "packet_demux_from out ((h, payload) # ps) =
     Option.bind (packet_demux (ph_type h) (ph_ts_ns h) payload (ph_payload_size h) out)
       (\<lambda>(_, out'). packet_demux_from out' ps)"

definition demux_all :: "(packet_header \<times> bytes) list \<Rightarrow> decoded_ego_streams option" where
  "demux_all packets = packet_demux_from new_ego_streams packets"

section \<open>Frames of the contract\<close>

text \<open>The demultiplexer's own copies of the sender's structs.\<close>

definition cd_audio_header :: layout where
  "cd_audio_header =
    [(''audio_block_id'', U64), (''t0_ns'', U64), (''t1_ns'', U64),
     (''sample_rate_hz'', U32), (''channels_count'', U16), (''bytes_per_sample'', U16),
     (''frames_count'', U32), (''layout'', U32), (''data_size'', U32), (''reserved0'', U32)]"

definition cd_imu_window :: layout where
  "cd_imu_window =
    [(''window_id'', U64), (''t0_ns'', U64), (''t1_ns'', U64),
     (''sample_count'', U16), (''flags'', U16),
     (''accel_mean_x_mps2'', F32), (''accel_mean_y_mps2'', F32), (''accel_mean_z_mps2'', F32),
     (''gyro_mean_x_rad_s'', F32), (''gyro_mean_y_rad_s'', F32), (''gyro_mean_z_rad_s'', F32),
     (''delta_velocity_x_mps'', F32), (''delta_velocity_y_mps'', F32),
     (''delta_velocity_z_mps'', F32),
     (''delta_angle_x_rad'', F32), (''delta_angle_y_rad'', F32), (''delta_angle_z_rad'', F32)]"

definition cd_trajectory_point :: layout where
  "cd_trajectory_point =
    [(''t_ns'', U64), (''x_m'', F32), (''y_m'', F32), (''z_m'', F32),
     (''vx_mps'', F32), (''vy_mps'', F32), (''vz_mps'', F32),
     (''yaw_rad'', F32), (''pitch_rad'', F32), (''roll_rad'', F32),
     (''yaw_rate_rad_s'', F32), (''path_s_m'', F32), (''vehicle_speed_mps'', F32),
     (''flags'', U32), (''reserved0'', U32)]"

definition cd_gps_fix :: layout where
  "cd_gps_fix =
    [(''t_ns'', U64), (''lat_deg'', F64), (''lon_deg'', F64), (''alt_m'', F64),
     (''speed_mps'', F32), (''heading_rad'', F32), (''h_acc_m'', F32), (''v_acc_m'', F32),
     (''fix_type'', U8), (''rtk_status'', U8), (''satellites'', U8), (''reserved0'', U8),
     (''flags'', U32)]"

lemma contract_layouts_agree:
  "cd_audio_header = audio_block_binary_header" "cd_imu_window = imu_window_packet"
  "cd_trajectory_point = trajectory_point_packet" "cd_gps_fix = gps_fix_packet"
  by (simp_all add: cd_audio_header_def audio_block_binary_header_def cd_imu_window_def
      imu_window_packet_def cd_trajectory_point_def trajectory_point_packet_def cd_gps_fix_def
      gps_fix_packet_def)

definition rad_to_deg32 :: "f32 \<Rightarrow> f32" where
  "rad_to_deg32 x = div32 (mul32 x (f32_of_rat 180)) (f32_of_rat (314159265 / 100000000))"

definition contract_demux_audio ::
  "bytes \<Rightarrow> u32 \<Rightarrow> decoded_ego_streams \<Rightarrow> decoded_ego_streams option"
where
  "contract_demux_audio p sz out =
     (let l = cd_audio_header in
      if unat sz < layout_size l then Some out
      else Option.bind (load_bytes p 0 (layout_size l)) (\<lambda>ah.
        let pcm_bytes = fld l ''data_size'' ah :: u32 in
        if unat sz < layout_size l + unat pcm_bytes then Some out
        else
          let channels = fld l ''channels_count'' ah :: u16; frames = fld l ''frames_count'' ah :: u32;
              n = ucast channels * frames
          in Option.bind (load_bytes p (layout_size l) (unat n * 2)) (\<lambda>pcm.
               Some (out\<lparr>de_audio := de_audio out @
                 [\<lparr>ab_ts_ns = fld l ''t0_ns'' ah, ab_channels = ucast channels,
                   ab_sample_rate_hz = fld l ''sample_rate_hz'' ah, ab_frame_count = frames,
                   ab_samples = sample_vector (unat n) pcm\<rparr>]\<rparr>))))"

definition contract_demux_imu ::
  "bytes \<Rightarrow> u32 \<Rightarrow> decoded_ego_streams \<Rightarrow> decoded_ego_streams option"
where
  "contract_demux_imu p sz out =
     (let l = cd_imu_window in
      if unat sz < layout_size l then Some out
      else Option.bind (load_bytes p 0 (layout_size l)) (\<lambda>raw.
        Some (out\<lparr>de_imu := de_imu out @
          [\<lparr>is_ts_ns = fld l ''t0_ns'' raw,
            is_acc_x = fld l ''accel_mean_x_mps2'' raw, is_acc_y = fld l ''accel_mean_y_mps2'' raw,
            is_acc_z = fld l ''accel_mean_z_mps2'' raw, is_gyro_x = fld l ''gyro_mean_x_rad_s'' raw,
            is_gyro_y = fld l ''gyro_mean_y_rad_s'' raw,
            is_gyro_z = fld l ''gyro_mean_z_rad_s'' raw\<rparr>]\<rparr>)))"

definition contract_demux_trajectory ::
  "bytes \<Rightarrow> u32 \<Rightarrow> decoded_ego_streams \<Rightarrow> decoded_ego_streams option"
where
  "contract_demux_trajectory p sz out =
     (let l = cd_trajectory_point in
      if unat sz < layout_size l then Some out
      else Option.bind (load_bytes p 0 (layout_size l)) (\<lambda>raw.
        let out1 = out\<lparr>de_trajectory := de_trajectory out @
          [default_trajectory_point\<lparr>tp_ts_ns := fld l ''t_ns'' raw,
             tp_yaw_deg := rad_to_deg32 (fld l ''yaw_rad'' raw),
             tp_vel_n_mps := fld l ''vx_mps'' raw, tp_vel_e_mps := fld l ''vy_mps'' raw\<rparr>]\<rparr>
        in Some (out1\<lparr>de_motion := de_motion out1 @
          [\<lparr>mo_ts_ns = fld l ''t_ns'' raw, mo_speed_mps = fld l ''vehicle_speed_mps'' raw,
            mo_steering_angle_deg = f32_zero, mo_yaw_rate_rads = fld l ''yaw_rate_rad_s'' raw,
            mo_acceleration_mps2 = f32_zero\<rparr>]\<rparr>)))"

definition contract_demux_gps ::
  "bytes \<Rightarrow> u32 \<Rightarrow> decoded_ego_streams \<Rightarrow> decoded_ego_streams option"
where
  "contract_demux_gps p sz out =
     (let l = cd_gps_fix in
      if unat sz < layout_size l then Some out
      else Option.bind (load_bytes p 0 (layout_size l)) (\<lambda>raw.
        Some (out\<lparr>de_gps := de_gps out @
          [default_gnss_point\<lparr>gp_ts_ns := fld l ''t_ns'' raw, gp_latitude_deg := fld l ''lat_deg'' raw,
             gp_longitude_deg := fld l ''lon_deg'' raw, gp_altitude_m := fld l ''alt_m'' raw,
             gp_speed_mps := fld l ''speed_mps'' raw,
             gp_heading_deg := rad_to_deg32 (fld l ''heading_rad'' raw)\<rparr>]\<rparr>)))"

text \<open>\<open>ContractDemuxer::demux\<close> returns true for every frame type.\<close>

definition contract_demux ::
  "ego_frame_header \<Rightarrow> bytes \<Rightarrow> u32 \<Rightarrow> decoded_ego_streams \<Rightarrow> (bool \<times> decoded_ego_streams) option"
where
  "contract_demux header p sz out =
     (let t = eh_frame_type header in
      if t = type_to_u32 AUDIO_BLOCK then map_option (Pair True) (contract_demux_audio p sz out)
      else if t = type_to_u32 IMU_WINDOW then map_option (Pair True) (contract_demux_imu p sz out)
      else if t = type_to_u32 TRAJECTORY_POINT
      then map_option (Pair True) (contract_demux_trajectory p sz out)
      else if t = type_to_u32 GPS_FIX then map_option (Pair True) (contract_demux_gps p sz out)
      else Some (True, out))"

section \<open>Packets of the source\<close>

definition demux_event :: "ns_t \<Rightarrow> bytes \<Rightarrow> u32 \<Rightarrow> decoded_source_streams \<Rightarrow> decoded_source_streams option" where
  "demux_event ts p sz out =
     (let l = source_event_payload in
      if unat sz < layout_size l then Some out
      else Option.bind (load_bytes p 0 (layout_size l)) (\<lambda>raw.
        Some (out\<lparr>ds_events := ds_events out @
          [\<lparr>sv_ts_ns = ts, sv_ts_ego_ns = 0, sv_event_id = fld l ''event_id'' raw,
            sv_event_type = fld l ''event_type'' raw, sv_flags = fld l ''flags'' raw,
            sv_duration_ns = fld l ''duration_ns'' raw\<rparr>]\<rparr>)))"

definition demux_gnss :: "ns_t \<Rightarrow> bytes \<Rightarrow> u32 \<Rightarrow> decoded_source_streams \<Rightarrow> decoded_source_streams option" where
  "demux_gnss ts p sz out =
     (let l = source_gnss_fix_payload in
      if unat sz < layout_size l then Some out
      else Option.bind (load_bytes p 0 (layout_size l)) (\<lambda>raw.
        Some (out\<lparr>ds_gnss := ds_gnss out @
          [\<lparr>gp_ts_ns = ts, gp_latitude_deg = fld l ''latitude_deg'' raw,
            gp_longitude_deg = fld l ''longitude_deg'' raw, gp_altitude_m = fld l ''altitude_m'' raw,
            gp_speed_mps = fld l ''speed_mps'' raw, gp_heading_deg = fld l ''heading_deg'' raw,
            gp_fix_quality = fld l ''fix_quality'' raw, gp_satellites = fld l ''satellites'' raw,
            gp_hdop = fld l ''hdop'' raw\<rparr>]\<rparr>)))"

definition demux_rtk :: "ns_t \<Rightarrow> bytes \<Rightarrow> u32 \<Rightarrow> decoded_source_streams \<Rightarrow> decoded_source_streams option" where
  "demux_rtk ts p sz out =
     (let l = source_rtk_status_payload in
      if unat sz < layout_size l then Some out
      else Option.bind (load_bytes p 0 (layout_size l)) (\<lambda>raw.
        Some (out\<lparr>ds_rtk := ds_rtk out @
          [\<lparr>rk_ts_ns = ts, rk_fix_type = fld l ''fix_type'' raw,
            rk_correction_age_s = fld l ''correction_age_s'' raw,
            rk_baseline_mm = fld l ''baseline_mm'' raw,
            rk_solution_status = fld l ''solution_status'' raw\<rparr>]\<rparr>)))"

text \<open>The strings of a scenario description: two bytes of length, at most 64, then the characters.
  A string that does not fit is left empty, and its length is skipped all the same.\<close>

definition read_str :: "bytes \<Rightarrow> u32 \<Rightarrow> nat \<Rightarrow> (bytes \<times> nat) option" where
  "read_str p sz off =
     (if off + 2 > unat sz then Some ([], off)
      else Option.bind (load_bytes p off 2) (\<lambda>lb.
        let len = unat (rd 0 2 lb :: u16); off = off + 2 in
        if len > 64 \<or> off + len > unat sz then Some ([], off)
        else Option.bind (load_bytes p off len) (\<lambda>s. Some (s, off + len))))"

definition demux_scenario_meta ::
  "ns_t \<Rightarrow> bytes \<Rightarrow> u32 \<Rightarrow> decoded_source_streams \<Rightarrow> decoded_source_streams option"
where
  "demux_scenario_meta ts p sz out =
     (if unat sz < 2 then Some out
      else Option.bind (read_str p sz 0) (\<lambda>(scenario, off).
        Option.bind (read_str p sz off) (\<lambda>(source, off).
        Option.bind (read_str p sz off) (\<lambda>(config, off).
        Some (out\<lparr>ds_scenario_metas := ds_scenario_metas out @
          [\<lparr>sm_ts_ns = ts, sm_scenario_id = scenario, sm_source_id = source,
            sm_config_version = config\<rparr>]\<rparr>)))))"

definition demux_diagnostics ::
  "ns_t \<Rightarrow> bytes \<Rightarrow> u32 \<Rightarrow> decoded_source_streams \<Rightarrow> decoded_source_streams option"
where
  "demux_diagnostics ts p sz out =
     (let l = source_diagnostics_header in
      if unat sz < layout_size l then Some out
      else Option.bind (load_bytes p 0 (layout_size l)) (\<lambda>raw.
        let message_len = unat (fld l ''message_len'' raw :: u16);
            d = \<lparr>sd_ts_ns = ts, sd_health_state = fld l ''health_state'' raw,
                 sd_siren_state = fld l ''siren_state'' raw, sd_battery_pct = fld l ''battery_pct'' raw,
                 sd_disk_free_pct = fld l ''disk_free_pct'' raw,
                 sd_temperature_c =
                   mul32 (f32_of_rat (of_int (sint (fld l ''temperature_c'' raw :: u16)))) (f32_of_rat (1 / 10)),
                 sd_message = []\<rparr>
        in Option.bind
             (if message_len > 0 \<and> layout_size l + message_len \<le> unat sz
              then load_bytes p (layout_size l) message_len else Some [])
             (\<lambda>msg. Some (out\<lparr>ds_diagnostics := ds_diagnostics out @ [d\<lparr>sd_message := msg\<rparr>]\<rparr>))))"

definition source_demux ::
  "u16 \<Rightarrow> ns_t \<Rightarrow> bytes \<Rightarrow> u32 \<Rightarrow> decoded_source_streams \<Rightarrow> (bool \<times> decoded_source_streams) option"
where
  "source_demux ty ts p sz out =
     (if ty = source_packet_u16 kSourceEvent then map_option (Pair True) (demux_event ts p sz out)
      else if ty = source_packet_u16 kSourceGnssFix then map_option (Pair True) (demux_gnss ts p sz out)
      else if ty = source_packet_u16 kSourceRtkStatus then map_option (Pair True) (demux_rtk ts p sz out)
      else if ty = source_packet_u16 kSourceScenarioMeta
      then map_option (Pair True) (demux_scenario_meta ts p sz out)
      else if ty = source_packet_u16 kSourceDiagnostics
      then map_option (Pair True) (demux_diagnostics ts p sz out)
      else Some (False, out\<lparr>ds_warnings := ds_warnings out @
             [''Unknown source packet type: '' @ dec (unat ty)]\<rparr>))"

section \<open>No read outside the payload\<close>

lemma demux_imu_within: "unat sz \<le> length p \<Longrightarrow> demux_imu ts p sz out \<noteq> None"
  by (auto simp: demux_imu_def)

lemma demux_motion_within: "unat sz \<le> length p \<Longrightarrow> demux_motion ts p sz out \<noteq> None"
  by (auto simp: demux_motion_def)

lemma demux_gps_within: "unat sz \<le> length p \<Longrightarrow> demux_gps ts p sz out \<noteq> None"
  by (auto simp: demux_gps_def)

lemma demux_audio_within: "unat sz \<le> length p \<Longrightarrow> demux_audio ts p sz out \<noteq> None"
  by (simp add: demux_audio_def Let_def)

lemma demux_session_frame_within: "unat sz \<le> length p \<Longrightarrow> demux_session_frame ts p sz out \<noteq> None"
  by (simp add: demux_session_frame_def Let_def)

lemma read_str_within:
  "unat sz \<le> length p \<Longrightarrow> \<exists>s off'. read_str p sz off = Some (s, off')"
  by (simp add: read_str_def Let_def)

lemma source_demux_within:
  assumes "unat sz \<le> length p"
  shows "source_demux ty ts p sz out \<noteq> None"
proof -
  have "demux_scenario_meta ts p sz out \<noteq> None"
  proof -
    obtain a i where 1: "read_str p sz 0 = Some (a, i)" using read_str_within [OF assms] by blast
    obtain b j where 2: "read_str p sz i = Some (b, j)" using read_str_within [OF assms] by blast
    obtain c k where 3: "read_str p sz j = Some (c, k)" using read_str_within [OF assms] by blast
    show ?thesis by (simp add: demux_scenario_meta_def 1 2 3)
  qed
  moreover have "demux_diagnostics ts p sz out \<noteq> None"
    using assms by (simp add: demux_diagnostics_def Let_def source_diagnostics_header_def layout_size_def)
  ultimately show ?thesis
    using assms by (auto simp: source_demux_def demux_event_def demux_gnss_def demux_rtk_def Let_def)
qed

lemma packet_demux_within: "unat sz \<le> length p \<Longrightarrow> packet_demux ty ts p sz out \<noteq> None"
  using demux_imu_within [of sz p ts out] demux_motion_within [of sz p ts out]
    demux_gps_within [of sz p ts out] demux_audio_within [of sz p ts out]
    demux_session_frame_within [of sz p ts out]
  by (auto simp: packet_demux_def)

text \<open>C37: the demultiplexers of the old format and of the source read only inside the payload they are
  given, for every type and every content: with at least \<open>sz\<close> bytes in memory they return.\<close>

theorem demuxers_read_within:
  "unat sz \<le> length p \<longrightarrow>
     packet_demux ty ts p sz out \<noteq> None \<and> source_demux ty ts p sz out' \<noteq> None"
  using packet_demux_within source_demux_within by blast

theorem demuxers_read_within_witness:
  "packet_demux 1 7 (replicate 10 255) 10 new_ego_streams \<noteq> None \<and>
   source_demux 104 7 (replicate 10 255) 10 new_source_streams \<noteq> None"
  using demuxers_read_within [of 10 "replicate 10 255" 1 7 new_ego_streams new_source_streams]
    demuxers_read_within [of 10 "replicate 10 255" 104 7 new_ego_streams new_source_streams] by simp

lemma layout_sizes_contract [simp]:
  "layout_size cd_audio_header = 48" "layout_size cd_imu_window = 76"
  "layout_size cd_trajectory_point = 64" "layout_size cd_gps_fix = 56"
  by (simp_all add: contract_layouts_agree layout_sizes)

lemma fld_slice: "the (field_offset l n) + LENGTH('a) div 8 \<le> m \<Longrightarrow> fld l n (slice 0 m p) = (fld l n p :: 'a::len word)"
  by (simp add: fld_def rd_def slice_slice)

lemma cd_slice:
  "fld cd_audio_header ''t0_ns'' (slice 0 48 p) = (fld cd_audio_header ''t0_ns'' p :: u64)"
  "fld cd_audio_header ''sample_rate_hz'' (slice 0 48 p) = (fld cd_audio_header ''sample_rate_hz'' p :: u32)"
  "fld cd_audio_header ''channels_count'' (slice 0 48 p) = (fld cd_audio_header ''channels_count'' p :: u16)"
  "fld cd_audio_header ''frames_count'' (slice 0 48 p) = (fld cd_audio_header ''frames_count'' p :: u32)"
  "fld cd_audio_header ''data_size'' (slice 0 48 p) = (fld cd_audio_header ''data_size'' p :: u32)"
  by (simp_all add: fld_slice cd_audio_header_def)

lemma contract_demux_None_iff:
  assumes "unat sz = length p"
  shows "contract_demux h p sz out = None \<longleftrightarrow>
    eh_frame_type h = type_to_u32 AUDIO_BLOCK \<and> 48 \<le> length p \<and>
    48 + unat (fld cd_audio_header ''data_size'' p :: u32) \<le> length p \<and>
    length p < 48 + 2 * unat (ucast (fld cd_audio_header ''channels_count'' p :: u16) *
      fld cd_audio_header ''frames_count'' p :: u32)"
proof -
  have "contract_demux_imu p sz out \<noteq> None" "contract_demux_trajectory p sz out \<noteq> None"
    "contract_demux_gps p sz out \<noteq> None"
    using assms by (simp_all add: contract_demux_imu_def contract_demux_trajectory_def contract_demux_gps_def Let_def)
  then have "contract_demux h p sz out = None \<longleftrightarrow>
      eh_frame_type h = type_to_u32 AUDIO_BLOCK \<and> contract_demux_audio p sz out = None"
    by (auto simp: contract_demux_def Let_def)
  moreover have "contract_demux_audio p sz out = None \<longleftrightarrow> 48 \<le> length p \<and>
      48 + unat (fld cd_audio_header ''data_size'' p :: u32) \<le> length p \<and>
      length p < 48 + 2 * unat (ucast (fld cd_audio_header ''channels_count'' p :: u16) *
        fld cd_audio_header ''frames_count'' p :: u32)"
    using assms
    by (auto simp: contract_demux_audio_def Let_def cd_slice not_less load_bytes_None_iff bind_eq_None_conv mult.commute)
  ultimately show ?thesis by simp
qed

text \<open>C38: the demultiplexer of contract frames leaves the payload in exactly one case: an audio block
  whose channel and frame counts (their product taken in 32 bits) ask for more samples than
  follow the block's header, although its data size fits. The counts are not compared with the
  data size.\<close>

theorem contract_demux_overread:
  assumes "unat sz = length p"
  shows "contract_demux h p sz out = None \<longleftrightarrow>
    eh_frame_type h = type_to_u32 AUDIO_BLOCK \<and> 48 \<le> length p \<and>
    48 + unat (fld cd_audio_header ''data_size'' p :: u32) \<le> length p \<and>
    length p < 48 + 2 * unat (ucast (fld cd_audio_header ''channels_count'' p :: u16) *
      fld cd_audio_header ''frames_count'' p :: u32)"
  by (rule contract_demux_None_iff [OF assms])

text \<open>The payload of an audio block as the sender lays it out: the packed header, then the samples.\<close>

definition audio_payload ::
  "u64 \<Rightarrow> u64 \<Rightarrow> u64 \<Rightarrow> u32 \<Rightarrow> u16 \<Rightarrow> u32 \<Rightarrow> u32 \<Rightarrow> u32 \<Rightarrow> u16 list \<Rightarrow> bytes"
where
  "audio_payload block t0 t1 rate channels frames lay data_size samples =
     le_bytes 8 block @ le_bytes 8 t0 @ le_bytes 8 t1 @ le_bytes 4 rate @ le_bytes 2 channels @
     le_bytes 2 (2 :: u16) @ le_bytes 4 frames @ le_bytes 4 lay @ le_bytes 4 data_size @
     le_bytes 4 (0 :: u32) @ concat (map (le_bytes 2) samples)"

lemma length_sample_bytes [simp]: "length (concat (map (le_bytes 2) ss)) = 2 * length ss"
  by (induction ss) auto

lemma length_audio_payload [simp]: "length (audio_payload b t0 t1 r c f l d ss) = 48 + 2 * length ss"
  by (simp add: audio_payload_def)

lemma audio_payload_fields:
  "fld cd_audio_header ''t0_ns'' (audio_payload b t0 t1 r c f l d ss) = t0"
  "fld cd_audio_header ''sample_rate_hz'' (audio_payload b t0 t1 r c f l d ss) = r"
  "fld cd_audio_header ''channels_count'' (audio_payload b t0 t1 r c f l d ss) = c"
  "fld cd_audio_header ''frames_count'' (audio_payload b t0 t1 r c f l d ss) = f"
  "fld cd_audio_header ''data_size'' (audio_payload b t0 t1 r c f l d ss) = d"
  by (simp_all add: fld_def cd_audio_header_def audio_payload_def rd_def le_simps take_bit_word_eq_self)

theorem contract_demux_overread_witness:
  "contract_demux (make_frame_header AUDIO_BLOCK 2 0 0 1 0 0 48 0) (audio_payload 0 0 0 48000 1 1 0 0 [])
     48 new_ego_streams = None"
  by (subst contract_demux_overread) (simp_all add: audio_payload_fields make_frame_header_def)

lemma samples_of_bytes [simp]: "samples_of (concat (map (le_bytes 2) ss)) = ss"
proof (induction ss)
  case Nil
  then show ?case by (simp add: samples_of_def)
next
  case (Cons s ss)
  have "samples_of (le_bytes 2 s @ bs) = s # samples_of bs" for bs
  proof -
    have "[0..<length (le_bytes 2 s @ bs) div 2] = 0 # map Suc [0..<length bs div 2]"
      by (simp add: upt_conv_Cons map_Suc_upt del: upt_Suc)
    then show ?thesis
      by (simp add: samples_of_def rd_def le_simps take_bit_word_eq_self)
  qed
  then show ?case using Cons.IH by simp
qed

text \<open>An audio block of the sender comes out of the offline demultiplexer as it went in: the block's
  start time, rate and counts, and every sample in order, appended to the blocks decoded before.\<close>

theorem contract_audio_decoded:
  assumes "length ss = unat c * unat f" and "48 + 2 * length ss < 2 ^ 32"
    and "eh_frame_type h = type_to_u32 AUDIO_BLOCK"
    and "p = audio_payload b t0 t1 r c f l (of_nat (2 * length ss)) ss"
  shows "contract_demux h p (of_nat (length p)) out =
    Some (True, out\<lparr>de_audio := de_audio out @
      [\<lparr>ab_ts_ns = t0, ab_channels = ucast c, ab_sample_rate_hz = r, ab_frame_count = f,
        ab_samples = ss\<rparr>]\<rparr>)"
proof -
  have n: "unat (ucast c * f :: u32) = length ss"
  proof -
    have "unat (ucast c :: u32) = unat c" 
      using unsigned_less [of c, where ?'a = nat]
      by (simp add: unsigned_ucast_eq take_bit_nat_eq_self)
    then show ?thesis
      using assms(1,2) by (simp add: unat_word_ariths mult.commute)
  qed
  have sz: "unat (of_nat (48 + 2 * length ss) :: u32) = 48 + 2 * length ss"
    "unat (of_nat (2 * length ss) :: u32) = 2 * length ss"
    using assms(2) by (simp_all add: unat_of_nat_small del: of_nat_add of_nat_mult)
  have pcm: "slice 48 (2 * length ss) p = concat (map (le_bytes 2) ss)"
    unfolding assms(4) audio_payload_def by (simp add: le_simps)
  have lp: "length p = 48 + 2 * length ss" using assms(4) by simp
  have hd: "fld cd_audio_header ''t0_ns'' (slice 0 48 p) = t0"
    "fld cd_audio_header ''sample_rate_hz'' (slice 0 48 p) = r"
    "fld cd_audio_header ''channels_count'' (slice 0 48 p) = c"
    "fld cd_audio_header ''frames_count'' (slice 0 48 p) = f"
    "fld cd_audio_header ''data_size'' (slice 0 48 p) = (of_nat (2 * length ss) :: u32)"
    by (simp_all add: cd_slice assms(4) audio_payload_fields)
  show ?thesis
    using assms(3)
    by (simp add: contract_demux_def contract_demux_audio_def Let_def lp hd sz [simplified] n pcm sample_vector_def
        load_bytes_def mult.commute [of _ 2])
qed

theorem contract_audio_decoded_witness:
  "contract_demux (make_frame_header AUDIO_BLOCK 2 0 0 1 0 0 56 0)
     (audio_payload 1 5 9 48000 2 2 0 8 [10, 20, 30, 40]) 56 new_ego_streams =
   Some (True, new_ego_streams\<lparr>de_audio := [\<lparr>ab_ts_ns = 5, ab_channels = 2,
     ab_sample_rate_hz = 48000, ab_frame_count = 2, ab_samples = [10, 20, 30, 40]\<rparr>]\<rparr>)"
  using contract_audio_decoded [of "[10, 20, 30, 40]" 2 2 "make_frame_header AUDIO_BLOCK 2 0 0 1 0 0 56 0"
      "audio_payload 1 5 9 48000 2 2 0 8 [10, 20, 30, 40]" 1 5 9 48000 0 new_ego_streams]
  by (simp add: make_frame_header_def new_ego_streams_def)

end
