(* ===== verification/ValidatePipeline.thy ===== *)
theory ValidatePipeline
  imports ScanStatistics Handover Demux
begin

text \<open>
  The validation run of the pipeline, \<open>Pipeline::run_validate\<close> in \<open>offline/src/pipeline/pipeline.cpp\<close>: one
  scan of the session that checks, decodes and counts every packet, the same for the source file, and the
  report. A path is a name in the session directory. Where the process would be ended by a division by
  zero, or would read outside a payload, the outcome is \<open>Run_crash\<close>; an exception nobody catches is
  \<open>Run_throw\<close>.
\<close>

section \<open>Options and outcomes\<close>

record run_options =
  ro_source_bin :: string
  ro_out_dir :: string
  ro_only_validate :: bool
  ro_only_sync :: bool
  ro_only_mdf4 :: bool
  ro_only_scenes :: bool
  ro_skip_s3 :: bool
  ro_only_upload :: bool
  ro_upload_dry_run :: bool

definition default_run_options :: run_options where
  "default_run_options = \<lparr>ro_source_bin = [], ro_out_dir = [], ro_only_validate = False, ro_only_sync = False,
     ro_only_mdf4 = False, ro_only_scenes = False, ro_skip_s3 = False, ro_only_upload = False,
     ro_upload_dry_run = False\<rparr>"

datatype run_outcome = Run_exit exit_code dir | Run_throw string | Run_crash

definition out_dir :: "run_options \<Rightarrow> string" where
  "out_dir opts = (if ro_out_dir opts \<noteq> [] then ro_out_dir opts else ''offline'')"

definition join_path :: "string \<Rightarrow> string \<Rightarrow> string" where
  "join_path p n = p @ ''/'' @ n"

section \<open>The packets of a session\<close>

text \<open>The check of a contract frame, in the order of the code.\<close>

definition contract_packet_ok :: "raw_packet \<Rightarrow> bool" where
  "contract_packet_ok raw =
     (let h = rp_contract_header raw;
          ok = (eh_magic h = kContractMagic \<and> unat (eh_payload_size h) = length (rp_payload raw));
          ok = (if ok \<and> eh_payload_size h > 0
                then offline_crc32 (take (unat (eh_payload_size h)) (rp_payload raw)) = eh_payload_crc32 h
                else ok)
      in if ok then offline_crc32 (header_bytes (h\<lparr>eh_header_crc32 := 0\<rparr>)) = eh_header_crc32 h else ok)"

definition packet_ok :: "raw_packet \<Rightarrow> bool" where
  "packet_ok raw = (if rp_is_contract raw then contract_packet_ok raw else pr_status (validate_raw raw) = Ps_ok)"

text \<open>Decoding a packet that passed; None for a read outside the payload.\<close>

definition decode_packet :: "raw_packet \<Rightarrow> decoded_ego_streams \<Rightarrow> decoded_ego_streams option" where
  "decode_packet raw streams =
     map_option snd
       (if rp_is_contract raw
        then contract_demux (rp_contract_header raw) (rp_payload raw) (eh_payload_size (rp_contract_header raw)) streams
        else packet_demux (ph_type (rp_header raw)) (ph_ts_ns (rp_header raw)) (rp_payload raw)
          (ph_payload_size (rp_header raw)) streams)"

text \<open>The callback of the scan, on the statistics and the decoded streams.\<close>

definition ego_packet ::
  "raw_packet \<Rightarrow> scan_accumulator \<times> decoded_ego_streams \<Rightarrow> (scan_accumulator \<times> decoded_ego_streams) option"
where
  "ego_packet raw st =
     (case st of (acc, streams) \<Rightarrow>
        let ok = packet_ok raw in
        Option.bind (if ok then decode_packet raw streams else Some streams) (\<lambda>streams'.
          map_option (\<lambda>acc'. (acc', streams')) (accumulate raw ok acc)))"

definition scan_ego ::
  "offline_config \<Rightarrow> dir \<Rightarrow> log_manifest \<Rightarrow> (scan_accumulator \<times> decoded_ego_streams) option"
where
  "scan_ego cfg d m =
     ego_scan d (\<lambda>raw s. (True, Option.bind s (ego_packet raw))) (new_ego_reader d m)
       (Some (new_accumulator (Some cfg) (lm_chunks m \<noteq> []), new_ego_streams))"

definition source_packet ::
  "raw_packet \<Rightarrow> scan_accumulator \<times> decoded_source_streams \<Rightarrow>
     (scan_accumulator \<times> decoded_source_streams) option"
where
  "source_packet raw st =
     (case st of (acc, streams) \<Rightarrow>
        let ok = (pr_status (validate_raw raw) = Ps_ok) in
        Option.bind (accumulate raw ok acc) (\<lambda>acc'.
          if ok
          then map_option (\<lambda>(_, streams'). (acc', streams'))
            (source_demux (ph_type (rp_header raw)) (ph_ts_ns (rp_header raw)) (rp_payload raw)
              (ph_payload_size (rp_header raw)) streams)
          else Some (acc', streams)))"

text \<open>The source file is optional: without it the stream is marked and the run goes on.\<close>

definition source_missing :: stream_validation where
  "source_missing = new_stream_validation\<lparr>sv_file_ok := False,
     sv_file_errors := [''source.bin not found (optional '' @
       map char_of [0xE2, 0x80, 0x94 :: nat] @ '' skipping)'']\<rparr>"

definition scan_source ::
  "offline_config \<Rightarrow> dir \<Rightarrow> string \<Rightarrow> (stream_validation \<times> decoded_source_streams) option"
where
  "scan_source cfg d src_bin =
     (if fget d src_bin = None then Some (source_missing, new_source_streams)
      else map_option (\<lambda>(acc, streams). (sa_sv acc, streams))
        (source_scan d (\<lambda>raw s. (True, Option.bind s (source_packet raw))) (single_file_manifest src_bin)
          (Some (new_accumulator (Some cfg) True, new_source_streams))))"

section \<open>The run\<close>

definition source_bin_of :: "run_options \<Rightarrow> string" where
  "source_bin_of opts = (if ro_source_bin opts = [] then ''source.bin'' else ro_source_bin opts)"

text \<open>Metadata that cannot be loaded is a warning; the values are the initial ones then.\<close>

definition empty_session_meta :: session_meta where
  "empty_session_meta = \<lparr>mt_session_id = [], mt_vehicle_id = [], mt_started_at_utc = [], mt_stopped_at_utc = [],
     mt_runtime_version = [], mt_protocol_version = [], mt_duration_s = f64_zero\<rparr>"

definition bundle_or_empty :: "dir \<Rightarrow> session_bundle" where
  "bundle_or_empty d =
     (case session_bundle_load d of Inr b \<Rightarrow> b
      | Inl _ \<Rightarrow> \<lparr>sb_session = empty_session_meta, sb_scenario = None, sb_source = None\<rparr>)"

definition run_validate :: "offline_config \<Rightarrow> string \<Rightarrow> bool \<Rightarrow> run_options \<Rightarrow> dir \<Rightarrow> run_outcome" where
  "run_validate cfg now report_open_ok opts d =
     (let meta = bundle_or_empty d in
      case ego_manifest_from_json d ''ego_manifest.json'' of
        Inl _ \<Rightarrow> Run_exit EC_validation_error d
      | Inr manifest \<Rightarrow>
          (case scan_ego cfg d manifest of
             None \<Rightarrow> Run_crash
           | Some (ego_acc, ego_streams) \<Rightarrow>
               (case scan_source cfg d (source_bin_of opts) of
                  None \<Rightarrow> Run_crash
                | Some (src_sv, _) \<Rightarrow>
                    let rpt = build_report cfg now (mt_session_id (sb_session meta)) (sa_sv ego_acc) src_sv in
                    case write_report report_open_ok (join_path (out_dir opts) ''validation_report.json'') rpt d of
                      Inl what \<Rightarrow> Run_throw what
                    | Inr d' \<Rightarrow>
                        Run_exit
                          (if vr_integrity rpt = Integrity_failed \<and> oc_fail_on_no_valid_ranges cfg
                           then EC_validation_error else EC_success) d')))"

section \<open>Scans\<close>

text \<open>What a reader promises: a scan whose callback never stops is a pass over a list of packets. The state
  may have ended, which is None.\<close>

locale packet_scan =
  fixes scan :: "(raw_packet \<Rightarrow> 'a option \<Rightarrow> bool \<times> 'a option) \<Rightarrow> 'a option \<Rightarrow> 'a option"
    and packets :: "raw_packet list"
  assumes scan_all: "scan (\<lambda>p s. (True, f p s)) s = fold f packets s"

fun fold_option :: "('p \<Rightarrow> 'a \<Rightarrow> 'a option) \<Rightarrow> 'p list \<Rightarrow> 'a \<Rightarrow> 'a option" where
  "fold_option f [] a = Some a"
| "fold_option f (p # ps) a = Option.bind (f p a) (fold_option f ps)"

lemma fold_bind: "fold (\<lambda>p s. Option.bind s (f p)) ps s = Option.bind s (fold_option f ps)"
proof (induction ps arbitrary: s)
  case Nil
  then show ?case by (cases s) simp_all
next
  case (Cons p ps)
  then show ?case by (cases s) simp_all
qed

lemma fold_option_snoc: "fold_option f (ps @ [p]) a = Option.bind (fold_option f ps a) (f p)"
proof (induction ps arbitrary: a)
  case Nil
  then show ?case by (cases "f p a") simp_all
next
  case (Cons q ps)
  then show ?case by (cases "f q a") simp_all
qed

text \<open>An invariant of the packets seen so far, and when a pass ends early.\<close>

lemma fold_option_inv:
  assumes "fold_option f ps a = Some b" "I [] a"
    and "\<And>qs p x y. I qs x \<Longrightarrow> f p x = Some y \<Longrightarrow> I (qs @ [p]) y"
  shows "I ps b"
  using assms(1)
proof (induction ps arbitrary: b rule: rev_induct)
  case Nil
  then show ?case using assms(2) by simp
next
  case (snoc p ps)
  then show ?case using assms(3) by (auto simp: fold_option_snoc split: bind_splits)
qed

lemma fold_option_None_iff:
  assumes "\<And>p x. p \<in> set ps \<Longrightarrow> f p x = None \<longleftrightarrow> bad p"
  shows "fold_option f ps a = None \<longleftrightarrow> (\<exists>p \<in> set ps. bad p)"
  using assms
proof (induction ps arbitrary: a)
  case (Cons p ps)
  have "f p a = None \<longleftrightarrow> bad p" using Cons.prems by simp
  moreover have "fold_option f ps b = None \<longleftrightarrow> (\<exists>p \<in> set ps. bad p)" for b
    using Cons.prems by (intro Cons.IH) simp
  ultimately show ?case by (cases "f p a") auto
qed simp

context packet_scan
begin

lemma scan_pass: "scan (\<lambda>p s. (True, Option.bind s (f p))) (Some a) = fold_option f packets a"
  by (simp add: scan_all fold_bind)

lemma scan_inv:
  assumes "scan (\<lambda>p s. (True, Option.bind s (f p))) (Some a) = Some b" "I [] a"
    and "\<And>qs p x y. I qs x \<Longrightarrow> f p x = Some y \<Longrightarrow> I (qs @ [p]) y"
  shows "I packets b"
  using assms unfolding scan_pass by (rule fold_option_inv)

lemma scan_ends_iff:
  assumes "\<And>p x. p \<in> set packets \<Longrightarrow> f p x = None \<longleftrightarrow> bad p"
  shows "scan (\<lambda>p s. (True, Option.bind s (f p))) (Some a) = None \<longleftrightarrow> (\<exists>p \<in> set packets. bad p)"
  using assms unfolding scan_pass by (rule fold_option_None_iff)

end

text \<open>Both readers keep the promise.\<close>

function source_chunk_packets :: "u32 \<Rightarrow> u64 \<Rightarrow> bytes \<Rightarrow> raw_packet list" where
  "source_chunk_packets c off bs =
     (let h = packet_header_at bs; m = unat (ph_payload_size h) in
      if length bs < 34 \<or> ph_magic h \<noteq> kMagic then []
      else if ph_type h < 101 \<or> ph_type h > 199
      then source_chunk_packets c (off + 34 + of_nat m) (drop (34 + m) bs)
      else if 0 < m \<and> length bs < 34 + m then []
      else legacy_packet c off bs # source_chunk_packets c (off + 34 + of_nat m) (drop (34 + m) bs))"
  by pat_completeness auto
termination by (relation "measure (\<lambda>(_, _, bs). length bs)") auto

declare source_chunk_packets.simps [simp del]

definition source_packets :: "dir \<Rightarrow> log_manifest \<Rightarrow> raw_packet list" where
  "source_packets d m = concat (map (\<lambda>c. case fget d (cr_path c) of None \<Rightarrow> []
     | Some bs \<Rightarrow> source_chunk_packets (cr_chunk_id c) 0 bs) (lm_chunks m))"

lemma scan_source_from_all:
  "scan_source_from (\<lambda>p s. (True, f p s)) c off bs s = (True, fold f (source_chunk_packets c off bs) s)"
proof (induction c off bs arbitrary: s rule: source_chunk_packets.induct)
  case (1 c off bs)
  then show ?case
    by (subst scan_source_from.simps, subst source_chunk_packets.simps) (auto simp: Let_def unat_eq_zero)
qed

lemma source_scan_all: "source_scan d (\<lambda>p s. (True, f p s)) m s = fold f (source_packets d m) s"
proof -
  have "scan_source_chunks d (\<lambda>p s. (True, f p s)) cs s =
      fold f (concat (map (\<lambda>c. case fget d (cr_path c) of None \<Rightarrow> []
        | Some bs \<Rightarrow> source_chunk_packets (cr_chunk_id c) 0 bs) cs)) s" for cs
    by (induction cs arbitrary: s) (simp_all add: scan_source_from_all split: option.split)
  then show ?thesis by (simp add: source_scan_def source_packets_def)
qed

interpretation ego_reader: packet_scan "\<lambda>cb s. ego_scan d cb r s" "session_packets d r" for d r
  by unfold_locales (rule ego_scan_all)

interpretation source_reader: packet_scan "\<lambda>cb s. source_scan d cb m s" "source_packets d m" for d m
  by unfold_locales (rule source_scan_all)

section \<open>What a run finds\<close>

text \<open>The pipeline's check of a frame is the recorder's, but for the header size and the limit.\<close>

lemma three_checks:
  "(if if a \<and> b then c else a then d else if a \<and> b then c else a) \<longleftrightarrow> a \<and> (b \<longrightarrow> c) \<and> d"
  by auto

lemma contract_packet_ok_conj:
  "contract_packet_ok p \<longleftrightarrow>
     eh_magic (rp_contract_header p) = kContractMagic \<and>
     unat (eh_payload_size (rp_contract_header p)) = length (rp_payload p) \<and>
     (eh_payload_size (rp_contract_header p) > 0 \<longrightarrow>
       offline_crc32 (take (unat (eh_payload_size (rp_contract_header p))) (rp_payload p)) =
         eh_payload_crc32 (rp_contract_header p)) \<and>
     offline_crc32 (header_bytes ((rp_contract_header p)\<lparr>eh_header_crc32 := 0\<rparr>)) =
       eh_header_crc32 (rp_contract_header p)"
  unfolding contract_packet_ok_def Let_def three_checks conj_assoc by (rule refl)

lemma contract_packet_ok_iff:
  "valid_frame mx (packet_frame p) \<longleftrightarrow>
     contract_packet_ok p \<and> eh_header_size (rp_contract_header p) = 72 \<and>
     eh_payload_size (rp_contract_header p) \<le> mx"
proof -
  let ?h = "rp_contract_header p" and ?b = "rp_payload p"
  have f: "header_of_bytes (packet_frame p) = ?h" "drop 72 (packet_frame p) = ?b"
    "length (packet_frame p) = 72 + length ?b"
    by (simp_all add: packet_frame_def)
  have g: "EGO_FRAME_MAGIC = kContractMagic" by (simp add: kContractMagic_def EGO_FRAME_MAGIC_def)
  have c: "contract_crc32 bs = offline_crc32 bs" for bs by (simp only: crc_froms)
  note ok = contract_packet_ok_conj [of p]
  show ?thesis
  proof (cases "unat (eh_payload_size ?h) = length ?b")
    case True
    then have "take (unat (eh_payload_size ?h)) ?b = ?b" by simp
    with True show ?thesis
      by (simp add: validate_contract_frame_def ok f g c Let_def not_less) (auto simp: not_less)
  next
    case False
    then show ?thesis by (simp add: validate_contract_frame_def ok f Let_def)
  qed
qed

lemma decode_legacy: "pr_status (validate_raw p) = Ps_ok \<Longrightarrow> \<not> rp_is_contract p \<Longrightarrow> decode_packet p s \<noteq> None"
proof -
  assume p: "pr_status (validate_raw p) = Ps_ok" "\<not> rp_is_contract p"
  then have "unat (ph_payload_size (rp_header p)) \<le> length (rp_payload p)"
    by (auto simp: validate_raw_def Let_def new_parse_result_def not_less split: if_splits)
  with p(2) show ?thesis using packet_demux_within by (simp add: decode_packet_def)
qed

lemma decode_contract:
  assumes "contract_packet_ok p" "rp_is_contract p"
  shows "decode_packet p s = None \<longleftrightarrow> decode_packet p s' = None"
proof -
  have sz: "unat (eh_payload_size (rp_contract_header p)) = length (rp_payload p)"
    using assms(1) unfolding contract_packet_ok_conj by blast
  from assms(2) show ?thesis
    unfolding decode_packet_def by (simp only: if_True option.map_disc_iff contract_demux_None_iff [OF sz])
qed

text \<open>The packets that end the process: they pass the check, and then the decoder leaves the payload or the
  statistics divide by zero.\<close>

definition fatal_packet :: "raw_packet \<Rightarrow> bool" where
  "fatal_packet p \<longleftrightarrow> packet_ok p \<and> (decode_packet p new_ego_streams = None \<or> zero_rate_block p)"

lemma ego_packet_None_iff: "ego_packet p st = None \<longleftrightarrow> fatal_packet p"
proof -
  obtain acc streams where st: "st = (acc, streams)" by (cases st)
  have dec: "packet_ok p \<Longrightarrow> decode_packet p streams = None \<longleftrightarrow> decode_packet p new_ego_streams = None"
    using decode_contract [of p streams new_ego_streams] decode_legacy [of p streams] decode_legacy [of p new_ego_streams]
    by (cases "rp_is_contract p") (auto simp: packet_ok_def)
  show ?thesis
  proof (cases "packet_ok p")
    case True
    then show ?thesis using dec accumulate_None_iff [of p True acc]
      by (cases "decode_packet p streams") (auto simp: ego_packet_def st fatal_packet_def)
  next
    case False
    then show ?thesis using accumulate_None_iff [of p False acc]
      by (simp add: ego_packet_def st fatal_packet_def)
  qed
qed

abbreviation checked :: "raw_packet list \<Rightarrow> (raw_packet \<times> bool) list" where
  "checked ps \<equiv> map (\<lambda>p. (p, packet_ok p)) ps"

lemma scan_ego_None_iff:
  "scan_ego cfg d m = None \<longleftrightarrow> (\<exists>p \<in> set (session_packets d (new_ego_reader d m)). fatal_packet p)"
  unfolding scan_ego_def by (rule ego_reader.scan_ends_iff) (rule ego_packet_None_iff)

lemma scan_ego_statistics:
  assumes "scan_ego cfg d m = Some (acc, streams)"
  shows "accumulate_all (checked (session_packets d (new_ego_reader d m)))
    (new_accumulator (Some cfg) (lm_chunks m \<noteq> [])) = Some acc"
proof -
  let ?acc0 = "new_accumulator (Some cfg) (lm_chunks m \<noteq> [])"
  have "(\<lambda>ps (x, _). accumulate_all (checked ps) ?acc0 = Some x)
      (session_packets d (new_ego_reader d m)) (acc, streams)"
    by (rule ego_reader.scan_inv [OF assms [unfolded scan_ego_def]])
      (auto simp: ego_packet_def accumulate_all_snoc Let_def split: bind_splits if_splits)
  then show ?thesis by simp
qed

text \<open>The header the statistics look at is made from the frame's.\<close>

lemma contract_packets_copied:
  "p \<in> set (contract_packets c off bs) \<Longrightarrow>
     ph_ts_ns (rp_header p) = eh_t0_ns (rp_contract_header p) \<and>
     ph_seq (rp_header p) = ucast (eh_seq (rp_contract_header p)) \<and>
     ph_type (rp_header p) = ucast (eh_frame_type (rp_contract_header p))"
proof (induction c off bs rule: contract_packets.induct)
  case (1 c off bs)
  let ?h = "header_of_bytes bs" and ?m = "unat (eh_payload_size (header_of_bytes bs))"
  show ?case
  proof (cases "length bs < 72 \<or> eh_magic ?h \<noteq> kContractMagic \<or> (0 < ?m \<and> length bs < 72 + ?m)")
    case True
    then show ?thesis using 1(2) by (subst (asm) contract_packets.simps) (auto simp: Let_def)
  next
    case False
    then have "p = contract_packet c off bs \<or>
        p \<in> set (contract_packets c (off + 72 + of_nat ?m) (drop (72 + ?m) bs))"
      using 1(2) by (subst (asm) contract_packets.simps) (simp only: Let_def if_False list.set insert_iff)
    then show ?thesis using 1(1) [OF refl refl False] by (auto simp: contract_packet_def Let_def)
  qed
qed

lemma legacy_packets_legacy: "p \<in> set (legacy_packets c off bs) \<Longrightarrow> \<not> rp_is_contract p"
proof (induction c off bs rule: legacy_packets.induct)
  case (1 c off bs)
  let ?h = "packet_header_at bs" and ?m = "unat (ph_payload_size (packet_header_at bs))"
  show ?case
  proof (cases "length bs < 34 \<or> ph_magic ?h \<noteq> kMagic \<or> (0 < ?m \<and> length bs < 34 + ?m)")
    case True
    then show ?thesis using 1(2) by (subst (asm) legacy_packets.simps) (auto simp: Let_def)
  next
    case False
    then have "p = legacy_packet c off bs \<or>
        p \<in> set (legacy_packets c (off + 34 + of_nat ?m) (drop (34 + ?m) bs))"
      using 1(2) by (subst (asm) legacy_packets.simps) (simp only: Let_def if_False list.set insert_iff)
    then show ?thesis
      using 1(1) [OF refl refl False] by (auto simp: legacy_packet_def default_raw_packet_def Let_def)
  qed
qed

lemma session_packets_copied:
  assumes "p \<in> set (session_packets d r)" "rp_is_contract p"
  shows "ph_ts_ns (rp_header p) = eh_t0_ns (rp_contract_header p)"
    "ph_seq (rp_header p) = ucast (eh_seq (rp_contract_header p))"
    "ph_type (rp_header p) = ucast (eh_frame_type (rp_contract_header p))"
proof -
  from assms have "\<exists>c off bs. p \<in> set (contract_packets c off bs)"
    using legacy_packets_legacy by (auto simp: session_packets_def chunk_packets_def split: option.splits if_splits)
  then show "ph_ts_ns (rp_header p) = eh_t0_ns (rp_contract_header p)"
    "ph_seq (rp_header p) = ucast (eh_seq (rp_contract_header p))"
    "ph_type (rp_header p) = ucast (eh_frame_type (rp_contract_header p))"
    using contract_packets_copied by blast+
qed

section \<open>A recorded session is valid\<close>

text \<open>A frame that would end the run, read as the session's scan reads it.\<close>

definition fatal_frame :: "bytes \<Rightarrow> bool" where
  "fatal_frame f \<longleftrightarrow>
     (let h = header_of_bytes f; payload = drop 72 f in
      contract_demux h payload (eh_payload_size h) new_ego_streams = None \<or>
      ((ucast (eh_frame_type h) :: u16) = packet_type_u16 kAudioBlock \<and>
       layout_size audio_block_header \<le> length payload \<and> audio_period payload = None))"

definition frame_times :: "bytes list \<Rightarrow> ns_t list" where
  "frame_times fs = map (\<lambda>f. eh_t0_ns (header_of_bytes f)) fs"

definition frame_seqs :: "bytes list \<Rightarrow> u32 list" where
  "frame_seqs fs = map (\<lambda>f. ucast (eh_seq (header_of_bytes f))) fs"

lemma packet_frame_parts:
  "header_of_bytes (packet_frame p) = rp_contract_header p" "drop 72 (packet_frame p) = rp_payload p"
  by (simp_all add: packet_frame_def)



section \<open>The outcome of a run\<close>

lemma source_chunk_packets_type:
  "p \<in> set (source_chunk_packets c off bs) \<Longrightarrow> 101 \<le> ph_type (rp_header p)"
proof (induction c off bs rule: source_chunk_packets.induct)
  case (1 c off bs)
  let ?h = "packet_header_at bs" and ?m = "unat (ph_payload_size (packet_header_at bs))"
  let ?stop = "length bs < 34 \<or> ph_magic ?h \<noteq> kMagic" and ?skip = "ph_type ?h < 101 \<or> ph_type ?h > 199"
    and ?short = "0 < ?m \<and> length bs < 34 + ?m"
  show ?case
  proof (cases "?stop")
    case True
    then show ?thesis using 1(3) by (subst (asm) source_chunk_packets.simps) (auto simp: Let_def)
  next
    case e: False
    show ?thesis
    proof (cases "?skip")
      case True
      then have "p \<in> set (source_chunk_packets c (off + 34 + of_nat ?m) (drop (34 + ?m) bs))"
        using 1(3) e by (subst (asm) source_chunk_packets.simps) (simp only: Let_def if_False if_True)
      then show ?thesis by (rule 1(1) [OF refl refl e True])
    next
      case k: False
      show ?thesis
      proof (cases "?short")
        case True
        then show ?thesis using 1(3) e k
          by (subst (asm) source_chunk_packets.simps) (simp only: Let_def if_False if_True, simp)
      next
        case False
        then have "p = legacy_packet c off bs \<or>
            p \<in> set (source_chunk_packets c (off + 34 + of_nat ?m) (drop (34 + ?m) bs))"
          using 1(3) e k by (subst (asm) source_chunk_packets.simps) (simp only: Let_def if_False list.set insert_iff)
        then show ?thesis using 1(2) [OF refl refl e k False] k by (auto simp: legacy_packet_def Let_def not_less)
      qed
    qed
  qed
qed

lemma source_packet_total:
  assumes "p \<in> set (source_packets d m)"
  shows "source_packet p st \<noteq> None"
proof -
  have "101 \<le> ph_type (rp_header p)"
    using assms source_chunk_packets_type by (auto simp: source_packets_def split: option.splits)
  then have z: "\<not> zero_rate_block p" by (auto simp: zero_rate_block_def word_le_nat_alt)
  have le: "unat (ph_payload_size (rp_header p)) \<le> length (rp_payload p)" if "passes p"
    using that by (auto simp: validate_raw_def Let_def new_parse_result_def not_less split: if_splits)
  obtain acc streams where st: "st = (acc, streams)" by (cases st)
  obtain acc' where "accumulate p (passes p) acc = Some acc'"
    using z accumulate_None_iff [of p "passes p" acc] by auto
  moreover have "passes p \<Longrightarrow> source_demux (ph_type (rp_header p)) (ph_ts_ns (rp_header p)) (rp_payload p)
      (ph_payload_size (rp_header p)) streams \<noteq> None" by (rule source_demux_within [OF le])
  ultimately show ?thesis by (auto simp: source_packet_def st option.map_disc_iff simp del: not_None_eq)
qed

lemma scan_source_total: "\<exists>sv streams. scan_source cfg d n = Some (sv, streams)"
proof (cases "fget d n = None")
  case True
  then show ?thesis by (simp add: scan_source_def)
next
  case False
  have "source_scan d (\<lambda>raw s. (True, Option.bind s (source_packet raw))) (single_file_manifest n)
      (Some (new_accumulator (Some cfg) True, new_source_streams)) \<noteq> None"
    using source_reader.scan_ends_iff [of d "single_file_manifest n" source_packet "\<lambda>_. False"] source_packet_total
    by blast
  then show ?thesis using False by (auto simp: scan_source_def)
qed

lemma source_errors_inside:
  assumes "scan_source cfg d n = Some (sv, streams)" "t \<in> set (error_times sv)"
  shows "sint t \<le> sint (sv_t_last_ns sv)"
proof (cases "fget d n = None")
  case True
  then show ?thesis using assms by (auto simp: scan_source_def source_missing_def new_stream_validation_def error_times_def)
next
  case False
  then obtain acc where sc: "source_scan d (\<lambda>raw s. (True, Option.bind s (source_packet raw))) (single_file_manifest n)
      (Some (new_accumulator (Some cfg) True, new_source_streams)) = Some (acc, streams)" and sv: "sv = sa_sv acc"
    using assms(1) by (auto simp: scan_source_def)
  have "(\<lambda>ps (x, _). accumulate_all (map (\<lambda>p. (p, passes p)) ps) (new_accumulator (Some cfg) True) = Some x)
      (source_packets d (single_file_manifest n)) (acc, streams)"
    by (rule source_reader.scan_inv [OF sc])
      (auto simp: source_packet_def accumulate_all_snoc Let_def split: bind_splits if_splits option.splits)
  then show ?thesis using scanned_errors_inside assms(2) sv by auto
qed



end
