(* ===== verification/TimeSync.thy ===== *)
theory TimeSync
  imports FloatOps ValidatePipeline
begin

text \<open>
  Time synchronisation, \<open>offline/include/ego_offline/sync/time_sync.hpp\<close> and
  \<open>offline/src/sync/time_sync.cpp\<close>: the time model of a stream, the offset between the two clocks from the
  correlation of the GNSS speeds or from sirens and audio blocks, the decision between the two, and the
  report. The clock text of the report is an argument.
\<close>

section \<open>The time model\<close>

fun insert64 :: "f64 \<Rightarrow> f64 list \<Rightarrow> f64 list" where
  "insert64 x [] = [x]"
| "insert64 x (y # ys) = (if less64 y x then y # insert64 x ys else x # y # ys)"

definition sort64 :: "f64 list \<Rightarrow> f64 list" where "sort64 xs = foldr insert64 xs []"

definition median :: "f64 list \<Rightarrow> f64" where
  "median v0 =
     (if v0 = [] then f64_of_int 0
      else let v = sort64 v0; n = length v in
        if n mod 2 = 0 then div64 (add64 (v ! (n div 2 - 1)) (v ! (n div 2))) (f64_of_int 2) else v ! (n div 2))"

record time_model =
  tm_mean_rate_hz :: f64
  tm_median_dt_ns :: f64
  tm_outliers :: u32

text \<open>The increments that count, the sum of those that are no outliers, and their number.\<close>

definition positive_steps :: "ns_t list \<Rightarrow> f64 list" where
  "positive_steps ts = filter (less64 (f64_of_int 0)) (map (\<lambda>(a, b). f64_of_ns (b - a)) (zip ts (tl ts)))"

definition rate_step :: "f64 \<Rightarrow> f64 \<Rightarrow> u32 \<times> f64 \<times> u32 \<Rightarrow> u32 \<times> f64 \<times> u32" where
  "rate_step threshold d st =
     (case st of (outliers, acc, cnt) \<Rightarrow>
        if less64 threshold d then (outliers + 1, acc, cnt) else (outliers, add64 acc d, cnt + 1))"

definition estimate_time_model :: "ns_t list \<Rightarrow> time_model" where
  "estimate_time_model timestamps =
     (if length timestamps < 2
      then \<lparr>tm_mean_rate_hz = f64_of_int 0, tm_median_dt_ns = f64_of_int 0, tm_outliers = 0\<rparr>
      else
        let dts = positive_steps timestamps; med = median dts; threshold = mul64 med (f64_of_int 3);
            (outliers, acc, cnt) = fold (rate_step threshold) dts (0, f64_of_int 0, 0)
        in \<lparr>tm_mean_rate_hz =
              (if 0 < cnt \<and> less64 (f64_of_int 0) acc
               then div64 (mul64 (f64_of_u32 cnt) (f64_of_rat (10 ^ 9))) acc else f64_of_int 0),
            tm_median_dt_ns = med, tm_outliers = outliers\<rparr>)"

section \<open>Correlation of the speeds\<close>

record clock_estimate =
  ce_offset_ns :: ns_t
  ce_drift_ppm :: f64
  ce_rmse_ns :: f64
  ce_confidence :: f64
  ce_method :: string

definition new_estimate :: "string \<Rightarrow> clock_estimate" where
  "new_estimate how = \<lparr>ce_offset_ns = 0, ce_drift_ppm = f64_of_int 0, ce_rmse_ns = f64_of_int 0,
     ce_confidence = f64_of_int 0, ce_method = how\<rparr>"

definition good_fix :: "gnss_point \<Rightarrow> bool" where
  "good_fix g \<longleftrightarrow> gp_fix_quality g > 0 \<and> less32 (gp_hdop g) (f32_of_rat 5)"

text \<open>Resampling to one value a second: the last point that is not later. The list is what is left of the
  points, from the current one.\<close>

fun advance :: "ns_t \<Rightarrow> gnss_point list \<Rightarrow> gnss_point list" where
  "advance t (p # q # r) = (if sint (gp_ts_ns q) \<le> sint t then advance t (q # r) else p # q # r)"
| "advance t pts = pts"

primrec resample :: "nat \<Rightarrow> gnss_point list \<Rightarrow> ns_t \<Rightarrow> f32 list" where
  "resample 0 pts t = []"
| "resample (Suc n) pts t = (let rest = advance t pts in gp_speed_mps (hd rest) # resample n rest (t + kNsPerSec))"

definition sum64 :: "f64 list \<Rightarrow> f64" where "sum64 xs = foldl add64 (f64_of_int 0) xs"

text \<open>The correlation coefficient of two series of \<open>n\<close> values; None where a series is all but constant.\<close>

definition correlation :: "f32 list \<Rightarrow> f32 list \<Rightarrow> f64 option" where
  "correlation xs ys =
     (let n = f64_of_int (int (length xs));
          mx = div64 (sum64 (map f32_to_f64 xs)) n; my = div64 (sum64 (map f32_to_f64 ys)) n;
          dx = map (\<lambda>x. sub64 (f32_to_f64 x) mx) xs; dy = map (\<lambda>y. sub64 (f32_to_f64 y) my) ys;
          s_xy = sum64 (map2 mul64 dx dy); s_x2 = sum64 (map2 mul64 dx dx); s_y2 = sum64 (map2 mul64 dy dy);
          denom = sqrt64 (mul64 s_x2 s_y2)
      in if less64 denom (f64_of_rat (1 / 10 ^ 9)) then None else Some (div64 s_xy denom))"

text \<open>The search for the best offset on a grid of tenths of a second: a better score replaces the best one.\<close>

definition tenth :: ns_t where "tenth = 100000000"

definition trial_offsets :: "u32 \<Rightarrow> ns_t list" where
  "trial_offsets steps = map (\<lambda>s. of_int s * tenth) [- sint steps..sint steps]"

definition better :: "(ns_t \<Rightarrow> 'a option) \<Rightarrow> ('a \<Rightarrow> 'a \<Rightarrow> bool) \<Rightarrow> ns_t \<Rightarrow> 'a \<times> ns_t \<Rightarrow> 'a \<times> ns_t" where
  "better score lt off best =
     (case score off of None \<Rightarrow> best | Some x \<Rightarrow> if lt (fst best) x then (x, off) else best)"

definition search_offset :: "(ns_t \<Rightarrow> 'a option) \<Rightarrow> ('a \<Rightarrow> 'a \<Rightarrow> bool) \<Rightarrow> 'a \<Rightarrow> ns_t list \<Rightarrow> 'a \<times> ns_t" where
  "search_offset score lt start offs = fold (better score lt) offs (start, 0)"

definition window_ns :: "f64 \<Rightarrow> ns_t" where "window_ns w = f64_to_int64 (mul64 w (f64_of_ns kNsPerSec))"

definition xcorr_steps :: "f64 \<Rightarrow> u32" where "xcorr_steps w = f64_to_int32 (mul64 w (f64_of_int 2)) * 10"

definition xcorr_score :: "f64 \<Rightarrow> f32 list \<Rightarrow> gnss_point list \<Rightarrow> ns_t \<Rightarrow> nat \<Rightarrow> ns_t \<Rightarrow> f64 option" where
  "xcorr_score w ego_speed src t0 n off =
     (if sint (window_ns w) < sint (abs_ns off) then None
      else correlation ego_speed (resample n (map (\<lambda>g. g\<lparr>gp_ts_ns := gp_ts_ns g - off\<rparr>) src) t0))"

text \<open>The pairs of fixes the drift is fitted to: to each ego fix the nearest source fix, if within 5 s.\<close>

definition drift_pair :: "gnss_point list \<Rightarrow> ns_t \<Rightarrow> gnss_point \<Rightarrow> (f64 \<times> f64) list" where
  "drift_pair src off eg =
     (let target = gp_ts_ns eg + off;
          it = min_element (\<lambda>a b. sint (abs_ns (gp_ts_ns a - target)) < sint (abs_ns (gp_ts_ns b - target))) src
      in if sint (5 * kNsPerSec) < sint (abs_ns (gp_ts_ns it - target)) then []
         else [(f64_of_ns (gp_ts_ns eg), f64_of_ns (gp_ts_ns it))])"

text \<open>The regression line's slope and the root mean square of its residuals.\<close>

definition fit_drift :: "(f64 \<times> f64) list \<Rightarrow> clock_estimate \<Rightarrow> clock_estimate" where
  "fit_drift ps est =
     (let ex = map fst ps; sy = map snd ps; n = f64_of_int (int (length ps));
          sx = sum64 ex; sy' = sum64 sy; sxx = sum64 (map2 mul64 ex ex); sxy = sum64 (map2 mul64 ex sy);
          b = div64 (sub64 (mul64 n sxy) (mul64 sx sy')) (sub64 (mul64 n sxx) (mul64 sx sx));
          a = div64 (sub64 sy' (mul64 b sx)) n;
          res = map (\<lambda>(x, y). sub64 y (add64 a (mul64 b x))) ps;
          sse = sum64 (map2 mul64 res res)
      in if length ps < 3 then est
         else est\<lparr>ce_drift_ppm := mul64 (sub64 b (f64_of_int 1)) (f64_of_rat (10 ^ 6)),
                  ce_rmse_ns := sqrt64 (div64 sse n)\<rparr>)"

definition clamp_confidence :: "f64 \<Rightarrow> f64" where
  "clamp_confidence x = max64 (f64_of_int 0) (min64 (f64_of_int 1) x)"

definition sync_gnss_xcorr :: "gnss_point list \<Rightarrow> gnss_point list \<Rightarrow> f64 \<Rightarrow> clock_estimate" where
  "sync_gnss_xcorr ego_gps src_gps w =
     (let est = new_estimate ''gnss_xcorr''; ego_ok = filter good_fix ego_gps; src_ok = filter good_fix src_gps in
      if ego_ok = [] \<or> src_ok = [] then est
      else
        let t0 = gp_ts_ns (hd ego_ok); t1 = gp_ts_ns (last ego_ok);
            grid_n = ucast (sdiv64 (t1 - t0) kNsPerSec) + 1 :: u32
        in if sint grid_n < 5 then est
           else
             let n = nat (sint grid_n); ego_speed = resample n ego_ok t0;
                 (best, off) = search_offset (xcorr_score w ego_speed src_ok t0 n) less64
                   (f64_of_rat (- (10 ^ 99))) (trial_offsets (xcorr_steps w))
             in fit_drift (concat (map (drift_pair src_ok off) ego_ok))
                  (est\<lparr>ce_offset_ns := off,
                       ce_confidence := clamp_confidence (div64 (add64 best (f64_of_int 1)) (f64_of_int 2))\<rparr>))"

section \<open>Sirens and audio blocks\<close>

definition siren_ons :: "source_event list \<Rightarrow> ns_t list" where
  "siren_ons events = map sv_ts_ns (filter (\<lambda>e. sv_event_type e = source_event_u16 SE_siren_on) events)"

text \<open>How many sirens have an audio block within half a second of them, if the clocks are \<open>off\<close> apart.\<close>

definition heard :: "ns_t list \<Rightarrow> ns_t \<Rightarrow> ns_t \<Rightarrow> bool" where
  "heard onsets off son = list_ex (\<lambda>ao. sint (abs_ns (ao - (son - off))) < 500000000) onsets"

definition matches :: "ns_t list \<Rightarrow> ns_t list \<Rightarrow> ns_t \<Rightarrow> nat" where
  "matches sirens onsets off = length (filter (heard onsets off) sirens)"

definition fallback_steps :: "f64 \<Rightarrow> u32" where "fallback_steps w = f64_to_int32 (mul64 w (f64_of_int 10))"

definition sync_event_audio_fallback :: "source_event list \<Rightarrow> ns_t list \<Rightarrow> f64 \<Rightarrow> clock_estimate" where
  "sync_event_audio_fallback src_events onsets w =
     (let est = new_estimate ''event_audio''; sirens = siren_ons src_events in
      if sirens = [] \<or> onsets = [] then est
      else
        let (best, off) = search_offset (\<lambda>off. Some (matches sirens onsets off)) (<) 0 (trial_offsets (fallback_steps w))
        in est\<lparr>ce_offset_ns := off,
               ce_confidence :=
                 (if best = 0 then f64_of_int 0
                  else min64 (f64_of_int 1)
                    (mul64 (div64 (f64_of_int (int best)) (f64_of_int (int (length sirens)))) (f64_of_rat (8 / 10))))\<rparr>)"

section \<open>The synchroniser and its report\<close>

datatype sync_status = Sync_ok | Sync_degraded | Sync_failed

primrec sync_status_str :: "sync_status \<Rightarrow> string" where
  "sync_status_str Sync_ok = ''sync_ok''"
| "sync_status_str Sync_degraded = ''sync_degraded''"
| "sync_status_str Sync_failed = ''sync_failed''"

record sync_report =
  sr_pipeline_version :: string
  sr_session_id :: string
  sr_generated_at_utc :: string
  sr_status :: sync_status
  sr_master_clock :: string
  sr_method :: string
  sr_offset_ns :: ns_t
  sr_drift_ppm :: f64
  sr_rmse_ns :: f64
  sr_confidence :: f64
  sr_search_window_s :: f64
  sr_aligned_valid_range :: "(ns_t \<times> ns_t) option"
  sr_notes :: "string list"

definition new_sync_report :: sync_report where
  "new_sync_report = \<lparr>sr_pipeline_version = [], sr_session_id = [], sr_generated_at_utc = [],
     sr_status = Sync_failed, sr_master_clock = ''ego'', sr_method = ''unknown'', sr_offset_ns = 0,
     sr_drift_ppm = f64_of_int 0, sr_rmse_ns = f64_of_int 0, sr_confidence = f64_of_int 0,
     sr_search_window_s = f64_of_int 30, sr_aligned_valid_range = None, sr_notes = []\<rparr>"

definition filter_gps :: "time_range \<Rightarrow> gnss_point list \<Rightarrow> gnss_point list" where
  "filter_gps r = filter (\<lambda>g. sint (tr_start_ns r) \<le> sint (gp_ts_ns g) \<and> sint (gp_ts_ns g) \<le> sint (tr_end_ns r))"

definition em_dash :: string where "em_dash = map char_of [0xE2, 0x80, 0x94 :: nat]"

text \<open>The primary estimate, and the fallback where that is not trusted and the fallback is trusted more.\<close>

definition choose_estimate :: "offline_config \<Rightarrow> clock_estimate \<Rightarrow> clock_estimate \<Rightarrow> clock_estimate \<times> string list" where
  "choose_estimate cfg est fb =
     (if less64 (ce_confidence est) (oc_min_confidence cfg) \<and> less64 (ce_confidence est) (ce_confidence fb)
      then (fb, [''GNSS xcorr confidence low; used event+audio fallback'']) else (est, []))"

definition decide_status ::
  "offline_config \<Rightarrow> time_range \<Rightarrow> f64 \<Rightarrow> string list \<Rightarrow> sync_report \<Rightarrow> sync_report"
where
  "decide_status cfg r conf notes rpt =
     (if ge64 conf (oc_min_confidence cfg)
      then rpt\<lparr>sr_status := Sync_ok, sr_aligned_valid_range := Some (tr_start_ns r, tr_end_ns r), sr_notes := notes\<rparr>
      else if ge64 conf (mul64 (oc_min_confidence cfg) (f64_of_rat (1 / 2)))
      then rpt\<lparr>sr_status := Sync_degraded,
               sr_notes := notes @ [''Low confidence sync '' @ em_dash @ '' results may be inaccurate'']\<rparr>
      else rpt\<lparr>sr_status := Sync_failed,
               sr_notes := notes @ [''Sync failed '' @ em_dash @ '' insufficient overlap or quality'']\<rparr>)"

definition synchronise ::
  "offline_config \<Rightarrow> string \<Rightarrow> gnss_point list \<Rightarrow> gnss_point list \<Rightarrow> source_event list \<Rightarrow> ns_t list \<Rightarrow>
     time_range \<Rightarrow> string \<Rightarrow> sync_report"
where
  "synchronise cfg now ego_gps src_gps src_events onsets r sid =
     (let w = oc_max_offset_search_s cfg;
          (est, notes) = choose_estimate cfg (sync_gnss_xcorr (filter_gps r ego_gps) (filter_gps r src_gps) w)
             (sync_event_audio_fallback src_events onsets w)
      in decide_status cfg r (ce_confidence est) notes
           (new_sync_report\<lparr>sr_pipeline_version := oc_pipeline_version cfg, sr_session_id := sid,
              sr_generated_at_utc := now, sr_master_clock := oc_master_clock cfg, sr_search_window_s := w,
              sr_offset_ns := ce_offset_ns est, sr_drift_ppm := ce_drift_ppm est, sr_rmse_ns := ce_rmse_ns est,
              sr_confidence := ce_confidence est, sr_method := ce_method est\<rparr>))"

definition apply_offset_events :: "ns_t \<Rightarrow> source_event list \<Rightarrow> source_event list" where
  "apply_offset_events off = map (\<lambda>e. e\<lparr>sv_ts_ego_ns := sv_ts_ns e - off\<rparr>)"

definition apply_offset_gnss :: "ns_t \<Rightarrow> gnss_point list \<Rightarrow> gnss_point list" where
  "apply_offset_gnss off = map (\<lambda>g. g\<lparr>gp_ts_ns := gp_ts_ns g - off\<rparr>)"

definition sync_report_json :: "sync_report \<Rightarrow> string" where
  "sync_report_json r =
     (let root =
            field ''search_window_s'' (num_double 2 (sr_search_window_s r))
            (field ''confidence'' (num_double 4 (sr_confidence r))
            (field ''rmse_ns'' (num_double 2 (sr_rmse_ns r))
            (field ''drift_ppm'' (num_double 4 (sr_drift_ppm r))
            (field ''offset_ns'' (num_int (sr_offset_ns r))
            (field ''method'' (json_str (sr_method r))
            (field ''master_clock'' (json_str (sr_master_clock r))
            (field ''status'' (json_str (sync_status_str (sr_status r)))
            (field ''generated_at_utc'' (json_str (sr_generated_at_utc r))
            (field ''session_id'' (json_str (sr_session_id r))
            (field ''offline_pipeline_version'' (json_str (sr_pipeline_version r)) (new_builder 2 0)))))))))));
          root = (case sr_aligned_valid_range r of None \<Rightarrow> root
                  | Some (a, b) \<Rightarrow>
                      object_field ''aligned_valid_range''
                        (\<lambda>sb. field ''t_end_ns'' (num_int b) (field ''t_start_ns'' (num_int a) sb)) root)
      in build (array_field ''notes'' (map json_str (sr_notes r)) root))"

definition write_sync_report :: "bool \<Rightarrow> string \<Rightarrow> sync_report \<Rightarrow> dir \<Rightarrow> string + dir" where
  "write_sync_report open_ok path r d =
     (if \<not> open_ok then Inl (''Cannot write sync_report: '' @ path)
      else Inr (put path (text_bytes (sync_report_json r @ [CHR 0x0A])) d))"

section \<open>What the search finds\<close>

text \<open>Over a total score the search ends at a place of the list, or where it started, and no place has a
  greater score.\<close>

lemma search_offset_invariant:
  fixes score :: "ns_t \<Rightarrow> nat"
  assumes "search_offset (\<lambda>off. Some (score off)) (<) 0 offs = (best, off)"
  shows "(\<forall>x \<in> set offs. score x \<le> best) \<and> (if best = 0 then off = 0 else off \<in> set offs \<and> score off = best)"
  using assms
proof (induction offs arbitrary: best off rule: rev_induct)
  case (snoc x offs)
  obtain b o' where st: "search_offset (\<lambda>off. Some (score off)) (<) 0 offs = (b, o')" by fastforce
  then have "search_offset (\<lambda>off. Some (score off)) (<) 0 (offs @ [x]) = (if b < score x then (score x, x) else (b, o'))"
    by (simp add: search_offset_def better_def)
  with snoc.prems snoc.IH [OF st] show ?case by (auto split: if_splits)
qed (simp add: search_offset_def)

lemma trial_offsets_zero: "0 \<le> sint steps \<Longrightarrow> 0 \<in> set (trial_offsets steps)"
  by (auto simp: trial_offsets_def intro!: image_eqI [where x = 0])

lemma matches_zero_iff: "matches sirens onsets off = length sirens \<longleftrightarrow> (\<forall>s \<in> set sirens. heard onsets off s)"
  by (simp add: matches_def) (metis filter_id_conv filter_True length_filter_less nat_less_le)

text \<open>Over a score that may be missing the search ends at a place that has one, or where it started.\<close>

lemma search_offset_scored:
  assumes "search_offset score lt start offs = (best, off)"
  shows "off = 0 \<or> off \<in> set offs \<and> score off = Some best"
  using assms
proof (induction offs arbitrary: best off rule: rev_induct)
  case (snoc x offs)
  obtain b o' where st: "search_offset score lt start offs = (b, o')" by fastforce
  then have "search_offset score lt start (offs @ [x]) = better score lt x (b, o')"
    by (simp add: search_offset_def)
  with snoc.prems snoc.IH [OF st] show ?case by (auto simp: better_def split: option.splits if_splits)
qed (simp add: search_offset_def)

lemma fit_drift_sel [simp]:
  "ce_offset_ns (fit_drift ps est) = ce_offset_ns est" "ce_confidence (fit_drift ps est) = ce_confidence est"
  "ce_method (fit_drift ps est) = ce_method est"
  by (simp_all add: fit_drift_def Let_def)

lemma new_estimate_sel [simp]:
  "ce_offset_ns (new_estimate m) = 0" "ce_confidence (new_estimate m) = f64_of_int 0" "ce_method (new_estimate m) = m"
  by (simp_all add: new_estimate_def)

definition in_unit :: "f64 \<Rightarrow> bool" where
  "in_unit x \<longleftrightarrow> \<not> less64 x (f64_of_int 0) \<and> \<not> less64 (f64_of_int 1) x"

lemma unit_order: "less64 (f64_of_int 0) (f64_of_int 1)" "\<not> less64 (f64_of_int 1) (f64_of_int 0)"
  by (simp_all add: less64_def f64_zero_value f64_one fless_def Ieee.signed_def)

lemma clamp_in_unit: "in_unit (clamp_confidence x)"
  using unit_order less64_asym [of x "f64_of_int 1"] less64_asym [of "f64_of_int 0" x]
  by (auto simp: in_unit_def clamp_confidence_def max64_def min64_def)

lemma xcorr_estimate:
  fixes ego src w
  defines "est \<equiv> sync_gnss_xcorr ego src w"
  shows "ce_method est = ''gnss_xcorr''" "in_unit (ce_confidence est)"
    "ce_offset_ns est = 0 \<or>
     ce_offset_ns est \<in> set (trial_offsets (xcorr_steps w)) \<and> sint (abs_ns (ce_offset_ns est)) \<le> sint (window_ns w)"
proof -
  let ?e = "filter good_fix ego" and ?s = "filter good_fix src"
  define t0 where "t0 = gp_ts_ns (hd ?e)"
  define n where "n = (ucast (sdiv64 (gp_ts_ns (last ?e) - t0) kNsPerSec) + 1 :: u32)"
  define score where "score = xcorr_score w (resample (nat (sint n)) ?e t0) ?s t0 (nat (sint n))"
  obtain best off where st: "search_offset score less64 (f64_of_rat (- (10 ^ 99))) (trial_offsets (xcorr_steps w)) = (best, off)"
    by fastforce
  have unit0: "in_unit (f64_of_int 0)" using unit_order by (auto simp: in_unit_def)
  have off: "off = 0 \<or> off \<in> set (trial_offsets (xcorr_steps w)) \<and> sint (abs_ns off) \<le> sint (window_ns w)"
    using search_offset_scored [OF st] by (auto simp: score_def xcorr_score_def split: if_splits)
  have est: "est = (if ?e = [] \<or> ?s = [] \<or> sint n < 5 then new_estimate ''gnss_xcorr''
      else fit_drift (concat (map (drift_pair ?s off) ?e)) ((new_estimate ''gnss_xcorr'')\<lparr>ce_offset_ns := off,
        ce_confidence := clamp_confidence (div64 (add64 best (f64_of_int 1)) (f64_of_int 2))\<rparr>))"
    using st unfolding est_def sync_gnss_xcorr_def Let_def n_def t0_def score_def by auto
  show "ce_method est = ''gnss_xcorr''" by (simp add: est)
  show "in_unit (ce_confidence est)" by (simp add: est unit0 clamp_in_unit)
  show "ce_offset_ns est = 0 \<or>
     ce_offset_ns est \<in> set (trial_offsets (xcorr_steps w)) \<and> sint (abs_ns (ce_offset_ns est)) \<le> sint (window_ns w)"
    using off by (simp add: est)
qed

lemma fallback_estimate:
  fixes evs onsets w
  defines "est \<equiv> sync_event_audio_fallback evs onsets w"
  shows "ce_method est = ''event_audio''" "\<not> less64 (f64_of_int 1) (ce_confidence est)"
    "ce_offset_ns est = 0 \<or> ce_offset_ns est \<in> set (trial_offsets (fallback_steps w))"
proof -
  obtain best off where
    st: "search_offset (\<lambda>off. Some (matches (siren_ons evs) onsets off)) (<) 0 (trial_offsets (fallback_steps w)) = (best, off)"
    by fastforce
  have est: "ce_offset_ns est = (if siren_ons evs = [] \<or> onsets = [] then 0 else off)" "ce_method est = ''event_audio''"
    "ce_confidence est = f64_of_int 0 \<or> (\<exists>x. ce_confidence est = min64 (f64_of_int 1) x)"
    using st by (auto simp: est_def sync_event_audio_fallback_def Let_def)
  show "ce_method est = ''event_audio''" by (rule est)
  show "\<not> less64 (f64_of_int 1) (ce_confidence est)" using est(3) unit_order less64_asym [of _ "f64_of_int 1"] by (auto simp: min64_def split: if_splits)
  show "ce_offset_ns est = 0 \<or> ce_offset_ns est \<in> set (trial_offsets (fallback_steps w))"
    using search_offset_scored [OF st] by (auto simp: est)
qed

section \<open>Properties\<close>

text \<open>C21: Given sirens and audio blocks, the fallback's offset is one of the tenths of a second in the
  window, and no other one matches more sirens with an audio block. So if there is an offset in the window at
  which every siren is heard, then at the offset found every siren event, moved to the recorder's clock by
  apply_offset, has an audio block within half a second.\<close>

theorem fallback_aligns_sirens:
  fixes evs onsets w
  defines "off \<equiv> ce_offset_ns (sync_event_audio_fallback evs onsets w)"
  assumes "siren_ons evs \<noteq> []" and "onsets \<noteq> []" and "0 \<le> sint (fallback_steps w)"
  shows "off \<in> set (trial_offsets (fallback_steps w)) \<and>
     (\<forall>o' \<in> set (trial_offsets (fallback_steps w)). matches (siren_ons evs) onsets o' \<le> matches (siren_ons evs) onsets off) \<and>
     ((\<exists>o' \<in> set (trial_offsets (fallback_steps w)). \<forall>s \<in> set (siren_ons evs). heard onsets o' s) \<longrightarrow>
       (\<forall>e \<in> set (apply_offset_events off evs). sv_event_type e = source_event_u16 SE_siren_on \<longrightarrow>
         (\<exists>ao \<in> set onsets. sint (abs_ns (ao - sv_ts_ego_ns e)) < 500000000)))"
    (is "?in \<and> ?best \<and> ?aligned")
proof -
  obtain best o' where
    st: "search_offset (\<lambda>off. Some (matches (siren_ons evs) onsets off)) (<) 0 (trial_offsets (fallback_steps w)) = (best, o')"
    by fastforce
  have off: "off = o'" using st assms(2,3) by (simp add: off_def sync_event_audio_fallback_def Let_def)
  have "?in \<and> best = matches (siren_ons evs) onsets off"
    using search_offset_invariant [OF st] trial_offsets_zero [OF assms(4)] by (auto simp: off split: if_splits)
  moreover from this have best: ?best using search_offset_invariant [OF st] by simp
  moreover have ?aligned
  proof (intro impI ballI)
    fix e assume "\<exists>o' \<in> set (trial_offsets (fallback_steps w)). \<forall>s \<in> set (siren_ons evs). heard onsets o' s"
      and e: "e \<in> set (apply_offset_events off evs)" "sv_event_type e = source_event_u16 SE_siren_on"
    with best have "length (siren_ons evs) \<le> matches (siren_ons evs) onsets off"
      by (metis matches_zero_iff)
    moreover have "matches (siren_ons evs) onsets off \<le> length (siren_ons evs)" by (simp add: matches_def)
    ultimately have "\<forall>s \<in> set (siren_ons evs). heard onsets off s" by (simp add: matches_zero_iff [symmetric])
    with e show "\<exists>ao \<in> set onsets. sint (abs_ns (ao - sv_ts_ego_ns e)) < 500000000"
      by (auto simp: apply_offset_events_def siren_ons_def heard_def list_ex_iff)
  qed
  ultimately show ?thesis by blast
qed

theorem fallback_aligns_sirens_witness:
  "let ev = \<lparr>sv_ts_ns = 1300000000, sv_ts_ego_ns = 0, sv_event_id = 1, sv_event_type = 1, sv_flags = 0, sv_duration_ns = 0\<rparr>;
       off = ce_offset_ns (sync_event_audio_fallback [ev] [500000000] (f64_of_int 1))
   in \<forall>e \<in> set (apply_offset_events off [ev]). sint (abs_ns (500000000 - sv_ts_ego_ns e)) < 500000000"
proof -
  have "f64_of_int 1 = 0x3FF0000000000000" "f64_of_int 10 = 0x4024000000000000" by (simp_all add: f64_eval)
  moreover have "mul64 0x3FF0000000000000 0x4024000000000000 = 0x4024000000000000"
    "f64_to_int32 0x4024000000000000 = 10"
    by (simp_all add: mul64_def fmul_def f64_to_int32_def f64_eval)
  ultimately have steps: "fallback_steps (f64_of_int 1) = 10" by (simp add: fallback_steps_def)
  define ev where "ev = \<lparr>sv_ts_ns = 1300000000, sv_ts_ego_ns = 0, sv_event_id = 1, sv_event_type = 1, sv_flags = 0, sv_duration_ns = 0\<rparr>"
  have "5 * tenth \<in> set (trial_offsets 10)" by (auto simp: trial_offsets_def intro!: image_eqI [where x = 5])
  moreover have "\<forall>s \<in> set (siren_ons [ev]). heard [500000000] (5 * tenth) s"
    by (simp add: ev_def siren_ons_def heard_def tenth_def abs_ns_def)
  ultimately show ?thesis
    using fallback_aligns_sirens [of "[ev]" "[500000000]" "f64_of_int 1"]
    by (auto simp: steps Let_def ev_def [symmetric] siren_ons_def apply_offset_events_def) (auto simp: ev_def)
qed

text \<open>C22: What the synchroniser decides. The report is ok exactly if its confidence reaches the configured
  minimum, and only then names the aligned range; failed exactly if it does not reach half of it. The
  confidence is never below that of the GNSS correlation and lies between 0 and 1; sirens and audio decide
  exactly where the correlation is not trusted and they are trusted more. The offset is 0, or a tenth of a
  second of the search grid, within the window where the correlation found it.\<close>

theorem synchronisation_decided:
  fixes cfg now ego src evs onsets r sid
  defines "rpt \<equiv> synchronise cfg now ego src evs onsets r sid"
    and "w \<equiv> oc_max_offset_search_s cfg"
  defines "x \<equiv> ce_confidence (sync_gnss_xcorr (filter_gps r ego) (filter_gps r src) w)"
    and "fb \<equiv> ce_confidence (sync_event_audio_fallback evs onsets w)"
  shows "(sr_status rpt = Sync_ok \<longleftrightarrow> ge64 (sr_confidence rpt) (oc_min_confidence cfg)) \<and>
     (sr_status rpt = Sync_failed \<longleftrightarrow>
        \<not> ge64 (sr_confidence rpt) (oc_min_confidence cfg) \<and>
        \<not> ge64 (sr_confidence rpt) (mul64 (oc_min_confidence cfg) (f64_of_rat (1 / 2)))) \<and>
     sr_aligned_valid_range rpt =
       (if sr_status rpt = Sync_ok then Some (tr_start_ns r, tr_end_ns r) else None) \<and>
     \<not> less64 (sr_confidence rpt) x \<and> in_unit (sr_confidence rpt) \<and>
     (sr_method rpt = ''event_audio'' \<longleftrightarrow> less64 x (oc_min_confidence cfg) \<and> less64 x fb) \<and>
     (if sr_offset_ns rpt = 0 then True
      else if sr_method rpt = ''event_audio'' then sr_offset_ns rpt \<in> set (trial_offsets (fallback_steps w))
      else sr_offset_ns rpt \<in> set (trial_offsets (xcorr_steps w)) \<and>
           sint (abs_ns (sr_offset_ns rpt)) \<le> sint (window_ns w))"
proof -
  let ?x = "sync_gnss_xcorr (filter_gps r ego) (filter_gps r src) w" and ?fb = "sync_event_audio_fallback evs onsets w"
  define used where "used \<longleftrightarrow> less64 x (oc_min_confidence cfg) \<and> less64 x fb"
  define est where "est = (if used then ?fb else ?x)"
  have rpt: "sr_confidence rpt = ce_confidence est" "sr_method rpt = ce_method est" "sr_offset_ns rpt = ce_offset_ns est"
    "sr_status rpt = (if ge64 (ce_confidence est) (oc_min_confidence cfg) then Sync_ok
       else if ge64 (ce_confidence est) (mul64 (oc_min_confidence cfg) (f64_of_rat (1 / 2))) then Sync_degraded
       else Sync_failed)"
    "sr_aligned_valid_range rpt =
       (if ge64 (ce_confidence est) (oc_min_confidence cfg) then Some (tr_start_ns r, tr_end_ns r) else None)"
    unfolding rpt_def synchronise_def Let_def choose_estimate_def est_def used_def x_def fb_def w_def
    by (simp_all add: decide_status_def new_sync_report_def)
  have conf: "\<not> less64 (ce_confidence est) x" "in_unit (ce_confidence est)"
  proof -
    have used: "less64 x fb" if used using that by (simp add: used_def)
    show "\<not> less64 (ce_confidence est) x" using less64_asym [OF used] by (auto simp: est_def fb_def x_def)
    have "\<not> less64 fb (f64_of_int 0)" if used
      using less64_trans [OF used [OF that], of "f64_of_int 0"] xcorr_estimate(2) [of "filter_gps r ego" "filter_gps r src" w]
      by (auto simp: in_unit_def x_def)
    then show "in_unit (ce_confidence est)"
      using xcorr_estimate(2) fallback_estimate(2) by (auto simp: est_def in_unit_def fb_def)
  qed
  have "ce_method est = ''event_audio'' \<longleftrightarrow> used"
    using xcorr_estimate(1) fallback_estimate(1) by (simp add: est_def)
  with rpt conf show ?thesis
    using xcorr_estimate(3) [of "filter_gps r ego" "filter_gps r src" w] fallback_estimate(3) [of evs onsets w]
    by (auto simp: used_def est_def)
qed

end
