(* ===== verification/TimeAlign.thy ===== *)
theory TimeAlign
  imports TimeSync
begin

text \<open>
  Time alignment, \<open>offline/include/ego_offline/align/time_aligner.hpp\<close> and
  \<open>offline/src/align/time_aligner.cpp\<close>: the time grid, the interpolation of positions, and the samples on the
  grid. A loop that does not end, or runs into signed overflow, is None. \<open>std::sort\<close> by time leaves the order of
  elements of one time open; the model keeps it.
\<close>

section \<open>The time grid\<close>

record time_grid =
  tg_t0 :: ns_t
  tg_t1 :: ns_t
  tg_dt_ms :: u32
  tg_ticks :: "ns_t list"

definition fits_ns :: "int \<Rightarrow> bool" where "fits_ns k \<longleftrightarrow> - (2 ^ 63) \<le> k \<and> k < 2 ^ 63"

partial_function (option) ticks_from :: "ns_t \<Rightarrow> ns_t \<Rightarrow> ns_t \<Rightarrow> ns_t list option" where
  "ticks_from dt t1 t =
     (if sint t \<le> sint t1
      then if fits_ns (sint t + sint dt)
           then Option.bind (ticks_from dt t1 (t + dt)) (\<lambda>ts. Some (t # ts))
           else None
      else Some [])"

definition grid_build :: "ns_t \<Rightarrow> ns_t \<Rightarrow> u32 \<Rightarrow> time_grid option" where
  "grid_build t0 t1 dt_ms =
     map_option (\<lambda>ts. \<lparr>tg_t0 = t0, tg_t1 = t1, tg_dt_ms = dt_ms, tg_ticks = ts\<rparr>)
       (ticks_from (scast dt_ms * kNsPerMs) t1 t0)"

section \<open>Interpolation\<close>

text \<open>The points on either side of \<open>t\<close> in a list ordered by time, or the one to take as it is.\<close>

datatype 'a bracket = Take 'a | Between 'a 'a

definition bracket :: "('a \<Rightarrow> ns_t) \<Rightarrow> 'a list \<Rightarrow> ns_t \<Rightarrow> 'a bracket" where
  "bracket ts pts t =
     (if length pts = 1 then Take (hd pts)
      else let i = length (takeWhile (\<lambda>p. sint (ts p) < sint t) pts) in
        if i = length pts then Take (last pts)
        else if i = 0 then Take (hd pts)
        else let b = pts ! i; a = pts ! (i - 1) in if ts b = ts a then Take a else Between a b)"

definition alpha_of :: "ns_t \<Rightarrow> ns_t \<Rightarrow> ns_t \<Rightarrow> f64" where
  "alpha_of t a b = div64 (f64_of_ns (t - a)) (f64_of_ns (b - a))"

definition lerp64 :: "f64 \<Rightarrow> f64 \<Rightarrow> f64 \<Rightarrow> f64" where
  "lerp64 alpha a b = add64 a (mul64 alpha (sub64 b a))"

definition lerp32 :: "f64 \<Rightarrow> f32 \<Rightarrow> f32 \<Rightarrow> f32" where
  "lerp32 alpha a b = add32 a (mul32 (f64_to_f32 alpha) (sub32 b a))"

definition interpolate_gnss :: "gnss_point list \<Rightarrow> ns_t \<Rightarrow> gnss_point" where
  "interpolate_gnss pts t =
     (if pts = [] then default_gnss_point
      else case bracket gp_ts_ns pts t of Take p \<Rightarrow> p
      | Between a b \<Rightarrow>
          let al = alpha_of t (gp_ts_ns a) (gp_ts_ns b) in
          \<lparr>gp_ts_ns = t,
           gp_latitude_deg = lerp64 al (gp_latitude_deg a) (gp_latitude_deg b),
           gp_longitude_deg = lerp64 al (gp_longitude_deg a) (gp_longitude_deg b),
           gp_altitude_m = lerp64 al (gp_altitude_m a) (gp_altitude_m b),
           gp_speed_mps = lerp32 al (gp_speed_mps a) (gp_speed_mps b),
           gp_heading_deg = lerp32 al (gp_heading_deg a) (gp_heading_deg b),
           gp_fix_quality = gp_fix_quality a, gp_satellites = gp_satellites a, gp_hdop = gp_hdop a\<rparr>)"

definition interpolate_trajectory :: "trajectory_point list \<Rightarrow> ns_t \<Rightarrow> trajectory_point" where
  "interpolate_trajectory pts t =
     (if pts = [] then default_trajectory_point
      else case bracket tp_ts_ns pts t of Take p \<Rightarrow> p
      | Between a b \<Rightarrow>
          let al = alpha_of t (tp_ts_ns a) (tp_ts_ns b) in
          \<lparr>tp_ts_ns = t,
           tp_latitude_deg = lerp64 al (tp_latitude_deg a) (tp_latitude_deg b),
           tp_longitude_deg = lerp64 al (tp_longitude_deg a) (tp_longitude_deg b),
           tp_altitude_m = lerp64 al (tp_altitude_m a) (tp_altitude_m b),
           tp_vel_n_mps = lerp32 al (tp_vel_n_mps a) (tp_vel_n_mps b),
           tp_vel_e_mps = lerp32 al (tp_vel_e_mps a) (tp_vel_e_mps b),
           tp_vel_d_mps = lerp32 al (tp_vel_d_mps a) (tp_vel_d_mps b),
           tp_roll_deg = lerp32 al (tp_roll_deg a) (tp_roll_deg b),
           tp_pitch_deg = lerp32 al (tp_pitch_deg a) (tp_pitch_deg b),
           tp_yaw_deg = lerp32 al (tp_yaw_deg a) (tp_yaw_deg b),
           tp_solution_type = tp_solution_type a\<rparr>)"

definition default_source_event :: source_event where
  "default_source_event = \<lparr>sv_ts_ns = 0, sv_ts_ego_ns = 0, sv_event_id = 0, sv_event_type = 0, sv_flags = 0,
     sv_duration_ns = 0\<rparr>"

definition step_hold_source :: "source_event list \<Rightarrow> ns_t \<Rightarrow> source_event" where
  "step_hold_source evs t =
     (if evs = [] then default_source_event
      else last (hd evs # takeWhile (\<lambda>e. sint (sv_ts_ego_ns e) \<le> sint t) evs))"

section \<open>The aligner\<close>

record aligned_sample =
  as_t_ns :: ns_t
  as_ego_lat :: f64
  as_ego_lon :: f64
  as_ego_alt :: f64
  as_ego_speed :: f32
  as_ego_heading :: f32
  as_ego_fix :: byte
  as_src_lat :: f64
  as_src_lon :: f64
  as_src_alt :: f64
  as_src_speed :: f32
  as_src_valid :: bool
  as_acc_x :: f32
  as_acc_y :: f32
  as_acc_z :: f32
  as_gyr_x :: f32
  as_gyr_y :: f32
  as_gyr_z :: f32
  as_imu_valid :: bool
  as_traj_lat :: f64
  as_traj_lon :: f64
  as_roll :: f32
  as_pitch :: f32
  as_yaw :: f32
  as_traj_valid :: bool

definition new_sample :: "ns_t \<Rightarrow> aligned_sample" where
  "new_sample t = \<lparr>as_t_ns = t, as_ego_lat = f64_zero, as_ego_lon = f64_zero, as_ego_alt = f64_zero,
     as_ego_speed = f32_zero, as_ego_heading = f32_zero, as_ego_fix = 0, as_src_lat = f64_zero,
     as_src_lon = f64_zero, as_src_alt = f64_zero, as_src_speed = f32_zero, as_src_valid = False,
     as_acc_x = f32_zero, as_acc_y = f32_zero, as_acc_z = f32_zero, as_gyr_x = f32_zero, as_gyr_y = f32_zero,
     as_gyr_z = f32_zero, as_imu_valid = False, as_traj_lat = f64_zero, as_traj_lon = f64_zero,
     as_roll = f32_zero, as_pitch = f32_zero, as_yaw = f32_zero, as_traj_valid = False\<rparr>"

definition distance_ns :: "ns_t \<Rightarrow> ns_t \<Rightarrow> int" where "distance_ns a t = sint (abs_ns (a - t))"

definition find_nearest_imu :: "ns_t \<Rightarrow> imu_sample list \<Rightarrow> ns_t \<Rightarrow> imu_sample option" where
  "find_nearest_imu join imu t =
     (if imu = [] then None
      else let it = min_element (\<lambda>a b. distance_ns (is_ts_ns a) t < distance_ns (is_ts_ns b) t) imu in
        if distance_ns (is_ts_ns it) t \<le> sint join then Some it else None)"

definition align_ego :: "gnss_point list \<Rightarrow> aligned_sample \<Rightarrow> aligned_sample" where
  "align_ego gps s =
     (if gps = [] then s
      else let g = interpolate_gnss gps (as_t_ns s) in
        s\<lparr>as_ego_lat := gp_latitude_deg g, as_ego_lon := gp_longitude_deg g, as_ego_alt := gp_altitude_m g,
          as_ego_speed := gp_speed_mps g, as_ego_heading := gp_heading_deg g, as_ego_fix := gp_fix_quality g\<rparr>)"

definition align_source :: "gnss_point list \<Rightarrow> aligned_sample \<Rightarrow> aligned_sample" where
  "align_source src s =
     (if src = [] then s
      else let g = interpolate_gnss src (as_t_ns s) in
        if sint (gp_ts_ns (hd src) - 5 * kNsPerSec) \<le> sint (as_t_ns s) \<and>
           sint (as_t_ns s) \<le> sint (gp_ts_ns (last src) + 5 * kNsPerSec)
        then s\<lparr>as_src_lat := gp_latitude_deg g, as_src_lon := gp_longitude_deg g, as_src_alt := gp_altitude_m g,
               as_src_speed := gp_speed_mps g, as_src_valid := gp_fix_quality g > 0\<rparr>
        else s)"

definition align_imu :: "ns_t \<Rightarrow> imu_sample list \<Rightarrow> aligned_sample \<Rightarrow> aligned_sample" where
  "align_imu join imu s =
     (case find_nearest_imu join imu (as_t_ns s) of None \<Rightarrow> s
      | Some im \<Rightarrow> s\<lparr>as_acc_x := is_acc_x im, as_acc_y := is_acc_y im, as_acc_z := is_acc_z im,
          as_gyr_x := is_gyro_x im, as_gyr_y := is_gyro_y im, as_gyr_z := is_gyro_z im, as_imu_valid := True\<rparr>)"

definition align_trajectory :: "trajectory_point list \<Rightarrow> aligned_sample \<Rightarrow> aligned_sample" where
  "align_trajectory traj s =
     (if traj = [] then s
      else let p = interpolate_trajectory traj (as_t_ns s) in
        s\<lparr>as_traj_lat := tp_latitude_deg p, as_traj_lon := tp_longitude_deg p, as_roll := tp_roll_deg p,
          as_pitch := tp_pitch_deg p, as_yaw := tp_yaw_deg p, as_traj_valid := tp_solution_type p > 0\<rparr>)"

definition align_samples ::
  "offline_config \<Rightarrow> time_grid \<Rightarrow> gnss_point list \<Rightarrow> gnss_point list \<Rightarrow> imu_sample list \<Rightarrow>
     trajectory_point list \<Rightarrow> aligned_sample list"
where
  "align_samples cfg grid ego_gps src_gps imu traj =
     (let join = ms_limit (oc_join_tolerance_ms cfg);
          gps_sorted = sort_key (\<lambda>g. sint (gp_ts_ns g)) ego_gps;
          src_sorted = sort_key (\<lambda>g. sint (gp_ts_ns g)) src_gps;
          traj_sorted = sort_key (\<lambda>p. sint (tp_ts_ns p)) traj
      in map (\<lambda>tick. align_trajectory traj_sorted (align_imu join imu (align_source src_sorted
           (align_ego gps_sorted (new_sample tick))))) (tg_ticks grid))"

section \<open>The grid's ticks\<close>

lemma sint_add_fits: "fits_ns (sint t + sint dt) \<Longrightarrow> sint (t + dt) = sint t + sint (dt :: ns_t)"
  by (simp add: fits_ns_def sint_word_ariths signed_take_bit_int_eq_self)

lemma fits_sint: "- (2 ^ 63) \<le> sint (t :: ns_t)" "sint t < 2 ^ 63"
  using sint_ge [of t] sint_lt [of t] by simp_all

lemma grid_step: "sint (scast (n :: u32) * kNsPerMs) = sint n * 10 ^ 6"
proof -
  have "- (2 ^ 31) \<le> sint n" "sint n < 2 ^ 31" using sint_ge [of n] sint_lt [of n] by simp_all
  then show ?thesis
    by (simp add: kNsPerMs_def sint_word_ariths sint_up_scast is_up signed_take_bit_int_eq_self)
qed

text \<open>A step that does not go up never passes the end.\<close>

lemma ticks_stuck:
  assumes "ticks_from dt t1 t = Some ts" and "sint dt \<le> 0"
  shows "sint t1 < sint t"
proof -
  have "sint dt \<le> 0 \<longrightarrow> sint t1 < sint t"
  proof (rule ticks_from.raw_induct [OF _ assms(1)])
    fix ticks :: "ns_t \<Rightarrow> ns_t \<Rightarrow> ns_t \<Rightarrow> ns_t list option" and d e t :: ns_t and y
    assume IH: "\<And>d e t y. ticks d e t = Some y \<Longrightarrow> sint d \<le> 0 \<longrightarrow> sint e < sint t"
      and body: "(if sint t \<le> sint e
        then if fits_ns (sint t + sint d) then Option.bind (ticks d e (t + d)) (\<lambda>ts. Some (t # ts)) else None
        else Some []) = Some y"
    show "sint d \<le> 0 \<longrightarrow> sint e < sint t"
    proof (rule impI, rule ccontr)
      assume d: "sint d \<le> 0" and e: "\<not> sint e < sint t"
      with body obtain ts' where "fits_ns (sint t + sint d)" "ticks d e (t + d) = Some ts'"
        by (auto split: if_splits bind_splits)
      with IH d sint_add_fits have "sint e < sint t + sint d" by fastforce
      with e d show False by simp
    qed
  qed
  with assms(2) show ?thesis by simp
qed

text \<open>A step that goes up reaches it, if the last addition fits.\<close>

lemma ticks_up:
  assumes "0 < sint dt"
  shows "ticks_from dt t1 t =
    (if sint t1 < sint t then Some []
     else let k = (sint t1 - sint t) div sint dt in
       if sint t + (k + 1) * sint dt < 2 ^ 63 then Some (map (\<lambda>i. t + of_nat i * dt) [0..<Suc (nat k)]) else None)"
proof (induction "nat (sint t1 - sint t + 1)" arbitrary: t rule: less_induct)
  case less
  show ?case
  proof (cases "sint t1 < sint t")
    case up: False
    define k where "k = (sint t1 - sint t) div sint dt"
    have k: "0 \<le> k" using up assms by (simp add: k_def pos_imp_zdiv_nonneg_iff)
    have fits: "fits_ns (sint t + sint dt) \<longleftrightarrow> sint t + sint dt < 2 ^ 63"
      using fits_sint [of t] assms by (simp add: fits_ns_def)
    have last: "sint dt \<le> (k + 1) * sint dt" using k assms by (simp add: algebra_simps)
    show ?thesis
    proof (cases "sint t + sint dt < 2 ^ 63")
      case True
      then have t': "sint (t + dt) = sint t + sint dt" by (simp add: sint_add_fits fits)
      have k': "(sint t1 - sint (t + dt)) div sint dt = k - 1"
        using div_add_self2 [of "sint dt" "sint t1 - sint (t + dt)"] assms by (simp add: t' k_def)
      have last': "sint (t + dt) + (k - 1 + 1) * sint dt = sint t + (k + 1) * sint dt"
        unfolding t' by (simp add: algebra_simps)
      have "sint t1 < sint (t + dt) \<longleftrightarrow> k = 0"
        using k k' assms pos_imp_zdiv_neg_iff [OF assms, of "sint t1 - sint (t + dt)"] by auto
      moreover have "nat (sint t1 - sint (t + dt) + 1) < nat (sint t1 - sint t + 1)"
        using up assms t' by simp
      ultimately have rec: "ticks_from dt t1 (t + dt) =
         (if k = 0 then Some []
          else if sint t + (k + 1) * sint dt < 2 ^ 63
          then Some (map (\<lambda>i. t + dt + of_nat i * dt) [0..<Suc (nat (k - 1))]) else None)"
        using less [of "t + dt"] by (simp only: Let_def k' last' split: if_split)
      have ticks: "map (\<lambda>i. t + of_nat i * dt) [0..<Suc (nat k)] =
          t # map (\<lambda>i. t + dt + of_nat i * dt) [0..<nat k]"
        by (simp add: upt_conv_Cons map_Suc_upt [symmetric] algebra_simps del: upt_Suc)
      have "Suc (nat (k - 1)) = nat k" if "k \<noteq> 0" using that k by simp
      then show ?thesis
        using up fits True by (subst ticks_from.simps) (simp add: rec ticks Let_def k_def [symmetric] del: upt_Suc)
    next
      case False
      with up last fits show ?thesis by (subst ticks_from.simps) (simp add: Let_def k_def)
    qed
  qed (simp add: ticks_from.simps)
qed

section \<open>The samples\<close>

lemma align_parts [simp]:
  "as_t_ns (align_ego gps s) = as_t_ns s" "as_t_ns (align_source src s) = as_t_ns s"
  "as_t_ns (align_imu join imu s) = as_t_ns s" "as_t_ns (align_trajectory traj s) = as_t_ns s"
  "as_imu_valid (align_ego gps s) = as_imu_valid s" "as_imu_valid (align_source src s) = as_imu_valid s"
  "as_imu_valid (align_trajectory traj s) = as_imu_valid s"
  "as_src_valid (align_ego gps s) = as_src_valid s" "as_src_valid (align_imu join imu s) = as_src_valid s"
  "as_src_valid (align_trajectory traj s) = as_src_valid s"
  "as_ego_fix (align_source src s) = as_ego_fix s" "as_ego_fix (align_imu join imu s) = as_ego_fix s"
  "as_ego_fix (align_trajectory traj s) = as_ego_fix s"
  by (auto simp: align_ego_def align_source_def align_imu_def align_trajectory_def Let_def split: option.splits)

definition imu_values :: "aligned_sample \<Rightarrow> f32 list" where
  "imu_values s = [as_acc_x s, as_acc_y s, as_acc_z s, as_gyr_x s, as_gyr_y s, as_gyr_z s]"

definition imu_of :: "imu_sample \<Rightarrow> f32 list" where
  "imu_of m = [is_acc_x m, is_acc_y m, is_acc_z m, is_gyro_x m, is_gyro_y m, is_gyro_z m]"

lemma imu_values_parts [simp]:
  "imu_values (align_ego gps s) = imu_values s" "imu_values (align_source src s) = imu_values s"
  "imu_values (align_trajectory traj s) = imu_values s"
  by (auto simp: imu_values_def align_ego_def align_source_def align_trajectory_def Let_def)

lemma nearest_imu:
  "find_nearest_imu join imu t \<noteq> None \<longleftrightarrow> (\<exists>m \<in> set imu. distance_ns (is_ts_ns m) t \<le> sint join)"
  "find_nearest_imu join imu t = Some m \<Longrightarrow>
     m \<in> set imu \<and> (\<forall>m' \<in> set imu. distance_ns (is_ts_ns m) t \<le> distance_ns (is_ts_ns m') t)"
proof -
  let ?it = "min_element (\<lambda>a b. distance_ns (is_ts_ns a) t < distance_ns (is_ts_ns b) t) imu"
  have least: "distance_ns (is_ts_ns ?it) t \<le> distance_ns (is_ts_ns m) t" if "m \<in> set imu" for m
    using min_element_least [OF that, of "\<lambda>m. distance_ns (is_ts_ns m) t"] .
  have mem: "?it \<in> set imu" if "imu \<noteq> []" using that by (rule min_element_mem)
  show "find_nearest_imu join imu t \<noteq> None \<longleftrightarrow> (\<exists>m \<in> set imu. distance_ns (is_ts_ns m) t \<le> sint join)"
    using least mem by (auto simp: find_nearest_imu_def Let_def intro: order_trans)
  show "m \<in> set imu \<and> (\<forall>m' \<in> set imu. distance_ns (is_ts_ns m) t \<le> distance_ns (is_ts_ns m') t)"
    if "find_nearest_imu join imu t = Some m"
    using that least mem by (auto simp: find_nearest_imu_def Let_def split: if_splits)
qed

text \<open>A point between two others of a list ordered by time keeps the fix of the last point before it.\<close>

lemma interpolated_fix:
  assumes "length pts > 1" and "sint (gp_ts_ns (hd pts)) < sint t" and "sint t \<le> sint (gp_ts_ns (last pts))"
  shows "gp_fix_quality (interpolate_gnss pts t) =
    gp_fix_quality (last (takeWhile (\<lambda>p. sint (gp_ts_ns p) < sint t) pts))"
proof -
  let ?P = "\<lambda>p. sint (gp_ts_ns p) < sint t" and ?w = "takeWhile (\<lambda>p. sint (gp_ts_ns p) < sint t) pts"
  have ne: "pts \<noteq> []" "?w \<noteq> []" using assms by (cases pts; auto)+
  have short: "length ?w < length pts"
    using assms(3) ne by (metis last_in_set leD length_takeWhile_le linorder_neqE_nat not_less set_takeWhileD takeWhile_eq_take take_all)
  have "last ?w = pts ! (length ?w - 1)"
    using ne short by (simp add: last_conv_nth takeWhile_nth)
  then show ?thesis
    using assms ne short by (auto simp: interpolate_gnss_def bracket_def Let_def)
qed

section \<open>Properties\<close>

text \<open>C26: The time grid is built exactly if its end lies before its start, or the step is positive and the
  addition after the last tick stays in range; a step of 0 or less from the configuration never ends. The
  ticks are then the start and every whole number of steps after it up to the end.\<close>

theorem time_grid_ticks:
  fixes t0 t1 :: ns_t and dt_ms :: u32
  defines "k \<equiv> (sint t1 - sint t0) div (sint dt_ms * 10 ^ 6)"
  shows "map_option tg_ticks (grid_build t0 t1 dt_ms) =
     (if sint t1 < sint t0 then Some []
      else if 0 < sint dt_ms \<and> sint t0 + (k + 1) * (sint dt_ms * 10 ^ 6) < 2 ^ 63
      then Some (map (\<lambda>i. t0 + of_nat i * (scast dt_ms * kNsPerMs)) [0..<Suc (nat k)])
      else None)"
proof -
  let ?dt = "scast dt_ms * kNsPerMs"
  have "map_option tg_ticks (grid_build t0 t1 dt_ms) = ticks_from ?dt t1 t0"
    by (cases "ticks_from ?dt t1 t0") (simp_all add: grid_build_def)
  moreover have "ticks_from ?dt t1 t0 = (if sint t1 < sint t0 then Some [] else None)" if "sint dt_ms \<le> 0"
  proof -
    have "sint ?dt \<le> 0" using that by (simp add: grid_step)
    then have "\<exists>ts. ticks_from ?dt t1 t0 = Some ts \<Longrightarrow> sint t1 < sint t0" using ticks_stuck by blast
    then show ?thesis by (cases "ticks_from ?dt t1 t0") (auto simp: ticks_from.simps)
  qed
  moreover have "ticks_from ?dt t1 t0 =
     (if sint t1 < sint t0 then Some []
      else if sint t0 + (k + 1) * (sint dt_ms * 10 ^ 6) < 2 ^ 63
      then Some (map (\<lambda>i. t0 + of_nat i * ?dt) [0..<Suc (nat k)]) else None)" if "0 < sint dt_ms"
    using ticks_up [of ?dt t1 t0] that by (simp add: grid_step k_def Let_def)
  ultimately show ?thesis by (cases "0 < sint dt_ms") simp_all
qed

text \<open>C27: The aligner gives one sample to every tick, in order. A sample's motion values are valid exactly if
  the recording has an IMU sample within the tolerance of the tick, and are then those of one that no other is
  nearer than. The source's position is valid only within 5 s of the source's own points.\<close>

theorem aligned_samples:
  fixes cfg grid ego src imu traj
  defines "ss \<equiv> align_samples cfg grid ego src imu traj"
    and "src' \<equiv> sort_key (\<lambda>g. sint (gp_ts_ns g)) src"
  shows "map as_t_ns ss = tg_ticks grid \<and>
     list_all (\<lambda>s.
        (as_imu_valid s \<longleftrightarrow>
          (\<exists>m \<in> set imu. distance_ns (is_ts_ns m) (as_t_ns s) \<le> sint (ms_limit (oc_join_tolerance_ms cfg)))) \<and>
        (if as_imu_valid s
         then \<exists>m \<in> set imu. imu_values s = imu_of m \<and>
           list_all (\<lambda>m'. distance_ns (is_ts_ns m) (as_t_ns s) \<le> distance_ns (is_ts_ns m') (as_t_ns s)) imu
         else imu_values s = replicate 6 f32_zero) \<and>
        (if as_src_valid s
         then src \<noteq> [] \<and> sint (gp_ts_ns (hd src') - 5 * kNsPerSec) \<le> sint (as_t_ns s) \<and>
           sint (as_t_ns s) \<le> sint (gp_ts_ns (last src') + 5 * kNsPerSec)
         else True)) ss"
proof -
  let ?join = "ms_limit (oc_join_tolerance_ms cfg)"
  define gps where "gps = sort_key (\<lambda>g. sint (gp_ts_ns g)) ego"
  define traj' where "traj' = sort_key (\<lambda>p. sint (tp_ts_ns p)) traj"
  define sample where "sample t = align_trajectory traj' (align_imu ?join imu (align_source src' (align_ego gps (new_sample t))))" for t
  have ss: "ss = map sample (tg_ticks grid)"
    by (simp add: ss_def align_samples_def sample_def gps_def traj'_def src'_def Let_def)
  have t: "as_t_ns (sample t) = t" for t by (simp add: sample_def new_sample_def)
  have valid: "as_imu_valid (sample t) \<longleftrightarrow> find_nearest_imu ?join imu t \<noteq> None" for t
    by (simp add: sample_def align_imu_def new_sample_def split: option.splits)
  have vals: "imu_values (sample t) = (case find_nearest_imu ?join imu t of None \<Rightarrow> replicate 6 f32_zero | Some m \<Rightarrow> imu_of m)" for t
    by (auto simp: sample_def align_imu_def split: option.splits)
      (simp_all add: imu_values_def imu_of_def new_sample_def numeral_eq_Suc)
  have source: "as_src_valid (sample t) \<Longrightarrow> src' \<noteq> [] \<and> sint (gp_ts_ns (hd src') - 5 * kNsPerSec) \<le> sint t \<and>
      sint t \<le> sint (gp_ts_ns (last src') + 5 * kNsPerSec)" for t
    by (auto simp: sample_def align_source_def new_sample_def Let_def split: if_splits)
  have "src' \<noteq> [] \<longleftrightarrow> src \<noteq> []" by (simp add: src'_def) (metis length_0_conv length_sort)
  with source have src_valid: "if as_src_valid (sample t)
      then src \<noteq> [] \<and> sint (gp_ts_ns (hd src') - 5 * kNsPerSec) \<le> sint t \<and> sint t \<le> sint (gp_ts_ns (last src') + 5 * kNsPerSec)
      else True" for t by simp
  have imu_valid: "as_imu_valid (sample t) \<longleftrightarrow> (\<exists>m \<in> set imu. distance_ns (is_ts_ns m) t \<le> sint ?join)" for t
    by (simp only: valid nearest_imu(1))
  have nearest: "if as_imu_valid (sample t)
      then \<exists>m \<in> set imu. imu_values (sample t) = imu_of m \<and>
        list_all (\<lambda>m'. distance_ns (is_ts_ns m) t \<le> distance_ns (is_ts_ns m') t) imu
      else imu_values (sample t) = replicate 6 f32_zero" for t
    using nearest_imu(2) [of ?join imu t] by (cases "find_nearest_imu ?join imu t") (auto simp: valid vals list_all_iff)
  have "map as_t_ns ss = tg_ticks grid" by (simp add: ss o_def t)
  then show ?thesis
    using src_valid imu_valid nearest unfolding list_all_iff [of _ ss] by (auto simp only: ss set_map t image_iff)
qed

end
