(* ===== verification/SceneGeometry.thy ===== *)
theory SceneGeometry
  imports TimeAlign
begin

text \<open>
  Scene geometry, \<open>offline/include/ego_offline/scene/scene_geometry.hpp\<close> and
  \<open>offline/src/scene/scene_geometry.cpp\<close>: range, azimuth and closing speed of the source as seen from the
  recorder. The functions of \<open>libm\<close> that IEEE 754 does not determine are a parameter.
\<close>

section \<open>Geometry of two positions\<close>

record libm =
  m_sin :: "f64 \<Rightarrow> f64"
  m_cos :: "f64 \<Rightarrow> f64"
  m_atan2 :: "f64 \<Rightarrow> f64 \<Rightarrow> f64"

definition kPI :: f64 where "kPI = f64_of_rat (314159265358979323846 / 10 ^ 20)"
definition kDeg :: f64 where "kDeg = div64 kPI (f64_of_int 180)"
definition kRad :: f64 where "kRad = div64 (f64_of_int 180) kPI"
definition kA :: f64 where "kA = f64_of_int 6378137"
definition kE2 :: f64 where "kE2 = f64_of_rat (669437999014 / 10 ^ 14)"

record enu_vector =
  ev_east_m :: f64
  ev_north_m :: f64
  ev_up_m :: f64
  ev_range_m :: f64

definition to_ecef :: "libm \<Rightarrow> f64 \<Rightarrow> f64 \<Rightarrow> f64 \<Rightarrow> f64 \<times> f64 \<times> f64" where
  "to_ecef m lat lon alt =
     (let rl = mul64 lat kDeg; rl2 = mul64 lon kDeg; one = f64_of_int 1;
          n = div64 kA (sqrt64 (sub64 one (mul64 (mul64 kE2 (m_sin m rl)) (m_sin m rl))))
      in (mul64 (mul64 (add64 n alt) (m_cos m rl)) (m_cos m rl2),
          mul64 (mul64 (add64 n alt) (m_cos m rl)) (m_sin m rl2),
          mul64 (add64 (mul64 n (sub64 one kE2)) alt) (m_sin m rl)))"

definition geodetic_to_enu ::
  "libm \<Rightarrow> f64 \<Rightarrow> f64 \<Rightarrow> f64 \<Rightarrow> f64 \<Rightarrow> f64 \<Rightarrow> f64 \<Rightarrow> enu_vector"
where
  "geodetic_to_enu m ref_lat ref_lon ref_alt tgt_lat tgt_lon tgt_alt =
     (let (rx, ry, rz) = to_ecef m ref_lat ref_lon ref_alt; (tx, ty, tz) = to_ecef m tgt_lat tgt_lon tgt_alt;
          dx = sub64 tx rx; dy = sub64 ty ry; dz = sub64 tz rz;
          rl = mul64 ref_lat kDeg; rl2 = mul64 ref_lon kDeg;
          sl = m_sin m rl; cl = m_cos m rl; sl2 = m_sin m rl2; cl2 = m_cos m rl2;
          east = add64 (mul64 (neg64 sl2) dx) (mul64 cl2 dy);
          north = add64 (sub64 (mul64 (mul64 (neg64 sl) cl2) dx) (mul64 (mul64 sl sl2) dy)) (mul64 cl dz);
          up = add64 (add64 (mul64 (mul64 cl cl2) dx) (mul64 (mul64 cl sl2) dy)) (mul64 sl dz)
      in \<lparr>ev_east_m = east, ev_north_m = north, ev_up_m = up,
          ev_range_m = sqrt64 (add64 (mul64 east east) (mul64 north north))\<rparr>)"

definition compute_range :: "enu_vector \<Rightarrow> f64" where "compute_range enu = ev_range_m enu"

definition compute_azimuth :: "libm \<Rightarrow> enu_vector \<Rightarrow> f64 \<Rightarrow> f64" where
  "compute_azimuth m enu heading =
     (let bearing = mul64 (m_atan2 m (ev_east_m enu) (ev_north_m enu)) kRad;
          az = fmod64 (sub64 bearing heading) (f64_of_int 360)
      in if less64 az (f64_of_int 0) then add64 az (f64_of_int 360) else az)"

section \<open>Geometry along the grid\<close>

record scene_geometry =
  sg_ts_ns :: ns_t
  sg_range_m :: f64
  sg_azimuth_deg :: f64
  sg_closing_speed_mps :: f64
  sg_ego_lat_deg :: f64
  sg_ego_lon_deg :: f64
  sg_src_lat_deg :: f64
  sg_src_lon_deg :: f64
  sg_valid :: bool

definition compute_closing_speed :: "scene_geometry \<Rightarrow> scene_geometry \<Rightarrow> f64 \<Rightarrow> f64" where
  "compute_closing_speed prev cur dt_s =
     (if less64 dt_s (f64_of_rat (1 / 10 ^ 9)) then f64_of_int 0
      else div64 (sub64 (sg_range_m prev) (sg_range_m cur)) dt_s)"

text \<open>A sample's geometry; \<open>prev\<close> is the last valid one, if there is one.\<close>

definition billion64 :: f64 where "billion64 = f64_of_rat (10 ^ 9)"

definition sample_geometry :: "libm \<Rightarrow> scene_geometry option \<Rightarrow> aligned_sample \<Rightarrow> scene_geometry" where
  "sample_geometry m prev s =
     (let g = \<lparr>sg_ts_ns = as_t_ns s, sg_range_m = f64_zero, sg_azimuth_deg = f64_zero,
               sg_closing_speed_mps = f64_zero, sg_ego_lat_deg = as_ego_lat s, sg_ego_lon_deg = as_ego_lon s,
               sg_src_lat_deg = as_src_lat s, sg_src_lon_deg = as_src_lon s, sg_valid = False\<rparr>
      in if as_src_valid s \<and> as_ego_fix s > 0
         then
           let enu = geodetic_to_enu m (as_ego_lat s) (as_ego_lon s) (as_ego_alt s)
                 (as_src_lat s) (as_src_lon s) (as_src_alt s);
               g = g\<lparr>sg_range_m := compute_range enu,
                     sg_azimuth_deg := compute_azimuth m enu (f32_to_f64 (as_ego_heading s)), sg_valid := True\<rparr>
           in case prev of None \<Rightarrow> g
              | Some p \<Rightarrow>
                  if sg_valid p
                  then g\<lparr>sg_closing_speed_mps := compute_closing_speed p g
                          (div64 (f64_of_ns (sg_ts_ns g - sg_ts_ns p)) billion64)\<rparr>
                  else g
         else g)"

fun compute_scene :: "libm \<Rightarrow> scene_geometry option \<Rightarrow> aligned_sample list \<Rightarrow> scene_geometry list" where
  "compute_scene m prev [] = []"
| "compute_scene m prev (s # ss) =
     (let g = sample_geometry m prev s in g # compute_scene m (if sg_valid g then Some g else prev) ss)"

record step_metrics =
  sm_t_ns :: ns_t
  sm_range_m :: f64
  sm_azimuth_deg :: f64
  sm_closing_speed_mps :: f64
  sm_ego_speed_mps :: f64
  sm_src_speed_mps :: f64
  sm_valid :: bool

definition step_metrics_of :: "scene_geometry list \<Rightarrow> step_metrics list" where
  "step_metrics_of geom = map (\<lambda>g. \<lparr>sm_t_ns = sg_ts_ns g, sm_range_m = sg_range_m g,
     sm_azimuth_deg = sg_azimuth_deg g, sm_closing_speed_mps = sg_closing_speed_mps g,
     sm_ego_speed_mps = f64_zero, sm_src_speed_mps = f64_zero, sm_valid = sg_valid g\<rparr>) geom"

section \<open>Properties\<close>

text \<open>The last valid geometry of a prefix.\<close>

definition last_valid :: "scene_geometry option \<Rightarrow> scene_geometry list \<Rightarrow> scene_geometry option" where
  "last_valid prev gs = (let vs = filter sg_valid gs in if vs = [] then prev else Some (last vs))"

lemma last_valid_Cons: "last_valid prev (g # gs) = last_valid (if sg_valid g then Some g else prev) gs"
  by (simp add: last_valid_def Let_def)

lemma compute_scene_nth:
  "i < length ss \<Longrightarrow>
     compute_scene m prev ss ! i = sample_geometry m (last_valid prev (take i (compute_scene m prev ss))) (ss ! i)"
proof (induction ss arbitrary: prev i)
  case (Cons s ss)
  then show ?case by (cases i) (simp_all add: Let_def last_valid_Cons, simp add: last_valid_def)
qed simp

lemma compute_scene_length [simp]: "length (compute_scene m prev ss) = length ss"
  by (induction ss arbitrary: prev) (simp_all add: Let_def)

lemma sample_geometry_sel [simp]:
  "sg_ts_ns (sample_geometry m prev s) = as_t_ns s"
  "sg_valid (sample_geometry m prev s) \<longleftrightarrow> as_src_valid s \<and> as_ego_fix s > 0"
  by (auto simp: sample_geometry_def Let_def split: option.splits)

lemma sample_geometry_closing:
  "sg_closing_speed_mps (sample_geometry m prev s) =
     (case prev of
        Some p \<Rightarrow> if sg_valid p \<and> sg_valid (sample_geometry m prev s)
          then compute_closing_speed p (sample_geometry m prev s)
            (div64 (f64_of_ns (as_t_ns s - sg_ts_ns p)) billion64)
          else f64_zero
      | None \<Rightarrow> f64_zero)"
  by (auto simp: sample_geometry_def Let_def compute_closing_speed_def split: option.splits)

text \<open>The geometry of a scene has an element for every sample, at its time. It is valid exactly where both
  positions are: the source's is valid and the recorder has a fix. The closing speed of an element is the
  change of the range since the last valid element before it, over the time between the two, however many
  invalid samples lie between; it is 0 for the first valid element and for invalid ones.\<close>

theorem scene_geometry_pointwise:
  fixes m ss
  defines "gs \<equiv> compute_scene m None ss"
  shows "map sg_ts_ns gs = map as_t_ns ss \<and>
    map sg_valid gs = map (\<lambda>s. as_src_valid s \<and> as_ego_fix s > 0) ss \<and>
    map sg_closing_speed_mps gs = map (\<lambda>i.
      case filter sg_valid (take i gs) of
        [] \<Rightarrow> f64_zero
      | vs \<Rightarrow>
          if sg_valid (gs ! i)
          then compute_closing_speed (last vs) (gs ! i)
            (div64 (f64_of_ns (as_t_ns (ss ! i) - sg_ts_ns (last vs))) billion64)
          else f64_zero) [0..<length ss]"
proof -
  have nth: "gs ! i = sample_geometry m (last_valid None (take i gs)) (ss ! i)" if "i < length ss" for i
    unfolding gs_def by (rule compute_scene_nth [OF that])
  have closing: "sg_closing_speed_mps (gs ! i) = (case filter sg_valid (take i gs) of [] \<Rightarrow> f64_zero
      | vs \<Rightarrow> if sg_valid (gs ! i) then compute_closing_speed (last vs) (gs ! i)
          (div64 (f64_of_ns (as_t_ns (ss ! i) - sg_ts_ns (last vs))) billion64) else f64_zero)" if i: "i < length ss" for i
  proof (cases "filter sg_valid (take i gs) = []")
    case True
    then show ?thesis using nth [OF i] by (simp add: sample_geometry_closing last_valid_def)
  next
    case False
    let ?p = "last (filter sg_valid (take i gs))"
    have "?p \<in> set (filter sg_valid (take i gs))" using False by (rule last_in_set)
    then have "sg_valid ?p" by simp
    moreover have "last_valid None (take i gs) = Some ?p" using False by (simp add: last_valid_def)
    ultimately show ?thesis
      using False sample_geometry_closing [of m "Some ?p" "ss ! i"] nth [OF i]
      by (auto split: list.splits)
  qed
  have len: "length gs = length ss" by (simp add: gs_def)
  have "map sg_ts_ns gs = map as_t_ns ss" "map sg_valid gs = map (\<lambda>s. as_src_valid s \<and> as_ego_fix s > 0) ss"
    by (rule nth_equalityI; simp add: len nth)+
  moreover have "map sg_closing_speed_mps gs = map (\<lambda>i. sg_closing_speed_mps (gs ! i)) [0..<length ss]"
    by (rule nth_equalityI) (simp_all add: len)
  ultimately show ?thesis using closing by simp
qed

end
