(* ===== verification/SceneBuilder.thy ===== *)
theory SceneBuilder
  imports SceneGeometry
begin

text \<open>
  Scene events and segments, \<open>offline/include/ego_offline/finalize/scene_builder.hpp\<close> and
  \<open>offline/src/finalize/scene_builder.cpp\<close>: the events of the source with the geometry nearest to them, the
  segments between a siren's start and its end, their classes and measures, and the two output files. The
  random generator is a sequence of words with the place of the next one; the clock text is an argument.
\<close>

section \<open>Events and segments\<close>

record event_geometry =
  eg_range_m :: f64
  eg_azimuth_deg :: f64
  eg_ego_lat_deg :: f64
  eg_ego_lon_deg :: f64
  eg_src_lat_deg :: f64
  eg_src_lon_deg :: f64

record scene_event =
  se_event_id :: string
  se_type :: string
  se_t_start_ns :: ns_t
  se_t_end_ns :: ns_t
  se_source_ts_ns :: ns_t
  se_source_event_id :: u64
  se_confidence :: f64
  se_flags :: "string list"
  se_geometry :: "event_geometry option"

record segment_metrics =
  gm_range_min_m :: f64
  gm_range_max_m :: f64
  gm_range_at_closest_m :: f64
  gm_azimuth_at_closest_deg :: f64
  gm_max_closing_speed_mps :: f64
  gm_duration_s :: f64

record scene_segment =
  ss_segment_id :: string
  ss_event_id :: "string option"
  ss_t_start_ns :: ns_t
  ss_t_end_ns :: ns_t
  ss_class :: segment_class
  ss_confidence :: f64
  ss_metrics :: segment_metrics

section \<open>Classification\<close>

definition max_element :: "('a \<Rightarrow> 'a \<Rightarrow> bool) \<Rightarrow> 'a list \<Rightarrow> 'a" where
  "max_element lt xs = foldl (\<lambda>m x. if lt m x then x else m) (hd xs) (tl xs)"

text \<open>The place of the first least element.\<close>

definition min_index :: "('a \<Rightarrow> 'a \<Rightarrow> bool) \<Rightarrow> 'a list \<Rightarrow> nat" where
  "min_index lt xs = min_element (\<lambda>i j. lt (xs ! i) (xs ! j)) [0..<length xs]"

definition valid_ranges_of :: "scene_geometry list \<Rightarrow> f64 list" where
  "valid_ranges_of g = map sg_range_m (filter sg_valid g)"

definition mean_closing :: "scene_geometry list \<Rightarrow> f64" where
  "mean_closing g =
     div64 (sum64 (map sg_closing_speed_mps (filter sg_valid g))) (f64_of_int (int (length (valid_ranges_of g))))"

definition range_variation :: "f64 list \<Rightarrow> f64" where
  "range_variation ranges =
     (let r_min = min_element less64 ranges; r_max = max_element less64 ranges in
      if less64 (f64_of_int 0) r_max then div64 (sub64 r_max r_min) r_max else f64_of_int 0)"

definition segment_span_s :: "scene_geometry list \<Rightarrow> f64" where
  "segment_span_s g = div64 (f64_of_ns (sg_ts_ns (last g) - sg_ts_ns (hd g))) billion64"

text \<open>The flag for degraded segments is tested, with the same answer in both cases.\<close>

definition classify_segment :: "scene_geometry list \<Rightarrow> f64 \<Rightarrow> bool \<Rightarrow> segment_class" where
  "classify_segment g min_duration_s unknown_when_degraded =
     (if g = [] then Unknown_segment
      else let ranges = valid_ranges_of g in
        if ranges = [] then (if unknown_when_degraded then Unknown_segment else Unknown_segment)
        else if less64 (segment_span_s g) min_duration_s then Unknown_segment
        else
          let mean = mean_closing g; i = min_index less64 ranges; v = range_variation ranges; n = length ranges in
          if less64 (f64_of_rat (15 / 100)) v \<and> n div 5 < i \<and> i < 4 * n div 5 then Pass_by
          else if less64 v (f64_of_rat (10 / 100)) \<and> less64 (abs64 mean) (f64_of_int 1) then Stationary
          else if less64 (f64_of_rat (1 / 2)) mean then Approach
          else if less64 mean (f64_of_rat (- 1 / 2)) then Recede
          else Unknown_segment)"

section \<open>Identifiers\<close>

definition hex_digit :: "nat \<Rightarrow> char" where "hex_digit n = ''0123456789abcdef'' ! n"

fun hex_width :: "nat \<Rightarrow> nat \<Rightarrow> string" where
  "hex_width 0 n = []"
| "hex_width (Suc w) n = hex_width w (n div 16) @ [hex_digit (n mod 16)]"

text \<open>The version and the variant are set in the two random words.\<close>

definition uuid_text :: "u64 \<Rightarrow> u64 \<Rightarrow> string" where
  "uuid_text a0 b0 =
     (let a = (a0 AND 0xFFFFFFFFFFFF0FFF) OR 0x4000; b = (b0 AND 0x3FFFFFFFFFFFFFFF) OR 0x8000000000000000 in
      hex_width 8 (unat (drop_bit 32 a AND 0xFFFFFFFF)) @ ''-'' @ hex_width 4 (unat (drop_bit 16 a AND 0xFFFF)) @ ''-'' @
      hex_width 4 (unat (a AND 0xFFFF)) @ ''-'' @ hex_width 4 (unat (drop_bit 48 b AND 0xFFFF)) @ ''-'' @
      hex_width 12 (unat (b AND 0xFFFFFFFFFFFF)))"

text \<open>The generator's words from the next one on: an identifier takes two.\<close>

definition new_uuid :: "(nat \<Rightarrow> u64) \<Rightarrow> nat \<Rightarrow> string" where
  "new_uuid rng k = uuid_text (rng k) (rng (k + 1))"

section \<open>Events\<close>

definition source_event_type_str :: "u16 \<Rightarrow> string" where
  "source_event_type_str t =
     (if t = source_event_u16 SE_siren_on then ''siren_on''
      else if t = source_event_u16 SE_siren_off then ''siren_off''
      else if t = source_event_u16 SE_mode_change then ''mode_change''
      else if t = source_event_u16 SE_user_marker then ''user_marker''
      else if t = source_event_u16 SE_scenario_start then ''scenario_start''
      else if t = source_event_u16 SE_scenario_stop then ''scenario_stop''
      else ''unknown'')"

definition nearest_geom :: "scene_geometry list \<Rightarrow> ns_t \<Rightarrow> scene_geometry option" where
  "nearest_geom geom t =
     (if geom = [] then None
      else Some (min_element (\<lambda>a b. distance_ns (sg_ts_ns a) t < distance_ns (sg_ts_ns b) t) geom))"

definition event_flags :: "u16 \<Rightarrow> string list" where
  "event_flags fl =
     (if fl AND 0x01 \<noteq> 0 then [''manual_trigger''] else []) @
     (if fl AND 0x02 \<noteq> 0 then [''auto_trigger''] else []) @
     (if fl AND 0x04 \<noteq> 0 then [''gps_time_valid''] else [])"

definition event_of :: "string \<Rightarrow> scene_geometry list \<Rightarrow> source_event \<Rightarrow> scene_event" where
  "event_of uid geom e =
     \<lparr>se_event_id = uid, se_type = source_event_type_str (sv_event_type e), se_t_start_ns = sv_ts_ego_ns e,
      se_t_end_ns = sv_ts_ego_ns e + (if 0 < sint (sv_duration_ns e) then sv_duration_ns e else 0),
      se_source_ts_ns = sv_ts_ns e, se_source_event_id = sv_event_id e, se_confidence = f64_of_int 1,
      se_flags = event_flags (sv_flags e),
      se_geometry =
        (case nearest_geom geom (sv_ts_ego_ns e) of None \<Rightarrow> None
         | Some g \<Rightarrow>
             if sg_valid g
             then Some \<lparr>eg_range_m = sg_range_m g, eg_azimuth_deg = sg_azimuth_deg g,
               eg_ego_lat_deg = sg_ego_lat_deg g, eg_ego_lon_deg = sg_ego_lon_deg g,
               eg_src_lat_deg = sg_src_lat_deg g, eg_src_lon_deg = sg_src_lon_deg g\<rparr>
             else None)\<rparr>"

fun extract_events ::
  "(nat \<Rightarrow> u64) \<Rightarrow> nat \<Rightarrow> source_event list \<Rightarrow> scene_geometry list \<Rightarrow> scene_event list \<times> nat"
where
  "extract_events rng k [] geom = ([], k)"
| "extract_events rng k (e # es) geom =
     (let (evs, k') = extract_events rng (k + 2) es geom in (event_of (new_uuid rng k) geom e # evs, k'))"

section \<open>Segments\<close>

text \<open>The intervals between a siren's start and its end; the state is the start that has no end yet, or -1.\<close>

definition interval_step ::
  "scene_event \<Rightarrow> ns_t \<times> (ns_t \<times> ns_t) list \<Rightarrow> ns_t \<times> (ns_t \<times> ns_t) list"
where
  "interval_step ev st =
     (case st of (pending, ivs) \<Rightarrow>
        let pending = (if se_type ev = ''siren_on'' then se_t_start_ns ev else pending) in
        if se_type ev = ''siren_off'' \<and> 0 \<le> sint pending
        then (-1, ivs @ [(pending, se_t_start_ns ev)]) else (pending, ivs))"

definition siren_intervals :: "scene_event list \<Rightarrow> scene_geometry list \<Rightarrow> (ns_t \<times> ns_t) list" where
  "siren_intervals evs geom =
     (let (pending, ivs) = fold interval_step evs (-1, []) in
      if 0 \<le> sint pending \<and> geom \<noteq> [] then ivs @ [(pending, sg_ts_ns (last geom))] else ivs)"

definition zero_metrics :: segment_metrics where
  "zero_metrics = \<lparr>gm_range_min_m = f64_zero, gm_range_max_m = f64_zero, gm_range_at_closest_m = f64_zero,
     gm_azimuth_at_closest_deg = f64_zero, gm_max_closing_speed_mps = f64_zero, gm_duration_s = f64_zero\<rparr>"

definition closest_geom :: "scene_geometry list \<Rightarrow> scene_geometry" where
  "closest_geom = min_element (\<lambda>a b. sg_valid a \<and> (\<not> sg_valid b \<or> less64 (sg_range_m a) (sg_range_m b)))"

definition range_metrics :: "scene_geometry list \<Rightarrow> segment_metrics" where
  "range_metrics g =
     (let ranges = valid_ranges_of g in
      if ranges = [] then zero_metrics
      else
        let c = closest_geom g in
        zero_metrics\<lparr>gm_range_min_m := min_element less64 ranges, gm_range_max_m := max_element less64 ranges,
          gm_range_at_closest_m := (if sg_valid c then sg_range_m c else f64_zero),
          gm_azimuth_at_closest_deg := (if sg_valid c then sg_azimuth_deg c else f64_zero),
          gm_max_closing_speed_mps := foldl max64 (f64_of_int 0) (map sg_closing_speed_mps (filter sg_valid g))\<rparr>)"

definition segment_of ::
  "offline_config \<Rightarrow> string \<Rightarrow> scene_geometry list \<Rightarrow> ns_t \<times> ns_t \<Rightarrow> scene_segment"
where
  "segment_of cfg uid geom iv =
     (case iv of (t0, t1) \<Rightarrow>
        let g = filter (\<lambda>g. sint t0 \<le> sint (sg_ts_ns g) \<and> sint (sg_ts_ns g) \<le> sint t1) geom in
        \<lparr>ss_segment_id = uid, ss_event_id = None, ss_t_start_ns = t0, ss_t_end_ns = t1,
         ss_class = classify_segment g
           (div64 (f64_of_int (sint (oc_segment_min_duration_ms cfg))) (f64_of_int 1000))
           (oc_classify_unknown_when_degraded cfg),
         ss_confidence = (if g = [] then f64_of_rat (3 / 10) else f64_of_rat (9 / 10)),
         ss_metrics = (range_metrics g)\<lparr>gm_duration_s := div64 (f64_of_ns (t1 - t0)) billion64\<rparr>\<rparr>)"

definition long_interval :: "offline_config \<Rightarrow> ns_t \<times> ns_t \<Rightarrow> bool" where
  "long_interval cfg iv \<longleftrightarrow> \<not> sint (snd iv - fst iv) < sint (ms_limit (oc_segment_min_duration_ms cfg))"

fun segments_from ::
  "offline_config \<Rightarrow> (nat \<Rightarrow> u64) \<Rightarrow> nat \<Rightarrow> scene_geometry list \<Rightarrow> (ns_t \<times> ns_t) list \<Rightarrow> scene_segment list"
where
  "segments_from cfg rng k geom [] = []"
| "segments_from cfg rng k geom (iv # ivs) =
     (if long_interval cfg iv
      then segment_of cfg (new_uuid rng k) geom iv # segments_from cfg rng (k + 2) geom ivs
      else segments_from cfg rng k geom ivs)"

definition build_segments ::
  "offline_config \<Rightarrow> (nat \<Rightarrow> u64) \<Rightarrow> nat \<Rightarrow> scene_event list \<Rightarrow> scene_geometry list \<Rightarrow> scene_segment list"
where
  "build_segments cfg rng k evs geom = segments_from cfg rng k geom (siren_intervals evs geom)"

definition starts_segment :: "scene_segment \<Rightarrow> scene_event \<Rightarrow> bool" where
  "starts_segment seg ev \<longleftrightarrow>
     se_type ev = ''siren_on'' \<and> distance_ns (se_t_start_ns ev) (ss_t_start_ns seg) < sint (500 * kNsPerMs)"

definition link_segments :: "scene_event list \<Rightarrow> scene_segment list \<Rightarrow> scene_segment list" where
  "link_segments evs = map (\<lambda>seg. case find (starts_segment seg) evs of None \<Rightarrow> seg
     | Some ev \<Rightarrow> seg\<lparr>ss_event_id := Some (se_event_id ev)\<rparr>)"

section \<open>The output files\<close>

definition event_json :: "scene_event \<Rightarrow> string" where
  "event_json ev =
     (let b =
            array_field ''flags'' (map json_str (se_flags ev))
            (field ''confidence'' (num_double 3 (se_confidence ev))
            (field ''source_event_id'' (num_int (se_source_event_id ev))
            (field ''source_ts_ns'' (num_int (se_source_ts_ns ev))
            (field ''t_end_ns'' (num_int (se_t_end_ns ev))
            (field ''t_start_ns'' (num_int (se_t_start_ns ev))
            (field ''type'' (json_str (se_type ev))
            (field ''event_id'' (json_str (se_event_id ev)) (new_builder 2 2))))))))
      in build (case se_geometry ev of None \<Rightarrow> b
         | Some g \<Rightarrow> object_field ''geometry_at_event'' (\<lambda>gb.
             field ''source_lon_deg'' (num_double 8 (eg_src_lon_deg g))
             (field ''source_lat_deg'' (num_double 8 (eg_src_lat_deg g))
             (field ''ego_lon_deg'' (num_double 8 (eg_ego_lon_deg g))
             (field ''ego_lat_deg'' (num_double 8 (eg_ego_lat_deg g))
             (field ''azimuth_deg'' (num_double 3 (eg_azimuth_deg g))
             (field ''range_m'' (num_double 3 (eg_range_m g)) gb)))))) b))"

definition segment_json :: "scene_segment \<Rightarrow> string" where
  "segment_json seg =
     (let m = ss_metrics seg in build
        (object_field ''metrics'' (\<lambda>mb.
           field ''duration_s'' (num_double 3 (gm_duration_s m))
           (field ''max_closing_speed_mps'' (num_double 3 (gm_max_closing_speed_mps m))
           (field ''azimuth_at_closest_deg'' (num_double 2 (gm_azimuth_at_closest_deg m))
           (field ''range_at_closest_m'' (num_double 2 (gm_range_at_closest_m m))
           (field ''range_max_m'' (num_double 2 (gm_range_max_m m))
           (field ''range_min_m'' (num_double 2 (gm_range_min_m m)) mb))))))
        (field ''confidence'' (num_double 3 (ss_confidence seg))
        (field ''class'' (json_str (segment_to_string (ss_class seg)))
        (field ''t_end_ns'' (num_int (ss_t_end_ns seg))
        (field ''t_start_ns'' (num_int (ss_t_start_ns seg))
        (field ''event_id'' (case ss_event_id seg of Some i \<Rightarrow> json_str i | None \<Rightarrow> ''null'')
        (field ''segment_id'' (json_str (ss_segment_id seg)) (new_builder 2 2)))))))))"

definition scene_file_text :: "offline_config \<Rightarrow> string \<Rightarrow> string \<Rightarrow> string \<Rightarrow> string list \<Rightarrow> string" where
  "scene_file_text cfg now sid key objs = build
     (raw_array_field key objs
     (field ''generated_at_utc'' (json_str now)
     (field ''session_id'' (json_str sid)
     (field ''offline_pipeline_version'' (json_str (oc_pipeline_version cfg)) (new_builder 2 0)))))"

definition write_scene_events ::
  "offline_config \<Rightarrow> string \<Rightarrow> bool \<Rightarrow> string \<Rightarrow> string \<Rightarrow> scene_event list \<Rightarrow> dir \<Rightarrow> string + dir"
where
  "write_scene_events cfg now open_ok path sid evs d =
     (if \<not> open_ok then Inl (''Cannot write scene_events: '' @ path)
      else Inr (put path (text_bytes (scene_file_text cfg now sid ''events'' (map event_json evs) @ [CHR 0x0A])) d))"

definition write_scene_segments ::
  "offline_config \<Rightarrow> string \<Rightarrow> bool \<Rightarrow> string \<Rightarrow> string \<Rightarrow> scene_segment list \<Rightarrow> dir \<Rightarrow> string + dir"
where
  "write_scene_segments cfg now open_ok path sid segs d =
     (if \<not> open_ok then Inl (''Cannot write scene_segments: '' @ path)
      else Inr (put path (text_bytes (scene_file_text cfg now sid ''segments'' (map segment_json segs) @ [CHR 0x0A])) d))"

section \<open>Intervals\<close>

definition is_on :: "scene_event \<Rightarrow> bool" where "is_on ev \<longleftrightarrow> se_type ev = ''siren_on''"
definition is_off :: "scene_event \<Rightarrow> bool" where "is_off ev \<longleftrightarrow> se_type ev = ''siren_off''"

lemma interval_step_simps:
  "is_on ev \<Longrightarrow> interval_step ev (p, ivs) = (se_t_start_ns ev, ivs)"
  "is_off ev \<Longrightarrow> interval_step ev (p, ivs) =
     (if 0 \<le> sint p then (-1, ivs @ [(p, se_t_start_ns ev)]) else (p, ivs))"
  "\<not> is_on ev \<Longrightarrow> \<not> is_off ev \<Longrightarrow> interval_step ev (p, ivs) = (p, ivs)"
  by (simp_all add: interval_step_def is_on_def is_off_def)

text \<open>An interval that is closed starts at a siren's start and ends at a siren's end; one that is open starts
  at a siren's start.\<close>

definition starts_at :: "scene_event list \<Rightarrow> ns_t \<Rightarrow> bool" where
  "starts_at evs t \<longleftrightarrow> 0 \<le> sint t \<and> (\<exists>ev \<in> set evs. is_on ev \<and> se_t_start_ns ev = t)"

definition ends_at :: "scene_event list \<Rightarrow> ns_t \<Rightarrow> bool" where
  "ends_at evs t \<longleftrightarrow> (\<exists>ev \<in> set evs. is_off ev \<and> se_t_start_ns ev = t)"

lemma at_snoc [simp]:
  "starts_at (evs @ [ev]) t \<longleftrightarrow> starts_at evs t \<or> 0 \<le> sint t \<and> is_on ev \<and> se_t_start_ns ev = t"
  "ends_at (evs @ [ev]) t \<longleftrightarrow> ends_at evs t \<or> is_off ev \<and> se_t_start_ns ev = t"
  by (auto simp: starts_at_def ends_at_def)

lemma intervals_invariant:
  assumes "fold interval_step evs (-1, []) = (p, ivs)"
  shows "(0 \<le> sint p \<longrightarrow> starts_at evs p) \<and> (\<forall>a b. (a, b) \<in> set ivs \<longrightarrow> starts_at evs a \<and> ends_at evs b)"
  using assms
proof (induction evs arbitrary: p ivs rule: rev_induct)
  case (snoc ev evs)
  obtain q js where st: "fold interval_step evs (-1, []) = (q, js)" by fastforce
  with snoc.prems have "(p, ivs) = interval_step ev (q, js)" by simp
  with snoc.IH [OF st] show ?case
    by (cases "is_on ev"; cases "is_off ev") (auto simp: interval_step_simps split: if_splits)
qed simp

lemma intervals_kept: "set (snd st) \<subseteq> set (snd (fold interval_step evs st))"
proof (induction evs arbitrary: st)
  case (Cons ev evs)
  have "set (snd st) \<subseteq> set (snd (interval_step ev st))"
    by (cases st) (auto simp: interval_step_def Let_def)
  then show ?case using Cons [of "interval_step ev st"] by auto
qed simp

lemma siren_interval_sound:
  assumes "(a, b) \<in> set (siren_intervals evs geom)"
  shows "starts_at evs a \<and> (ends_at evs b \<or> geom \<noteq> [] \<and> b = sg_ts_ns (last geom))"
proof -
  obtain p ivs where st: "fold interval_step evs (-1, []) = (p, ivs)" by fastforce
  with assms intervals_invariant [OF st] show ?thesis
    by (auto simp: siren_intervals_def split: if_splits)
qed

lemma siren_interval_complete:
  assumes "evs = xs @ on # ys @ off # zs" and "is_on on" and "is_off off" and "0 \<le> sint (se_t_start_ns on)"
    and "\<And>ev. ev \<in> set ys \<Longrightarrow> \<not> is_on ev \<and> \<not> is_off ev"
  shows "(se_t_start_ns on, se_t_start_ns off) \<in> set (siren_intervals evs geom)"
proof -
  have quiet: "fold interval_step ys st = st" if "\<And>ev. ev \<in> set ys \<Longrightarrow> \<not> is_on ev \<and> \<not> is_off ev" for ys st
    using that by (induction ys arbitrary: st) (auto simp: interval_step_simps split: prod.splits)
  obtain p js where "fold interval_step xs (-1, []) = (p, js)" by fastforce
  then have "fold interval_step (xs @ on # ys @ [off]) (-1, []) = (-1, js @ [(se_t_start_ns on, se_t_start_ns off)])"
    using assms(2-4) quiet [OF assms(5)] by (simp add: interval_step_simps)
  then have "(se_t_start_ns on, se_t_start_ns off) \<in> set (snd (fold interval_step evs (-1, [])))"
    using intervals_kept [of "(-1, js @ [(se_t_start_ns on, se_t_start_ns off)])" zs] by (simp add: assms(1))
  then show ?thesis
    by (cases "fold interval_step evs (-1, [])") (auto simp: siren_intervals_def)
qed

section \<open>Properties\<close>

lemma segments_from_intervals:
  "map (\<lambda>s. (ss_t_start_ns s, ss_t_end_ns s)) (segments_from cfg rng k geom ivs) = filter (long_interval cfg) ivs"
  by (induction ivs arbitrary: k) (auto simp: segment_of_def Let_def)

lemma distance_self [simp]: "distance_ns t t = 0"
  by (simp add: distance_ns_def abs_ns_def)

lemma link_segments_spans [simp]:
  "map (\<lambda>s. (ss_t_start_ns s, ss_t_end_ns s)) (link_segments evs segs) = map (\<lambda>s. (ss_t_start_ns s, ss_t_end_ns s)) segs"
  by (simp add: link_segments_def split: option.splits)

lemma link_segments_linked:
  assumes "s \<in> set (link_segments evs segs)" and "starts_at evs (ss_t_start_ns s)"
  shows "\<exists>ev \<in> set evs. ss_event_id s = Some (se_event_id ev) \<and> starts_segment s ev"
proof -
  obtain seg where seg: "seg \<in> set segs"
    and s: "s = (case find (starts_segment seg) evs of None \<Rightarrow> seg | Some ev \<Rightarrow> seg\<lparr>ss_event_id := Some (se_event_id ev)\<rparr>)"
    using assms(1) by (auto simp: link_segments_def)
  have start: "ss_t_start_ns s = ss_t_start_ns seg" by (simp add: s split: option.splits)
  obtain ev0 where "ev0 \<in> set evs" "starts_segment seg ev0"
    using assms(2) by (auto simp: starts_at_def is_on_def starts_segment_def start kNsPerMs_def)
  then have "find (starts_segment seg) evs \<noteq> None" by (auto simp: find_None_iff)
  then obtain ev where found: "find (starts_segment seg) evs = Some ev" by blast
  then have "ev \<in> set evs" "starts_segment seg ev"
    by (auto simp: find_Some_iff)
  then show ?thesis using start by (auto simp: s found starts_segment_def)
qed

lemma segment_start:
  assumes "s \<in> set (link_segments evs (build_segments cfg rng k evs geom))"
  shows "starts_at evs (ss_t_start_ns s) \<and>
    (ends_at evs (ss_t_end_ns s) \<or> geom \<noteq> [] \<and> ss_t_end_ns s = sg_ts_ns (last geom))"
proof -
  have "(ss_t_start_ns s, ss_t_end_ns s) \<in> set (map (\<lambda>s. (ss_t_start_ns s, ss_t_end_ns s)) (link_segments evs (build_segments cfg rng k evs geom)))"
    using imageI [OF assms, of "\<lambda>s. (ss_t_start_ns s, ss_t_end_ns s)"] by (simp only: set_map)
  then have "(ss_t_start_ns s, ss_t_end_ns s) \<in> set (siren_intervals evs geom)"
    by (simp add: build_segments_def segments_from_intervals)
  then show ?thesis using siren_interval_sound [of "ss_t_start_ns s" "ss_t_end_ns s" evs geom] by auto
qed


text \<open>C25: No siren is lost: a siren's start at time 0 or later, whose next siren event is its end, gives a
  segment from the one to the other if it lasted for the configured minimum.\<close>

theorem no_siren_lost:
  assumes "evs = xs @ on # ys @ off # zs" and "is_on on" and "is_off off" and "0 \<le> sint (se_t_start_ns on)"
    and "\<And>ev. ev \<in> set ys \<Longrightarrow> \<not> is_on ev \<and> \<not> is_off ev"
    and "sint (ms_limit (oc_segment_min_duration_ms cfg)) \<le> sint (se_t_start_ns off - se_t_start_ns on)"
  shows "\<exists>s \<in> set (link_segments evs (build_segments cfg rng k evs geom)).
    ss_t_start_ns s = se_t_start_ns on \<and> ss_t_end_ns s = se_t_start_ns off"
proof -
  have "(se_t_start_ns on, se_t_start_ns off) \<in> set (filter (long_interval cfg) (siren_intervals evs geom))"
    using siren_interval_complete [OF assms(1-5)] assms(6) by (simp add: long_interval_def)
  also have "filter (long_interval cfg) (siren_intervals evs geom) =
      map (\<lambda>s. (ss_t_start_ns s, ss_t_end_ns s)) (link_segments evs (build_segments cfg rng k evs geom))"
    by (simp add: build_segments_def segments_from_intervals)
  finally show ?thesis by (auto simp del: link_segments_spans)
qed

definition example_event :: "string \<Rightarrow> ns_t \<Rightarrow> scene_event" where
  "example_event type t = \<lparr>se_event_id = [], se_type = type, se_t_start_ns = t, se_t_end_ns = t, se_source_ts_ns = t,
     se_source_event_id = 0, se_confidence = f64_zero, se_flags = [], se_geometry = None\<rparr>"

theorem no_siren_lost_witness:
  "\<exists>s \<in> set (link_segments [example_event ''siren_on'' 5, example_event ''user_marker'' 6, example_event ''siren_off'' 2000000005]
      (build_segments offline_defaults (\<lambda>_. 0) 0
        [example_event ''siren_on'' 5, example_event ''user_marker'' 6, example_event ''siren_off'' 2000000005] [])).
    ss_t_start_ns s = 5 \<and> ss_t_end_ns s = 2000000005"
  using no_siren_lost [of _ "[]" "example_event ''siren_on'' 5" "[example_event ''user_marker'' 6]"
      "example_event ''siren_off'' 2000000005" "[]" offline_defaults "\<lambda>_. 0" 0 "[]", OF refl]
  by (simp add: example_event_def is_on_def is_off_def ms_limit_def offline_defaults_def kNsPerMs_def)

end
