(* ===== verification/Reports.thy ===== *)
theory Reports
  imports SceneBuilder "HOL-Library.List_Lexorder" "HOL-Library.Char_ord"
begin

text \<open>
  The reports of a full run, \<open>offline/include/ego_offline/reports/report_builder.hpp\<close> and
  \<open>offline/src/reports/report_builder.cpp\<close>: the session report, the data quality report and the events
  report. A \<open>std::map\<close> with text keys is a list of pairs ordered by key. Clock texts are arguments.
\<close>

section \<open>Ordered maps\<close>

fun map_put :: "string \<Rightarrow> 'a \<Rightarrow> (string \<times> 'a) list \<Rightarrow> (string \<times> 'a) list" where
  "map_put k v [] = [(k, v)]"
| "map_put k v ((k', v') # m) =
     (if k = k' then (k, v) # m else if k < k' then (k, v) # (k', v') # m else (k', v') # map_put k v m)"

fun map_fields :: "('a \<Rightarrow> string) \<Rightarrow> (string \<times> 'a) list \<Rightarrow> object_builder \<Rightarrow> object_builder" where
  "map_fields show [] b = b"
| "map_fields show ((k, v) # m) b = map_fields show m (field k (show v) b)"

section \<open>Session report\<close>

record input_paths =
  ip_session_dir :: string
  ip_ego_manifest :: string
  ip_source_bin :: string
  ip_config :: string

record output_paths =
  op_out_dir :: string
  op_session_mf4 :: string
  op_validation_report :: string
  op_sync_report :: string
  op_scene_events :: string
  op_scene_segments :: string

record report_meta =
  rm_vehicle_id :: string
  rm_scenario_id :: string
  rm_source_id :: string
  rm_started_at_utc :: string
  rm_stopped_at_utc :: string
  rm_duration_s :: f64

record run_timing =
  ti_total_wall_s :: f64
  ti_stages_s :: "(string \<times> f64) list"

record session_report =
  sn_pipeline_version :: string
  sn_session_id :: string
  sn_generated_at_utc :: string
  sn_pipeline_status :: string
  sn_sync_status :: string
  sn_validation_integrity :: string
  sn_input_paths :: input_paths
  sn_outputs :: output_paths
  sn_metadata :: report_meta
  sn_timing :: run_timing
  sn_errors :: "string list"

definition pipeline_status_of :: "string list \<Rightarrow> integrity \<Rightarrow> sync_status \<Rightarrow> string" where
  "pipeline_status_of errors i s =
     (let ok = (errors = [] \<and> i \<noteq> Integrity_failed \<and> s \<noteq> Sync_failed);
          partial = (errors \<noteq> [] \<or> i = Integrity_warning \<or> s = Sync_degraded)
      in if ok then ''success'' else if partial then ''partial'' else ''failed'')"

definition build_session_report ::
  "offline_config \<Rightarrow> string \<Rightarrow> validation_report \<Rightarrow> sync_report \<Rightarrow> session_bundle \<Rightarrow> string \<Rightarrow>
     input_paths \<Rightarrow> output_paths \<Rightarrow> run_timing \<Rightarrow> string list \<Rightarrow> session_report"
where
  "build_session_report cfg now val syn meta sid inputs outputs timing errors =
     \<lparr>sn_pipeline_version = oc_pipeline_version cfg, sn_session_id = sid, sn_generated_at_utc = now,
      sn_pipeline_status = pipeline_status_of errors (vr_integrity val) (sr_status syn),
      sn_sync_status = sync_status_str (sr_status syn),
      sn_validation_integrity = integrity_str (vr_integrity val),
      sn_input_paths = inputs, sn_outputs = outputs,
      sn_metadata = \<lparr>rm_vehicle_id = mt_vehicle_id (sb_session meta),
        rm_scenario_id = (case sb_scenario meta of Some s \<Rightarrow> mc_scenario_id s | None \<Rightarrow> []),
        rm_source_id = (case sb_source meta of Some s \<Rightarrow> mu_source_id s | None \<Rightarrow> []),
        rm_started_at_utc = mt_started_at_utc (sb_session meta),
        rm_stopped_at_utc = mt_stopped_at_utc (sb_session meta), rm_duration_s = mt_duration_s (sb_session meta)\<rparr>,
      sn_timing = timing, sn_errors = errors\<rparr>"

definition session_report_json :: "session_report \<Rightarrow> string" where
  "session_report_json r =
     (let ip = sn_input_paths r; op = sn_outputs r; md = sn_metadata r; ti = sn_timing r;
          root =
            field ''validation_integrity'' (json_str (sn_validation_integrity r))
            (field ''sync_status'' (json_str (sn_sync_status r))
            (field ''pipeline_status'' (json_str (sn_pipeline_status r))
            (field ''generated_at_utc'' (json_str (sn_generated_at_utc r))
            (field ''session_id'' (json_str (sn_session_id r))
            (field ''offline_pipeline_version'' (json_str (sn_pipeline_version r)) (new_builder 2 0))))));
          root = object_field ''input_paths'' (\<lambda>b.
            field ''config'' (json_str (ip_config ip))
            (field ''source_bin'' (json_str (ip_source_bin ip))
            (field ''ego_manifest'' (json_str (ip_ego_manifest ip))
            (field ''session_dir'' (json_str (ip_session_dir ip)) b)))) root;
          root = object_field ''outputs'' (\<lambda>b.
            field ''scene_segments'' (json_str (op_scene_segments op))
            (field ''scene_events'' (json_str (op_scene_events op))
            (field ''sync_report'' (json_str (op_sync_report op))
            (field ''validation_report'' (json_str (op_validation_report op))
            (field ''session_mf4'' (json_str (op_session_mf4 op))
            (field ''out_dir'' (json_str (op_out_dir op)) b)))))) root;
          root = object_field ''metadata'' (\<lambda>b.
            field ''duration_s'' (num_double 3 (rm_duration_s md))
            (field ''stopped_at_utc'' (json_str (rm_stopped_at_utc md))
            (field ''started_at_utc'' (json_str (rm_started_at_utc md))
            (field ''source_id'' (json_str (rm_source_id md))
            (field ''scenario_id'' (json_str (rm_scenario_id md))
            (field ''vehicle_id'' (json_str (rm_vehicle_id md)) b)))))) root;
          root = object_field ''timing'' (\<lambda>b.
            object_field ''stages_s'' (map_fields (num_double 3) (ti_stages_s ti))
            (field ''total_wall_s'' (num_double 3 (ti_total_wall_s ti)) b)) root
      in build (array_field ''errors'' (map json_str (sn_errors r)) root))"

text \<open>Every report is written in the same way; the name of the report is in the error's text.\<close>

definition write_text_report :: "string \<Rightarrow> bool \<Rightarrow> string \<Rightarrow> string \<Rightarrow> dir \<Rightarrow> string + dir" where
  "write_text_report what open_ok path text d =
     (if \<not> open_ok then Inl (''Cannot write '' @ what @ '': '' @ path)
      else Inr (put path (text_bytes (text @ [CHR 0x0A])) d))"

section \<open>Data quality report\<close>

record stream_quality =
  sq_present :: bool
  sq_score :: f64
  sq_sample_count :: u64
  sq_gap_count :: u64
  sq_mean_rate_hz :: f64
  sq_notes :: string

record quality_report =
  qr_pipeline_version :: string
  qr_session_id :: string
  qr_generated_at_utc :: string
  qr_overall_score :: f64
  qr_usable_for_training :: bool
  qr_streams :: "(string \<times> stream_quality) list"
  qr_total_duration_s :: f64
  qr_valid_duration_s :: f64
  qr_valid_fraction :: f64
  qr_range_count :: nat
  qr_ego_packets_lost :: u64
  qr_source_packets_lost :: u64
  qr_ego_loss_fraction :: f64
  qr_source_loss_fraction :: f64
  qr_flags :: "string list"

definition f64_of_u64 :: "u64 \<Rightarrow> f64" where "f64_of_u64 n = f64_of_int (uint n)"

definition one_less :: "f64 \<Rightarrow> f64" where "one_less x = sub64 (f64_of_int 1) (min64 (f64_of_int 1) x)"

definition stream_score :: "stream_validation \<Rightarrow> f64" where
  "stream_score sv =
     (if \<not> sv_file_ok sv \<or> sv_packets_total sv = 0 then f64_of_int 0
      else
        let loss_ok = one_less (div64 (f64_of_u64 (sv_packets_lost sv)) (f64_of_u64 (sv_packets_total sv)));
            mono_ok = (if 0 < sv_monotonic_violations sv then f64_of_rat (9 / 10) else f64_of_int 1);
            gap_ok = one_less (div64 (f64_of_u64 (sv_audio_gap_count sv + sv_telemetry_gap_count sv))
               (f64_of_u64 (max 1 (sv_packets_total sv div 100))))
        in mul64 (mul64 loss_ok mono_ok) gap_ok)"

definition stream_quality_of :: "stream_validation \<Rightarrow> f64 \<Rightarrow> stream_quality" where
  "stream_quality_of sv rate =
     (let present = sv_file_ok sv in
      \<lparr>sq_present = present \<and> sv_file_ok sv, sq_score = (if present then stream_score sv else f64_of_int 0),
       sq_sample_count = sv_packets_valid sv,
       sq_gap_count = sv_audio_gap_count sv + sv_telemetry_gap_count sv + of_nat (length (sv_gap_events sv)),
       sq_mean_rate_hz = rate, sq_notes = []\<rparr>)"

definition loss_fraction :: "stream_validation \<Rightarrow> f64" where
  "loss_fraction sv =
     (if 0 < sv_packets_total sv then div64 (f64_of_u64 (sv_packets_lost sv)) (f64_of_u64 (sv_packets_total sv))
      else f64_of_int 0)"

definition quality_streams :: "validation_report \<Rightarrow> (string \<times> stream_quality) list" where
  "quality_streams val =
     fold (\<lambda>(k, q). map_put k q)
       [(''audio'', stream_quality_of (vr_ego val) (f64_of_int 48000)),
        (''imu'', stream_quality_of (vr_ego val) (f64_of_int 100)),
        (''gps_ego'', stream_quality_of (vr_ego val) (f64_of_int 1)),
        (''gps_source'', stream_quality_of (vr_source val) (f64_of_int 1)),
        (''source_events'', stream_quality_of (vr_source val) (f64_of_int 0))] []"

definition overall_score :: "(string \<times> stream_quality) list \<Rightarrow> f64" where
  "overall_score streams =
     (let present = filter sq_present (map snd streams) in
      if present = [] then f64_of_int 0
      else div64 (sum64 (map sq_score present)) (f64_of_int (int (length present))))"

definition quality_flags :: "validation_report \<Rightarrow> string list" where
  "quality_flags val =
     (if 0 < sv_packets_crc_failed (vr_ego val) then [''ego_crc_errors''] else []) @
     (if 0 < sv_packets_crc_failed (vr_source val) then [''source_crc_errors''] else []) @
     (if \<not> sv_file_ok (vr_source val) then [''source_missing''] else []) @
     (if less64 (vr_valid_fraction val) (f64_of_rat (1 / 2)) then [''low_valid_fraction''] else [])"

definition build_quality_report :: "offline_config \<Rightarrow> string \<Rightarrow> validation_report \<Rightarrow> string \<Rightarrow> quality_report" where
  "build_quality_report cfg now val sid =
     (let streams = quality_streams val; score = overall_score streams in
      \<lparr>qr_pipeline_version = oc_pipeline_version cfg, qr_session_id = sid, qr_generated_at_utc = now,
       qr_overall_score = score,
       qr_usable_for_training =
         (ge64 score (f64_of_rat (7 / 10)) \<and> ge64 (vr_valid_fraction val) (f64_of_rat (8 / 10))),
       qr_streams = streams,
       qr_total_duration_s = div64 (f64_of_ns (sv_t_last_ns (vr_ego val) - sv_t_first_ns (vr_ego val))) billion64,
       qr_valid_duration_s = vr_total_valid_duration_s val, qr_valid_fraction = vr_valid_fraction val,
       qr_range_count = length (vr_valid_ranges val),
       qr_ego_packets_lost = sv_packets_lost (vr_ego val), qr_source_packets_lost = sv_packets_lost (vr_source val),
       qr_ego_loss_fraction = loss_fraction (vr_ego val), qr_source_loss_fraction = loss_fraction (vr_source val),
       qr_flags = quality_flags val\<rparr>)"

definition quality_json :: "stream_quality \<Rightarrow> object_builder \<Rightarrow> object_builder" where
  "quality_json q b =
     field ''notes'' (json_str (sq_notes q))
     (field ''mean_rate_hz'' (num_double 2 (sq_mean_rate_hz q))
     (field ''gap_count'' (num_int (sq_gap_count q))
     (field ''sample_count'' (num_int (sq_sample_count q))
     (field ''score'' (num_double 4 (sq_score q))
     (field ''present'' (json_bool (sq_present q)) b)))))"

text \<open>The navigation figures are never computed; they are written with their initial values.\<close>

definition quality_report_json :: "quality_report \<Rightarrow> string" where
  "quality_report_json r =
     (let root =
            field ''usable_for_training'' (json_bool (qr_usable_for_training r))
            (field ''overall_score'' (num_double 4 (qr_overall_score r))
            (field ''generated_at_utc'' (json_str (qr_generated_at_utc r))
            (field ''session_id'' (json_str (qr_session_id r))
            (field ''offline_pipeline_version'' (json_str (qr_pipeline_version r)) (new_builder 2 0)))));
          root = object_field ''streams''
            (\<lambda>sb. fold (\<lambda>(name, q). object_field name (quality_json q)) (qr_streams r) sb) root;
          root = object_field ''valid_time'' (\<lambda>b.
            field ''range_count'' (num_int (of_nat (qr_range_count r)))
            (field ''valid_fraction'' (num_double 4 (qr_valid_fraction r))
            (field ''valid_duration_s'' (num_double 3 (qr_valid_duration_s r))
            (field ''total_duration_s'' (num_double 3 (qr_total_duration_s r)) b)))) root;
          root = object_field ''packet_loss'' (\<lambda>b.
            field ''source_loss_fraction'' (num_double 4 (qr_source_loss_fraction r))
            (field ''ego_loss_fraction'' (num_double 4 (qr_ego_loss_fraction r))
            (field ''source_packets_lost'' (num_int (qr_source_packets_lost r))
            (field ''ego_packets_lost'' (num_int (qr_ego_packets_lost r)) b)))) root;
          root = object_field ''navigation'' (\<lambda>b.
            field ''mean_hdop_source'' (num_double 3 f64_zero)
            (field ''mean_hdop_ego'' (num_double 3 f64_zero)
            (field ''source_rtk_fraction'' (num_double 4 f64_zero)
            (field ''ego_rtk_fraction'' (num_double 4 f64_zero) b)))) root
      in build (array_field ''flags'' (map json_str (qr_flags r)) root))"

section \<open>Events report\<close>

record event_row =
  er_event_id :: string
  er_type :: string
  er_t_start_ns :: ns_t
  er_t_end_ns :: ns_t
  er_source_event_id :: u64
  er_confidence :: f64
  er_segment_ids :: "string list"
  er_range_at_event_m :: f64
  er_azimuth_at_event_deg :: f64

record events_report =
  ep_pipeline_version :: string
  ep_session_id :: string
  ep_generated_at_utc :: string
  ep_event_count :: nat
  ep_events :: "event_row list"
  ep_segment_count :: nat
  ep_by_class :: "(string \<times> nat) list"
  ep_linked_to_event :: nat
  ep_unlinked :: nat

definition linked_to :: "scene_event \<Rightarrow> scene_segment \<Rightarrow> bool" where
  "linked_to ev seg \<longleftrightarrow> ss_event_id seg = Some (se_event_id ev)"

definition event_row_of :: "scene_segment list \<Rightarrow> scene_event \<Rightarrow> event_row" where
  "event_row_of segs ev =
     \<lparr>er_event_id = se_event_id ev, er_type = se_type ev, er_t_start_ns = se_t_start_ns ev,
      er_t_end_ns = se_t_end_ns ev, er_source_event_id = se_source_event_id ev, er_confidence = se_confidence ev,
      er_segment_ids = map ss_segment_id (filter (linked_to ev) segs),
      er_range_at_event_m = (case se_geometry ev of Some g \<Rightarrow> eg_range_m g | None \<Rightarrow> f64_zero),
      er_azimuth_at_event_deg = (case se_geometry ev of Some g \<Rightarrow> eg_azimuth_deg g | None \<Rightarrow> f64_zero)\<rparr>"

definition count_class :: "string \<Rightarrow> (string \<times> nat) list \<Rightarrow> (string \<times> nat) list" where
  "count_class c m = map_put c ((case map_of m c of Some n \<Rightarrow> n | None \<Rightarrow> 0) + 1) m"

definition build_events_report ::
  "offline_config \<Rightarrow> string \<Rightarrow> scene_event list \<Rightarrow> scene_segment list \<Rightarrow> string \<Rightarrow> events_report"
where
  "build_events_report cfg now evs segs sid =
     \<lparr>ep_pipeline_version = oc_pipeline_version cfg, ep_session_id = sid, ep_generated_at_utc = now,
      ep_event_count = length evs, ep_events = map (event_row_of segs) evs, ep_segment_count = length segs,
      ep_by_class = fold (\<lambda>s. count_class (segment_to_string (ss_class s))) segs [],
      ep_linked_to_event = length (filter (\<lambda>s. ss_event_id s \<noteq> None) segs),
      ep_unlinked = length (filter (\<lambda>s. ss_event_id s = None) segs)\<rparr>"

definition event_row_json :: "event_row \<Rightarrow> string" where
  "event_row_json e = build
     (array_field ''segment_ids'' (map json_str (er_segment_ids e))
     (field ''azimuth_at_event_deg'' (num_double 2 (er_azimuth_at_event_deg e))
     (field ''range_at_event_m'' (num_double 2 (er_range_at_event_m e))
     (field ''confidence'' (num_double 3 (er_confidence e))
     (field ''source_event_id'' (num_int (er_source_event_id e))
     (field ''t_end_ns'' (num_int (er_t_end_ns e))
     (field ''t_start_ns'' (num_int (er_t_start_ns e))
     (field ''type'' (json_str (er_type e))
     (field ''event_id'' (json_str (er_event_id e)) (new_builder 2 2))))))))))"

definition events_report_json :: "events_report \<Rightarrow> string" where
  "events_report_json r =
     (let root =
            field ''event_count'' (num_int (of_nat (ep_event_count r)))
            (field ''generated_at_utc'' (json_str (ep_generated_at_utc r))
            (field ''session_id'' (json_str (ep_session_id r))
            (field ''offline_pipeline_version'' (json_str (ep_pipeline_version r)) (new_builder 2 0))));
          root = raw_array_field ''events'' (map event_row_json (ep_events r)) root
      in build (object_field ''segment_summary'' (\<lambda>b.
           object_field ''by_class'' (map_fields (\<lambda>n. num_int (of_nat n)) (ep_by_class r))
           (field ''unlinked'' (num_int (of_nat (ep_unlinked r)))
           (field ''linked_to_event'' (num_int (of_nat (ep_linked_to_event r)))
           (field ''segment_count'' (num_int (of_nat (ep_segment_count r))) b)))) root))"

section \<open>Properties\<close>

lemma map_of_put: "map_of (map_put k v m) = (map_of m)(k \<mapsto> v)"
  by (induction m) auto

definition ordered_keys :: "(string \<times> 'a) list \<Rightarrow> bool" where "ordered_keys m \<longleftrightarrow> sorted_wrt (<) (map fst m)"

lemma set_put: "fst ` set (map_put k v m) = insert k (fst ` set m)"
  by (simp add: dom_map_of_conv_image_fst [symmetric] map_of_put)

lemma ordered_put: "ordered_keys m \<Longrightarrow> ordered_keys (map_put k v m)"
  unfolding ordered_keys_def
proof (induction m)
  case (Cons kv m)
  obtain k' v' where kv: "kv = (k', v')" by (cases kv)
  have "k' < x" if "x \<in> fst ` set (map_put k v m)" "k' < k" for x
    using that Cons.prems by (auto simp: kv set_put)
  with Cons show ?case by (auto simp: kv image_iff)
qed simp

lemma total_put:
  assumes "ordered_keys m"
  shows "sum_list (map snd (map_put k n m)) + (case map_of m k of Some j \<Rightarrow> j | None \<Rightarrow> 0) = sum_list (map snd m) + (n :: nat)"
  using assms
proof (induction m)
  case (Cons kv m)
  obtain k' v' where kv: "kv = (k', v')" by (cases kv)
  have IH: "sum_list (map snd (map_put k n m)) + (case map_of m k of Some j \<Rightarrow> j | None \<Rightarrow> 0) = sum_list (map snd m) + n"
    using Cons by (simp add: ordered_keys_def)
  have "map_of m k = None" if "k < k'"
    using Cons.prems that by (force simp: ordered_keys_def kv map_of_eq_None_iff)
  then show ?case using IH by (auto simp: kv)
qed simp

lemma class_counts:
  "ordered_keys m \<Longrightarrow>
     ordered_keys (fold (\<lambda>s. count_class (segment_to_string (ss_class s))) segs m) \<and>
     sum_list (map snd (fold (\<lambda>s. count_class (segment_to_string (ss_class s))) segs m)) = sum_list (map snd m) + length segs"
proof (induction segs arbitrary: m)
  case (Cons s segs)
  let ?m = "count_class (segment_to_string (ss_class s)) m"
  have "ordered_keys ?m" using Cons.prems by (simp add: count_class_def ordered_put)
  moreover have "sum_list (map snd ?m) = sum_list (map snd m) + 1"
    using total_put [OF Cons.prems] by (simp add: count_class_def)
      (metis (no_types, lifting) add.commute add_Suc_right add_left_imp_eq)
  ultimately show ?case using Cons.IH by simp
qed simp


text \<open>The events report accounts for every segment the scene builder makes: none is unlinked, the counts
  of the classes add up to their number, and each is listed in the row of a siren's start.\<close>

theorem segments_reported:
  fixes cfg now rng k evs geom sid
  defines "segs \<equiv> link_segments evs (build_segments cfg rng k evs geom)"
  defines "rpt \<equiv> build_events_report cfg now evs segs sid"
  shows "map er_event_id (ep_events rpt) = map se_event_id evs \<and>
    ep_linked_to_event rpt = length segs \<and> ep_unlinked rpt = 0 \<and>
    sum_list (map snd (ep_by_class rpt)) = length segs \<and>
    list_all (\<lambda>s. \<exists>row \<in> set (ep_events rpt). er_type row = ''siren_on'' \<and> ss_segment_id s \<in> set (er_segment_ids row)) segs"
proof -
  have linked: "\<exists>ev \<in> set evs. ss_event_id s = Some (se_event_id ev) \<and> se_type ev = ''siren_on''" if "s \<in> set segs" for s
  proof -
    have "starts_at evs (ss_t_start_ns s)"
      using segment_start that by (auto simp: segs_def)
    then show ?thesis
      using link_segments_linked [of s evs "build_segments cfg rng k evs geom"] that
      by (auto simp: segs_def starts_segment_def)
  qed
  then have "filter (\<lambda>s. ss_event_id s \<noteq> None) segs = segs" "filter (\<lambda>s. ss_event_id s = None) segs = []"
    by (force simp: filter_id_conv filter_empty_conv)+
  moreover have "\<exists>row \<in> set (ep_events rpt). er_type row = ''siren_on'' \<and> ss_segment_id s \<in> set (er_segment_ids row)"
    if "s \<in> set segs" for s
    using linked [OF that] that
    by (force simp: rpt_def build_events_report_def event_row_of_def linked_to_def)
  moreover have "sum_list (map snd (ep_by_class rpt)) = length segs"
    using class_counts [of "[]" segs] by (simp add: rpt_def build_events_report_def ordered_keys_def)
  ultimately show ?thesis
    by (simp add: rpt_def build_events_report_def list_all_iff event_row_of_def)
qed

end
