(* ===== verification/S3Upload.thy ===== *)
theory S3Upload
  imports Reports
begin

text \<open>
  The upload to object storage, \<open>offline/src/upload/s3_client.cpp\<close> and
  \<open>offline/src/upload/s3_uploader.cpp\<close>: the commands that put an object and hash a file (those of the POSIX
  build), the gate, the choice of files and object keys, the retries and the report. What the commands print
  and whether a temporary file can be written is the environment's; the commands issued are recorded.
\<close>

section \<open>Searching texts\<close>

fun find_sub :: "string \<Rightarrow> string \<Rightarrow> nat option" where
  "find_sub needle [] = (if needle = [] then Some 0 else None)"
| "find_sub needle (c # s) =
     (if take (length needle) (c # s) = needle then Some 0 else map_option Suc (find_sub needle s))"

text \<open>\<open>rfind\<close>: the place of the last occurrence.\<close>

fun rfind_sub :: "string \<Rightarrow> string \<Rightarrow> nat option" where
  "rfind_sub needle [] = (if needle = [] then Some 0 else None)"
| "rfind_sub needle (c # s) =
     (case rfind_sub needle s of Some i \<Rightarrow> Some (Suc i)
      | None \<Rightarrow> if take (length needle) (c # s) = needle then Some 0 else None)"

definition trim_right :: "(char \<Rightarrow> bool) \<Rightarrow> string \<Rightarrow> string" where
  "trim_right p s = rev (dropWhile p (rev s))"

definition ends_with :: "string \<Rightarrow> string \<Rightarrow> bool" where
  "ends_with e s \<longleftrightarrow> length e \<le> length s \<and> drop (length s - length e) s = e"

abbreviation blank :: "char \<Rightarrow> bool" where "blank c \<equiv> c = CHR '' '' \<or> c = CHR 0x09"

section \<open>Commands\<close>

record s3_env =
  sx_run :: "nat \<Rightarrow> string \<Rightarrow> string option"
  sx_tmp_ok :: "nat \<Rightarrow> bool"
  sx_tmp_dir :: string
  sx_tag :: "nat \<Rightarrow> string"

text \<open>The commands issued so far; a command's number decides what it prints, None if it cannot be started.\<close>

type_synonym commands = "string list"

definition run_command :: "s3_env \<Rightarrow> string \<Rightarrow> commands \<Rightarrow> string option \<times> commands" where
  "run_command env cmd cs = (sx_run env (length cs) cmd, cs @ [cmd])"

definition shell_quote :: "string \<Rightarrow> string" where
  "shell_quote arg =
     [CHR 0x22] @ concat (map (\<lambda>c. if c = CHR 0x22 then [CHR 0x5C, CHR 0x22] else [c]) arg) @ [CHR 0x22]"

definition sha256_hex_file :: "s3_env \<Rightarrow> dir \<Rightarrow> string \<Rightarrow> commands \<Rightarrow> string \<times> commands" where
  "sha256_hex_file env d path cs =
     (if fget d path = None then ([], cs)
      else
        case run_command env (''openssl dgst -sha256 -hex '' @ shell_quote path @ '' 2>/dev/null'') cs of
          (None, cs') \<Rightarrow> ([], cs')
        | (Some output, cs') \<Rightarrow>
            (case rfind_sub ''='' output of None \<Rightarrow> ([], cs')
             | Some eq \<Rightarrow>
                 (trim_right (\<lambda>c. c = CHR 0x0D \<or> c = CHR 0x0A \<or> c = CHR '' '')
                    (dropWhile blank (drop (eq + 1) output)), cs')))"

definition url_char_ok :: "char \<Rightarrow> bool" where
  "url_char_ok c \<longleftrightarrow>
     (let n = of_char c :: nat in
      48 \<le> n \<and> n \<le> 57 \<or> 65 \<le> n \<and> n \<le> 90 \<or> 97 \<le> n \<and> n \<le> 122 \<or> c \<in> set ''-_.~/'')"

definition upper_hex :: "nat \<Rightarrow> char" where "upper_hex n = ''0123456789ABCDEF'' ! n"

definition url_encode_path :: "string \<Rightarrow> string" where
  "url_encode_path path =
     concat (map (\<lambda>c. if url_char_ok c then [c]
       else [CHR 0x25, upper_hex (of_char c div 16), upper_hex (of_char c mod 16)]) path)"

text \<open>\<open>std::atoi\<close> of an HTTP status.\<close>

definition atoi :: "string \<Rightarrow> int" where
  "atoi s =
     (let t = dropWhile (\<lambda>c. c = CHR '' '' \<or> 9 \<le> (of_char c :: nat) \<and> (of_char c :: nat) \<le> 13) s;
          neg = (t \<noteq> [] \<and> hd t = CHR ''-'');
          t = (if t \<noteq> [] \<and> (hd t = CHR ''-'' \<or> hd t = CHR ''+'') then tl t else t);
          v = foldl (\<lambda>v c. 10 * v + (of_char c - 48)) 0
                (takeWhile (\<lambda>c. 48 \<le> (of_char c :: int) \<and> (of_char c :: int) \<le> 57) t)
      in if neg then - v else v)"

record put_result =
  pt_ok :: bool
  pt_http_status :: int
  pt_etag :: string
  pt_error :: string

definition put_error :: "string \<Rightarrow> put_result" where
  "put_error what = \<lparr>pt_ok = False, pt_http_status = 0, pt_etag = [], pt_error = what\<rparr>"

definition put_command :: "offline_config \<Rightarrow> string \<Rightarrow> string \<Rightarrow> string \<Rightarrow> string" where
  "put_command cfg key body_path ctype =
     (let uri = (if oc_s3_path_style cfg then ''/'' @ oc_s3_bucket cfg @ ''/'' @ key else ''/'' @ key);
          url = trim_right (\<lambda>c. c = CHR ''/'') (oc_s3_endpoint cfg) @ uri
      in ''curl -sS -w '' @ [CHR 0x22] @ ''HTTP_CODE:%{http_code}'' @ [CHR 0x22] @ '' -o /dev/null -X PUT -T '' @
         shell_quote body_path @ '' --aws-sigv4 '' @ shell_quote (''aws:amz:'' @ oc_s3_region cfg @ '':s3'') @
         '' -u '' @ shell_quote (oc_s3_access_key cfg @ '':'' @ oc_s3_secret_key cfg) @
         (if ctype \<noteq> [] then '' -H '' @ shell_quote (''Content-Type: '' @ ctype) else []) @ '' '' @ shell_quote url)"

definition s3_put_object ::
  "s3_env \<Rightarrow> offline_config \<Rightarrow> string \<Rightarrow> string \<Rightarrow> commands \<Rightarrow> put_result \<times> commands"
where
  "s3_put_object env cfg key ctype cs =
     (if oc_s3_access_key cfg = [] \<or> oc_s3_secret_key cfg = [] then (put_error ''missing S3 credentials'', cs)
      else if \<not> sx_tmp_ok env (length cs) then (put_error ''failed to write temp upload body'', cs)
      else
        let body_path = sx_tmp_dir env @ ''/ego_s3_'' @ sx_tag env (length cs) @ ''.bin'' in
        case run_command env (put_command cfg key body_path ctype) cs of
          (None, cs') \<Rightarrow> (put_error ''failed to run curl'', cs')
        | (Some output, cs') \<Rightarrow>
            (case rfind_sub ''HTTP_CODE:'' output of
               None \<Rightarrow> (put_error ''curl produced no HTTP status'', cs')
             | Some i \<Rightarrow>
                 let status = atoi (drop (i + 10) output); ok = (200 \<le> status \<and> status < 300) in
                 (\<lparr>pt_ok = ok, pt_http_status = status, pt_etag = [],
                   pt_error = (if ok then [] else ''HTTP '' @ dec_int status)\<rparr>, cs')))"

section \<open>The uploader\<close>

text \<open>The scan for a key's value; a text value ends at the next quote.\<close>

definition json_get_string :: "string \<Rightarrow> string \<Rightarrow> string" where
  "json_get_string json key =
     (let needle = [CHR 0x22] @ key @ [CHR 0x22, CHR '':''] in
      case find_sub needle json of None \<Rightarrow> []
      | Some i \<Rightarrow>
          (case dropWhile blank (drop (i + length needle) json) of [] \<Rightarrow> []
           | c # rest \<Rightarrow>
               if c = CHR 0x22
               then (if CHR 0x22 \<in> set rest then takeWhile (\<lambda>c. c \<noteq> CHR 0x22) rest else [])
               else trim_right blank (takeWhile (\<lambda>c. c \<notin> {CHR '','', CHR ''}'', CHR 0x0A}) (c # rest))))"

definition content_type_for :: "string \<Rightarrow> string" where
  "content_type_for name =
     (if ends_with ''.json'' name then ''application/json''
      else if ends_with ''.sha256'' name then ''text/plain'' else ''application/octet-stream'')"

record upload_file =
  uf_local_path :: string
  uf_object_key :: string
  uf_size_bytes :: u64
  uf_sha256 :: string
  uf_etag :: string
  uf_status :: string
  uf_message :: string

record upload_report =
  ur_session_id :: string
  ur_generated_at_utc :: string
  ur_bucket :: string
  ur_prefix :: string
  ur_upload_status :: string
  ur_blocked_reason :: string
  ur_files :: "upload_file list"

definition upload_file_json :: "upload_file \<Rightarrow> string" where
  "upload_file_json f = build
     (field ''message'' (json_str (uf_message f))
     (field ''status'' (json_str (uf_status f))
     (field ''etag'' (json_str (uf_etag f))
     (field ''sha256'' (json_str (uf_sha256 f))
     (field ''size_bytes'' (num_int (uf_size_bytes f))
     (field ''object_key'' (json_str (uf_object_key f))
     (field ''local_path'' (json_str (uf_local_path f)) (new_builder 2 2))))))))"

definition upload_report_json :: "upload_report \<Rightarrow> string" where
  "upload_report_json r =
     (let root =
            field ''upload_status'' (json_str (ur_upload_status r))
            (field ''prefix'' (json_str (ur_prefix r))
            (field ''bucket'' (json_str (ur_bucket r))
            (field ''generated_at_utc'' (json_str (ur_generated_at_utc r))
            (field ''session_id'' (json_str (ur_session_id r))
            (field ''upload_manifest_version'' (json_str ''1.0'') (new_builder 2 0))))));
          root = (if ur_blocked_reason r \<noteq> [] then field ''blocked_reason'' (json_str (ur_blocked_reason r)) root else root)
      in build (raw_array_field ''files'' (map upload_file_json (ur_files r)) root))"

text \<open>The report's stream is not checked: where it cannot be opened, nothing is written.\<close>

definition write_upload_report :: "bool \<Rightarrow> string \<Rightarrow> upload_report \<Rightarrow> dir \<Rightarrow> dir" where
  "write_upload_report open_ok path r d =
     (if open_ok then put path (text_bytes (upload_report_json r @ [CHR 0x0A])) d else d)"

definition read_pipeline_status :: "dir \<Rightarrow> string \<Rightarrow> string" where
  "read_pipeline_status d out =
     (case fget d (join_path out ''session_report.json'') of None \<Rightarrow> ''unknown''
      | Some bs \<Rightarrow> json_get_string (bytes_text bs) ''pipeline_status'')"

definition read_session_id :: "dir \<Rightarrow> string \<Rightarrow> string \<Rightarrow> string" where
  "read_session_id d out session_name =
     (case fget d (join_path out ''session_report.json'') of None \<Rightarrow> session_name
      | Some bs \<Rightarrow>
          let i = json_get_string (bytes_text bs) ''session_id'' in if i \<noteq> [] then i else session_name)"

text \<open>The gate: None to go on, or the reason not to.\<close>

definition gate_allowed :: "offline_config \<Rightarrow> dir \<Rightarrow> string \<Rightarrow> string \<Rightarrow> string option" where
  "gate_allowed cfg d out status =
     (if oc_s3_require_real_mdf4 cfg \<and>
         (fget d (join_path out ''session.mf4'') = None \<or> contents d (join_path out ''session.mf4'') = [])
      then Some ''session.mf4 missing''
      else if oc_s3_require_real_mdf4 cfg \<and> fget d (join_path out ''session.mf4.placeholder'') \<noteq> None
      then Some ''mdf4_stub''
      else if oc_s3_require_pipeline_success cfg \<and> status \<noteq> ''success''
      then Some (''pipeline_status='' @ status)
      else if oc_s3_bucket cfg = [] then Some ''s3.bucket not configured''
      else if oc_s3_access_key cfg = [] \<or> oc_s3_secret_key cfg = [] then Some ''s3 credentials missing''
      else None)"

section \<open>Files and keys\<close>

definition existing :: "dir \<Rightarrow> string list \<Rightarrow> string list" where
  "existing d = filter (\<lambda>p. fget d p \<noteq> None)"

definition collect_files :: "offline_config \<Rightarrow> dir \<Rightarrow> string \<Rightarrow> string list" where
  "collect_files cfg d out =
     existing d (map (join_path out) (filter (\<lambda>n. n \<noteq> ''upload_manifest.json'') (oc_s3_include_files cfg)))"

definition is_chunk_name :: "string \<Rightarrow> bool" where
  "is_chunk_name n \<longleftrightarrow> take 4 n = ''ego_'' \<and> 8 \<le> length n \<and> ends_with ''.bin'' n"

text \<open>The listed files and the chunks in the session directory itself, sorted, each once.\<close>

definition collect_session_files :: "offline_config \<Rightarrow> dir \<Rightarrow> string list" where
  "collect_session_files cfg d =
     (if \<not> oc_s3_include_session_files cfg then []
      else remdups_adj (sort (existing d (oc_s3_session_include_files cfg) @
        filter (\<lambda>n. CHR ''/'' \<notin> set n \<and> is_chunk_name n) (map fst d))))"

definition base_name :: "string \<Rightarrow> string" where
  "base_name p = rev (takeWhile (\<lambda>c. c \<noteq> CHR ''/'') (rev p))"

definition prefix_trim :: "offline_config \<Rightarrow> string" where
  "prefix_trim cfg = trim_right (\<lambda>c. c = CHR ''/'') (oc_s3_prefix cfg)"

definition object_key :: "offline_config \<Rightarrow> string \<Rightarrow> string \<Rightarrow> string \<Rightarrow> string" where
  "object_key cfg sid subdir base =
     (if subdir = [] then prefix_trim cfg @ ''/'' @ sid @ ''/'' @ base
      else prefix_trim cfg @ ''/'' @ sid @ ''/'' @ subdir @ ''/'' @ base)"

text \<open>Attempts until one succeeds, is refused for good, or so many failed.\<close>

fun put_with_retries :: "nat \<Rightarrow> s3_env \<Rightarrow> offline_config \<Rightarrow> string \<Rightarrow> string \<Rightarrow> put_result \<Rightarrow> commands \<Rightarrow> put_result \<times> commands"
where
  "put_with_retries 0 env cfg key ctype r0 cs = (r0, cs)"
| "put_with_retries (Suc n) env cfg key ctype r0 cs =
     (case s3_put_object env cfg key ctype cs of (r, cs') \<Rightarrow>
        if pt_ok r \<or> pt_http_status r = 403 \<or> pt_http_status r = 404 then (r, cs')
        else put_with_retries n env cfg key ctype r cs')"

definition attempts :: "offline_config \<Rightarrow> nat" where
  "attempts cfg = nat (sint (oc_s3_max_retries cfg) + 1)"

definition upload_one ::
  "s3_env \<Rightarrow> offline_config \<Rightarrow> dir \<Rightarrow> string \<Rightarrow> string \<Rightarrow> string \<Rightarrow> commands \<Rightarrow> upload_file \<times> commands"
where
  "upload_one env cfg d sid subdir path cs =
     (let base = base_name path; key = object_key cfg sid subdir base;
          (sha, cs) = sha256_hex_file env d path cs;
          (r, cs) = put_with_retries (attempts cfg) env cfg key (content_type_for base) (put_error []) cs
      in (\<lparr>uf_local_path = path, uf_object_key = key, uf_size_bytes = of_nat (length (contents d path)),
           uf_sha256 = sha, uf_etag = pt_etag r, uf_status = (if pt_ok r then ''ok'' else ''failed''),
           uf_message = (if pt_ok r then [] else pt_error r)\<rparr>, cs))"

fun upload_batch ::
  "s3_env \<Rightarrow> offline_config \<Rightarrow> dir \<Rightarrow> string \<Rightarrow> string \<Rightarrow> string list \<Rightarrow> commands \<Rightarrow> upload_file list \<times> commands"
where
  "upload_batch env cfg d sid subdir [] cs = ([], cs)"
| "upload_batch env cfg d sid subdir (p # ps) cs =
     (let (f, cs) = upload_one env cfg d sid subdir p cs; (fs, cs) = upload_batch env cfg d sid subdir ps cs in (f # fs, cs))"

definition planned :: "offline_config \<Rightarrow> string \<Rightarrow> string \<Rightarrow> string \<Rightarrow> upload_file" where
  "planned cfg sid subdir path =
     \<lparr>uf_local_path = path, uf_object_key = object_key cfg sid subdir (base_name path), uf_size_bytes = 0,
      uf_sha256 = [], uf_etag = [], uf_status = ''dry_run'', uf_message = []\<rparr>"

record upload_outcome =
  uo_exit :: exit_code
  uo_dir :: dir
  uo_commands :: commands

text \<open>Two flags say whether the manifest and the report can be written.\<close>

definition upload_session ::
  "s3_env \<Rightarrow> offline_config \<Rightarrow> string \<Rightarrow> bool \<Rightarrow> bool \<Rightarrow> string \<Rightarrow> string \<Rightarrow> bool \<Rightarrow> dir \<Rightarrow> upload_outcome"
where
  "upload_session env cfg now man_ok rep_ok session_name out dry_run d =
     (if \<not> oc_s3_enabled cfg then \<lparr>uo_exit = EC_success, uo_dir = d, uo_commands = []\<rparr>
      else
        let sid = read_session_id d out session_name;
            rpt = \<lparr>ur_session_id = sid, ur_generated_at_utc = now, ur_bucket = oc_s3_bucket cfg,
              ur_prefix = prefix_trim cfg @ ''/'' @ sid, ur_upload_status = [], ur_blocked_reason = [], ur_files = []\<rparr>;
            write = write_upload_report rep_ok (join_path out ''upload_report.json'')
        in case gate_allowed cfg d out (read_pipeline_status d out) of
             Some reason \<Rightarrow>
               \<lparr>uo_exit = EC_upload_blocked,
                uo_dir = write (rpt\<lparr>ur_upload_status := ''blocked'', ur_blocked_reason := reason\<rparr>) d, uo_commands = []\<rparr>
           | None \<Rightarrow>
               let offline = collect_files cfg d out; session = collect_session_files cfg d in
               if offline = [] \<and> session = []
               then \<lparr>uo_exit = EC_upload_failed,
                     uo_dir = write (rpt\<lparr>ur_upload_status := ''failed'', ur_blocked_reason := ''no files to upload''\<rparr>) d,
                     uo_commands = []\<rparr>
               else if dry_run
               then \<lparr>uo_exit = EC_success,
                     uo_dir = write (rpt\<lparr>ur_upload_status := ''skipped'',
                       ur_files := map (planned cfg sid ''offline'') offline @ map (planned cfg sid []) session\<rparr>) d,
                     uo_commands = []\<rparr>
               else
                 let (fs, cs) = upload_batch env cfg d sid [] session [];
                     (gs, cs) = upload_batch env cfg d sid ''offline'' offline cs;
                     ok = list_all (\<lambda>f. uf_status f = ''ok'') (fs @ gs);
                     rpt = rpt\<lparr>ur_upload_status := (if ok then ''ok'' else ''failed''), ur_files := fs @ gs\<rparr>
                 in \<lparr>uo_exit = (if ok then EC_success else EC_upload_failed),
                     uo_dir = write rpt (write_upload_report man_ok (join_path out ''upload_manifest.json'') rpt d),
                     uo_commands = cs\<rparr>)"

section \<open>What was stored\<close>

text \<open>A command was answered with a status of success, and an object was put by such a command.\<close>

definition http_ok :: "s3_env \<Rightarrow> nat \<Rightarrow> string \<Rightarrow> bool" where
  "http_ok env i cmd \<longleftrightarrow>
     (case sx_run env i cmd of None \<Rightarrow> False
      | Some output \<Rightarrow>
          (case rfind_sub ''HTTP_CODE:'' output of None \<Rightarrow> False
           | Some j \<Rightarrow> 200 \<le> atoi (drop (j + 10) output) \<and> atoi (drop (j + 10) output) < 300))"

definition stored :: "s3_env \<Rightarrow> offline_config \<Rightarrow> string \<Rightarrow> string \<Rightarrow> commands \<Rightarrow> bool" where
  "stored env cfg key ctype cs \<longleftrightarrow>
     (\<exists>i body. i < length cs \<and> cs ! i = put_command cfg key body ctype \<and> http_ok env i (cs ! i))"

lemma stored_append: "stored env cfg key ctype cs \<Longrightarrow> stored env cfg key ctype (cs @ ys)"
  unfolding stored_def by (metis length_append nth_append trans_less_add1)

lemma s3_put_commands:
  assumes "s3_put_object env cfg key ctype cs = (r, cs')"
  shows "(\<exists>ys. cs' = cs @ ys \<and> length ys \<le> 1) \<and> (pt_ok r \<longrightarrow> stored env cfg key ctype cs')"
proof -
  let ?cmd = "put_command cfg key (sx_tmp_dir env @ ''/ego_s3_'' @ sx_tag env (length cs) @ ''.bin'') ctype"
  have "cs' = cs \<and> \<not> pt_ok r \<or> cs' = cs @ [?cmd] \<and> (pt_ok r \<longrightarrow> http_ok env (length cs) ?cmd)"
    using assms
    by (auto simp: s3_put_object_def put_error_def run_command_def http_ok_def Let_def
      split: if_splits option.splits)
  moreover have "stored env cfg key ctype (cs @ [?cmd])" if "http_ok env (length cs) ?cmd"
    unfolding stored_def using that by (intro exI [of _ "length cs"]) auto
  ultimately show ?thesis by auto
qed

lemma retries_commands:
  assumes "put_with_retries n env cfg key ctype r0 cs = (r, cs')"
  shows "(\<exists>ys. cs' = cs @ ys \<and> length ys \<le> n) \<and> (pt_ok r \<and> \<not> pt_ok r0 \<longrightarrow> stored env cfg key ctype cs')"
  using assms
proof (induction n arbitrary: r0 cs)
  case (Suc n)
  obtain r1 cs1 where put: "s3_put_object env cfg key ctype cs = (r1, cs1)" by fastforce
  note first = s3_put_commands [OF put]
  show ?case
  proof (cases "pt_ok r1 \<or> pt_http_status r1 = 403 \<or> pt_http_status r1 = 404")
    case True
    with Suc.prems put first show ?thesis by (auto intro: le_SucI le_trans)
  next
    case False
    with Suc.prems put have "put_with_retries n env cfg key ctype r1 cs1 = (r, cs')" by simp
    from Suc.IH [OF this] first False show ?thesis by fastforce
  qed
qed simp

lemma sha_commands:
  assumes "sha256_hex_file env d path cs = (h, cs')"
  shows "\<exists>ys. cs' = cs @ ys \<and> length ys \<le> 1"
  using assms by (auto simp: sha256_hex_file_def run_command_def split: if_splits option.splits)

definition key_of :: "offline_config \<Rightarrow> string \<Rightarrow> string \<Rightarrow> string \<Rightarrow> string" where
  "key_of cfg sid subdir path = object_key cfg sid subdir (base_name path)"

lemma upload_one_commands:
  assumes "upload_one env cfg d sid subdir path cs = (f, cs')"
  shows "(\<exists>ys. cs' = cs @ ys \<and> length ys \<le> attempts cfg + 1) \<and> uf_object_key f = key_of cfg sid subdir path \<and>
    uf_local_path f = path \<and>
    (uf_status f = ''ok'' \<longrightarrow> stored env cfg (key_of cfg sid subdir path) (content_type_for (base_name path)) cs')"
proof -
  obtain sha cs1 where sha: "sha256_hex_file env d path cs = (sha, cs1)" by fastforce
  obtain r cs2 where put: "put_with_retries (attempts cfg) env cfg (key_of cfg sid subdir path)
      (content_type_for (base_name path)) (put_error []) cs1 = (r, cs2)" by fastforce
  have "cs' = cs2" "uf_object_key f = key_of cfg sid subdir path" "uf_status f = (if pt_ok r then ''ok'' else ''failed'')"
    "uf_local_path f = path"
    using assms sha put by (auto simp: upload_one_def key_of_def)
  then show ?thesis
    using sha_commands [OF sha] retries_commands [OF put] by (fastforce simp: put_error_def)
qed

lemma upload_batch_commands:
  assumes "upload_batch env cfg d sid subdir ps cs = (fs, cs')"
  shows "(\<exists>ys. cs' = cs @ ys \<and> length ys \<le> (attempts cfg + 1) * length ps) \<and> map uf_local_path fs = ps \<and>
    list_all (\<lambda>f. uf_object_key f = key_of cfg sid subdir (uf_local_path f) \<and>
      (uf_status f = ''ok'' \<longrightarrow> stored env cfg (uf_object_key f) (content_type_for (base_name (uf_local_path f))) cs')) fs"
  using assms
proof (induction ps arbitrary: cs fs)
  case (Cons p ps)
  obtain f cs1 where one: "upload_one env cfg d sid subdir p cs = (f, cs1)" by fastforce
  obtain gs where rest: "upload_batch env cfg d sid subdir ps cs1 = (gs, cs')" and fs: "fs = f # gs"
    using Cons.prems one by (auto split: prod.splits)
  from Cons.IH [OF rest] obtain ys where ys: "cs' = cs1 @ ys" "length ys \<le> (attempts cfg + 1) * length ps" by blast
  with upload_one_commands [OF one] Cons.IH [OF rest] show ?case
    by (auto simp: fs stored_append algebra_simps)
qed simp

lemma batch_stored:
  assumes "upload_batch env cfg d sid subdir ps cs = (fs, cs')" and "list_all (\<lambda>f. uf_status f = ''ok'') fs" and "p \<in> set ps"
  shows "stored env cfg (key_of cfg sid subdir p) (content_type_for (base_name p)) cs'"
proof -
  note batch = upload_batch_commands [OF assms(1)]
  then have "ps = map uf_local_path fs" by simp
  with assms(3) obtain f where "f \<in> set fs" "p = uf_local_path f" by auto
  with batch assms(2) show ?thesis by (auto simp: list_all_iff)
qed

section \<open>Properties\<close>

text \<open>What the configuration asks of a session before it may be uploaded.\<close>

definition may_upload :: "offline_config \<Rightarrow> dir \<Rightarrow> string \<Rightarrow> bool" where
  "may_upload cfg d out \<longleftrightarrow>
     (if oc_s3_require_real_mdf4 cfg
      then contents d (join_path out ''session.mf4'') \<noteq> [] \<and> fget d (join_path out ''session.mf4.placeholder'') = None
      else True) \<and>
     (if oc_s3_require_pipeline_success cfg then read_pipeline_status d out = ''success'' else True) \<and>
     [] \<notin> {oc_s3_bucket cfg, oc_s3_access_key cfg, oc_s3_secret_key cfg}"

lemma gate_allowed_iff: "gate_allowed cfg d out (read_pipeline_status d out) = None \<longleftrightarrow> may_upload cfg d out"
  by (auto simp: gate_allowed_def may_upload_def contents_def split: option.split)

text \<open>C30: The gate holds. No command is run unless the upload is enabled, the session may be uploaded (a
  measurement file that is real and a run that succeeded, where the configuration asks for them, and a
  bucket and credentials), there is a file to upload and the run is not a dry one; a closed gate ends in
  upload_blocked, and nothing in the session but the two upload reports is changed by any upload.\<close>

theorem upload_gate:
  fixes env cfg now man_ok rep_ok name out dry d
  defines "u \<equiv> upload_session env cfg now man_ok rep_ok name out dry d"
  shows "(if oc_s3_enabled cfg \<and> may_upload cfg d out \<and> \<not> dry \<and> collect_files cfg d out @ collect_session_files cfg d \<noteq> []
      then True else uo_commands u = []) \<and>
    (uo_exit u = EC_upload_blocked \<longleftrightarrow> oc_s3_enabled cfg \<and> \<not> may_upload cfg d out) \<and>
    (\<forall>n. n = join_path out ''upload_manifest.json'' \<or> n = join_path out ''upload_report.json'' \<or> fget (uo_dir u) n = fget d n)"
  unfolding u_def upload_session_def write_upload_report_def
  by (auto simp: Let_def simp flip: gate_allowed_iff split: option.splits prod.splits)


definition example_upload_config :: offline_config where
  "example_upload_config = offline_defaults\<lparr>oc_s3_bucket := ''b'', oc_s3_access_key := ''a'', oc_s3_secret_key := ''s'',
     oc_s3_require_real_mdf4 := False, oc_s3_include_files := [''r.json''], oc_s3_max_retries := 1\<rparr>"

definition example_s3_env :: s3_env where
  "example_s3_env = \<lparr>sx_run = \<lambda>_ _. Some ''HTTP_CODE:200'', sx_tmp_ok = \<lambda>_. True, sx_tmp_dir = ''/tmp'', sx_tag = dec\<rparr>"


end
