(* ===== verification/S3Signing.thy ===== *)
theory S3Signing
  imports S3Upload
begin

unbundle bit_operations_syntax

text \<open>
  The helpers for signed requests in the Windows build of \<open>offline/src/upload/s3_client.cpp\<close>: Base64, HMAC over
  SHA-256, the derivation of a signing key, and the parsing of an endpoint and of a response's headers. The
  digest of the system's library is a parameter.
\<close>

section \<open>Base64\<close>

definition base64_alphabet :: string where
  "base64_alphabet = ''ABCDEFGHIJKLMNOPQRSTUVWXYZabcdefghijklmnopqrstuvwxyz0123456789+/''"

definition base64_char :: "nat \<Rightarrow> u32 \<Rightarrow> char" where
  "base64_char j n = base64_alphabet ! unat (drop_bit j n AND 0x3F)"

definition base64_group :: "byte \<Rightarrow> byte \<Rightarrow> byte \<Rightarrow> u32" where
  "base64_group a b c = push_bit 16 (ucast a) OR push_bit 8 (ucast b) OR ucast c"

fun base64_encode :: "bytes \<Rightarrow> string" where
  "base64_encode [] = []"
| "base64_encode [a] = (let n = base64_group a 0 0 in [base64_char 18 n, base64_char 12 n, CHR ''='', CHR ''=''])"
| "base64_encode [a, b] =
     (let n = base64_group a b 0 in [base64_char 18 n, base64_char 12 n, base64_char 6 n, CHR ''=''])"
| "base64_encode (a # b # c # data) =
     (let n = base64_group a b c
      in [base64_char 18 n, base64_char 12 n, base64_char 6 n, base64_char 0 n] @ base64_encode data)"

text \<open>What a reader of Base64 makes of it.\<close>

definition base64_value :: "char \<Rightarrow> u32" where
  "base64_value c = (if c = CHR ''='' then 0 else of_nat (length (takeWhile (\<lambda>x. x \<noteq> c) base64_alphabet)))"

definition sextets :: "u32 \<Rightarrow> u32 \<Rightarrow> u32 \<Rightarrow> u32 \<Rightarrow> u32" where
  "sextets s0 s1 s2 s3 = push_bit 18 s0 OR push_bit 12 s1 OR push_bit 6 s2 OR s3"

fun base64_decode :: "string \<Rightarrow> bytes" where
  "base64_decode (c0 # c1 # c2 # c3 # cs) =
     (let n = sextets (base64_value c0) (base64_value c1) (base64_value c2) (base64_value c3)
      in (if c2 = CHR ''='' then [ucast (drop_bit 16 n)]
          else if c3 = CHR ''='' then [ucast (drop_bit 16 n), ucast (drop_bit 8 n)]
          else [ucast (drop_bit 16 n), ucast (drop_bit 8 n), ucast n] @ base64_decode cs))"
| "base64_decode cs = []"

lemma index_nth: "distinct xs \<Longrightarrow> i < length xs \<Longrightarrow> length (takeWhile (\<lambda>x. x \<noteq> xs ! i) xs) = i"
proof (induction xs arbitrary: i)
  case (Cons x xs)
  then show ?case by (cases i) auto
qed simp

lemma alphabet: "length base64_alphabet = 64" "distinct base64_alphabet" "CHR ''='' \<notin> set base64_alphabet"
  by (simp_all add: base64_alphabet_def)

lemma sextet: "n AND 0x3F = take_bit 6 (n :: u32)"
  by (simp add: take_bit_eq_mask mask_eq_decr_exp)

lemma sextet_less: "unat (n AND 0x3F :: u32) < 64"
  using word_and_le1 [of n "0x3F"] by (simp add: word_le_nat_alt)

lemma base64_char_pad [simp]: "base64_char j n \<noteq> CHR ''=''"
  using alphabet(3) sextet_less [of "drop_bit j n"] by (metis alphabet(1) base64_char_def nth_mem)

lemma base64_value_char [simp]: "base64_value (base64_char j n) = take_bit 6 (drop_bit j n)"
  using index_nth [OF alphabet(2), of "unat (drop_bit j n AND 0x3F)"] sextet_less [of "drop_bit j n"]
    base64_char_pad [of j n]
  by (simp add: base64_value_def base64_char_def alphabet(1) flip: sextet)

lemma base64_value_pad [simp]: "base64_value CHR ''='' = 0"
  by (simp add: base64_value_def)

text \<open>The bytes of a group, from its four sextets.\<close>

lemma group_bit: "bit (base64_group a b c) i =
    (if i < 8 then bit c i else if i < 16 then bit b (i - 8) else if i < 24 then bit a (i - 16) else False)"
  by (auto simp: base64_group_def bit_or_iff bit_push_bit_iff bit_ucast_iff not_less
      dest: bit_imp_le_length)

lemma sextets_bit:
  assumes "i < 24"
  shows "bit (sextets (take_bit 6 (drop_bit 18 n)) (take_bit 6 (drop_bit 12 n)) (take_bit 6 (drop_bit 6 n))
      (take_bit 6 (drop_bit 0 n))) i = bit n i"
proof -
  consider "i < 6" | "6 \<le> i \<and> i < 12" | "12 \<le> i \<and> i < 18" | "18 \<le> i" by linarith
  then show ?thesis
    using assms
    by cases (auto simp: sextets_def bit_or_iff bit_push_bit_iff bit_take_bit_iff bit_drop_bit_eq)
qed

text \<open>What the four characters carry, read at a byte's place, is the group's byte.\<close>

lemma group_bytes:
  "j \<le> 16 \<Longrightarrow> (ucast (drop_bit j (sextets (take_bit 6 (drop_bit 18 n)) (take_bit 6 (drop_bit 12 n))
      (take_bit 6 (drop_bit 6 n)) (take_bit 6 (drop_bit 0 n)))) :: byte) = ucast (drop_bit j n)"
  by (rule bit_word_eqI) (simp add: bit_ucast_iff bit_drop_bit_eq sextets_bit del: drop_bit_0)

lemma group_padding:
  "take_bit 6 (drop_bit 6 (base64_group a 0 0)) = 0" "take_bit 6 (drop_bit 0 (base64_group a b 0)) = 0"
  by (rule bit_word_eqI, simp add: bit_take_bit_iff bit_drop_bit_eq group_bit)+

lemma byte_of_group:
  "ucast (drop_bit 16 (base64_group a b c)) = a" "ucast (drop_bit 8 (base64_group a b c)) = b"
  "ucast (base64_group a b c) = c"
  by (rule bit_word_eqI, simp add: bit_ucast_iff bit_drop_bit_eq group_bit)+

lemma base64_roundtrip: "base64_decode (base64_encode data) = data"
proof (induction data rule: base64_encode.induct)
  case (2 a)
  then show ?case
    using group_bytes [of 16 "base64_group a 0 0"] group_padding(1) [of a] group_padding(2) [of a 0]
    by (simp add: Let_def byte_of_group)
next
  case (3 a b)
  then show ?case
    using group_bytes [of 16 "base64_group a b 0"] group_bytes [of 8 "base64_group a b 0"] group_padding(2) [of a b]
    by (simp add: Let_def byte_of_group)
next
  case (4 a b c data)
  then show ?case
    using group_bytes [of 16 "base64_group a b c"] group_bytes [of 8 "base64_group a b c"]
      group_bytes [of 0 "base64_group a b c"]
    by (simp add: Let_def byte_of_group)
qed simp

section \<open>Signing\<close>

definition to_hex :: "bytes \<Rightarrow> string" where
  "to_hex data = concat (map (\<lambda>b. hex_width 2 (unat b)) data)"

definition sha256_hex :: "(bytes \<Rightarrow> bytes) \<Rightarrow> bytes \<Rightarrow> string" where
  "sha256_hex sha256_raw data = to_hex (sha256_raw data)"

definition md5_base64 :: "(bytes \<Rightarrow> bytes) \<Rightarrow> bytes \<Rightarrow> string" where
  "md5_base64 md5_raw data = base64_encode (md5_raw data)"

definition hmac_sha256 :: "(bytes \<Rightarrow> bytes) \<Rightarrow> bytes \<Rightarrow> string \<Rightarrow> bytes" where
  "hmac_sha256 sha256_raw key msg =
     (let k = (if 64 < length key then sha256_raw key else key);
          k = (if length k < 64 then k @ replicate (64 - length k) 0 else k);
          ipad = map (\<lambda>b. b XOR 0x36) (take 64 k);
          opad = map (\<lambda>b. b XOR 0x5C) (take 64 k);
          inner_hash = sha256_raw (ipad @ text_bytes msg)
      in sha256_raw (opad @ inner_hash))"

definition signing_key :: "(bytes \<Rightarrow> bytes) \<Rightarrow> string \<Rightarrow> string \<Rightarrow> string \<Rightarrow> bytes" where
  "signing_key sha256_raw secret date_stamp region =
     (let k_secret = text_bytes (''AWS4'' @ secret);
          k_date = hmac_sha256 sha256_raw k_secret date_stamp;
          k_region = hmac_sha256 sha256_raw k_date region;
          k_service = hmac_sha256 sha256_raw k_region ''s3''
      in hmac_sha256 sha256_raw k_service ''aws4_request'')"

text \<open>\<open>%0nu\<close>; the buffer holds 16 characters.\<close>

definition zero_padded :: "nat \<Rightarrow> nat \<Rightarrow> string" where
  "zero_padded w n = replicate (w - length (dec n)) CHR ''0'' @ dec n"

definition amz_date :: "u16 \<Rightarrow> u16 \<Rightarrow> u16 \<Rightarrow> u16 \<Rightarrow> u16 \<Rightarrow> u16 \<Rightarrow> string" where
  "amz_date year month day hour minute second =
     take 16 (zero_padded 4 (unat year) @ concat (map (\<lambda>x. zero_padded 2 (unat x)) [month, day, hour, minute, second]) @ ''Z'')"

definition date_stamp_from_amz :: "string \<Rightarrow> string" where
  "date_stamp_from_amz d = take 8 d"

text \<open>A key and the key with zeros after it sign alike, up to the size of a block; so do a key that is longer than a
  block and its digest.\<close>

lemma hmac_zero_padding:
  "length key + n \<le> 64 \<Longrightarrow> hmac_sha256 sha (key @ replicate n 0) msg = hmac_sha256 sha key msg"
  by (cases "n = 64 - length key") (auto simp: hmac_sha256_def Let_def simp flip: replicate_add)

lemma hmac_long_key:
  "64 < length key \<Longrightarrow> length (sha key) \<le> 64 \<Longrightarrow> hmac_sha256 sha key msg = hmac_sha256 sha (sha key) msg"
  by (simp add: hmac_sha256_def Let_def)

section \<open>Endpoint and headers\<close>

definition parse_endpoint :: "string \<Rightarrow> string" where
  "parse_endpoint endpoint =
     takeWhile (\<lambda>c. c \<noteq> CHR ''/'')
       (if take 8 endpoint = ''https://'' then drop 8 endpoint
        else if take 7 endpoint = ''http://'' then drop 7 endpoint else endpoint)"

definition parse_etag_from_headers :: "string \<Rightarrow> string" where
  "parse_etag_from_headers headers =
     (case (case find_sub ''ETag:'' headers of None \<Rightarrow> find_sub ''etag:'' headers | Some pos \<Rightarrow> Some pos) of
        None \<Rightarrow> []
      | Some pos \<Rightarrow>
          trim_right (\<lambda>c. c = CHR 0x0D \<or> c = CHR '' '')
            (takeWhile (\<lambda>c. c \<noteq> CHR 0x0A) (dropWhile blank (drop (pos + 5) headers))))"

definition escape_curl_config_value :: "string \<Rightarrow> string" where
  "escape_curl_config_value v =
     concat (map (\<lambda>c. if c = CHR 0x5C \<or> c = CHR 0x22 then [CHR 0x5C, c] else [c]) v)"

text \<open>The host of an address is what stands between the scheme and the path.\<close>

lemma parse_endpoint_host:
  assumes "CHR ''/'' \<notin> set host"
  shows "parse_endpoint (''https://'' @ host @ path_part) = host @ takeWhile (\<lambda>c. c \<noteq> CHR ''/'') path_part"
    "parse_endpoint (''http://'' @ host @ path_part) = host @ takeWhile (\<lambda>c. c \<noteq> CHR ''/'') path_part"
  using assms by (auto simp: parse_endpoint_def takeWhile_append)

text \<open>An escaped value ends where it ends: read back by a reader that takes the character after a backslash as it
  is, it is the value.\<close>

fun unescaped :: "string \<Rightarrow> string" where
  "unescaped (c # d # s) = (if c = CHR 0x5C then d # unescaped s else c # unescaped (d # s))"
| "unescaped s = s"

lemma unescaped_Cons: "c \<noteq> CHR 0x5C \<Longrightarrow> unescaped (c # s) = c # unescaped s"
  by (cases s) simp_all

lemma escape_curl_roundtrip: "unescaped (escape_curl_config_value v) = v"
  by (induction v) (auto simp: escape_curl_config_value_def unescaped_Cons)

end
