(* ===== verification/Mdf4Channels.thy ===== *)
theory Mdf4Channels
  imports SceneBuilder
begin

text \<open>
  The channels of the measurement file, \<open>Mdf4Writer::prepare\<close> of \<open>offline/src/mdf4/mdf4_writer.cpp\<close> and
  \<open>offline/src/mdf4/mdf4_channel_builder.cpp\<close>: the groups, and the filling of their data, which looks groups
  and channels up by name and throws where one is missing.
\<close>

section \<open>Groups\<close>

record channel_desc =
  cd_group :: string
  cd_name :: string
  cd_unit :: string
  cd_data_type :: string
  cd_sample_count :: nat
  cd_data :: "f64 list"

record channel_group =
  cg_name :: string
  cg_channels :: "channel_desc list"
  cg_time_axis_s :: "f64 list"

definition kNaN :: f64 where "kNaN = 0x7FF8000000000000"

definition time_s :: "ns_t \<Rightarrow> ns_t \<Rightarrow> f64" where "time_s t0 t = div64 (f64_of_ns (t - t0)) billion64"

text \<open>A group from its name, its times and the names, units and types of its channels.\<close>

definition mk_group :: "string \<Rightarrow> f64 list \<Rightarrow> nat \<Rightarrow> (string \<times> string \<times> string) list \<Rightarrow> channel_group" where
  "mk_group name axis n chs =
     \<lparr>cg_name = name,
      cg_channels = map (\<lambda>(c, unit, type). \<lparr>cd_group = name, cd_name = name @ ''.'' @ c, cd_unit = unit,
        cd_data_type = type, cd_sample_count = n, cd_data = []\<rparr>) chs,
      cg_time_axis_s = axis\<rparr>"

definition mps2 :: string where "mps2 = ''m/s'' @ map char_of [0xC2, 0xB2 :: nat]"

definition group_structures ::
  "aligned_sample list \<Rightarrow> scene_geometry list \<Rightarrow> step_metrics list \<Rightarrow> ns_t \<Rightarrow> channel_group list"
where
  "group_structures samples geom metrics t0 =
     (let ax = map (\<lambda>s. time_s t0 (as_t_ns s)) samples; n = length samples in
      [mk_group ''Ego.GPS'' ax n
         [(''latitude_deg'', ''deg'', ''float64''), (''longitude_deg'', ''deg'', ''float64''),
          (''altitude_m'', ''m'', ''float64''), (''speed_mps'', ''m/s'', ''float32''),
          (''heading_deg'', ''deg'', ''float32''), (''fix_quality'', [], ''uint8'')],
       mk_group ''Ego.IMU'' ax n
         [(''acc_x_mps2'', mps2, ''float32''), (''acc_y_mps2'', mps2, ''float32''), (''acc_z_mps2'', mps2, ''float32''),
          (''gyro_x_rads'', ''rad/s'', ''float32''), (''gyro_y_rads'', ''rad/s'', ''float32''),
          (''gyro_z_rads'', ''rad/s'', ''float32'')],
       mk_group ''Ego.Trajectory'' ax n
         [(''latitude_deg'', ''deg'', ''float64''), (''longitude_deg'', ''deg'', ''float64''),
          (''roll_deg'', ''deg'', ''float32''), (''pitch_deg'', ''deg'', ''float32''), (''yaw_deg'', ''deg'', ''float32'')],
       mk_group ''Source.GPS'' ax n
         [(''latitude_deg'', ''deg'', ''float64''), (''longitude_deg'', ''deg'', ''float64''),
          (''speed_mps'', ''m/s'', ''float32''), (''valid'', [], ''uint8'')]] @
      (if geom = [] then []
       else [mk_group ''Scene'' (map (\<lambda>g. time_s t0 (sg_ts_ns g)) geom) (length geom)
         [(''range_m'', ''m'', ''float64''), (''azimuth_deg'', ''deg'', ''float64''),
          (''closing_speed_mps'', ''m/s'', ''float64'')]]) @
      (if metrics = [] then []
       else [mk_group ''Scene.Metrics'' (map (\<lambda>m. time_s t0 (sm_t_ns m)) metrics) (length metrics)
         [(''ego_speed_mps'', ''m/s'', ''float64''), (''src_speed_mps'', ''m/s'', ''float64'')]]))"

section \<open>Filling\<close>

text \<open>The first element with a name is changed; None where there is none.\<close>

fun change_first :: "('a \<Rightarrow> bool) \<Rightarrow> ('a \<Rightarrow> 'a) \<Rightarrow> 'a list \<Rightarrow> 'a list option" where
  "change_first p f [] = None"
| "change_first p f (x # xs) = (if p x then Some (f x # xs) else map_option ((#) x) (change_first p f xs))"

text \<open>The values of one item are appended to the channels named.\<close>

fun set_channels :: "'a list \<Rightarrow> (string \<times> ('a \<Rightarrow> f64)) list \<Rightarrow> channel_desc list \<Rightarrow> string + channel_desc list" where
  "set_channels items [] chs = Inr chs"
| "set_channels items ((name, val) # fs) chs =
     (case change_first (\<lambda>c. cd_name c = name) (\<lambda>c. c\<lparr>cd_data := map val items\<rparr>) chs of
        None \<Rightarrow> Inl (''fill_channel_data: channel not found: '' @ name)
      | Some chs' \<Rightarrow> set_channels items fs chs')"

text \<open>A group is emptied, then it and the channels named are filled.\<close>

definition fill_group ::
  "string \<Rightarrow> ('a \<Rightarrow> f64) \<Rightarrow> (string \<times> ('a \<Rightarrow> f64)) list \<Rightarrow> 'a list \<Rightarrow> channel_group list \<Rightarrow>
     string + channel_group list"
where
  "fill_group name time fs items groups =
     (case find (\<lambda>g. cg_name g = name) groups of
        None \<Rightarrow> Inl (''fill_channel_data: group not found: '' @ name)
      | Some g \<Rightarrow>
          (case set_channels items (map (\<lambda>(n, f). (name @ ''.'' @ n, f)) fs)
                  (map (\<lambda>c. c\<lparr>cd_data := []\<rparr>) (cg_channels g)) of
             Inl e \<Rightarrow> Inl e
           | Inr chs \<Rightarrow>
               Inr (the (change_first (\<lambda>g. cg_name g = name)
                 (\<lambda>g. g\<lparr>cg_channels := chs, cg_time_axis_s := map time items\<rparr>) groups))))"

abbreviation or_nan :: "bool \<Rightarrow> f64 \<Rightarrow> f64" where "or_nan v x \<equiv> if v then x else kNaN"

definition gps_channels :: "(string \<times> (aligned_sample \<Rightarrow> f64)) list" where
  "gps_channels =
     [(''latitude_deg'', as_ego_lat), (''longitude_deg'', as_ego_lon), (''altitude_m'', as_ego_alt),
      (''speed_mps'', \<lambda>s. f32_to_f64 (as_ego_speed s)), (''heading_deg'', \<lambda>s. f32_to_f64 (as_ego_heading s)),
      (''fix_quality'', \<lambda>s. f64_of_int (uint (as_ego_fix s)))]"

definition imu_channels :: "(string \<times> (aligned_sample \<Rightarrow> f64)) list" where
  "imu_channels =
     [(''acc_x_mps2'', \<lambda>s. or_nan (as_imu_valid s) (f32_to_f64 (as_acc_x s))),
      (''acc_y_mps2'', \<lambda>s. or_nan (as_imu_valid s) (f32_to_f64 (as_acc_y s))),
      (''acc_z_mps2'', \<lambda>s. or_nan (as_imu_valid s) (f32_to_f64 (as_acc_z s))),
      (''gyro_x_rads'', \<lambda>s. or_nan (as_imu_valid s) (f32_to_f64 (as_gyr_x s))),
      (''gyro_y_rads'', \<lambda>s. or_nan (as_imu_valid s) (f32_to_f64 (as_gyr_y s))),
      (''gyro_z_rads'', \<lambda>s. or_nan (as_imu_valid s) (f32_to_f64 (as_gyr_z s)))]"

definition trajectory_channels :: "(string \<times> (aligned_sample \<Rightarrow> f64)) list" where
  "trajectory_channels =
     [(''latitude_deg'', \<lambda>s. or_nan (as_traj_valid s) (as_traj_lat s)),
      (''longitude_deg'', \<lambda>s. or_nan (as_traj_valid s) (as_traj_lon s)),
      (''roll_deg'', \<lambda>s. or_nan (as_traj_valid s) (f32_to_f64 (as_roll s))),
      (''pitch_deg'', \<lambda>s. or_nan (as_traj_valid s) (f32_to_f64 (as_pitch s))),
      (''yaw_deg'', \<lambda>s. or_nan (as_traj_valid s) (f32_to_f64 (as_yaw s)))]"

definition source_channels :: "(string \<times> (aligned_sample \<Rightarrow> f64)) list" where
  "source_channels =
     [(''latitude_deg'', \<lambda>s. or_nan (as_src_valid s) (as_src_lat s)),
      (''longitude_deg'', \<lambda>s. or_nan (as_src_valid s) (as_src_lon s)),
      (''speed_mps'', \<lambda>s. or_nan (as_src_valid s) (f32_to_f64 (as_src_speed s))),
      (''valid'', \<lambda>s. if as_src_valid s then f64_of_int 1 else f64_of_int 0)]"

definition scene_channels :: "(string \<times> (scene_geometry \<Rightarrow> f64)) list" where
  "scene_channels =
     [(''range_m'', \<lambda>g. or_nan (sg_valid g) (sg_range_m g)),
      (''azimuth_deg'', \<lambda>g. or_nan (sg_valid g) (sg_azimuth_deg g)),
      (''closing_speed_mps'', \<lambda>g. or_nan (sg_valid g) (sg_closing_speed_mps g))]"

definition metric_channels :: "(string \<times> (step_metrics \<Rightarrow> f64)) list" where
  "metric_channels =
     [(''ego_speed_mps'', \<lambda>m. or_nan (sm_valid m) (sm_ego_speed_mps m)),
      (''src_speed_mps'', \<lambda>m. or_nan (sm_valid m) (sm_src_speed_mps m))]"

definition count_samples :: "channel_group \<Rightarrow> channel_group" where
  "count_samples g = g\<lparr>cg_channels := map (\<lambda>c. c\<lparr>cd_sample_count := length (cd_data c)\<rparr>) (cg_channels g)\<rparr>"

definition fill_channel_data ::
  "aligned_sample list \<Rightarrow> scene_geometry list \<Rightarrow> step_metrics list \<Rightarrow> ns_t \<Rightarrow> channel_group list \<Rightarrow>
     string + channel_group list"
where
  "fill_channel_data samples geom metrics t0 groups =
     sum_bind (fill_group ''Ego.GPS'' (\<lambda>s. time_s t0 (as_t_ns s)) gps_channels samples groups) (\<lambda>g.
     sum_bind (fill_group ''Ego.IMU'' (\<lambda>s. time_s t0 (as_t_ns s)) imu_channels samples g) (\<lambda>g.
     sum_bind (fill_group ''Ego.Trajectory'' (\<lambda>s. time_s t0 (as_t_ns s)) trajectory_channels samples g) (\<lambda>g.
     sum_bind (fill_group ''Source.GPS'' (\<lambda>s. time_s t0 (as_t_ns s)) source_channels samples g) (\<lambda>g.
     sum_bind (if geom = [] then Inr g else fill_group ''Scene'' (\<lambda>s. time_s t0 (sg_ts_ns s)) scene_channels geom g) (\<lambda>g.
     sum_bind (if metrics = [] then Inr g
               else fill_group ''Scene.Metrics'' (\<lambda>m. time_s t0 (sm_t_ns m)) metric_channels metrics g) (\<lambda>g.
     Inr (map count_samples g)))))))"

definition mdf4_prepare ::
  "aligned_sample list \<Rightarrow> scene_geometry list \<Rightarrow> step_metrics list \<Rightarrow> ns_t \<Rightarrow> string + channel_group list"
where
  "mdf4_prepare samples geom metrics t0 =
     (if samples = [] then Inr [] else fill_channel_data samples geom metrics t0 (group_structures samples geom metrics t0))"

section \<open>Properties\<close>

definition filled :: "string \<Rightarrow> ('a \<Rightarrow> f64) \<Rightarrow> (string \<times> ('a \<Rightarrow> f64)) list \<Rightarrow> 'a list \<Rightarrow> channel_group \<Rightarrow> bool" where
  "filled name time fs items g \<longleftrightarrow>
     cg_name g = name \<and> cg_time_axis_s g = map time items \<and>
     map cd_name (cg_channels g) = map (\<lambda>(n, f). name @ ''.'' @ n) fs \<and>
     map cd_data (cg_channels g) = map (\<lambda>(n, f). map f items) fs \<and>
     list_all (\<lambda>c. cd_sample_count c = length items) (cg_channels g)"



end
