(* ===== verification/Sha256.thy ===== *)
theory Sha256
  imports SceneBuilder
begin

text \<open>
  The SHA-256 of \<open>offline/src/mdf4/mdf4_lib_adapter.cpp\<close>, which makes the checksum file beside the
  measurement file, and the function of FIPS 180-4 it is to compute: the padded message in blocks of 64
  bytes. The digest the code ends with leaves the bytes of the last, incomplete block out.
\<close>

section \<open>The compression function\<close>

definition SHA256_K :: "u32 list" where
  "SHA256_K = concat [
     [0x428a2f98, 0x71374491, 0xb5c0fbcf, 0xe9b5dba5],
     [0x3956c25b, 0x59f111f1, 0x923f82a4, 0xab1c5ed5],
     [0xd807aa98, 0x12835b01, 0x243185be, 0x550c7dc3],
     [0x72be5d74, 0x80deb1fe, 0x9bdc06a7, 0xc19bf174],
     [0xe49b69c1, 0xefbe4786, 0x0fc19dc6, 0x240ca1cc],
     [0x2de92c6f, 0x4a7484aa, 0x5cb0a9dc, 0x76f988da],
     [0x983e5152, 0xa831c66d, 0xb00327c8, 0xbf597fc7],
     [0xc6e00bf3, 0xd5a79147, 0x06ca6351, 0x14292967],
     [0x27b70a85, 0x2e1b2138, 0x4d2c6dfc, 0x53380d13],
     [0x650a7354, 0x766a0abb, 0x81c2c92e, 0x92722c85],
     [0xa2bfe8a1, 0xa81a664b, 0xc24b8b70, 0xc76c51a3],
     [0xd192e819, 0xd6990624, 0xf40e3585, 0x106aa070],
     [0x19a4c116, 0x1e376c08, 0x2748774c, 0x34b0bcb5],
     [0x391c0cb3, 0x4ed8aa4a, 0x5b9cca4f, 0x682e6ff3],
     [0x748f82ee, 0x78a5636f, 0x84c87814, 0x8cc70208],
     [0x90befffa, 0xa4506ceb, 0xbef9a3f7, 0xc67178f2]]"

definition sha_init :: "u32 list" where
  "sha_init = [0x6a09e667, 0xbb67ae85, 0x3c6ef372, 0xa54ff53a, 0x510e527f, 0x9b05688c, 0x1f83d9ab, 0x5be0cd19]"

definition rotr32 :: "nat \<Rightarrow> u32 \<Rightarrow> u32" where "rotr32 n x = drop_bit n x OR push_bit (32 - n) x"

definition sha_ch :: "u32 \<Rightarrow> u32 \<Rightarrow> u32 \<Rightarrow> u32" where "sha_ch x y z = (x AND y) XOR (NOT x AND z)"
definition sha_maj :: "u32 \<Rightarrow> u32 \<Rightarrow> u32 \<Rightarrow> u32" where "sha_maj x y z = (x AND y) XOR (x AND z) XOR (y AND z)"
definition big_sigma0 :: "u32 \<Rightarrow> u32" where "big_sigma0 x = rotr32 2 x XOR rotr32 13 x XOR rotr32 22 x"
definition big_sigma1 :: "u32 \<Rightarrow> u32" where "big_sigma1 x = rotr32 6 x XOR rotr32 11 x XOR rotr32 25 x"
definition small_sigma0 :: "u32 \<Rightarrow> u32" where "small_sigma0 x = rotr32 7 x XOR rotr32 18 x XOR drop_bit 3 x"
definition small_sigma1 :: "u32 \<Rightarrow> u32" where "small_sigma1 x = rotr32 17 x XOR rotr32 19 x XOR drop_bit 10 x"

definition be_word :: "bytes \<Rightarrow> nat \<Rightarrow> u32" where
  "be_word blk i =
     push_bit 24 (ucast (blk ! (4 * i))) OR push_bit 16 (ucast (blk ! (4 * i + 1))) OR
     push_bit 8 (ucast (blk ! (4 * i + 2))) OR ucast (blk ! (4 * i + 3))"

definition message_schedule :: "bytes \<Rightarrow> u32 list" where
  "message_schedule blk =
     foldl (\<lambda>w i. w @ [small_sigma1 (w ! (i - 2)) + w ! (i - 7) + small_sigma0 (w ! (i - 15)) + w ! (i - 16)])
       (map (be_word blk) [0..<16]) [16..<64]"

definition sha_round :: "u32 \<times> u32 \<Rightarrow> u32 list \<Rightarrow> u32 list" where
  "sha_round kw v =
     (case v of [a, b, c, d, e, f, g, hv] \<Rightarrow>
        let t1 = hv + big_sigma1 e + sha_ch e f g + fst kw + snd kw; t2 = big_sigma0 a + sha_maj a b c
        in [t1 + t2, a, b, c, d + t1, e, f, g]
      | _ \<Rightarrow> v)"

definition sha_transform :: "bytes \<Rightarrow> u32 list \<Rightarrow> u32 list" where
  "sha_transform blk h = map2 (+) h (fold sha_round (zip SHA256_K (message_schedule blk)) h)"

section \<open>The context\<close>

record sha_ctx =
  sc_h :: "u32 list"
  sc_blk :: bytes
  sc_bitlen :: u64
  sc_buflen :: nat

definition new_sha_ctx :: sha_ctx where
  "new_sha_ctx = \<lparr>sc_h = sha_init, sc_blk = replicate 64 0, sc_bitlen = 0, sc_buflen = 0\<rparr>"

definition sha_byte :: "byte \<Rightarrow> sha_ctx \<Rightarrow> sha_ctx" where
  "sha_byte x ctx =
     (let blk = (sc_blk ctx)[sc_buflen ctx := x]; n = sc_buflen ctx + 1;
          ctx = ctx\<lparr>sc_blk := blk, sc_bitlen := sc_bitlen ctx + 8, sc_buflen := n\<rparr>
      in if n = 64 then ctx\<lparr>sc_h := sha_transform blk (sc_h ctx), sc_buflen := 0\<rparr> else ctx)"

definition sha_update :: "bytes \<Rightarrow> sha_ctx \<Rightarrow> sha_ctx" where "sha_update data ctx = fold sha_byte data ctx"

definition be64 :: "u64 \<Rightarrow> bytes" where
  "be64 n = map (\<lambda>i. ucast (drop_bit (56 - 8 * i) n)) [0..<8]"

text \<open>\<open>hexdigest\<close>: the block the padding is put into is a new one, of zeros, not the one with the bytes that
  are left.\<close>

definition sha_final :: "sha_ctx \<Rightarrow> u32 list" where
  "sha_final ctx =
     (let pad = (replicate 64 0)[sc_buflen ctx := 0x80]; rem = sc_buflen ctx + 1;
          (h, rem) = (if rem > 56 then (sha_transform pad (sc_h ctx), 0) else (sc_h ctx, rem))
      in sha_transform (take rem pad @ replicate (56 - rem) 0 @ be64 (sc_bitlen ctx)) h)"

definition sha_hex :: "u32 list \<Rightarrow> string" where
  "sha_hex h = concat (map (\<lambda>w. hex_width 8 (unat w)) h)"

definition hexdigest :: "sha_ctx \<Rightarrow> string" where "hexdigest ctx = sha_hex (sha_final ctx)"

definition sha256_file :: "dir \<Rightarrow> string \<Rightarrow> string" where
  "sha256_file d path = (case fget d path of None \<Rightarrow> [] | Some bs \<Rightarrow> hexdigest (sha_update bs new_sha_ctx))"

section \<open>The function of the standard\<close>

function blocks64 :: "bytes \<Rightarrow> bytes list" where
  "blocks64 bs = (if length bs < 64 then [] else take 64 bs # blocks64 (drop 64 bs))"
  by auto
termination by (relation "measure length") auto

declare blocks64.simps [simp del]

definition sha_padding :: "bytes \<Rightarrow> bytes" where
  "sha_padding data = data @ [0x80] @ replicate ((119 - length data mod 64) mod 64) 0 @ be64 (of_nat (8 * length data))"

definition sha256 :: "bytes \<Rightarrow> u32 list" where
  "sha256 data = fold sha_transform (blocks64 (sha_padding data)) sha_init"

section \<open>Blocks\<close>

lemma blocks64_append_block: "length b = 64 \<Longrightarrow> blocks64 (b @ bs) = b # blocks64 bs"
  by (subst blocks64.simps) simp

lemma blocks64_append:
  "64 dvd length xs \<Longrightarrow> blocks64 (xs @ ys) = blocks64 xs @ blocks64 ys"
proof (induction xs rule: blocks64.induct)
  case (1 xs)
  show ?case
  proof (cases "length xs < 64")
    case True
    with 1(2) have "xs = []" by (auto elim: dvdE)
    then show ?thesis by (simp add: blocks64.simps [of "[]"])
  next
    case False
    have "64 dvd length (drop 64 xs)" using 1(2) False by (simp add: dvd_diff_nat)
    then have "blocks64 (drop 64 xs @ ys) = blocks64 (drop 64 xs) @ blocks64 ys" by (rule 1(1) [OF False])
    moreover have "blocks64 (xs @ ys) = take 64 xs # blocks64 (drop 64 xs @ ys)"
      using blocks64_append_block [of "take 64 xs" "drop 64 xs @ ys"] False
      by (simp only: append_assoc [symmetric] append_take_drop_id) simp
    ultimately show ?thesis using False by (simp add: blocks64.simps [of xs])
  qed
qed

lemma blocks64_short: "length bs < 64 \<Longrightarrow> blocks64 bs = []"
  by (subst blocks64.simps) simp

abbreviation whole_blocks :: "bytes \<Rightarrow> bytes" where "whole_blocks bs \<equiv> take (64 * (length bs div 64)) bs"
abbreviation rest_bytes :: "bytes \<Rightarrow> bytes" where "rest_bytes bs \<equiv> drop (64 * (length bs div 64)) bs"

lemma rest_length: "length (rest_bytes bs) = length bs mod 64" "length (whole_blocks bs) = 64 * (length bs div 64)"
  by (simp_all add: minus_mult_div_eq_mod)

lemma rest_short: "length (rest_bytes bs) < 64"
  unfolding rest_length by simp

lemma blocks64_whole: "blocks64 bs = blocks64 (whole_blocks bs)"
proof -
  have "blocks64 bs = blocks64 (whole_blocks bs @ rest_bytes bs)" by simp
  also have "\<dots> = blocks64 (whole_blocks bs) @ blocks64 (rest_bytes bs)"
    using rest_length(2) [of bs] by (intro blocks64_append) simp
  also have "blocks64 (rest_bytes bs) = []" by (rule blocks64_short [OF rest_short])
  finally show ?thesis by simp
qed

text \<open>The context after some bytes: the whole blocks are compressed, the rest is buffered.\<close>

lemma sha_update_state:
  fixes data
  defines "n \<equiv> length data"
  shows "sc_h (sha_update data new_sha_ctx) = fold sha_transform (blocks64 data) sha_init \<and>
    sc_buflen (sha_update data new_sha_ctx) = n mod 64 \<and>
    sc_bitlen (sha_update data new_sha_ctx) = of_nat (8 * n) \<and>
    length (sc_blk (sha_update data new_sha_ctx)) = 64 \<and>
    take (n mod 64) (sc_blk (sha_update data new_sha_ctx)) = rest_bytes data"
  unfolding n_def
proof (induction data rule: rev_induct)
  case Nil
  show ?case by (simp add: sha_update_def new_sha_ctx_def blocks64_short)
next
  case (snoc x data)
  let ?c = "sha_update data new_sha_ctx" and ?n = "length data"
  have c': "sha_update (data @ [x]) new_sha_ctx = sha_byte x ?c" by (simp add: sha_update_def)
  have buf: "take (?n mod 64 + 1) ((sc_blk ?c)[?n mod 64 := x]) = rest_bytes data @ [x]"
    using snoc.IH by (simp add: take_Suc_conv_app_nth)
  show ?case
  proof (cases "?n mod 64 = 63")
    case True
    then have n: "(?n + 1) mod 64 = 0" "(?n + 1) div 64 = ?n div 64 + 1" by (simp_all add: mod_Suc div_Suc)
    have blk: "(sc_blk ?c)[63 := x] = rest_bytes data @ [x]" using buf snoc.IH True by simp
    have whole: "64 * (?n div 64 + 1) = ?n + 1" using True mult_div_mod_eq [of 64 ?n] by simp
    have "blocks64 (data @ [x]) = blocks64 (whole_blocks data @ rest_bytes data @ [x])"
      by (simp only: append_assoc [symmetric] append_take_drop_id)
    also have "\<dots> = blocks64 (whole_blocks data) @ [rest_bytes data @ [x]]"
      using rest_length(2) [of data] blocks64_append_block [of "rest_bytes data @ [x]" "[]"] True
      by (subst blocks64_append) (simp_all add: blocks64_short minus_mult_div_eq_mod)
    finally have "blocks64 (data @ [x]) = blocks64 data @ [rest_bytes data @ [x]]"
      by (simp only: blocks64_whole [of data, symmetric])
    then show ?thesis
      using snoc.IH True n whole by (simp add: c' sha_byte_def Let_def blk algebra_simps)
  next
    case False
    then have n: "(?n + 1) mod 64 = ?n mod 64 + 1" "(?n + 1) div 64 = ?n div 64" by (simp_all add: mod_Suc div_Suc)
    have "whole_blocks (data @ [x]) = whole_blocks data" using n by simp
    then have "blocks64 (data @ [x]) = blocks64 data" by (metis blocks64_whole)
    moreover have "rest_bytes (data @ [x]) = rest_bytes data @ [x]" using n by simp
    ultimately show ?thesis
      using snoc.IH False n buf by (simp add: c' sha_byte_def Let_def algebra_simps)
  qed
qed

text \<open>The padding of a message whose last bytes are zeros: one block or two.\<close>

lemma padded_blocks:
  assumes "64 dvd length xs" and "r < 64"
  shows "blocks64 (sha_padding (xs @ replicate r 0)) = blocks64 xs @
    (let len = be64 (of_nat (8 * (length xs + r))) in
     if r \<le> 55 then [replicate r 0 @ [0x80] @ replicate (55 - r) 0 @ len]
     else [replicate r 0 @ [0x80] @ replicate (63 - r) 0, replicate 56 0 @ len])"
proof -
  let ?len = "be64 (of_nat (8 * (length xs + r)))"
  have len: "length ?len = 8" by (simp add: be64_def)
  have mod: "(length xs + r) mod 64 = r" using assms by (metis add.commute mod_add_self2 mod_less dvd_def mod_mult_self2)
  have pad: "sha_padding (xs @ replicate r 0) =
      xs @ replicate r 0 @ [0x80] @ replicate ((119 - r) mod 64) 0 @ ?len"
    by (simp add: sha_padding_def mod)
  show ?thesis
  proof (cases "r \<le> 55")
    case True
    then have "119 - r = (55 - r) + 64" by simp
    then have k: "(119 - r) mod 64 = 55 - r" by (simp only: mod_add_self2) simp
    show ?thesis
      using True len blocks64_append_block [of "replicate r 0 @ [0x80] @ replicate (55 - r) 0 @ ?len" "[]"]
      by (simp add: pad k blocks64_append [OF assms(1)] blocks64_short Let_def)
  next
    case False
    then have k: "(119 - r) mod 64 = (63 - r) + 56" using assms(2) by (subst mod_less) simp_all
    have "length (replicate r 0 @ [0x80] @ replicate (63 - r) (0 :: byte)) = 64" using assms(2) by simp
    from blocks64_append_block [OF this, of "replicate 56 0 @ ?len"]
      blocks64_append_block [of "replicate 56 0 @ ?len" "[]"] False len show ?thesis
      by (simp add: pad k blocks64_append [OF assms(1)] blocks64_short Let_def replicate_add)
  qed
qed

section \<open>Properties\<close>

text \<open>C29: What the checksum file holds is the SHA-256 of the file with the bytes after its last whole block of 64
  replaced by zeros: the standard's digest where the length is a multiple of 64, and blind to every change of
  the bytes after the last whole block otherwise.\<close>

theorem sidecar_digest:
  "hexdigest (sha_update bs new_sha_ctx) =
     sha_hex (sha256 (take (64 * (length bs div 64)) bs @ replicate (length bs mod 64) 0))"
proof -
  let ?c = "sha_update bs new_sha_ctx" and ?r = "length bs mod 64" and ?w = "whole_blocks bs"
  let ?h = "fold sha_transform (blocks64 ?w) sha_init" and ?len = "be64 (of_nat (8 * length bs))"
  have c: "sc_h ?c = ?h" "sc_buflen ?c = ?r" "sc_bitlen ?c = of_nat (8 * length bs)"
    using sha_update_state [of bs] blocks64_whole [of bs] by simp_all
  have r: "?r < 64" by simp
  have n: "length ?w + ?r = length bs" "64 dvd length ?w" by simp_all
  have "sha256 (?w @ replicate ?r 0) =
      (if ?r \<le> 55 then sha_transform (replicate ?r 0 @ [0x80] @ replicate (55 - ?r) 0 @ ?len) ?h
       else sha_transform (replicate 56 0 @ ?len) (sha_transform (replicate ?r 0 @ [0x80] @ replicate (63 - ?r) 0) ?h))"
    using padded_blocks [OF n(2) r] by (simp add: sha256_def n(1) Let_def)
  also have "\<dots> = sha_final ?c"
  proof -
    have pad: "(replicate 64 (0 :: byte))[?r := 0x80] = replicate ?r 0 @ [0x80] @ replicate (63 - ?r) 0"
      using r by (intro nth_equalityI) (auto simp: nth_append nth_list_update nth_Cons')
    have "take (?r + 1) (replicate ?r 0 @ [0x80] @ replicate (63 - ?r) (0 :: byte)) = replicate ?r 0 @ [0x80]" by simp
    moreover have "56 - (?r + 1) = 55 - ?r" by simp
    ultimately show ?thesis
      by (auto simp: sha_final_def c pad Let_def simp del: take_append replicate.simps)
  qed
  finally show ?thesis by (simp add: hexdigest_def)
qed

end
