(* ===== verification/Mdf4.thy ===== *)
theory Mdf4
  imports Mdf4Channels Sha256
begin

text \<open>
  The measurement file, \<open>offline/src/mdf4/mdf4_lib_adapter.cpp\<close>: the blocks of an ASAM MDF 4.10 file with
  the links between them, its records, the writing under a temporary name, the check of what was written and
  the checksum file. Positions are byte offsets in the buffer; a link is patched when its target is placed.
\<close>

section \<open>The buffer\<close>

definition patch64 :: "nat \<Rightarrow> nat \<Rightarrow> bytes \<Rightarrow> bytes" where
  "patch64 k v b = take k b @ le_bytes 8 (of_nat v :: u64) @ drop (k + 8) b"

definition str_pad :: "string \<Rightarrow> nat \<Rightarrow> bytes" where
  "str_pad s n = (let bs = text_bytes s in take n bs @ replicate (n - length bs) 0)"

definition zeros :: "nat \<Rightarrow> bytes" where "zeros n = replicate n 0"

text \<open>A block's header; its links follow, and start 24 bytes after it.\<close>

definition blk_hdr :: "string \<Rightarrow> nat \<Rightarrow> nat \<Rightarrow> bytes" where
  "blk_hdr name len nlinks =
     text_bytes name @ zeros 4 @ le_bytes 8 (of_nat len :: u64) @ le_bytes 8 (of_nat nlinks :: u64) @ zeros (8 * nlinks)"

definition text_block :: "string \<Rightarrow> string \<Rightarrow> bytes" where
  "text_block name s =
     (let tlen = length s + 1; tpad = (tlen + 7) div 8 * 8 in
      blk_hdr name (24 + tpad) 0 @ text_bytes s @ [0] @ zeros (tpad - tlen))"

abbreviation txblock :: "string \<Rightarrow> bytes" where "txblock \<equiv> text_block ''##TX''"
abbreviation mdblock :: "string \<Rightarrow> bytes" where "mdblock \<equiv> text_block ''##MD''"

section \<open>Channel types and records\<close>

record ctype_info =
  ct_data_type :: byte
  ct_byte_size :: nat
  ct_bit_count :: nat

definition ctype :: "string \<Rightarrow> ctype_info" where
  "ctype dt =
     (if dt = ''float64'' then \<lparr>ct_data_type = 6, ct_byte_size = 8, ct_bit_count = 64\<rparr>
      else if dt = ''float32'' then \<lparr>ct_data_type = 4, ct_byte_size = 4, ct_bit_count = 32\<rparr>
      else if dt = ''int16'' then \<lparr>ct_data_type = 2, ct_byte_size = 2, ct_bit_count = 16\<rparr>
      else \<lparr>ct_data_type = 0, ct_byte_size = 1, ct_bit_count = 8\<rparr>)"

text \<open>The offsets of the channels after the time, and the size of a record.\<close>

fun channel_offsets :: "nat \<Rightarrow> channel_desc list \<Rightarrow> nat list" where
  "channel_offsets off [] = []"
| "channel_offsets off (c # cs) = off # channel_offsets (off + ct_byte_size (ctype (cd_data_type c))) cs"

definition rec_size :: "channel_group \<Rightarrow> nat" where
  "rec_size g = 8 + sum_list (map (\<lambda>c. ct_byte_size (ctype (cd_data_type c))) (cg_channels g))"

definition value_bytes :: "string \<Rightarrow> f64 \<Rightarrow> bytes" where
  "value_bytes dt v =
     (let t = ct_data_type (ctype dt) in
      if t = 6 then le_bytes 8 v
      else if t = 4 then le_bytes 4 (f64_to_f32 v)
      else if t = 2 then le_bytes 2 (ucast (f64_to_int32 v) :: u16)
      else [ucast (f64_to_int32 v)])"

definition record_bytes :: "channel_group \<Rightarrow> nat \<Rightarrow> bytes" where
  "record_bytes g row =
     le_bytes 8 (cg_time_axis_s g ! row) @
     concat (map (\<lambda>c. value_bytes (cd_data_type c) (if row < length (cd_data c) then cd_data c ! row else kNaN))
       (cg_channels g))"

definition records_bytes :: "channel_group \<Rightarrow> bytes" where
  "records_bytes g = concat (map (record_bytes g) [0..<length (cg_time_axis_s g)])"

section \<open>The head of the file\<close>

definition id_block :: bytes where
  "id_block = str_pad ''MDF     '' 8 @ str_pad ''4.10    '' 8 @ str_pad ''ego-offl'' 8 @ zeros 4 @
     le_bytes 2 (410 :: u16) @ zeros 34"

definition hd_block :: "ns_t \<Rightarrow> bytes" where
  "hd_block t0 = blk_hdr ''##HD'' 104 6 @ le_bytes 8 t0 @ le_bytes 2 (0 :: u16) @ le_bytes 2 (0 :: u16) @ [0, 0, 0, 0] @
     le_bytes 8 f64_zero @ le_bytes 8 f64_zero"

definition fh_block :: "ns_t \<Rightarrow> bytes" where
  "fh_block t0 = blk_hdr ''##FH'' 56 2 @ le_bytes 8 t0 @ le_bytes 2 (0 :: u16) @ le_bytes 2 (0 :: u16) @ [0] @ zeros 3"

definition comment_xml :: "session_bundle \<Rightarrow> string" where
  "comment_xml meta =
     (let s = sb_session meta in
      ''<HDcomment><TX>'' @
      ''session_id='' @ mt_session_id s @ '' vehicle_id='' @ mt_vehicle_id s @
      '' started_at='' @ mt_started_at_utc s @ '' offline_pipeline_version='' @ mt_runtime_version s @
      (case sb_scenario meta of Some sc \<Rightarrow> '' scenario_id='' @ mc_scenario_id sc | None \<Rightarrow> []) @
      ''</TX></HDcomment>'')"

abbreviation hd_links :: nat where "hd_links \<equiv> 88"

definition file_head :: "session_bundle \<Rightarrow> ns_t \<Rightarrow> bytes" where
  "file_head meta t0 =
     (let b = id_block @ hd_block t0; fh_pos = length b; fh_lp = fh_pos + 24;
          b = patch64 (hd_links + 8) fh_pos (b @ fh_block t0);
          md = length b; b = b @ mdblock (comment_xml meta)
      in patch64 (fh_lp + 8) md (patch64 (hd_links + 40) md b))"

section \<open>A group\<close>

definition dg_block :: bytes where "dg_block = blk_hdr ''##DG'' 64 4 @ [0] @ zeros 7"

definition cg_block :: "nat \<Rightarrow> nat \<Rightarrow> bytes" where
  "cg_block n k = blk_hdr ''##CG'' 104 6 @ le_bytes 8 (0 :: u64) @ le_bytes 8 (of_nat n :: u64) @
     le_bytes 2 (0 :: u16) @ le_bytes 2 (0 :: u16) @ zeros 4 @ le_bytes 4 (of_nat k :: u32) @ le_bytes 4 (0 :: u32)"

text \<open>A channel to be placed: the positions of its name and unit, its kind and its place in the record.\<close>

record cn_spec =
  cn_name :: nat
  cn_unit :: nat
  cn_type :: byte
  cn_sync :: byte
  cn_data_type :: byte
  cn_byte_off :: nat
  cn_bit_cnt :: nat

definition cn_block :: "cn_spec \<Rightarrow> bytes" where
  "cn_block s = blk_hdr ''##CN'' 160 8 @ [cn_type s, cn_sync s, cn_data_type s, 0] @
     le_bytes 4 (of_nat (cn_byte_off s) :: u32) @ le_bytes 4 (of_nat (cn_bit_cnt s) :: u32) @
     le_bytes 4 (0 :: u32) @ le_bytes 4 (0 :: u32) @ [0, 0] @ le_bytes 2 (0 :: u16) @
     concat (replicate 6 (le_bytes 8 f64_zero))"

text \<open>The position of the link to this channel is that of the previous one, or the group's first.\<close>

definition write_cn :: "cn_spec \<Rightarrow> nat \<times> bytes \<Rightarrow> nat \<times> bytes" where
  "write_cn s st =
     (case st of (link, b) \<Rightarrow>
        let pos = length b; lp = pos + 24; b = b @ cn_block s;
            b = patch64 (lp + 16) (cn_name s) b; b = patch64 (lp + 48) (cn_unit s) b
        in (lp, patch64 link pos b))"

fun write_texts :: "string list \<Rightarrow> bytes \<Rightarrow> nat list \<times> bytes" where
  "write_texts [] b = ([], b)"
| "write_texts (s # ss) b = (let (ps, b') = write_texts ss (b @ txblock s) in (length b # ps, b'))"

definition time_spec :: "nat \<Rightarrow> nat \<Rightarrow> cn_spec" where
  "time_spec name unit = \<lparr>cn_name = name, cn_unit = unit, cn_type = 2, cn_sync = 1, cn_data_type = 6,
     cn_byte_off = 0, cn_bit_cnt = 64\<rparr>"

definition channel_spec :: "nat \<times> nat \<Rightarrow> channel_desc \<times> nat \<Rightarrow> cn_spec" where
  "channel_spec tx co =
     (case (tx, co) of ((name, unit), (c, off)) \<Rightarrow>
        let ct = ctype (cd_data_type c) in
        \<lparr>cn_name = name, cn_unit = unit, cn_type = 0, cn_sync = 0, cn_data_type = ct_data_type ct, cn_byte_off = off,
         cn_bit_cnt = ct_bit_count ct\<rparr>)"

fun pairs_of :: "nat list \<Rightarrow> (nat \<times> nat) list" where
  "pairs_of (a # b # xs) = (a, b) # pairs_of xs"
| "pairs_of _ = []"

text \<open>A group is placed at the end; \<open>link\<close> is the position of the link to it. The result has the position of
  its own link to the next one.\<close>

definition write_group :: "channel_group \<Rightarrow> nat \<times> bytes \<Rightarrow> nat \<times> bytes" where
  "write_group g st =
     (case st of (link, b) \<Rightarrow>
        if cg_channels g = [] \<or> cg_time_axis_s g = [] then (link, b)
        else
          let n = length (cg_time_axis_s g);
              (tx, b) = write_texts ([cg_name g, cg_name g @ ''.time_s'', ''s''] @
                concat (map (\<lambda>c. [cd_name c, cd_unit c]) (cg_channels g))) b;
              dg_pos = length b; dg_lp = dg_pos + 24; b = patch64 link dg_pos (b @ dg_block);
              cg_pos = length b; cg_lp = cg_pos + 24; b = b @ cg_block n (rec_size g);
              b = patch64 (cg_lp + 16) (tx ! 0) b; b = patch64 (dg_lp + 8) cg_pos b;
              specs = time_spec (tx ! 1) (tx ! 2) #
                map2 channel_spec (pairs_of (drop 3 tx)) (zip (cg_channels g) (channel_offsets 8 (cg_channels g)));
              b = snd (fold write_cn specs (cg_lp + 8, b));
              dt_pos = length b; b = b @ blk_hdr ''##DT'' (24 + n * rec_size g) 0;
              b = patch64 (dg_lp + 16) dt_pos b
          in (dg_lp, b @ records_bytes g))"

definition build_mdf4 :: "channel_group list \<Rightarrow> session_bundle \<Rightarrow> ns_t \<Rightarrow> bytes" where
  "build_mdf4 groups meta t0 = snd (fold write_group groups (hd_links, file_head meta t0))"

section \<open>Files\<close>

text \<open>What the system lets through: opening and writing the temporary file (or how much of it), renaming it,
  opening the written file and the checksum file.\<close>

record mdf4_io =
  mx_open :: bool
  mx_write :: "nat option"
  mx_rename :: bool
  mx_reopen :: bool
  mx_sidecar :: bool

definition write_mdf4 :: "mdf4_io \<Rightarrow> string \<Rightarrow> channel_group list \<Rightarrow> session_bundle \<Rightarrow> ns_t \<Rightarrow> dir \<Rightarrow> bool \<times> dir" where
  "write_mdf4 io path groups meta t0 d =
     (let tmp = path @ ''.tmp''; b = build_mdf4 groups meta t0 in
      if \<not> mx_open io then (False, d)
      else case mx_write io of
             Some k \<Rightarrow> (False, put tmp (take k b) d)
           | None \<Rightarrow>
               if mx_rename io then (True, put path b (remove_file tmp d)) else (False, remove_file tmp d))"

definition validate_mdf4 :: "mdf4_io \<Rightarrow> string \<Rightarrow> channel_group list \<Rightarrow> dir \<Rightarrow> bool" where
  "validate_mdf4 io path groups d =
     (case fget d path of None \<Rightarrow> False
      | Some bs \<Rightarrow>
          mx_reopen io \<and> take 8 bs = text_bytes ''MDF     '' \<and> 128 \<le> length bs \<and>
          list_all (\<lambda>g. cg_channels g = [] \<or> cg_time_axis_s g \<noteq> []) groups)"

definition write_sha256_sidecar :: "mdf4_io \<Rightarrow> string \<Rightarrow> dir \<Rightarrow> bool \<times> dir" where
  "write_sha256_sidecar io path d =
     (let hex = (if mx_reopen io then sha256_file d path else []) in
      if hex = [] then (False, d)
      else if \<not> mx_sidecar io then (False, d)
      else (True, put (path @ ''.sha256'') (text_bytes (hex @ ''  '' @
             rev (takeWhile (\<lambda>c. c \<noteq> CHR ''/'') (rev path)) @ [CHR 0x0A])) d))"

definition mdf4_validate :: "mdf4_io \<Rightarrow> string \<Rightarrow> channel_group list \<Rightarrow> dir \<Rightarrow> bool \<times> dir" where
  "mdf4_validate io path groups d =
     (if \<not> validate_mdf4 io path groups d then (False, d) else (True, snd (write_sha256_sidecar io path d)))"

section \<open>Patching\<close>

lemma patch64_length [simp]: "k + 8 \<le> length b \<Longrightarrow> length (patch64 k v b) = length b"
  by (simp add: patch64_def)

lemma patch64_nth: "k + 8 \<le> length b \<Longrightarrow> i < k \<or> k + 8 \<le> i \<Longrightarrow> patch64 k v b ! i = b ! i"
  by (auto simp: patch64_def nth_append)

definition link_at :: "bytes \<Rightarrow> nat \<Rightarrow> nat" where "link_at b k = unat (rd k 8 b :: u64)"

lemma link_at_patch [simp]: "k + 8 \<le> length b \<Longrightarrow> v < 2 ^ 64 \<Longrightarrow> link_at (patch64 k v b) k = v"
  by (simp add: link_at_def rd_def patch64_def slice_def unat_of_nat_small take_bit_word_eq_self)

text \<open>A buffer that has grown, and is otherwise the same but for one link.\<close>

definition kept :: "nat \<Rightarrow> bytes \<Rightarrow> bytes \<Rightarrow> bool" where
  "kept k b b' \<longleftrightarrow> length b \<le> length b' \<and> (\<forall>i < length b. i < k \<or> k + 8 \<le> i \<longrightarrow> b' ! i = b ! i)"

lemma kept_refl [simp]: "kept k b b"
  by (simp add: kept_def)

lemma kept_append [simp]: "kept k b (b @ xs)"
  by (simp add: kept_def nth_append)

lemma kept_patch: "k + 8 \<le> length b \<Longrightarrow> kept k b (patch64 k v b)"
  by (simp add: kept_def patch64_nth)

lemma kept_trans: "kept k a b \<Longrightarrow> kept j b c \<Longrightarrow> j = k \<or> length a \<le> j \<Longrightarrow> kept k a c"
  by (fastforce simp: kept_def)

lemma kept_length: "kept k b b' \<Longrightarrow> length b \<le> length b'"
  by (simp add: kept_def)

lemma slice_kept:
  assumes "kept j b b'" and "k + n \<le> length b" and "k + n \<le> j \<or> j + 8 \<le> k"
  shows "slice k n b' = slice k n b"
  using assms by (intro nth_equalityI) (auto simp: kept_def slice_def)

lemma rd_kept: "kept j b b' \<Longrightarrow> k + n \<le> length b \<Longrightarrow> k + n \<le> j \<or> j + 8 \<le> k \<Longrightarrow> rd k n b' = rd k n b"
  by (simp add: rd_def slice_kept)

lemma link_at_kept: "kept j b b' \<Longrightarrow> k + 8 \<le> length b \<Longrightarrow> k + 8 \<le> j \<or> j + 8 \<le> k \<Longrightarrow> link_at b' k = link_at b k"
  by (simp add: link_at_def rd_kept)

lemma slice_past: "slice (length a + k) n (a @ xs) = slice k n xs"
  by (simp add: slice_def)

lemma rd_past: "rd (length a + k) n (a @ xs) = rd k n xs"
  by (simp add: rd_def slice_past)

section \<open>Blocks\<close>

lemma block_lengths [simp]:
  "length (text_bytes s) = length s" "length (zeros n) = n" "length (blk_hdr name len m) = length name + 20 + 8 * m"
  "length dg_block = 64" "length (cg_block n k) = 104" "length (cn_block cs) = 160" "length id_block = 64"
  "length (hd_block t0) = 104" "length (fh_block t0) = 56"
  by (simp_all add: text_bytes_def zeros_def blk_hdr_def dg_block_def cg_block_def cn_block_def id_block_def hd_block_def
    fh_block_def str_pad_def Let_def sum_list_replicate length_concat)

lemma le_word_zeros [simp]: "le_word (replicate n 0) = 0"
  by (induction n) simp_all

lemma cg_fields: "rd 80 8 (cg_block n k @ r) = (of_nat n :: u64)" "rd 96 4 (cg_block n k @ r) = (of_nat k :: u32)"
  by (simp_all add: rd_def cg_block_def blk_hdr_def zeros_def text_bytes_def slice_def take_bit_word_eq_self)

lemma dg_next: "link_at (dg_block @ r) 24 = 0"
  by (simp add: link_at_def rd_def dg_block_def blk_hdr_def zeros_def text_bytes_def slice_def)

lemma hdr_len: "length name = 4 \<Longrightarrow> rd 8 8 (blk_hdr name len m @ r) = (of_nat len :: u64)"
  by (simp add: rd_def blk_hdr_def zeros_def slice_def take_bit_word_eq_self)

lemma write_texts_append: "\<exists>xs. snd (write_texts ss b) = b @ xs"
proof (induction ss arbitrary: b)
  case (Cons s ss)
  obtain ps b' where w: "write_texts ss (b @ txblock s) = (ps, b')" by fastforce
  with Cons [of "b @ txblock s"] show ?case by auto
qed simp

lemma write_cn_kept:
  assumes "link + 8 \<le> length b" and "write_cn s (link, b) = (lp, b')"
  shows "kept link b b' \<and> length b \<le> lp \<and> lp + 8 \<le> length b'"
proof -
  let ?b1 = "b @ cn_block s" and ?lp = "length b + 24"
  let ?b2 = "patch64 (?lp + 16) (cn_name s) ?b1"
  let ?b3 = "patch64 (?lp + 48) (cn_unit s) ?b2"
  have b': "b' = patch64 link (length b) ?b3" "lp = ?lp" using assms(2) by (auto simp: write_cn_def Let_def)
  have len: "length ?b2 = length b + 160" "length ?b3 = length b + 160" by simp_all
  have "kept link b ?b1" by simp
  then have "kept link b ?b2" by (rule kept_trans [OF _ kept_patch]) simp_all
  then have "kept link b ?b3" by (rule kept_trans [OF _ kept_patch]) simp_all
  then have "kept link b b'" unfolding b' by (rule kept_trans [OF _ kept_patch]) (use assms(1) len in simp_all)
  then show ?thesis using assms(1) len by (simp add: b')
qed

lemma write_cns_kept:
  assumes "link + 8 \<le> length b"
  shows "kept link b (snd (fold write_cn specs (link, b)))"
  using assms
proof (induction specs arbitrary: link b)
  case (Cons s specs)
  obtain lp b' where w: "write_cn s (link, b) = (lp, b')" by fastforce
  note k = write_cn_kept [OF Cons.prems w]
  with Cons.IH [of lp b'] have "kept lp b' (snd (fold write_cn specs (lp, b')))" by simp
  with k show ?case by (auto simp: w intro: kept_trans)
qed simp


section \<open>A group is read back\<close>

text \<open>What a reader of the file sees of the group at \<open>p\<close>: the cycle count and the record size of the channel
  group its second link leads to, and the contents of the data block its third link leads to.\<close>

definition read_group :: "bytes \<Rightarrow> nat \<Rightarrow> nat \<times> nat \<times> bytes" where
  "read_group b p =
     (let cg = link_at b (p + 32); dt = link_at b (p + 40) in
      (unat (rd (cg + 80) 8 b :: u64), unat (rd (cg + 96) 4 b :: u32), slice (dt + 24) (link_at b (dt + 8) - 24) b))"

definition group_summary :: "channel_group \<Rightarrow> nat \<times> nat \<times> bytes" where
  "group_summary g = (length (cg_time_axis_s g), rec_size g, records_bytes g)"

text \<open>The group at \<open>p\<close> lies within the buffer, behind its own data group block.\<close>

definition group_at :: "bytes \<Rightarrow> nat \<Rightarrow> channel_group \<Rightarrow> bool" where
  "group_at b p g \<longleftrightarrow>
     p + 64 \<le> link_at b (p + 32) \<and> link_at b (p + 32) + 104 \<le> length b \<and>
     p + 64 \<le> link_at b (p + 40) \<and> 24 \<le> link_at b (link_at b (p + 40) + 8) \<and>
     link_at b (p + 40) + link_at b (link_at b (p + 40) + 8) \<le> length b \<and>
     read_group b p = group_summary g"

lemma group_at_kept:
  assumes "group_at b p g" and "kept (p + 24) b b'"
  shows "group_at b' p g"
proof -
  let ?cg = "link_at b (p + 32)" and ?dt = "link_at b (p + 40)"
  have at: "p + 64 \<le> ?cg" "?cg + 104 \<le> length b" "p + 64 \<le> ?dt" "24 \<le> link_at b (?dt + 8)"
    "?dt + link_at b (?dt + 8) \<le> length b" "read_group b p = group_summary g"
    using assms(1) by (simp_all add: group_at_def)
  have links: "link_at b' (p + 32) = ?cg" "link_at b' (p + 40) = ?dt" "link_at b' (?dt + 8) = link_at b (?dt + 8)"
    using at by (simp_all add: link_at_kept [OF assms(2)])
  have "rd (?cg + 80) 8 b' = (rd (?cg + 80) 8 b :: u64)" "rd (?cg + 96) 4 b' = (rd (?cg + 96) 4 b :: u32)"
    "slice (?dt + 24) (link_at b (?dt + 8) - 24) b' = slice (?dt + 24) (link_at b (?dt + 8) - 24) b"
    using at by (simp_all add: rd_kept [OF assms(2)] slice_kept [OF assms(2)])
  then have "read_group b' p = read_group b p" by (simp add: read_group_def links Let_def)
  then show ?thesis using at kept_length [OF assms(2)] by (simp add: group_at_def links)
qed

lemma records_length: "length (value_bytes dt v) = ct_byte_size (ctype dt)"
  by (simp add: value_bytes_def ctype_def Let_def)

lemma record_length: "length (record_bytes g i) = rec_size g"
  by (simp add: record_bytes_def rec_size_def length_concat o_def records_length)

lemma records_bytes_length: "length (records_bytes g) = length (cg_time_axis_s g) * rec_size g"
  by (simp add: records_bytes_def length_concat o_def record_length sum_list_triv)

definition has_data :: "channel_group \<Rightarrow> bool" where
  "has_data g \<longleftrightarrow> cg_channels g \<noteq> [] \<and> cg_time_axis_s g \<noteq> []"

lemma write_group_steps:
  assumes "has_data g" and "write_texts ([cg_name g, cg_name g @ ''.time_s'', ''s''] @
      concat (map (\<lambda>c. [cd_name c, cd_unit c]) (cg_channels g))) b = (tx, b1)"
    and "b2 = patch64 link (length b1) (b1 @ dg_block)"
    and "b4 = patch64 (length b2 + 40) (tx ! 0) (b2 @ cg_block (length (cg_time_axis_s g)) (rec_size g))"
    and "b5 = patch64 (length b1 + 32) (length b2) b4"
  obtains specs where "length specs \<le> Suc (length (cg_channels g))" and "write_group g (link, b) =
    (length b1 + 24,
     patch64 (length b1 + 40) (length (snd (fold write_cn specs (length b2 + 32, b5))))
       (snd (fold write_cn specs (length b2 + 32, b5)) @
        blk_hdr ''##DT'' (24 + length (cg_time_axis_s g) * rec_size g) 0) @ records_bytes g)"
proof -
  let ?specs = "time_spec (tx ! 1) (tx ! 2) #
      map2 channel_spec (pairs_of (drop 3 tx)) (zip (cg_channels g) (channel_offsets 8 (cg_channels g)))"
  have "write_group g (link, b) =
    (length b1 + 24,
     patch64 (length b1 + 40) (length (snd (fold write_cn ?specs (length b2 + 32, b5))))
       (snd (fold write_cn ?specs (length b2 + 32, b5)) @
        blk_hdr ''##DT'' (24 + length (cg_time_axis_s g) * rec_size g) 0) @ records_bytes g)"
    using assms(1) unfolding write_group_def has_data_def Let_def assms(2) prod.case assms(3-5)
    by (simp only: if_False simp_thms add.assoc) (simp only: append.assoc numeral_plus_numeral add_num_simps)
  then show ?thesis by (intro that [of ?specs]) simp_all
qed

lemma write_group_placed:
  assumes "has_data g" and "link + 8 \<le> length b" and "write_group g (link, b) = (lp, b')"
  shows "kept link b b' \<and> length b + 24 \<le> lp \<and> lp + 8 \<le> length b' \<and>
    (length b' < 2 ^ 64 \<and> rec_size g < 2 ^ 32 \<longrightarrow>
      link_at b' link = lp - 24 \<and> link_at b' lp = 0 \<and> group_at b' (lp - 24) g)"
proof -
  let ?n = "length (cg_time_axis_s g)"
  obtain tx b1 where tx: "write_texts ([cg_name g, cg_name g @ ''.time_s'', ''s''] @
      concat (map (\<lambda>c. [cd_name c, cd_unit c]) (cg_channels g))) b = (tx, b1)" by (rule prod.exhaust)
  from write_texts_append [of "[cg_name g, cg_name g @ ''.time_s'', ''s''] @
      concat (map (\<lambda>c. [cd_name c, cd_unit c]) (cg_channels g))" b]
  obtain xs where b1: "b1 = b @ xs" unfolding tx by auto
  define p where "p = length b1"
  define b2 where "b2 = patch64 link p (b1 @ dg_block)"
  define b3 where "b3 = b2 @ cg_block ?n (rec_size g)"
  define b4 where "b4 = patch64 (length b2 + 40) (tx ! 0) b3"
  define b5 where "b5 = patch64 (p + 32) (length b2) b4"
  obtain specs where "write_group g (link, b) = (p + 24,
      patch64 (p + 40) (length (snd (fold write_cn specs (length b2 + 32, b5))))
        (snd (fold write_cn specs (length b2 + 32, b5)) @ blk_hdr ''##DT'' (24 + ?n * rec_size g) 0) @ records_bytes g)"
    by (rule write_group_steps [OF assms(1) tx b2_def [unfolded p_def] b4_def [unfolded b3_def] b5_def [unfolded p_def], folded p_def])
  with assms(3) have b': "b' = patch64 (p + 40) (length (snd (fold write_cn specs (length b2 + 32, b5))))
      (snd (fold write_cn specs (length b2 + 32, b5)) @ blk_hdr ''##DT'' (24 + ?n * rec_size g) 0) @ records_bytes g"
    and lp: "lp = p + 24" by simp_all
  define b6 where "b6 = snd (fold write_cn specs (length b2 + 32, b5))"
  define b7 where "b7 = b6 @ blk_hdr ''##DT'' (24 + ?n * rec_size g) 0"
  define b8 where "b8 = patch64 (p + 40) (length b6) b7"
  have b': "b' = b8 @ records_bytes g" by (simp add: b' b8_def b7_def b6_def)
  have len2: "length b2 = p + 64" using assms(2) by (simp add: b2_def b1 p_def)
  have len3: "length b3 = p + 168" by (simp add: b3_def len2)
  have len5: "length b4 = p + 168" "length b5 = p + 168" by (simp_all add: b4_def b5_def len3 len2)
  have k56: "kept (p + 96) b5 b6" unfolding b6_def using write_cns_kept [of "length b2 + 32" b5 specs] len5 by (simp add: len2 add.commute)
  then have len6: "p + 168 \<le> length b6" using kept_length [OF k56] len5 by simp
  have len8: "length b7 = length b6 + 24" "length b8 = length b6 + 24" using len6 by (simp_all add: b7_def b8_def)
  have kb: "kept link b b1" "kept link b1 (b1 @ dg_block)" "kept link (b1 @ dg_block) b2" "kept link b2 b3"
    using assms(2) kept_patch [of link "b1 @ dg_block"] by (simp_all add: b2_def b3_def) (simp add: b1)+
  have k34: "kept (p + 104) b3 b4" using kept_patch [of "length b2 + 40" b3] len2 len3 by (simp add: b4_def add.commute)
  have k45: "kept (p + 32) b4 b5" using kept_patch [of "p + 32" b4] len5 by (simp add: b5_def)
  have k67: "kept (p + 40) b6 b7" by (simp add: b7_def)
  have k78: "kept (p + 40) b7 b8" using kept_patch [of "p + 40" b7] len6 len8 by (simp add: b8_def)
  have k8: "kept (p + 40) b8 b'" by (simp add: b')
  have b: "length b \<le> p" "link + 8 \<le> p" using assms(2) by (simp_all add: p_def b1)
  have len': "length b' = length b6 + 24 + ?n * rec_size g" by (simp add: b' len8 records_bytes_length)
  have "kept link b b3" using kb by (blast intro: kept_trans)
  then have "kept link b b4" using k34 by (rule kept_trans) (use b in simp)
  then have "kept link b b5" using k45 by (rule kept_trans) (use b in simp)
  then have "kept link b b6" using k56 by (rule kept_trans) (use b in simp)
  then have "kept link b b7" using k67 by (rule kept_trans) (use b in simp)
  then have "kept link b b8" using k78 by (rule kept_trans) (use b in simp)
  then have kept: "kept link b b'" using k8 by (rule kept_trans) (use b in simp)
  have later: "slice q n b' = slice q n b5"
    if "q + n \<le> p + 168" "q + n \<le> p + 40 \<or> p + 48 \<le> q" "q + n \<le> p + 96 \<or> p + 104 \<le> q" for q n
  proof -
    have "slice q n b' = slice q n b8" by (rule slice_kept [OF k8]) (use that len6 len8 in auto)
    also have "\<dots> = slice q n b7" by (rule slice_kept [OF k78]) (use that len6 len8 in auto)
    also have "\<dots> = slice q n b6" by (rule slice_kept [OF k67]) (use that len6 in auto)
    also have "\<dots> = slice q n b5" by (rule slice_kept [OF k56]) (use that len5 in auto)
    finally show ?thesis .
  qed
  have early: "slice q n b5 = slice q n b3"
    if "q + n \<le> p + 168" "q + n \<le> p + 32 \<or> p + 40 \<le> q" "q + n \<le> p + 104 \<or> p + 112 \<le> q" for q n
  proof -
    have "slice q n b5 = slice q n b4" by (rule slice_kept [OF k45]) (use that len5 in auto)
    also have "\<dots> = slice q n b3" by (rule slice_kept [OF k34]) (use that len3 in auto)
    finally show ?thesis .
  qed
  have "link_at b' link = p \<and> link_at b' (p + 24) = 0 \<and> group_at b' p g"
    if fits: "length b' < 2 ^ 64" "rec_size g < 2 ^ 32"
  proof -
    have p: "p < 2 ^ 64" "length b6 < 2 ^ 64" "24 + ?n * rec_size g < 2 ^ 64" "?n < 2 ^ 64" "p + 64 < 2 ^ 64"
      using fits(1) len' len6 by (auto simp: rec_size_def algebra_simps intro: le_less_trans)
    have "slice link 8 b' = slice link 8 b2"
      using b later [of link 8] early [of link 8] len2 by (simp add: b3_def slice_append_left)
    moreover have "link_at b2 link = p" using b(2) p by (simp add: b2_def p_def b1)
    ultimately have link: "link_at b' link = p" by (simp add: link_at_def rd_def)
    have "slice (p + 24) 8 b' = slice (p + 24) 8 (b1 @ dg_block)"
      using b later [of "p + 24" 8] early [of "p + 24" 8] len2 slice_kept [OF kb(3), of "p + 24" 8]
      by (simp add: b3_def slice_append_left p_def)
    then have next_link: "link_at b' (p + 24) = 0"
      using dg_next [of "[]"] by (simp add: link_at_def p_def rd_def slice_past)
    have cg: "link_at b' (p + 32) = p + 64"
      using later [of "p + 32" 8] p len5 link_at_patch [of "p + 32" b4 "length b2"]
      by (simp add: link_at_def rd_def len2 b5_def)
    have dt: "link_at b' (p + 40) = length b6"
      using p len6 len8 link_at_patch [of "p + 40" b7 "length b6"]
      by (simp add: link_at_def rd_def b8_def b' slice_append_left)
    have "slice (p + 144) 8 b' = slice 80 8 (cg_block ?n (rec_size g))" "slice (p + 160) 4 b' = slice 96 4 (cg_block ?n (rec_size g))"
      using later [of "p + 144" 8] early [of "p + 144" 8] later [of "p + 160" 4] early [of "p + 160" 4]
        slice_past [of b2 80 8 "cg_block ?n (rec_size g)"] slice_past [of b2 96 4 "cg_block ?n (rec_size g)"]
      by (simp_all add: b3_def len2 add.commute)
    then have fields: "rd (p + 144) 8 b' = (of_nat ?n :: u64)" "rd (p + 160) 4 b' = (of_nat (rec_size g) :: u32)"
      using cg_fields [of ?n "rec_size g" "[]"] by (simp_all add: rd_def)
    have "slice (length b6 + 8) 8 b' = slice (length b6 + 8) 8 b7"
      using len6 len8 slice_kept [OF k78, of "length b6 + 8" 8] by (simp add: b' slice_append_left)
    then have dt_len: "link_at b' (length b6 + 8) = 24 + ?n * rec_size g"
      using hdr_len [of "''##DT''" "24 + ?n * rec_size g" 0 "[]"] unat_of_nat_small [of "24 + ?n * rec_size g", where ?'a = 64] p(3)
      by (simp add: b7_def link_at_def rd_def slice_past del: of_nat_add of_nat_mult)
    have "slice (length b6 + 24) (?n * rec_size g) b' = records_bytes g"
      using slice_past [of b8 0 "?n * rec_size g" "records_bytes g"] by (simp add: b' len8 slice_all records_bytes_length)
    then have "read_group b' p = group_summary g"
      using p fits(2) by (simp add: read_group_def cg dt dt_len fields group_summary_def Let_def unat_of_nat_small add.commute [of _ p])
    then have "group_at b' p g"
      using len6 len' by (simp add: group_at_def cg dt dt_len)
    with link next_link show ?thesis by simp
  qed
  with kept b len6 len' show ?thesis by (simp add: lp)
qed


lemma write_group_skipped: "\<not> has_data g \<Longrightarrow> write_group g (link, b) = (link, b)"
  by (simp add: write_group_def has_data_def)

text \<open>The positions of the groups, as the links give them from one to the next.\<close>

fun chained :: "bytes \<Rightarrow> nat \<Rightarrow> nat list \<Rightarrow> bool" where
  "chained b link [] \<longleftrightarrow> link_at b link = 0"
| "chained b link (p # ps) \<longleftrightarrow> link_at b link = p \<and> p \<noteq> 0 \<and> chained b (p + 24) ps"

lemma write_group_kept:
  assumes "link + 8 \<le> length b" and "write_group g (link, b) = (lp, b')"
  shows "kept link b b' \<and> (lp = link \<or> length b \<le> lp) \<and> lp + 8 \<le> length b'"
  using write_group_placed [OF _ assms] write_group_skipped [of g link b] assms by (cases "has_data g") auto

lemma write_groups_kept:
  "link + 8 \<le> length b \<Longrightarrow> kept link b (snd (fold write_group groups (link, b)))"
proof (induction groups arbitrary: link b)
  case (Cons g groups)
  obtain lp b1 where w: "write_group g (link, b) = (lp, b1)" by (rule prod.exhaust)
  note k = write_group_kept [OF Cons.prems w]
  with Cons.IH [of lp b1] have "kept lp b1 (snd (fold write_group groups (lp, b1)))" by simp
  with k show ?case by (auto simp: w intro: kept_trans)
qed simp

lemma write_groups_chain:
  assumes "link + 8 \<le> length b" and "0 < length b" and "link_at b link = 0"
    and "length (snd (fold write_group groups (link, b))) < 2 ^ 64" and "\<forall>g \<in> set groups. rec_size g < 2 ^ 32"
  shows "\<exists>ps. chained (snd (fold write_group groups (link, b))) link ps \<and>
    list_all2 (group_at (snd (fold write_group groups (link, b)))) ps (filter has_data groups) \<and>
    kept link b (snd (fold write_group groups (link, b)))"
  using assms
proof (induction groups arbitrary: link b)
  case (Cons g groups)
  obtain lp b1 where w: "write_group g (link, b) = (lp, b1)" by (rule prod.exhaust)
  let ?f = "snd (fold write_group groups (lp, b1))"
  have f: "snd (fold write_group (g # groups) (link, b)) = ?f" by (simp add: w)
  show ?case
  proof (cases "has_data g")
    case False
    with Cons.IH [OF Cons.prems(1-3)] Cons.prems(4,5) show ?thesis
      by (simp add: write_group_skipped)
  next
    case True
    note placed = write_group_placed [OF True Cons.prems(1) w]
    then have "kept lp b1 ?f" by (intro write_groups_kept) simp
    with Cons.prems(4) f have "length b1 < 2 ^ 64" by (auto dest: kept_length)
    with placed Cons.prems(5)
    have g: "kept link b b1" "length b + 24 \<le> lp" "lp + 8 \<le> length b1" "link_at b1 link = lp - 24"
      "link_at b1 lp = 0" "group_at b1 (lp - 24) g" by simp_all
    have "0 < length b1" using g(3) by linarith
    from Cons.IH [OF g(3) this g(5)] Cons.prems(4,5) f obtain ps where
      ps: "chained ?f lp ps" "list_all2 (group_at ?f) ps (filter has_data groups)" "kept lp b1 ?f" by auto
    have "kept link b ?f" using g(1) ps(3) by (rule kept_trans) (use g(2) in simp)
    moreover have "link_at ?f link = lp - 24"
      using link_at_kept [OF ps(3), of link] Cons.prems(1) g(2,3,4) by simp
    moreover have "group_at ?f (lp - 24) g" using group_at_kept [OF g(6)] ps(3) g(2) by simp
    moreover have "lp - 24 \<noteq> 0" using g(2) Cons.prems(2) by linarith
    ultimately show ?thesis
      using ps(1,2) True g(2) by (intro exI [of _ "(lp - 24) # ps"]) (simp only: f filter.simps, simp)
  qed
qed simp


section \<open>The head\<close>

lemma file_head_links:
  "hd_links + 8 \<le> length (file_head meta t0)" "0 < length (file_head meta t0)"
  "link_at (file_head meta t0) hd_links = 0" "take 8 (file_head meta t0) = text_bytes ''MDF     ''"
proof -
  define b0 where "b0 = id_block @ hd_block t0"
  define b1 where "b1 = patch64 96 168 (b0 @ fh_block t0)"
  define b2 where "b2 = b1 @ mdblock (comment_xml meta)"
  define b3 where "b3 = patch64 128 224 b2"
  have len: "length b0 = 168" "length b1 = 224" "224 \<le> length b2" "length b3 = length b2"
    by (simp_all add: b0_def b1_def b2_def b3_def)
  have head: "file_head meta t0 = patch64 200 224 b3"
    by (simp add: file_head_def Let_def b0_def [symmetric] len b1_def [symmetric] b2_def [symmetric] b3_def [symmetric])
  show "hd_links + 8 \<le> length (file_head meta t0)" "0 < length (file_head meta t0)"
    using len by (auto simp: head)
  have k: "kept 96 (b0 @ fh_block t0) b1" "kept 96 b1 b2" "kept 128 b2 b3" "kept 200 b3 (file_head meta t0)"
    using len kept_patch [of 96 "b0 @ fh_block t0"] kept_patch [of 128 b2] kept_patch [of 200 b3]
    by (simp_all add: b1_def b2_def b3_def head)
  have same: "slice q n (file_head meta t0) = slice q n (b0 @ fh_block t0)" if "q + n \<le> 96" for q n
  proof -
    have "slice q n (file_head meta t0) = slice q n b3" by (rule slice_kept [OF k(4)]) (use that len in auto)
    also have "\<dots> = slice q n b2" by (rule slice_kept [OF k(3)]) (use that len in auto)
    also have "\<dots> = slice q n b1" by (rule slice_kept [OF k(2)]) (use that len in auto)
    also have "\<dots> = slice q n (b0 @ fh_block t0)" by (rule slice_kept [OF k(1)]) (use that len in auto)
    finally show ?thesis .
  qed
  show "link_at (file_head meta t0) hd_links = 0"
    using same [of 88 8] slice_past [of id_block 24 8 "hd_block t0 @ fh_block t0"]
    by (simp add: link_at_def rd_def b0_def) (simp add: hd_block_def blk_hdr_def slice_def text_bytes_def zeros_def)
  show "take 8 (file_head meta t0) = text_bytes ''MDF     ''"
    using same [of 0 8] by (simp add: slice_def b0_def id_block_def str_pad_def Let_def text_bytes_def)
qed

lemma sha_round_length: "length (sha_round kw v) = length v"
  by (auto simp: sha_round_def Let_def split: list.splits)

lemma sha_rounds_length: "length (fold sha_round kws v) = length v"
  by (induction kws arbitrary: v) (simp_all add: sha_round_length)

lemma sha_transform_length: "length (sha_transform blk h) = length h"
  by (simp add: sha_transform_def sha_rounds_length)

lemma sha_blocks_length: "length (fold sha_transform blks h) = length h"
  by (induction blks arbitrary: h) (simp_all add: sha_transform_length)

lemma sha_final_length: "length (sha_final ctx) = length (sc_h ctx)"
  unfolding sha_final_def Let_def
  by (cases "56 < sc_buflen ctx + 1") (simp_all only: if_True if_False prod.case sha_transform_length)

lemma sha_hex_nonempty: "h \<noteq> [] \<Longrightarrow> sha_hex h \<noteq> []"
proof (cases h)
  case (Cons w ws)
  have "hex_width (Suc 7) n \<noteq> []" for n by (simp only: hex_width.simps append_is_Nil_conv list.simps simp_thms)
  then show ?thesis by (simp add: Cons sha_hex_def del: hex_width.simps)
qed simp

lemma hexdigest_nonempty: "hexdigest (sha_update bs new_sha_ctx) \<noteq> []"
proof -
  have "length (sha_final (sha_update bs new_sha_ctx)) = length sha_init"
    by (simp only: sha_final_length sha_update_state [of bs, THEN conjunct1] sha_blocks_length)
  then have "sha_final (sha_update bs new_sha_ctx) \<noteq> []"
    by (simp only: sha_init_def list.size length_0_conv [symmetric])
  then show ?thesis unfolding hexdigest_def by (rule sha_hex_nonempty)
qed

section \<open>Properties\<close>

text \<open>C20: A measurement file can be read back. From the head's first link the links lead through as many data
  groups as there are groups with data, in their order, and then end. In each the second link leads to a
  channel group with the number of times and the size of a record, and the third to a data block that holds
  exactly the group's records, one after the other.\<close>

theorem measurement_file_read_back:
  assumes "length (build_mdf4 groups meta t0) < 2 ^ 64" and "\<forall>g \<in> set groups. rec_size g < 2 ^ 32"
  shows "\<exists>ps. chained (build_mdf4 groups meta t0) hd_links ps \<and>
    map (read_group (build_mdf4 groups meta t0)) ps = map group_summary (filter has_data groups)"
proof -
  let ?f = "build_mdf4 groups meta t0"
  obtain ps where "chained ?f hd_links ps" "list_all2 (group_at ?f) ps (filter has_data groups)"
    using write_groups_chain [OF file_head_links(1-3) assms(1) [unfolded build_mdf4_def] assms(2)]
    by (auto simp: build_mdf4_def)
  moreover from this(2) have "map (read_group ?f) ps = map group_summary (filter has_data groups)"
    by (induction rule: list_all2_induct) (simp_all add: group_at_def)
  ultimately show ?thesis by blast
qed

text \<open>A file that was written passes the check after it, if it can be opened again and every group with
  channels has times; and then the checksum file beside it holds the digest of its contents.\<close>

theorem written_file_validates:
  assumes "write_mdf4 io path groups meta t0 d = (True, d')" and "mx_reopen io" and "mx_sidecar io"
    and "\<forall>g \<in> set groups. cg_channels g = [] \<or> cg_time_axis_s g \<noteq> []"
  shows "fget d' path = Some (build_mdf4 groups meta t0) \<and> fget d' (path @ ''.tmp'') = None \<and>
    (\<exists>d''. mdf4_validate io path groups d' = (True, d'') \<and>
      (\<exists>r. fget d'' (path @ ''.sha256'') =
         Some (text_bytes (hexdigest (sha_update (build_mdf4 groups meta t0) new_sha_ctx) @ r))))"
proof -
  let ?b = "build_mdf4 groups meta t0"
  have d': "d' = put path ?b (remove_file (path @ ''.tmp'') d)"
    using assms(1) by (auto simp: write_mdf4_def Let_def split: if_splits option.splits)
  then have content: "fget d' path = Some ?b" "fget d' (path @ ''.tmp'') = None" by simp_all
  have kept: "kept hd_links (file_head meta t0) ?b"
    unfolding build_mdf4_def by (rule write_groups_kept [OF file_head_links(1)])
  have "slice 0 8 ?b = slice 0 8 (file_head meta t0)"
    by (rule slice_kept [OF kept]) (use file_head_links(1) [of meta t0] in auto)
  then have magic: "take 8 ?b = text_bytes ''MDF     ''" by (simp add: slice_def file_head_links)
  have "168 \<le> length (file_head meta t0)" by (simp add: file_head_def Let_def)
  then have "128 \<le> length ?b" using kept_length [OF kept] by simp
  with magic have valid: "validate_mdf4 io path groups d'"
    using assms(2,4) by (simp add: validate_mdf4_def content list_all_iff)
  have "hexdigest (sha_update ?b new_sha_ctx) \<noteq> []" by (rule hexdigest_nonempty)
  then show ?thesis
    using valid content assms(2,3) by (auto simp: mdf4_validate_def write_sha256_sidecar_def sha256_file_def)
qed

section \<open>Sizes\<close>

lemma write_cn_length: "link + 8 \<le> length b \<Longrightarrow> length (snd (write_cn s (link, b))) = length b + 160"
  by (simp add: write_cn_def Let_def)

lemma write_cns_length:
  "link + 8 \<le> length b \<Longrightarrow> length (snd (fold write_cn specs (link, b))) = length b + 160 * length specs"
proof (induction specs arbitrary: link b)
  case (Cons s specs)
  obtain lp b' where w: "write_cn s (link, b) = (lp, b')" by (rule prod.exhaust)
  with write_cn_kept [OF Cons.prems w] write_cn_length [OF Cons.prems, of s] Cons.IH [of lp b'] show ?case by simp
qed simp

lemma write_texts_length: "length (snd (write_texts ss b)) = length b + sum_list (map (\<lambda>s. length (txblock s)) ss)"
proof (induction ss arbitrary: b)
  case (Cons s ss)
  obtain ps b' where w: "write_texts ss (b @ txblock s) = (ps, b')" by (rule prod.exhaust)
  with Cons [of "b @ txblock s"] show ?case by simp
qed simp

lemma txblock_length: "length (txblock s) \<le> 32 + length s"
proof -
  have "(length s + 1 + 7) div 8 * 8 \<le> length s + 8" using div_times_less_eq_dividend [of "length s + 1 + 7" 8] by simp
  then show ?thesis by (simp add: text_block_def Let_def)
qed

definition group_texts :: "channel_group \<Rightarrow> string list" where
  "group_texts g = [cg_name g, cg_name g @ ''.time_s'', ''s''] @ concat (map (\<lambda>c. [cd_name c, cd_unit c]) (cg_channels g))"

lemma write_group_length:
  assumes "has_data g" and "link + 8 \<le> length b"
  shows "length (snd (write_group g (link, b))) \<le> length b + sum_list (map (\<lambda>s. 32 + length s) (group_texts g)) +
    192 + 160 * Suc (length (cg_channels g)) + length (cg_time_axis_s g) * rec_size g"
proof -
  obtain tx b1 where tx: "write_texts (group_texts g) b = (tx, b1)" by (rule prod.exhaust)
  define b2 where "b2 = patch64 link (length b1) (b1 @ dg_block)"
  define b4 where "b4 = patch64 (length b2 + 40) (tx ! 0) (b2 @ cg_block (length (cg_time_axis_s g)) (rec_size g))"
  define b5 where "b5 = patch64 (length b1 + 32) (length b2) b4"
  obtain specs where specs: "length specs \<le> Suc (length (cg_channels g))" "write_group g (link, b) =
    (length b1 + 24,
     patch64 (length b1 + 40) (length (snd (fold write_cn specs (length b2 + 32, b5))))
       (snd (fold write_cn specs (length b2 + 32, b5)) @
        blk_hdr ''##DT'' (24 + length (cg_time_axis_s g) * rec_size g) 0) @ records_bytes g)"
    by (rule write_group_steps [OF assms(1) tx [unfolded group_texts_def] b2_def b4_def b5_def])
  have texts: "length b1 = length b + sum_list (map (\<lambda>s. length (txblock s)) (group_texts g))"
    using write_texts_length [of "group_texts g" b] by (simp add: tx)
  have "sum_list (map (\<lambda>s. length (txblock s)) (group_texts g)) \<le> sum_list (map (\<lambda>s. 32 + length s) (group_texts g))"
    by (intro sum_list_mono txblock_length)
  moreover have len: "length b2 = length b1 + 64" "length b5 = length b1 + 168"
    using assms(2) texts by (simp_all add: b2_def b4_def b5_def)
  moreover have "length (snd (fold write_cn specs (length b2 + 32, b5))) = length b5 + 160 * length specs"
    by (rule write_cns_length) (simp add: len)
  ultimately show ?thesis using specs texts by (simp add: records_bytes_length)
qed

definition example_group :: channel_group where
  "example_group = \<lparr>cg_name = ''G'', cg_channels = [\<lparr>cd_group = ''G'', cd_name = ''G.v'', cd_unit = ''m'',
     cd_data_type = ''float64'', cd_sample_count = 1, cd_data = [0]\<rparr>], cg_time_axis_s = [0]\<rparr>"

definition example_bundle :: session_bundle where
  "example_bundle = \<lparr>sb_session = empty_session_meta, sb_scenario = None, sb_source = None\<rparr>"

lemma head_length: "length (file_head meta t0) = 224 + length (mdblock (comment_xml meta))"
  by (simp add: file_head_def Let_def)

theorem measurement_file_read_back_witness:
  "\<exists>p. chained (build_mdf4 [example_group] example_bundle 0) hd_links [p] \<and>
     read_group (build_mdf4 [example_group] example_bundle 0) p = (1, 16, replicate 16 0)"
proof -
  have data: "has_data example_group" by (simp add: has_data_def example_group_def)
  have "length (file_head example_bundle 0) \<le> 1000"
    by (simp add: head_length text_block_def Let_def comment_xml_def example_bundle_def empty_session_meta_def)
  then have len: "length (build_mdf4 [example_group] example_bundle 0) < 2 ^ 64"
    using write_group_length [OF data file_head_links(1) [of example_bundle 0]]
    by (simp add: build_mdf4_def) (simp add: example_group_def group_texts_def rec_size_def ctype_def)
  have size: "rec_size example_group = 16" by (simp add: example_group_def rec_size_def ctype_def)
  have "\<exists>ps. chained (build_mdf4 [example_group] example_bundle 0) hd_links ps \<and>
    map (read_group (build_mdf4 [example_group] example_bundle 0)) ps = map group_summary (filter has_data [example_group])"
    by (rule measurement_file_read_back [OF len]) (simp add: size)
  then obtain ps where ps: "chained (build_mdf4 [example_group] example_bundle 0) hd_links ps"
    "map (read_group (build_mdf4 [example_group] example_bundle 0)) ps = map group_summary (filter has_data [example_group])"
    by blast
  have "group_summary example_group = (1, 16, replicate 16 0)"
    by (simp add: group_summary_def size) (simp add: example_group_def records_bytes_def record_bytes_def value_bytes_def ctype_def numeral_eq_Suc)
  with ps data show ?thesis by (auto simp: map_eq_Cons_conv)
qed

theorem written_file_validates_witness:
  "let io = \<lparr>mx_open = True, mx_write = None, mx_rename = True, mx_reopen = True, mx_sidecar = True\<rparr> in
   \<exists>d''. mdf4_validate io ''a.mf4'' [example_group] (put ''a.mf4'' (build_mdf4 [example_group] example_bundle 0) []) = (True, d'')"
  using written_file_validates [of "\<lparr>mx_open = True, mx_write = None, mx_rename = True, mx_reopen = True, mx_sidecar = True\<rparr>"
      "''a.mf4''" "[example_group]" example_bundle 0 "[]"]
  by (auto simp: write_mdf4_def example_group_def Let_def remove_file_def)

end
