(* ===== verification/FullPipeline.thy ===== *)
theory FullPipeline
  imports Mdf4 S3Upload
begin

text \<open>
  The full run of the pipeline, \<open>Pipeline::run_full\<close> and \<open>Pipeline::run\<close> in
  \<open>offline/src/pipeline/pipeline.cpp\<close>: all stages in order, with every early return. A path is a name in
  the session directory; the texts of paths in the session report have the directory's own path before them.
  What the clock, the random generator, the file system and the commands do is in the environment. None is a
  run that does not end.
\<close>

section \<open>The environment\<close>

record run_env =
  rv_now :: "string \<Rightarrow> string"
  rv_open :: "string \<Rightarrow> bool"
  rv_elapsed :: "string \<Rightarrow> f64"
  rv_wall :: f64
  rv_libm :: libm
  rv_rng :: "nat \<Rightarrow> u64"
  rv_mdf4 :: mdf4_io
  rv_s3 :: s3_env
  rv_session_dir :: string
  rv_config_path :: string

definition out_path :: "run_options \<Rightarrow> string \<Rightarrow> string" where
  "out_path opts n = join_path (out_dir opts) n"

text \<open>Paths as they are printed.\<close>

definition shown_out :: "run_env \<Rightarrow> run_options \<Rightarrow> string" where
  "shown_out env opts = (if ro_out_dir opts \<noteq> [] then ro_out_dir opts else path_join (rv_session_dir env) ''offline'')"

definition shown_source :: "run_env \<Rightarrow> run_options \<Rightarrow> string" where
  "shown_source env opts =
     (if ro_source_bin opts = [] then path_join (rv_session_dir env) ''source.bin'' else ro_source_bin opts)"

definition and_then :: "string + dir \<Rightarrow> (dir \<Rightarrow> run_outcome option) \<Rightarrow> run_outcome option" where
  "and_then r f = (case r of Inl what \<Rightarrow> Some (Run_throw what) | Inr d \<Rightarrow> f d)"

lemma and_then_simps [simp]: "and_then (Inl what) f = Some (Run_throw what)" "and_then (Inr d) f = f d"
  by (simp_all add: and_then_def)

section \<open>The stages\<close>

definition source_absent :: stream_validation where
  "source_absent = new_stream_validation\<lparr>sv_file_ok := False, sv_file_errors := [''source.bin not found (optional)'']\<rparr>"

definition scan_source_full ::
  "offline_config \<Rightarrow> dir \<Rightarrow> string \<Rightarrow> (stream_validation \<times> decoded_source_streams) option"
where
  "scan_source_full cfg d n = (if fget d n = None then Some (source_absent, new_source_streams) else scan_source cfg d n)"

definition default_range :: time_range where
  "default_range = \<lparr>tr_start_ns = 0, tr_end_ns = 0, tr_stream = Stream_both, tr_reason = []\<rparr>"

definition chosen_range :: "validation_report \<Rightarrow> time_range" where
  "chosen_range val = (case vr_valid_ranges val of [] \<Rightarrow> default_range | r # _ \<Rightarrow> r)"

definition metadata_errors :: "dir \<Rightarrow> string list" where
  "metadata_errors d =
     (case session_bundle_load d of
        Inr _ \<Rightarrow> []
      | Inl e \<Rightarrow> [''metadata: '' @ (case e of Json_error what \<Rightarrow> what | Out_of_fuel \<Rightarrow> [])])"

definition sync_stage ::
  "offline_config \<Rightarrow> string \<Rightarrow> bool \<Rightarrow> string \<Rightarrow> time_range \<Rightarrow> decoded_ego_streams \<Rightarrow> decoded_source_streams \<Rightarrow> sync_report"
where
  "sync_stage cfg now present sid r ego src =
     (if present
      then synchronise cfg now (de_gps ego) (ds_gnss src) (ds_events src) (map ab_ts_ns (de_audio ego)) r sid
      else new_sync_report\<lparr>sr_pipeline_version := oc_pipeline_version cfg, sr_session_id := sid,
        sr_status := Sync_failed, sr_notes := [''source.bin absent -- sync skipped'']\<rparr>)"

definition apply_sync :: "bool \<Rightarrow> sync_report \<Rightarrow> decoded_source_streams \<Rightarrow> decoded_source_streams" where
  "apply_sync present rpt src =
     (if present \<and> sr_offset_ns rpt \<noteq> 0
      then src\<lparr>ds_events := apply_offset_events (sr_offset_ns rpt) (ds_events src),
               ds_gnss := apply_offset_gnss (sr_offset_ns rpt) (ds_gnss src)\<rparr>
      else src)"

text \<open>The measurement file: its printed path, if it was written, and the error, if not.\<close>

definition mdf4_stage ::
  "run_env \<Rightarrow> offline_config \<Rightarrow> run_options \<Rightarrow> aligned_sample list \<Rightarrow> scene_geometry list \<Rightarrow> session_bundle \<Rightarrow> ns_t \<Rightarrow>
     dir \<Rightarrow> string + (string \<times> string list) \<times> dir"
where
  "mdf4_stage env cfg opts aligned geom meta t0 d =
     (if ro_only_scenes opts then Inr (([], []), d)
      else case mdf4_prepare aligned geom (step_metrics_of geom) t0 of
        Inl what \<Rightarrow> Inl what
      | Inr groups \<Rightarrow>
          (let path = out_path opts (oc_output_filename cfg) in
           case write_mdf4 (rv_mdf4 env) path groups meta t0 d of
             (False, d') \<Rightarrow> Inr (([], [''MDF4 write failed'']), d')
           | (True, d') \<Rightarrow>
               Inr ((path_join (shown_out env opts) (oc_output_filename cfg), []),
                 snd (mdf4_validate (rv_mdf4 env) path groups d'))))"

definition scene_stage ::
  "run_env \<Rightarrow> offline_config \<Rightarrow> source_event list \<Rightarrow> scene_geometry list \<Rightarrow> scene_event list \<times> scene_segment list"
where
  "scene_stage env cfg events geom =
     (let (evs, k) = extract_events (rv_rng env) 0 events geom in
      (evs, link_segments evs (build_segments cfg (rv_rng env) k evs geom)))"

definition stage_names :: "string list" where
  "stage_names = [''load_metadata'', ''parse_and_validate_ego'', ''parse_and_validate_source'', ''validation_report'',
     ''sync'', ''align'', ''scene_geometry'', ''mdf4'', ''finalize'', ''reports'']"

definition run_timing_of :: "run_env \<Rightarrow> run_timing" where
  "run_timing_of env =
     \<lparr>ti_total_wall_s = rv_wall env, ti_stages_s = fold (\<lambda>n. map_put n (rv_elapsed env n)) stage_names []\<rparr>"

definition inputs_of :: "run_env \<Rightarrow> run_options \<Rightarrow> input_paths" where
  "inputs_of env opts = \<lparr>ip_session_dir = rv_session_dir env,
     ip_ego_manifest = path_join (rv_session_dir env) ''ego_manifest.json'', ip_source_bin = shown_source env opts,
     ip_config = rv_config_path env\<rparr>"

definition outputs_of :: "run_env \<Rightarrow> run_options \<Rightarrow> string \<Rightarrow> output_paths" where
  "outputs_of env opts mf4 =
     (let shown = path_join (shown_out env opts) in
      \<lparr>op_out_dir = shown_out env opts, op_session_mf4 = mf4, op_validation_report = shown ''validation_report.json'',
       op_sync_report = shown ''sync_report.json'', op_scene_events = shown ''scene_events.json'',
       op_scene_segments = shown ''scene_segments.json''\<rparr>)"

text \<open>The upload and the exit code at the end.\<close>

definition upload_stage :: "run_env \<Rightarrow> offline_config \<Rightarrow> run_options \<Rightarrow> string list \<Rightarrow> dir \<Rightarrow> run_outcome" where
  "upload_stage env cfg opts errors d =
     (let final = (if errors = [] then EC_success else EC_internal_error) in
      if \<not> ro_skip_s3 opts \<and> \<not> ro_only_validate opts \<and> \<not> ro_only_sync opts \<and> \<not> ro_only_mdf4 opts \<and>
         \<not> ro_only_scenes opts \<and> oc_s3_enabled cfg
      then
        let up = upload_session (rv_s3 env) cfg (rv_now env ''upload_report.json'')
              (rv_open env (out_path opts ''upload_manifest.json'')) (rv_open env (out_path opts ''upload_report.json''))
              (base_name (rv_session_dir env)) (out_dir opts) (ro_upload_dry_run opts) d
        in if uo_exit up \<noteq> EC_success \<and> uo_exit up \<noteq> EC_upload_blocked then Run_exit (uo_exit up) (uo_dir up)
           else if uo_exit up = EC_upload_blocked \<and> \<not> ro_upload_dry_run opts
           then Run_exit EC_upload_blocked (uo_dir up)
           else Run_exit final (uo_dir up)
      else Run_exit final d)"

definition report_stage ::
  "run_env \<Rightarrow> offline_config \<Rightarrow> run_options \<Rightarrow> session_bundle \<Rightarrow> validation_report \<Rightarrow> sync_report \<Rightarrow> string \<Rightarrow>
     string list \<Rightarrow> scene_event list \<Rightarrow> scene_segment list \<Rightarrow> dir \<Rightarrow> run_outcome option"
where
  "report_stage env cfg opts meta val syn mf4 errors evs segs d =
     (let sid = mt_session_id (sb_session meta);
          put_report = (\<lambda>what n. write_text_report what (rv_open env (out_path opts n)) (out_path opts n)) in
      and_then (put_report ''session_report'' ''session_report.json''
        (session_report_json (build_session_report cfg (rv_now env ''session_report.json'') val syn meta sid
          (inputs_of env opts) (outputs_of env opts mf4) (run_timing_of env) errors)) d) (\<lambda>d.
      and_then (put_report ''data_quality_report'' ''data_quality_report.json''
        (quality_report_json (build_quality_report cfg (rv_now env ''data_quality_report.json'') val sid)) d) (\<lambda>d.
      and_then (put_report ''events_report'' ''events_report.json''
        (events_report_json (build_events_report cfg (rv_now env ''events_report.json'') evs segs sid)) d) (\<lambda>d.
      Some (upload_stage env cfg opts errors d)))))"

text \<open>The stages from the alignment on.\<close>

definition scene_stages ::
  "run_env \<Rightarrow> offline_config \<Rightarrow> run_options \<Rightarrow> session_bundle \<Rightarrow> validation_report \<Rightarrow> sync_report \<Rightarrow> string list \<Rightarrow>
     decoded_ego_streams \<Rightarrow> decoded_source_streams \<Rightarrow> dir \<Rightarrow> run_outcome option"
where
  "scene_stages env cfg opts meta val syn errors ego src d =
     (let r = chosen_range val; sid = mt_session_id (sb_session meta) in
      Option.bind (grid_build (tr_start_ns r) (tr_end_ns r) (oc_grid_dt_ms cfg)) (\<lambda>grid.
        let aligned = align_samples cfg grid (de_gps ego) (ds_gnss src) (de_imu ego) (de_trajectory ego);
            geom = compute_scene (rv_libm env) None aligned
        in case mdf4_stage env cfg opts aligned geom meta (tr_start_ns r) d of
             Inl what \<Rightarrow> Some (Run_throw what)
           | Inr ((mf4, mf4_errors), d) \<Rightarrow>
               (case scene_stage env cfg (ds_events src) geom of
                  (evs, segs) \<Rightarrow>
                    and_then (write_scene_events cfg (rv_now env ''scene_events.json'')
                      (rv_open env (out_path opts ''scene_events.json'')) (out_path opts ''scene_events.json'') sid evs d) (\<lambda>d.
                    and_then (write_scene_segments cfg (rv_now env ''scene_segments.json'')
                      (rv_open env (out_path opts ''scene_segments.json'')) (out_path opts ''scene_segments.json'') sid segs d) (\<lambda>d.
                    report_stage env cfg opts meta val syn mf4 (errors @ mf4_errors) evs segs d)))))"

definition later_stages ::
  "run_env \<Rightarrow> offline_config \<Rightarrow> run_options \<Rightarrow> session_bundle \<Rightarrow> validation_report \<Rightarrow> bool \<Rightarrow> string list \<Rightarrow>
     decoded_ego_streams \<Rightarrow> decoded_source_streams \<Rightarrow> dir \<Rightarrow> run_outcome option"
where
  "later_stages env cfg opts meta val present errors ego src d =
     (let syn = sync_stage cfg (rv_now env ''sync_report.json'') present (mt_session_id (sb_session meta))
            (chosen_range val) ego src
      in and_then (write_sync_report (rv_open env (out_path opts ''sync_report.json''))
           (out_path opts ''sync_report.json'') syn d) (\<lambda>d.
         if sr_status syn = Sync_failed \<and> oc_fail_on_sync_error cfg then Some (Run_exit EC_sync_error d)
         else if ro_only_sync opts then Some (Run_exit EC_success d)
         else scene_stages env cfg opts meta val syn errors ego (apply_sync present syn src) d))"

definition run_full :: "run_env \<Rightarrow> offline_config \<Rightarrow> run_options \<Rightarrow> dir \<Rightarrow> run_outcome option" where
  "run_full env cfg opts d =
     (let meta = bundle_or_empty d; sid = mt_session_id (sb_session meta); src_bin = source_bin_of opts;
          present = (fget d src_bin \<noteq> None); errors = metadata_errors d
      in case ego_manifest_from_json d ''ego_manifest.json'' of
           Inl _ \<Rightarrow> Some (Run_exit EC_internal_error d)
         | Inr manifest \<Rightarrow>
             (case scan_ego cfg d manifest of
                None \<Rightarrow> Some Run_crash
              | Some (ego_acc, ego) \<Rightarrow>
                  (case scan_source_full cfg d src_bin of
                     None \<Rightarrow> Some Run_crash
                   | Some (src_sv, src) \<Rightarrow>
                       let val = build_report cfg (rv_now env ''validation_report.json'') sid (sa_sv ego_acc) src_sv in
                       and_then (write_report (rv_open env (out_path opts ''validation_report.json''))
                         (out_path opts ''validation_report.json'') val d) (\<lambda>d.
                       if vr_integrity val = Integrity_failed \<and> oc_fail_on_no_valid_ranges cfg
                       then Some (Run_exit EC_validation_error d)
                       else if ro_only_validate opts then Some (Run_exit EC_success d)
                       else later_stages env cfg opts meta val present errors ego src d))))"

text \<open>The dispatcher: only the validation has a run of its own.\<close>

definition run_pipeline :: "run_env \<Rightarrow> offline_config \<Rightarrow> run_options \<Rightarrow> dir \<Rightarrow> run_outcome option" where
  "run_pipeline env cfg opts d =
     (if ro_only_validate opts
      then Some (run_validate cfg (rv_now env ''validation_report.json'')
        (rv_open env (out_path opts ''validation_report.json'')) opts d)
      else run_full env cfg opts d)"

section \<open>What a run writes\<close>

text \<open>A condition on the code and the directory of every run that exits.\<close>

definition on_exit :: "(exit_code \<Rightarrow> dir \<Rightarrow> bool) \<Rightarrow> run_outcome option \<Rightarrow> bool" where
  "on_exit P r = (case r of Some (Run_exit c d) \<Rightarrow> P c d | _ \<Rightarrow> True)"

lemma on_exit_simps [simp]:
  "on_exit P None" "on_exit P (Some Run_crash)" "on_exit P (Some (Run_throw what))"
  "on_exit P (Some (Run_exit c d)) = P c d"
  by (simp_all add: on_exit_def)

lemma on_exit_and_then:
  assumes "\<And>d'. r = Inr d' \<Longrightarrow> on_exit P (f d')"
  shows "on_exit P (and_then r f)"
  using assms by (cases r) simp_all

text \<open>The names the pipeline may write: all in the output directory.\<close>

definition later_names :: "offline_config \<Rightarrow> string list" where
  "later_names cfg =
     [''scene_events.json'', ''scene_segments.json'',
      ''session_report.json'', ''data_quality_report.json'', ''events_report.json'', ''upload_manifest.json'',
      ''upload_report.json'', oc_output_filename cfg, oc_output_filename cfg @ ''.tmp'',
      oc_output_filename cfg @ ''.sha256'']"

definition output_names :: "offline_config \<Rightarrow> string list" where
  "output_names cfg = [''validation_report.json'', ''sync_report.json''] @ later_names cfg"

lemma out_path_append: "out_path opts n @ x = out_path opts (n @ x)"
  by (simp add: out_path_def join_path_def)

lemma out_path_eq [simp]: "out_path opts n = out_path opts m \<longleftrightarrow> n = m"
  by (simp add: out_path_def join_path_def)

lemma later_names_mem [simp]:
  "''scene_events.json'' \<in> set (later_names cfg)" "''scene_segments.json'' \<in> set (later_names cfg)"
  "''session_report.json'' \<in> set (later_names cfg)" "''data_quality_report.json'' \<in> set (later_names cfg)"
  "''events_report.json'' \<in> set (later_names cfg)" "''upload_manifest.json'' \<in> set (later_names cfg)"
  "''upload_report.json'' \<in> set (later_names cfg)" "oc_output_filename cfg \<in> set (later_names cfg)"
  "oc_output_filename cfg @ ''.tmp'' \<in> set (later_names cfg)"
  "oc_output_filename cfg @ ''.sha256'' \<in> set (later_names cfg)"
  by (simp_all add: later_names_def)

text \<open>What the stages do to the directory: they put outputs, and remove the measurement's temporary file. A
  condition that this keeps holds wherever a run exits.\<close>

locale output_stages =
  fixes cfg :: offline_config and opts :: run_options and I :: "dir \<Rightarrow> bool"
  assumes put_output: "I d \<Longrightarrow> n \<in> set (later_names cfg) \<Longrightarrow> I (put (out_path opts n) b d)"
    and remove_tmp: "I d \<Longrightarrow> I (remove_file (out_path opts (oc_output_filename cfg @ ''.tmp'')) d)"
begin

lemma step:
  assumes "I d" "\<And>d'. r = Inr d' \<Longrightarrow> I d \<Longrightarrow> I d'" "\<And>d'. r = Inr d' \<Longrightarrow> I d' \<Longrightarrow> on_exit P (f d')"
  shows "on_exit P (and_then r f)"
  using assms by (cases r) simp_all

lemma writes:
  assumes "I d" "n \<in> set (later_names cfg)"
  shows "write_text_report what ok (out_path opts n) t d = Inr d' \<Longrightarrow> I d'"
    "write_scene_events cf now ok (out_path opts n) sid evs d = Inr d' \<Longrightarrow> I d'"
    "write_scene_segments cf now ok (out_path opts n) sid segs d = Inr d' \<Longrightarrow> I d'"
    "I (write_upload_report ok (out_path opts n) up d)"
  using put_output [OF assms] assms(1)
  by (auto simp: write_text_report_def write_scene_events_def write_scene_segments_def write_upload_report_def
    split: if_splits)

lemma upload:
  assumes "I d"
  shows "I (uo_dir (upload_session env cf now mok rok name (out_dir opts) dry d))"
  using assms
  by (auto simp: upload_session_def Let_def simp flip: out_path_def split: option.splits prod.splits
    intro!: writes(4))

lemma upload_stage: "I d \<Longrightarrow> on_exit (\<lambda>_. I) (Some (upload_stage env cf opts errors d))"
  by (simp add: upload_stage_def Let_def upload)

lemma report_stage:
  assumes "I d"
  shows "on_exit (\<lambda>_. I) (report_stage env cf opts meta val syn mf4 errors evs segs d)"
  unfolding report_stage_def Let_def
  by (rule step [OF assms], erule writes(1) [rotated 2], simp_all,
    rule step, assumption, erule writes(1) [rotated 2], simp_all,
    rule step, assumption, erule writes(1) [rotated 2], simp_all add: upload_stage)

lemma measurement:
  assumes "I d" and "mdf4_stage env cfg opts aligned geom meta t0 d = Inr (r, d')"
  shows "I d'"
proof (cases "ro_only_scenes opts")
  case True
  then show ?thesis using assms by (auto simp: mdf4_stage_def)
next
  case False
  let ?n = "out_path opts (oc_output_filename cfg)"
  obtain groups where g: "mdf4_prepare aligned geom (step_metrics_of geom) t0 = Inr groups"
    using assms False by (auto simp: mdf4_stage_def split: sum.splits)
  obtain ok d1 where w: "write_mdf4 (rv_mdf4 env) ?n groups meta t0 d = (ok, d1)" by (rule prod.exhaust)
  have "I d1" using assms(1) w
    by (auto simp: write_mdf4_def Let_def out_path_append put_output remove_tmp split: if_splits option.splits)
  moreover have "I d1 \<Longrightarrow> I (snd (mdf4_validate (rv_mdf4 env) ?n groups d1))"
    by (simp add: mdf4_validate_def write_sha256_sidecar_def Let_def out_path_append put_output)
  ultimately show ?thesis using assms(2) False g w
    by (cases ok) (auto simp: mdf4_stage_def Let_def)
qed

lemma scenes:
  assumes "I d"
  shows "on_exit (\<lambda>_. I) (scene_stages env cfg opts meta val syn errors ego src d)"
proof (cases "grid_build (tr_start_ns (chosen_range val)) (tr_end_ns (chosen_range val)) (oc_grid_dt_ms cfg)")
  case None
  then show ?thesis by (simp add: scene_stages_def Let_def)
next
  case (Some grid)
  define aligned where "aligned = align_samples cfg grid (de_gps ego) (ds_gnss src) (de_imu ego) (de_trajectory ego)"
  define geom where "geom = compute_scene (rv_libm env) None aligned"
  obtain evs segs where sc: "scene_stage env cfg (ds_events src) geom = (evs, segs)" by (rule prod.exhaust)
  show ?thesis
  proof (cases "mdf4_stage env cfg opts aligned geom meta (tr_start_ns (chosen_range val)) d")
    case (Inl what)
    then show ?thesis by (simp add: scene_stages_def Let_def Some aligned_def geom_def)
  next
    case (Inr r)
    obtain mf4 es d1 where r: "r = ((mf4, es), d1)" by (metis prod.exhaust)
    have d1: "I d1" by (rule measurement [OF assms Inr [unfolded r]])
    have "on_exit (\<lambda>_. I)
        (and_then (write_scene_events cfg (rv_now env ''scene_events.json'')
            (rv_open env (out_path opts ''scene_events.json'')) (out_path opts ''scene_events.json'')
            (mt_session_id (sb_session meta)) evs d1) (\<lambda>d.
          and_then (write_scene_segments cfg (rv_now env ''scene_segments.json'')
            (rv_open env (out_path opts ''scene_segments.json'')) (out_path opts ''scene_segments.json'')
            (mt_session_id (sb_session meta)) segs d) (\<lambda>d.
          report_stage env cfg opts meta val syn mf4 (errors @ es) evs segs d)))"
      by (rule step [OF d1], erule writes(2) [rotated 2], simp_all,
        rule step, assumption, erule writes(3) [rotated 2], simp_all add: report_stage)
    then show ?thesis
      using Inr sc by (simp add: scene_stages_def Let_def Some r aligned_def geom_def)
  qed
qed

end

text \<open>With the two reports before those stages, a condition of the whole run.\<close>

locale whole_run = output_stages +
  assumes put_report: "I d \<Longrightarrow> n = ''validation_report.json'' \<or> n = ''sync_report.json'' \<Longrightarrow> I (put (out_path opts n) b d)"
begin

lemma first_writes:
  assumes "I d"
  shows "write_report ok (out_path opts ''validation_report.json'') rpt d = Inr d' \<Longrightarrow> I d'"
    "write_sync_report ok (out_path opts ''sync_report.json'') syn d = Inr d' \<Longrightarrow> I d'"
  using put_report [OF assms] by (auto simp: write_report_def write_sync_report_def split: if_splits)

lemma full_run:
  assumes "I d"
  shows "on_exit (\<lambda>_. I) (run_full env cfg opts d)"
proof (cases "ego_manifest_from_json d ''ego_manifest.json''")
  case (Inl e)
  then show ?thesis using assms by (simp add: run_full_def Let_def)
next
  case (Inr m)
  have "on_exit (\<lambda>_. I) (and_then (write_report ok (out_path opts ''validation_report.json'') val d) (\<lambda>d.
      if b then Some (Run_exit EC_validation_error d)
      else if ro_only_validate opts then Some (Run_exit EC_success d)
      else and_then (write_sync_report ok' (out_path opts ''sync_report.json'') syn d) (\<lambda>d.
        if b' then Some (Run_exit EC_sync_error d)
        else if ro_only_sync opts then Some (Run_exit EC_success d)
        else scene_stages env cfg opts meta val syn errors ego src d)))"
    for ok ok' val syn b b' meta errors ego src
    by (rule step [OF assms], erule first_writes(1) [rotated], simp_all,
      intro impI, rule step, assumption, erule first_writes(2) [rotated], simp_all add: scenes)
  then show ?thesis unfolding run_full_def later_stages_def Let_def Inr by (simp split: option.split prod.split)
qed

end

text \<open>Two such conditions: that nothing but outputs differs from the start, and that some files are there, unless
  they have the temporary one's name.\<close>

definition there :: "offline_config \<Rightarrow> run_options \<Rightarrow> string list \<Rightarrow> dir \<Rightarrow> bool" where
  "there cfg opts ns d \<longleftrightarrow>
     list_all (\<lambda>n. n = oc_output_filename cfg @ ''.tmp'' \<or> fget d (out_path opts n) \<noteq> None) ns"

interpretation tidy: whole_run cfg opts
    "\<lambda>d'. {n. fget d' n \<noteq> fget d n} \<subseteq> set (map (out_path opts) (output_names cfg))" for cfg opts d
  by unfold_locales (auto simp: output_names_def)

interpretation present: whole_run cfg opts "there cfg opts ns" for cfg opts ns
  by unfold_locales (auto simp: there_def list_all_iff)


section \<open>What success means\<close>

text \<open>How an exit is reached, stage by stage.\<close>

lemma reports_exit:
  assumes "\<And>b1 b2 b3. on_exit P (Some (upload_stage env cfg opts errors (put (out_path opts ''events_report.json'') b3
      (put (out_path opts ''data_quality_report.json'') b2 (put (out_path opts ''session_report.json'') b1 d)))))"
  shows "on_exit P (report_stage env cfg opts meta val syn mf4 errors evs segs d)"
  using assms by (simp add: report_stage_def Let_def write_text_report_def)

lemma scenes_exit:
  assumes "\<And>aligned geom mf4 es d1 evs segs b1 b2.
      mdf4_stage env cfg opts aligned geom meta (tr_start_ns (chosen_range val)) d = Inr ((mf4, es), d1) \<Longrightarrow>
      on_exit P (report_stage env cfg opts meta val syn mf4 (errors @ es) evs segs
        (put (out_path opts ''scene_segments.json'') b2 (put (out_path opts ''scene_events.json'') b1 d1)))"
  shows "on_exit P (scene_stages env cfg opts meta val syn errors ego src d)"
  using assms
  by (cases "grid_build (tr_start_ns (chosen_range val)) (tr_end_ns (chosen_range val)) (oc_grid_dt_ms cfg)")
    (simp_all add: scene_stages_def Let_def write_scene_events_def write_scene_segments_def
      split: sum.split prod.split)

lemma full_exit:
  assumes "P EC_internal_error d" "\<And>d'. P EC_validation_error d'" "\<And>d'. P EC_sync_error d'"
    and "\<And>b. ro_only_validate opts \<Longrightarrow> P EC_success (put (out_path opts ''validation_report.json'') b d)"
    and "\<And>b b'. ro_only_sync opts \<Longrightarrow>
      P EC_success (put (out_path opts ''sync_report.json'') b' (put (out_path opts ''validation_report.json'') b d))"
    and "\<And>val syn ego src b b'. on_exit P (scene_stages env cfg opts (bundle_or_empty d) val syn (metadata_errors d) ego src
      (put (out_path opts ''sync_report.json'') b' (put (out_path opts ''validation_report.json'') b d)))"
  shows "on_exit P (run_full env cfg opts d)"
  using assms unfolding run_full_def later_stages_def Let_def
  by (simp add: write_report_def write_sync_report_def split: sum.split option.split prod.split)

lemma not_tmp: "last n \<noteq> CHR ''p'' \<Longrightarrow> n \<noteq> f @ ''.tmp''"
  by auto

lemma measurement_written:
  assumes "mdf4_stage env cfg opts aligned geom meta t0 d = Inr ((mf4, []), d')" "\<not> ro_only_scenes opts"
  shows "fget d' (out_path opts (oc_output_filename cfg)) \<noteq> None"
proof -
  let ?n = "out_path opts (oc_output_filename cfg)"
  obtain groups where g: "mdf4_prepare aligned geom (step_metrics_of geom) t0 = Inr groups"
    using assms by (auto simp: mdf4_stage_def split: sum.splits)
  obtain ok d1 where w: "write_mdf4 (rv_mdf4 env) ?n groups meta t0 d = (ok, d1)" by (rule prod.exhaust)
  have ok: "ok" "d' = snd (mdf4_validate (rv_mdf4 env) ?n groups d1)"
    using assms g w by (cases ok; simp add: mdf4_stage_def Let_def)+
  have "fget d1 ?n \<noteq> None"
    using w ok(1) by (auto simp: write_mdf4_def Let_def split: if_splits option.splits)
  then show ?thesis
    by (simp add: ok(2) mdf4_validate_def write_sha256_sidecar_def Let_def)
qed

lemma on_exit_mono: "on_exit P r \<Longrightarrow> (\<And>c d. P c d \<Longrightarrow> Q c d) \<Longrightarrow> on_exit Q r"
  by (auto simp: on_exit_def split: option.splits run_outcome.splits)

lemma on_exit_conj: "on_exit (\<lambda>c d. P c d \<and> Q c d) r \<longleftrightarrow> on_exit P r \<and> on_exit Q r"
  by (auto simp: on_exit_def split: option.splits run_outcome.splits)

lemma there_put: "there cfg opts ns d \<Longrightarrow> there cfg opts (n # ns) (put (out_path opts n) b d)"
  by (auto simp: there_def list_all_iff)

lemma there_Nil: "there cfg opts [] d"
  by (simp add: there_def)

lemma there_append: "there cfg opts (xs @ ys) d \<longleftrightarrow> there cfg opts xs d \<and> there cfg opts ys d"
  by (simp add: there_def)

definition expected_outputs :: "offline_config \<Rightarrow> run_options \<Rightarrow> string list" where
  "expected_outputs cfg opts =
     ''validation_report.json'' #
     (if ro_only_validate opts then []
      else ''sync_report.json'' #
        (if ro_only_sync opts then []
         else [''scene_events.json'', ''scene_segments.json'', ''session_report.json'', ''data_quality_report.json'',
           ''events_report.json''] @ (if ro_only_scenes opts then [] else [oc_output_filename cfg])))"

lemma expected_there:
  "there cfg opts (expected_outputs cfg opts) d \<longleftrightarrow>
     list_all (\<lambda>n. fget d (out_path opts n) \<noteq> None) (expected_outputs cfg opts)"
  by (auto simp: there_def expected_outputs_def not_tmp)

definition complete_run :: "offline_config \<Rightarrow> run_options \<Rightarrow> string list \<Rightarrow> exit_code \<Rightarrow> dir \<Rightarrow> bool" where
  "complete_run cfg opts errors c d \<longleftrightarrow>
     (c = EC_success \<longrightarrow> there cfg opts (expected_outputs cfg opts) d \<and>
        (ro_only_validate opts \<or> ro_only_sync opts \<or> errors = []))"

lemma reports_complete:
  assumes "there cfg opts ns d"
  shows "on_exit (\<lambda>c d'. c = EC_success \<longrightarrow> errors = [] \<and>
      there cfg opts (''events_report.json'' # ''data_quality_report.json'' # ''session_report.json'' # ns) d')
    (report_stage env cfg opts meta val syn mf4 errors evs segs d)"
proof (rule reports_exit)
  fix b1 b2 b3
  let ?d = "put (out_path opts ''events_report.json'') b3
      (put (out_path opts ''data_quality_report.json'') b2 (put (out_path opts ''session_report.json'') b1 d))"
  let ?ns = "''events_report.json'' # ''data_quality_report.json'' # ''session_report.json'' # ns"
  have "on_exit (\<lambda>_. there cfg opts ?ns) (Some (upload_stage env cfg opts errors ?d))"
    by (intro present.upload_stage there_put assms)
  moreover have "on_exit (\<lambda>c _. c = EC_success \<longrightarrow> errors = []) (Some (upload_stage env cfg opts errors ?d))"
    by (simp add: upload_stage_def Let_def)
  ultimately show "on_exit (\<lambda>c d'. c = EC_success \<longrightarrow> errors = [] \<and> there cfg opts ?ns d')
      (Some (upload_stage env cfg opts errors ?d))"
    by (auto simp: on_exit_def split: run_outcome.splits)
qed

lemma scenes_complete:
  assumes "there cfg opts [''sync_report.json'', ''validation_report.json''] d"
  shows "on_exit (complete_run cfg opts errors) (scene_stages env cfg opts meta val syn errors ego src d)"
proof (rule scenes_exit)
  fix aligned geom mf4 es d1 evs segs b1 b2
  assume m: "mdf4_stage env cfg opts aligned geom meta (tr_start_ns (chosen_range val)) d = Inr ((mf4, es), d1)"
  let ?d = "put (out_path opts ''scene_segments.json'') b2 (put (out_path opts ''scene_events.json'') b1 d1)"
  let ?mf = "if es = [] \<and> \<not> ro_only_scenes opts then [oc_output_filename cfg] else []"
  have "there cfg opts [''sync_report.json'', ''validation_report.json''] d1"
    by (rule present.measurement [OF assms m])
  moreover have "there cfg opts ?mf d1"
    using measurement_written [of env cfg opts aligned geom meta "tr_start_ns (chosen_range val)" d mf4 d1] m
    by (auto simp: there_def)
  ultimately have "there cfg opts (?mf @ [''sync_report.json'', ''validation_report.json'']) d1"
    by (simp add: there_append)
  from reports_complete [OF there_put [OF there_put [OF this]]]
  show "on_exit (complete_run cfg opts errors)
      (report_stage env cfg opts meta val syn mf4 (errors @ es) evs segs ?d)"
    by (rule on_exit_mono)
      (auto simp: complete_run_def expected_outputs_def there_def split: if_splits)
qed

text \<open>C14: Success is complete: a full run that ends with exit code 0 has written every file its mode asks for -- the
  validation report, then the synchronisation report, then the scene files and the three reports, and the
  measurement file unless only scenes were asked for -- and, if it went past synchronisation, had read the
  session's metadata.\<close>

theorem success_is_complete:
  "case run_full env cfg opts d of
     Some (Run_exit EC_success d') \<Rightarrow>
       list_all (\<lambda>n. fget d' (out_path opts n) \<noteq> None) (expected_outputs cfg opts) \<and>
       (ro_only_validate opts \<or> ro_only_sync opts \<or> metadata_errors d = [])
   | _ \<Rightarrow> True"
proof -
  have "on_exit (complete_run cfg opts (metadata_errors d)) (run_full env cfg opts d)"
    by (rule full_exit)
      (simp_all add: complete_run_def scenes_complete there_put there_Nil,
        simp_all add: there_def expected_outputs_def)
  then show ?thesis
    by (auto simp: on_exit_def complete_run_def expected_there split: option.splits run_outcome.splits exit_code.splits)
qed

section \<open>Validation in the full run\<close>

definition report_kept :: "offline_config \<Rightarrow> run_options \<Rightarrow> bytes option \<Rightarrow> dir \<Rightarrow> bool" where
  "report_kept cfg opts r d \<longleftrightarrow>
     fget d (out_path opts ''validation_report.json'') = r \<or> oc_output_filename cfg = ''validation_report.json''"

interpretation kept: output_stages cfg opts "report_kept cfg opts r" for cfg opts r
  by unfold_locales (auto simp: report_kept_def later_names_def not_tmp)

lemma upload_exit_codes:
  "uo_exit (upload_session env cfg now mok rok name out dry d) \<in> {EC_success, EC_upload_blocked, EC_upload_failed}"
  by (simp add: upload_session_def Let_def split: option.split prod.split)

lemma upload_stage_code: "on_exit (\<lambda>c _. c \<noteq> EC_validation_error) (Some (upload_stage env cfg opts errors d))"
proof -
  have "uo_exit (upload_session env' cfg now mok rok name out dry d) \<noteq> EC_validation_error"
    for env' now mok rok name out dry
    using upload_exit_codes [of env' cfg now mok rok name out dry d] by auto
  then show ?thesis by (simp add: upload_stage_def Let_def)
qed

lemma scenes_code: "on_exit (\<lambda>c _. c \<noteq> EC_validation_error) (scene_stages env cfg opts meta val syn errors ego src d)"
  by (intro scenes_exit reports_exit upload_stage_code)

definition same_validation :: "offline_config \<Rightarrow> run_options \<Rightarrow> run_outcome \<Rightarrow> run_outcome \<Rightarrow> bool" where
  "same_validation cfg opts v r =
     (case v of
        Run_crash \<Rightarrow> r = Run_crash
      | Run_throw what \<Rightarrow> r = Run_throw what
      | Run_exit c d \<Rightarrow>
          (case r of
             Run_crash \<Rightarrow> False
           | Run_throw _ \<Rightarrow> True
           | Run_exit c' d' \<Rightarrow>
               (c' = EC_validation_error \<longleftrightarrow> c = EC_validation_error) \<and>
               report_kept cfg opts (fget d (out_path opts ''validation_report.json'')) d'))"

lemma and_then_no_crash: "(\<And>d. f d \<noteq> Some Run_crash) \<Longrightarrow> and_then r f \<noteq> Some Run_crash"
  by (cases r) simp_all

lemma upload_no_crash: "upload_stage env cfg opts errors d \<noteq> Run_crash"
  by (simp add: upload_stage_def Let_def)

lemma reports_no_crash: "report_stage env cfg opts meta val syn mf4 errors evs segs d \<noteq> Some Run_crash"
  unfolding report_stage_def Let_def by (intro and_then_no_crash) (simp add: upload_no_crash)

lemma scenes_no_crash: "scene_stages env cfg opts meta val syn errors ego src d \<noteq> Some Run_crash"
proof (cases "grid_build (tr_start_ns (chosen_range val)) (tr_end_ns (chosen_range val)) (oc_grid_dt_ms cfg)")
  case None
  then show ?thesis by (simp add: scene_stages_def Let_def)
next
  case (Some grid)
  show ?thesis unfolding scene_stages_def Let_def Some Option.bind.bind_lunit
    by (simp split: sum.split prod.split add: and_then_no_crash reports_no_crash del: not_Some_eq)
qed

lemma later_kept:
  assumes "report_kept cfg opts r d"
  shows "on_exit (\<lambda>c d'. c \<noteq> EC_validation_error \<and> report_kept cfg opts r d')
    (later_stages env cfg opts meta val present errors ego src d)"
    "later_stages env cfg opts meta val present errors ego src d \<noteq> Some Run_crash"
proof -
  have put: "report_kept cfg opts r (put (out_path opts ''sync_report.json'') b d)" for b
    using assms by (simp add: report_kept_def)
  show "on_exit (\<lambda>c d'. c \<noteq> EC_validation_error \<and> report_kept cfg opts r d')
    (later_stages env cfg opts meta val present errors ego src d)"
    by (simp add: on_exit_conj later_stages_def Let_def write_sync_report_def scenes_code kept.scenes put)
  show "later_stages env cfg opts meta val present errors ego src d \<noteq> Some Run_crash"
    by (simp add: later_stages_def Let_def write_sync_report_def scenes_no_crash del: not_Some_eq)
qed

text \<open>C16: The full run validates as the validation run does: with a source file it crashes exactly where that run
  crashes, and fails to write where that one fails; if both exit, both or neither end with the validation exit
  code, and the validation report they leave is the same (unless the measurement file is given its name). Only
  an unreadable manifest is told apart: exit code 3 from the full run, 1 from the validation.\<close>

theorem full_run_validates_alike:
  "case (ego_manifest_from_json d ''ego_manifest.json'', fget d (source_bin_of opts), run_full env cfg opts d) of
     (Inr _, Some _, Some outcome) \<Rightarrow>
       same_validation cfg opts (run_validate cfg (rv_now env ''validation_report.json'')
         (rv_open env (out_path opts ''validation_report.json'')) opts d) outcome
   | (Inr _, _, _) \<Rightarrow> True
   | (Inl _, _, outcome) \<Rightarrow>
       outcome = Some (Run_exit EC_internal_error d) \<and>
       run_validate cfg (rv_now env ''validation_report.json'')
         (rv_open env (out_path opts ''validation_report.json'')) opts d = Run_exit EC_validation_error d"
proof (cases "ego_manifest_from_json d ''ego_manifest.json''")
  case (Inl e)
  then show ?thesis by (simp add: run_full_def run_validate_def Let_def)
next
  case (Inr m)
  let ?now = "rv_now env ''validation_report.json''" and ?n = "out_path opts ''validation_report.json''"
  show ?thesis
  proof (cases "fget d (source_bin_of opts)")
    case None
    then show ?thesis by (simp add: Inr)
  next
    case src: (Some bs)
    have full: "scan_source_full cfg d (source_bin_of opts) = scan_source cfg d (source_bin_of opts)"
      by (simp add: scan_source_full_def src)
    obtain sv streams where ss: "scan_source cfg d (source_bin_of opts) = Some (sv, streams)"
      using scan_source_total by blast
    show ?thesis
    proof (cases "scan_ego cfg d m")
      case None
      then show ?thesis by (simp add: run_full_def run_validate_def Let_def Inr src same_validation_def)
    next
      case (Some r)
      obtain acc ego where r: "r = (acc, ego)" by (rule prod.exhaust)
      define val where "val = build_report cfg ?now (mt_session_id (sb_session (bundle_or_empty d))) (sa_sv acc) sv"
      define d1 where "d1 = put ?n (text_bytes (report_json val @ [CHR 0x0A])) d"
      define later where "later =
        later_stages env cfg opts (bundle_or_empty d) val True (metadata_errors d) ego streams d1"
      have k: "report_kept cfg opts (fget d1 ?n) d1" by (simp add: report_kept_def)
      have v: "run_validate cfg ?now (rv_open env ?n) opts d =
          (if \<not> rv_open env ?n then Run_throw (''Cannot write: '' @ ?n)
           else Run_exit (if vr_integrity val = Integrity_failed \<and> oc_fail_on_no_valid_ranges cfg
             then EC_validation_error else EC_success) d1)"
        by (simp add: run_validate_def Let_def Inr Some r ss write_report_def val_def d1_def flip: out_path_def)
      have f: "run_full env cfg opts d =
          (if \<not> rv_open env ?n then Some (Run_throw (''Cannot write: '' @ ?n))
           else if vr_integrity val = Integrity_failed \<and> oc_fail_on_no_valid_ranges cfg
           then Some (Run_exit EC_validation_error d1)
           else if ro_only_validate opts then Some (Run_exit EC_success d1) else later)"
        by (simp add: run_full_def Let_def Inr Some r ss full src write_report_def val_def d1_def later_def)
      have "same_validation cfg opts (run_validate cfg ?now (rv_open env ?n) opts d) outcome"
        if "run_full env cfg opts d = Some outcome" for outcome
        using that k later_kept [OF k, of env "bundle_or_empty d" val True "metadata_errors d" ego streams]
        unfolding v f later_def [symmetric]
        by (auto simp: same_validation_def split: if_splits run_outcome.splits)
      then show ?thesis by (simp add: Inr src split: option.split)
    qed
  qed
qed

section \<open>The run ends\<close>

lemma scan_source_full_errors:
  assumes "scan_source_full cfg d n = Some (sv, streams)" "t \<in> set (error_times sv)"
  shows "sint t \<le> sint (sv_t_last_ns sv)"
  using assms source_errors_inside [of cfg d n sv streams t]
  by (auto simp: scan_source_full_def source_absent_def new_stream_validation_def error_times_def split: if_splits)

lemma scanned_last_bound:
  assumes "scan_ego cfg d m = Some (acc, streams)" "0 \<le> b"
    and "\<forall>p \<in> set (session_packets d (new_ego_reader d m)). sint (ph_ts_ns (rp_header p)) \<le> b"
  shows "sint (sv_t_last_ns (sa_sv acc)) \<le> b"
proof -
  let ?ps = "good_packets (checked (session_packets d (new_ego_reader d m)))"
  note S = scanned_all [OF scan_ego_statistics [OF assms(1)]]
  have t: "\<forall>t \<in> set (packet_times ?ps). sint t \<le> b"
    using assms(3) by (auto simp: good_packets_def packet_times_def)
  show ?thesis
  proof (cases "?ps = []")
    case True
    then show ?thesis using S assms(2) by (simp add: scanned_def Let_def time_span_def)
  next
    case False
    then have "sint (sv_t_last_ns (sa_sv acc)) = Max (insert 0 (sint ` set (packet_times ?ps)))"
      using S by (simp add: scanned_def Let_def)
    then show ?thesis using t assms(2) by (auto simp: packet_times_def)
  qed
qed

text \<open>The chosen range ends no later than the last packet, so the step after it is still a time.\<close>

lemma chosen_range_bound:
  assumes "scan_ego cfg d m = Some (acc, streams)" "scan_source_full cfg d n = Some (src, ss)"
    and "less64 (f64_of_int 0) (oc_min_valid_duration_s cfg)" "0 \<le> b"
    and "\<forall>p \<in> set (session_packets d (new_ego_reader d m)). sint (ph_ts_ns (rp_header p)) \<le> b"
  shows "sint (tr_end_ns (chosen_range (build_report cfg now sid (sa_sv acc) src))) \<le> b"
proof (cases "extract_valid_ranges cfg (sa_sv acc) src")
  case Nil
  then show ?thesis using assms(4) by (simp add: chosen_range_def build_report_def Let_def default_range_def)
next
  case (Cons r rs)
  have "\<forall>t \<in> set (error_times (sa_sv acc)). sint t \<le> sint (sv_t_last_ns (sa_sv acc))"
    using scanned_errors_inside [OF scan_ego_statistics [OF assms(1)]] by blast
  moreover have "\<forall>t \<in> set (error_times src). sint t \<le> sint (sv_t_last_ns src)"
    using scan_source_full_errors [OF assms(2)] by blast
  ultimately have "inside (sa_sv acc) r"
    using extract_ranges_sound [OF _ _ assms(3), of "sa_sv acc" src] by (simp add: Cons)
  then show ?thesis using scanned_last_bound [OF assms(1,4,5)]
    by (simp add: chosen_range_def build_report_def Let_def Cons inside_def)
qed

lemma grid_ends:
  assumes "0 < sint dt_ms" "sint t1 + sint dt_ms * 10 ^ 6 < 2 ^ 63"
  shows "grid_build t0 t1 dt_ms \<noteq> None"
proof -
  let ?dt = "sint dt_ms * 10 ^ 6"
  let ?k = "(sint t1 - sint t0) div ?dt"
  have "?k * ?dt = (sint t1 - sint t0) - (sint t1 - sint t0) mod ?dt" by (simp only: minus_mod_eq_div_mult)
  then have "?k * ?dt \<le> sint t1 - sint t0" using assms(1) by simp
  then have "sint t0 + (?k + 1) * ?dt < 2 ^ 63" using assms(2) by (simp add: algebra_simps)
  then have "map_option tg_ticks (grid_build t0 t1 dt_ms) \<noteq> None"
    unfolding time_grid_ticks using assms(1) by simp
  then show ?thesis by (cases "grid_build t0 t1 dt_ms") simp_all
qed

lemma reports_end: "report_stage env cfg opts meta val syn mf4 errors evs segs d \<noteq> None"
  by (simp add: report_stage_def Let_def write_text_report_def)

lemma and_then_end: "(\<And>d. f d \<noteq> None) \<Longrightarrow> and_then r f \<noteq> None"
  by (cases r) simp_all

lemma later_end:
  assumes "grid_build (tr_start_ns (chosen_range val)) (tr_end_ns (chosen_range val)) (oc_grid_dt_ms cfg) \<noteq> None"
  shows "later_stages env cfg opts meta val present errors ego src d \<noteq> None"
proof -
  obtain grid where g: "grid_build (tr_start_ns (chosen_range val)) (tr_end_ns (chosen_range val)) (oc_grid_dt_ms cfg) = Some grid"
    using assms by blast
  have "scene_stages env cfg opts meta val syn errors ego src' d' \<noteq> None" for syn src' d'
    unfolding scene_stages_def Let_def g Option.bind.bind_lunit
    by (simp del: not_None_eq add: and_then_end reports_end split: sum.split prod.split)
  then show ?thesis unfolding later_stages_def Let_def by (intro and_then_end) (simp del: not_None_eq)
qed



section \<open>The source's events on the master clock\<close>

definition unset_events :: "decoded_source_streams \<Rightarrow> bool" where
  "unset_events s \<longleftrightarrow> (\<forall>e \<in> set (ds_events s). sv_ts_ego_ns e = 0)"

lemma source_demux_unset:
  assumes "source_demux ty ts p sz s = Some (ok, s')" "unset_events s"
  shows "unset_events s'"
  using assms
  by (auto simp: source_demux_def unset_events_def demux_event_def demux_gnss_def demux_rtk_def
    demux_scenario_meta_def demux_diagnostics_def Let_def bind_eq_Some_conv split: if_splits)

lemma scanned_events_unset:
  assumes "scan_source_full cfg d n = Some (sv, streams)"
  shows "unset_events streams"
proof (cases "fget d n = None")
  case True
  then show ?thesis using assms by (auto simp: scan_source_full_def unset_events_def new_source_streams_def)
next
  case False
  then obtain acc where sc: "source_scan d (\<lambda>raw s. (True, Option.bind s (source_packet raw))) (single_file_manifest n)
      (Some (new_accumulator (Some cfg) True, new_source_streams)) = Some (acc, streams)"
    using assms by (auto simp: scan_source_full_def scan_source_def)
  have start: "unset_events new_source_streams" by (simp add: unset_events_def new_source_streams_def)
  have "(\<lambda>_ (_, s). unset_events s) (source_packets d (single_file_manifest n)) (acc, streams)"
    by (rule source_reader.scan_inv [OF sc])
      (auto simp: source_packet_def start Let_def split: bind_splits if_splits option.splits dest: source_demux_unset)
  then show ?thesis by simp
qed

text \<open>C23: The times of the source's events on the recording's clock, as the scene stages use them: each is its time on
  the source's clock less the offset that synchronisation found -- except for an offset of exactly 0, the
  case of two clocks that agree: then the correction is skipped and every event is at time 0.\<close>

theorem events_on_master_clock:
  "case scan_source_full cfg d n of
     None \<Rightarrow> False
   | Some (sv, src) \<Rightarrow>
       map sv_ts_ego_ns (ds_events (apply_sync present syn src)) =
       (if present \<and> sr_offset_ns syn \<noteq> 0 then map (\<lambda>e. sv_ts_ns e - sr_offset_ns syn) (ds_events src)
        else replicate (length (ds_events src)) 0)"
proof (cases "scan_source_full cfg d n")
  case None
  then show ?thesis using scan_source_total [of cfg d n] by (auto simp: scan_source_full_def split: if_splits)
next
  case (Some r)
  obtain sv src where r: "r = (sv, src)" by (rule prod.exhaust)
  have "\<forall>e \<in> set (ds_events src). sv_ts_ego_ns e = 0"
    using scanned_events_unset [OF Some [unfolded r]] by (simp add: unset_events_def)
  then have "map sv_ts_ego_ns (ds_events src) = replicate (length (ds_events src)) 0"
    by (simp add: map_replicate_const [symmetric])
  then show ?thesis by (simp add: Some r apply_sync_def apply_offset_events_def comp_def)
qed

end
