(* ===== verification/OfflineMain.thy ===== *)
theory OfflineMain
  imports FullPipeline OfflineConfig
begin

text \<open>
  The command line of the offline program, \<open>offline/src/main.cpp\<close>: options, configuration files, commands and
  exit codes. The environment says which paths exist, what the configuration files hold and what the
  environment variables are; the files of the session are the directory. What is printed is not modelled. An
  exception of a run is not caught: it ends the process, as \<open>Main_terminate\<close>.
\<close>

section \<open>Options\<close>

text \<open>The value after the first occurrence of a flag that has one after it.\<close>

fun get_opt :: "string list \<Rightarrow> string \<Rightarrow> string" where
  "get_opt (a # v # args) flag = (if a = flag then v else get_opt (v # args) flag)"
| "get_opt args flag = []"

definition has_flag :: "string list \<Rightarrow> string \<Rightarrow> bool" where
  "has_flag args flag \<longleftrightarrow> flag \<in> set args"

definition options_of :: "string list \<Rightarrow> run_options" where
  "options_of args =
     (let opts = default_run_options\<lparr>ro_source_bin := get_opt args ''--source-bin'', ro_out_dir := get_opt args ''--out'',
            ro_skip_s3 := has_flag args ''--skip-s3'', ro_upload_dry_run := has_flag args ''--dry-run''\<rparr>;
          only = get_opt args ''--only''
      in if only = [] then opts
         else opts\<lparr>ro_only_validate := (only = ''validate''), ro_only_sync := (only = ''sync''),
                ro_only_mdf4 := (only = ''mdf4''), ro_only_scenes := (only = ''scenes'')\<rparr>)"

section \<open>Configuration\<close>

record main_env =
  me_exists :: "string \<Rightarrow> bool"
  me_file :: "string \<Rightarrow> bytes option"
  me_stod :: "string \<Rightarrow> string + f64"
  me_getenv :: "string \<Rightarrow> string option"
  me_run :: run_env

text \<open>\<open>path::parent_path\<close> of a relative or absolute path.\<close>

definition parent_path :: "string \<Rightarrow> string" where
  "parent_path p =
     (let pre = dropWhile (\<lambda>c. c \<noteq> CHR ''/'') (rev p); stem = dropWhile (\<lambda>c. c = CHR ''/'') pre
      in if pre = [] then [] else if stem = [] then ''/'' else rev stem)"

text \<open>The configuration: the file given, then the S3 settings given or else those beside it, then those in
  \<open>config/\<close> of the working directory unless S3 settings were given.\<close>

definition load_config :: "main_env \<Rightarrow> string \<Rightarrow> string \<Rightarrow> offline_config" where
  "load_config env config_path s3_path =
     (let read = (\<lambda>cfg p. merge_yaml (me_stod env) (me_getenv env) cfg (me_file env p));
          cfg = (if config_path = [] then offline_defaults
                 else from_yaml (me_stod env) (me_getenv env) (me_file env config_path));
          sibling = path_join (parent_path config_path) ''s3.local.yaml'';
          cfg = (if s3_path \<noteq> [] then read cfg s3_path
                 else if config_path \<noteq> [] \<and> me_exists env sibling then read cfg sibling else cfg);
          local_s3 = ''config/s3.local.yaml''
      in if me_exists env local_s3 \<and> s3_path = [] then read cfg local_s3 else cfg)"

section \<open>The program\<close>

datatype main_outcome = Main_exit int dir | Main_terminate string | Main_crash

definition ending :: "run_outcome \<Rightarrow> main_outcome" where
  "ending r = (case r of Run_exit c d \<Rightarrow> Main_exit (exit_code_int c) d
     | Run_throw what \<Rightarrow> Main_terminate what | Run_crash \<Rightarrow> Main_crash)"

definition upload_command :: "run_env \<Rightarrow> offline_config \<Rightarrow> run_options \<Rightarrow> dir \<Rightarrow> run_outcome" where
  "upload_command env cfg opts d =
     (let up = upload_session (rv_s3 env) (cfg\<lparr>oc_s3_enabled := True\<rparr>) (rv_now env ''upload_report.json'')
            (rv_open env (out_path opts ''upload_manifest.json'')) (rv_open env (out_path opts ''upload_report.json''))
            (base_name (rv_session_dir env)) (out_dir opts) (ro_upload_dry_run opts) d
      in Run_exit (uo_exit up) (uo_dir up))"

definition offline_main :: "main_env \<Rightarrow> string list \<Rightarrow> dir \<Rightarrow> main_outcome option" where
  "offline_main env argv d =
     (case argv of
        [] \<Rightarrow> Some (Main_exit 3 d)
      | cmd # args \<Rightarrow>
          if cmd = ''--help'' \<or> cmd = ''-h'' \<or> cmd = ''--version'' then Some (Main_exit 0 d)
          else
            let session_dir = get_opt args ''--session-dir''; config_path = get_opt args ''--config''; opts = options_of args
            in if session_dir = [] \<or> \<not> me_exists env session_dir then Some (Main_exit (exit_code_int EC_internal_error) d)
               else
                 let cfg = load_config env config_path (get_opt args ''--s3-config'');
                     renv = (me_run env)\<lparr>rv_session_dir := session_dir, rv_config_path := config_path\<rparr>
                 in if cmd = ''upload''
                    then Some (ending (upload_command renv cfg (opts\<lparr>ro_only_upload := True\<rparr>) d))
                    else if cmd = ''validate''
                    then map_option ending (run_pipeline renv cfg (opts\<lparr>ro_only_validate := True\<rparr>) d)
                    else if cmd = ''process'' then map_option ending (run_pipeline renv cfg opts d)
                    else if cmd = ''export-mdf4''
                    then map_option ending (run_pipeline renv cfg (opts\<lparr>ro_only_mdf4 := True\<rparr>) d)
                    else Some (Main_exit (exit_code_int EC_internal_error) d))"

section \<open>What the commands do\<close>

text \<open>What holds of any run of a command that gets as far as its work.\<close>

definition at_end :: "(int \<Rightarrow> dir \<Rightarrow> bool) \<Rightarrow> main_outcome option \<Rightarrow> bool" where
  "at_end P r = (case r of Some (Main_exit c d) \<Rightarrow> P c d | _ \<Rightarrow> True)"

lemma at_end_ending: "at_end P (map_option ending r) \<longleftrightarrow> on_exit (\<lambda>c d. P (exit_code_int c) d) r"
  by (auto simp: at_end_def on_exit_def ending_def split: option.split run_outcome.split)

lemma at_end_Some [simp]: "at_end P (Some (Main_exit c d)) = P c d"
  by (simp add: at_end_def)

lemma at_end_ending_Some [simp]: "at_end P (Some (ending r)) \<longleftrightarrow> on_exit (\<lambda>c d. P (exit_code_int c) d) (Some r)"
  using at_end_ending [of P "Some r"] by simp

definition within_outputs :: "dir \<Rightarrow> int \<Rightarrow> dir \<Rightarrow> bool" where
  "within_outputs d c d' \<longleftrightarrow> c \<in> {0..5} \<and> {n. fget d' n \<noteq> fget d n} \<subseteq> {n. CHR ''/'' \<in> set n}"

lemma exit_code_range: "exit_code_int c \<in> {0..5}"
  by (cases c) simp_all

lemma out_path_slash: "CHR ''/'' \<in> set (out_path opts n)"
  by (simp add: out_path_def join_path_def)

lemma outputs_slash: "S \<subseteq> set (map (out_path opts) ns) \<Longrightarrow> S \<subseteq> {n. CHR ''/'' \<in> set n}"
  using out_path_slash by fastforce

lemma full_within: "on_exit (\<lambda>c. within_outputs d (exit_code_int c)) (run_full env cfg opts d)"
proof (rule on_exit_mono)
  show "on_exit (\<lambda>_ d'. {n. fget d' n \<noteq> fget d n} \<subseteq> set (map (out_path opts) (output_names cfg))) (run_full env cfg opts d)"
    by (rule tidy.full_run) simp
qed (unfold within_outputs_def, intro conjI exit_code_range, erule outputs_slash)

lemma validate_changes:
  "on_exit (\<lambda>_ d'. {n. fget d' n \<noteq> fget d n} \<subseteq> {out_path opts ''validation_report.json''})
    (Some (run_validate cfg now ok opts d))"
  by (auto simp: run_validate_def write_report_def out_path_def Let_def split: sum.split option.split prod.split)

lemma validate_within: "on_exit (\<lambda>c. within_outputs d (exit_code_int c)) (Some (run_validate cfg now ok opts d))"
  by (rule on_exit_mono [OF validate_changes [of d opts cfg now ok]])
    (use exit_code_range out_path_slash in \<open>auto simp: within_outputs_def\<close>)

lemma pipeline_within: "on_exit (\<lambda>c. within_outputs d (exit_code_int c)) (run_pipeline env cfg opts d)"
  by (simp add: run_pipeline_def full_within validate_within)

lemma upload_within: "on_exit (\<lambda>c. within_outputs d (exit_code_int c)) (Some (upload_command env cfg opts d))"
proof -
  have "{n. fget (uo_dir (upload_session e (cfg\<lparr>oc_s3_enabled := True\<rparr>) now mok rok name (out_dir opts) dry d)) n \<noteq> fget d n}
      \<subseteq> {n. CHR ''/'' \<in> set n}" for e now mok rok name dry
    by (rule outputs_slash, rule tidy.upload) simp
  then show ?thesis using exit_code_range
    unfolding upload_command_def within_outputs_def Let_def on_exit_simps by blast
qed


text \<open>\<open>process --only validate\<close> is \<open>validate\<close>: the same outcome, exit code and files, whatever the other
  arguments.\<close>

theorem only_validate_is_validate:
  assumes "''--only'' \<notin> set args"
  shows "offline_main env (''process'' # ''--only'' # ''validate'' # args) d = offline_main env (''validate'' # args) d"
proof -
  have opt: "get_opt (''--only'' # ''validate'' # args) f = get_opt args f" if "f \<noteq> ''--only''" "f \<noteq> ''validate''" for f
    using that by (cases args) simp_all
  have "get_opt as f = []" if "f \<notin> set as" for as f
    using that by (induction as f rule: get_opt.induct) auto
  then have none: "get_opt args ''--only'' = []" using assms by simp
  have only: "get_opt (''--only'' # ''validate'' # args) ''--only'' = ''validate''" by simp
  have flag: "has_flag (''--only'' # ''validate'' # args) f = has_flag args f" if "f \<noteq> ''--only''" "f \<noteq> ''validate''" for f
    using that by (simp add: has_flag_def)
  have "(options_of (''--only'' # ''validate'' # args)) = (options_of args)\<lparr>ro_only_validate := True\<rparr>"
    by (simp add: options_of_def Let_def none only opt flag default_run_options_def del: get_opt.simps)
  then show ?thesis by (simp add: offline_main_def Let_def opt del: get_opt.simps)
qed

theorem only_validate_is_validate_witness:
  "\<forall>run. offline_main \<lparr>me_exists = (\<lambda>n. n = ''s1''), me_file = (\<lambda>_. None), me_stod = (\<lambda>_. Inl []),
      me_getenv = (\<lambda>_. None), me_run = run\<rparr>
    [''process'', ''--only'', ''validate'', ''--session-dir'', ''s1''] [] = Some (Main_exit 1 [])"
proof
  fix run
  let ?env = "\<lparr>me_exists = (\<lambda>n. n = ''s1''), me_file = (\<lambda>_. None), me_stod = (\<lambda>_. Inl []), me_getenv = (\<lambda>_. None),
    me_run = run\<rparr>"
  have v: "offline_main ?env (''validate'' # [''--session-dir'', ''s1'']) [] = Some (Main_exit 1 [])"
    by (simp add: offline_main_def Let_def run_pipeline_def run_validate_def ego_manifest_from_json_def json_load_def
      ending_def)
  show "offline_main ?env [''process'', ''--only'', ''validate'', ''--session-dir'', ''s1''] [] = Some (Main_exit 1 [])"
    using only_validate_is_validate [of "[''--session-dir'', ''s1'']" ?env "[]"] v by simp
qed

end
