(* ===== verification/Spec2Isabelle.thy ===== *)
theory Spec2Isabelle
  imports TcpClient LegacyProtocol Daemon DaemonControl ErrorLog RuntimeProcess ContractMirror S3Signing OfflineMain
begin

text \<open>
  Verification of the recorder (\<open>runtimepc/\<close>) and the offline pipeline (\<open>offline/\<close>) of an
  audio and navigation recording system, with the wire format they share (\<open>common/ego_v1/\<close>).

  \<^bold>\<open>The system.\<close> A board sends frames of the ego-contract v1 format over TCP. The recorder
  receives and checks them, queues them between its receiving and its writing thread, and appends them to chunk
  files of a session directory, with an index, a manifest and metadata. It obeys commands that arrive on a local
  socket, watches the free space and keeps a rotating log. When a session is finished it checks it and starts the
  offline program on it, which reads the session back, validates it, decodes the payloads, finds the offset between
  the clocks of the two recordings, puts the navigation on a time grid, derives scene events and segments, writes an
  MDF 4 measurement file with a checksum file and several reports, and uploads the results.

  \<^bold>\<open>The theories\<close>, in the order of the data flow. Definitions bear the names of the functions
  they model; each theory's first lines name its source file.

  \<^item> Shared: \<open>Prelude\<close> (words, the little-endian image of packed structs, decimal texts, the
    locale \<open>codec\<close> of length-delimited formats), \<open>Files\<close> (the session directory, output
    streams, \<open>WriteTextAtomic\<close>, \<open>JsonEscape\<close> of \<open>util.hpp\<close>),
    \<open>Crc\<close> (the three CRC-32 routines), \<open>Ieee\<close> and \<open>FloatOps\<close> (IEEE 754
    arithmetic on bit patterns), \<open>EgoProtocol\<close> (\<open>ego_protocol_packets.hpp\<close>).
  \<^item> Receiving: \<open>ContractFrameIo\<close> (\<open>contract_frame_io.cpp\<close>: cutting, checking and
    iterating frames), \<open>TcpClient\<close> (\<open>contract_tcp_client.cpp\<close>: a socket is the list of
    segments it will deliver), \<open>LegacyProtocol\<close> (\<open>runtimepc/protocol/\<close>: the older packets
    and the sequence guard), \<open>PacketBuffer\<close> (\<open>packet_buffer.hpp\<close>).
  \<^item> Recording: \<open>RuntimeConfig\<close> (\<open>config.cpp\<close>), \<open>ChunkWriter\<close>
    (\<open>chunk_writer.cpp\<close>), \<open>SessionManager\<close> (\<open>session_manager.cpp\<close>),
    \<open>SessionIntegrity\<close> (\<open>session_integrity.cpp\<close>), \<open>Diagnostics\<close>
    (\<open>diagnostics.hpp\<close>), \<open>RuntimeService\<close> (\<open>runtime_service.cpp\<close>: the record
    \<open>runtime_service\<close> holds all of them, each public operation and each turn of the writer thread is
    one function), \<open>Recording\<close> and \<open>Daemon\<close> (facts about whole runs of it, the latter for
    any interleaving of the two threads), \<open>RuntimeMain\<close> (\<open>main.cpp\<close>).
  \<^item> Around it: \<open>ControlIpc\<close> and \<open>ControlServer\<close> (\<open>control_ipc.cpp\<close>),
    \<open>DaemonControl\<close> (the rest of \<open>runtime_service.cpp\<close>: control server, status, reports),
    \<open>StorageMonitor\<close> (\<open>storage_monitor.cpp\<close>), \<open>ErrorLog\<close>
    (\<open>error_log.cpp\<close>), \<open>OfflineTrigger\<close> and \<open>RuntimeProcess\<close>
    (\<open>offline_trigger.cpp\<close>, \<open>shutdown.cpp\<close>, \<open>version.cpp\<close>,
    \<open>util.hpp\<close>).
  \<^item> Reading back: \<open>ContractMirror\<close> (\<open>ego_contract_protocol.hpp\<close>),
    \<open>OfflineTypes\<close> (\<open>types.hpp\<close>, \<open>protocol.hpp\<close>), \<open>JsonReader\<close>,
    \<open>JsonTexts\<close> and \<open>JsonWriter\<close> (\<open>json_reader.hpp\<close>,
    \<open>json_writer.hpp\<close>), \<open>BinaryParser\<close> and \<open>Demux\<close>
    (\<open>offline/src/parse/\<close>), \<open>LogReaders\<close> (\<open>offline/src/load/\<close>),
    \<open>OfflineConfig\<close> (\<open>offline/src/config.cpp\<close>), \<open>Handover\<close> (the pipeline's
    readers on the directory the recorder leaves).
  \<^item> Processing: \<open>LogValidator\<close> and \<open>ValidationReport\<close>
    (\<open>log_validator.cpp\<close>), \<open>ScanStatistics\<close> and \<open>ValidatePipeline\<close>
    (\<open>pipeline.cpp\<close>: the one-pass statistics and the validation run), \<open>TimeSync\<close>,
    \<open>TimeAlign\<close>, \<open>SceneGeometry\<close>, \<open>SceneBuilder\<close>, \<open>Reports\<close>,
    \<open>Mdf4Channels\<close>, \<open>Sha256\<close>, \<open>Mdf4\<close>, \<open>S3Upload\<close> (the files of
    the same names under \<open>offline/src/\<close>), \<open>FullPipeline\<close> (\<open>pipeline.cpp\<close>: the
    full run), \<open>S3Signing\<close> (the helpers for signed requests in \<open>s3_client.cpp\<close>),
    \<open>OfflineMain\<close> (\<open>offline/src/main.cpp\<close>).

  \<^bold>\<open>The representation.\<close> Machine integers are words of their width, \<open>size_t\<close> values
  are natural numbers where they measure something in memory, floating-point numbers are bit patterns with exactly
  rounded operations. Classes are records, operations take and return them. Errors and exceptions are values of sum
  or option types, and so is what C++ leaves undefined where the code can reach it (a read past a payload, a
  division by zero, signed overflow in the grid's loop). A mutex around a whole operation makes the operation one
  step; threads are sequences of such steps in any order. What the operating system answers (the success of each
  open, write, flush and rename, the segments of a socket, the clock, random words, the outcome of a command) is an
  argument, universally quantified in the theorems. So are \<open>std::stod\<close> and the trigonometric functions
  of \<open>libm\<close>. A path of the pipeline is a literal name in the session's directory: two spellings of one
  file are two names.

  \<^bold>\<open>What is shown.\<close>
  \<^item> Wire and checksum: the three CRC-32 routines agree and detect every change
    within four neighbouring bytes; a valid frame
    with any one byte changed is rejected; how a stream is cut into segments does not matter, and the client
    delivers a prefix of valid frames.
  \<^item> Recording: whatever write fails, every acknowledged frame is found at its index entry; without failures
    the chunks hold exactly the frames written, the index and the manifest agree and the integrity check passes. In
    any interleaving of the threads frames are written in the order of arrival, and each one is written, queued or
    counted as dropped.
  \<^item> Hand-over: the pipeline's reader delivers exactly the recorded frames and metadata, its scan finds no
    invalid packet among frames the recorder validated, and its one-pass statistics equal those of the validator.
  \<^item> Processing: the files of a run end in the states the code means (the measurement file's links lead to its
    groups and data, segments are the siren intervals long enough, the grid's ticks, the interpolated samples, the
    decision between the two ways of synchronising); a run ends, changes only its output files, and validates as the
    validation run does.
  \<^item> Where the code is not what it means to be, the theorem states what it does: the digest of a file whose
    length is not a multiple of 64, the audio frames whose count is not checked, the objects written without commas,
    the grid of a step that is not positive.

  \<^bold>\<open>Interfaces.\<close> \<open>codec\<close> (Prelude) is the contract of a length-delimited format,
  interpreted on the legacy packets; \<open>lossy_fifo\<close> (PacketBuffer) is what the two threads rely on,
  interpreted on the buffer; \<open>packet_scan\<close> (ValidatePipeline) is what both log readers promise of a
  scan, interpreted on both; \<open>output_stages\<close> and its extension \<open>whole_run\<close> (FullPipeline)
  carry a property of directories through the stages of a run, interpreted for "only outputs change", "this output
  is present" and "the validation report is kept".

  \<^bold>\<open>Bounds.\<close> The recursion of the JSON reader has fuel of twice the text's length plus one, and
  \<open>json_parse_terminates\<close> shows that this is enough. \<open>DrainPacketBuffer\<close> has the code's
  own limit of 200 attempts. Loops over what another thread or the network does take the sequence of what it did; a
  loop that has not ended by then, or never does, is None or an unfinished state. The length of a frame or of a file
  is bounded only where a theorem says so (usually by \<open>2 ^ 32\<close> or \<open>2 ^ 64\<close>, the widths of
  the fields that hold it).

  \<^bold>\<open>Not modelled.\<close> The datagram receiver (\<open>network_receiver.cpp\<close>) uses
  configuration fields that \<open>config.hpp\<close> does not have and is not built;
  \<open>sc589_unwrap.hpp\<close> is included by nothing and does not compile. The other Windows branches, console
  output, the start and join of threads, the socket and process calls themselves, the formatting of the current time
  and the unused \<open>haversine\<close> are left out.
\<close>

section \<open>From the recorder to the offline program\<close>

text \<open>A path that the command line does not take for an option.\<close>

definition is_option :: "string \<Rightarrow> bool" where
  "is_option s \<longleftrightarrow> take 2 s = ''--''"

lemma not_an_option [simp]:
  "\<not> is_option s \<Longrightarrow> s \<noteq> CHR ''-'' # CHR ''-'' # t"
  "\<not> is_option s \<Longrightarrow> CHR ''-'' # CHR ''-'' # t \<noteq> s"
  by (auto simp: is_option_def)

text \<open>The configuration a hook asks for.\<close>

definition hook_config :: "main_env \<Rightarrow> (string \<Rightarrow> bool) \<Rightarrow> offline_hook \<Rightarrow> offline_config" where
  "hook_config env is_file h =
     load_config env (oh_config_path h)
       (if \<not> oh_skip_s3 h \<and> file_exists is_file (oh_s3_config_path h) then oh_s3_config_path h else [])"

text \<open>What the command line reads in the arguments built for the hook.\<close>

lemma hook_options:
  assumes "\<not> is_option sd" and "\<not> is_option (oh_config_path (rc_offline config))"
    and "\<not> is_option (oh_s3_config_path (rc_offline config))"
    and "args = tl (tl (build_argv is_file config sd))"
  shows "get_opt args ''--session-dir'' = sd"
    "get_opt args ''--config'' = oh_config_path (rc_offline config)"
    "get_opt args ''--s3-config'' =
      (if \<not> oh_skip_s3 (rc_offline config) \<and> file_exists is_file (oh_s3_config_path (rc_offline config))
       then oh_s3_config_path (rc_offline config) else [])"
    "options_of args = default_run_options\<lparr>ro_skip_s3 := oh_skip_s3 (rc_offline config)\<rparr>"
  using assms(1-3) unfolding assms(4)
  by (simp_all add: build_argv_def Let_def options_of_def has_flag_def default_run_options_def)

lemma trigger_starts:
  assumes "trigger_offline_pipeline is_file pid config sd = (res, argv)" and "ot_started res"
  shows "argv = build_argv is_file config sd" "sd \<noteq> []"
  using assms
  by (auto simp: trigger_offline_pipeline_def new_trigger_result_def Let_def split: if_splits)

lemma build_argv_command: "tl (build_argv is_file config sd) = ''process'' # tl (tl (build_argv is_file config sd))"
  by (simp add: build_argv_def Let_def)

text \<open>C12: A recorder that starts the offline program on a finished session starts exactly the full run it was
  configured for: over that session directory, with the configuration file and the S3 settings of the hook,
  without the upload when the hook says so, and with no other option. A session directory that has vanished in
  between ends it with the internal error and no change.\<close>

theorem triggered_run_is_process:
  assumes "trigger_offline_pipeline is_file pid config sd = (res, argv)" and "ot_started res"
    and "\<not> is_option sd" and "\<not> is_option (oh_config_path (rc_offline config))"
    and "\<not> is_option (oh_s3_config_path (rc_offline config))"
  shows "offline_main env (tl argv) d =
    (if me_exists env sd
     then map_option ending
       (run_full ((me_run env)\<lparr>rv_session_dir := sd, rv_config_path := oh_config_path (rc_offline config)\<rparr>)
         (hook_config env is_file (rc_offline config))
         (default_run_options\<lparr>ro_skip_s3 := oh_skip_s3 (rc_offline config)\<rparr>) d)
     else Some (Main_exit 3 d))"
proof -
  note opts = hook_options [OF assms(3-5) refl, of is_file]
  have "tl argv = ''process'' # tl (tl (build_argv is_file config sd))"
    using trigger_starts(1) [OF assms(1,2)] build_argv_command by simp
  then show ?thesis
    using trigger_starts(2) [OF assms(1,2)]
    by (simp add: offline_main_def Let_def opts hook_config_def run_pipeline_def default_run_options_def)
qed

definition example_hook :: runtime_config where
  "example_hook = default_config\<lparr>rc_offline := \<lparr>oh_enabled = True, oh_binary = ''/opt/ego-offline'',
     oh_config_path = [], oh_s3_config_path = ''s3.yaml'', oh_skip_s3 = True\<rparr>\<rparr>"


theorem triggered_run_is_process_witness:
  "\<forall>run. offline_main \<lparr>me_exists = (\<lambda>n. n = ''/data/s1''), me_file = (\<lambda>_. None), me_stod = (\<lambda>_. Inl []),
      me_getenv = (\<lambda>_. None), me_run = run\<rparr>
    (tl (snd (trigger_offline_pipeline (\<lambda>_. True) 42 example_hook ''/data/s1''))) [] = Some (Main_exit 3 [])"
proof -
  have t: "trigger_offline_pipeline (\<lambda>_. True) 42 example_hook ''/data/s1'' =
      (\<lparr>ot_started = True, ot_pid = 42, ot_error = []\<rparr>, build_argv (\<lambda>_. True) example_hook ''/data/s1'')"
    by (simp add: trigger_offline_pipeline_def example_hook_def file_exists_def spawn_detached_def
      new_trigger_result_def Let_def)
  show ?thesis
    unfolding t snd_conv
    by (subst triggered_run_is_process [OF t])
      (simp_all add: is_option_def example_hook_def run_full_def ego_manifest_from_json_def json_load_def ending_def Let_def)
qed

end
